(* ===== verification/Prelude.thy ===== *)
theory Prelude
  imports Main "HOL-Library.Word"
begin

text \<open>
  Shared vocabulary of the development: names for the machine words the translator uses,
  collections of facts that component proofs extend, and generic lemmas on lists and on
  filtering that no single component owns.
\<close>

unbundle bit_operations_syntax

type_synonym u8 = "8 word"
type_synonym u16 = "16 word"
type_synonym u32 = "32 word"
type_synonym u64 = "64 word"

named_theorems ctx_simps \<open>how the primitive context operations act on each field\<close>
named_theorems rel_intros \<open>preservation rules of the build relation\<close>
named_theorems pass_simps \<open>how an optimisation pass acts on nodes and on the context\<close>

section \<open>Lists\<close>

lemma nth_append_last [simp]: "(xs @ [x]) ! length xs = x"
  by simp

lemma nth_append_less: "i < length xs \<Longrightarrow> (xs @ ys) ! i = xs ! i"
  by (simp add: nth_append)

lemma list_update_nth_cases:
  "i < length xs \<Longrightarrow> (xs[j := v]) ! i = (if i = j then v else xs ! i)"
  by (simp add: nth_list_update)

lemma nth_list_update_if: "(xs[i := v]) ! j = (if i = j \<and> i < length xs then v else xs ! j)"
  by (cases "i < length xs") (auto simp: nth_list_update list_update_beyond)

section \<open>Booleans threaded with a state\<close>

text \<open>
  The builder's helpers report success as a C++ \<open>bool\<close> while they mutate the context.
  Such a helper is a function into \<open>bool \<times> 's\<close>; both outcomes carry the mutated state.
\<close>

type_synonym ('s) act = "bool \<times> 's"

end
