(* ===== verification/Operands.thy ===== *)
theory Operands
  imports Prelude
begin

text \<open>
  The instruction format that Rosetta hands over: \<^verbatim>\<open>Register.h\<close>, \<^verbatim>\<open>IROperand.h\<close>,
  \<^verbatim>\<open>IRInstr.h\<close> and the opcode numbers of \<^verbatim>\<open>Opcode.h\<close> that the translator names.

  \<^verbatim>\<open>IROperand\<close> is a 16-byte C++ union whose variants are views of the same bytes.  The record
  below keeps those bytes: \<open>reg_byte\<close> is the byte at offset 2 (the register of a register
  operand, the address size of the others), and \<open>disp\<close> the eight bytes at offset 8.
\<close>

section \<open>x86 registers\<close>

definition reg_is_mm :: "u8 \<Rightarrow> bool" where
  "reg_is_mm v \<longleftrightarrow> v AND 0xF0 = 0x60 \<and> v AND 0x08 = 0"

definition reg_index :: "u8 \<Rightarrow> int" where
  "reg_index v = (if reg_is_mm v then uint (v AND 0x07) else uint (v AND 0x0F))"

definition reg_is_gpr :: "u8 \<Rightarrow> bool" where
  "reg_is_gpr v \<longleftrightarrow> v < 0x50"

definition reg_is_stack :: "u8 \<Rightarrow> bool" where
  "reg_is_stack v \<longleftrightarrow> v AND 0xF0 = 0x70"

section \<open>Operands and instructions\<close>

datatype okind = Register | MemRef | AbsMem | Immediate | BranchOffset | ConditionCode
  | SegmentRegister

datatype osize = S8 | S16 | S32 | S64 | S128 | S256 | S80

record ioperand =
  kind :: okind
  opsize :: osize
  reg_byte :: u8
  seg_override :: u8
  mem_flags :: u8
  base_reg :: u8
  index_reg :: u8
  shift_amount :: u8
  disp :: u64

record irinstr =
  pc :: u32
  opcode :: u16
  rep_prefix :: u8
  flag_liveness :: u8
  num_operands :: nat
  opnd0 :: ioperand
  opnd1 :: ioperand
  opnd2 :: ioperand
  opnd3 :: ioperand

text \<open>
  \<open>opcode\<close> is the value of \<^verbatim>\<open>IRInstr::opcode()\<close>, the internal opcode number.  The four
  operand slots always exist in memory; \<open>operands\<close> lists those the instruction has, as the
  loops \<^verbatim>\<open>k < num_operands && k < 4\<close> visit them.
\<close>

definition operands :: "irinstr \<Rightarrow> ioperand list" where
  "operands ins = take (num_operands ins) [opnd0 ins, opnd1 ins, opnd2 ins, opnd3 ins]"

definition opnd :: "irinstr \<Rightarrow> nat \<Rightarrow> ioperand" where
  "opnd ins k = [opnd0 ins, opnd1 ins, opnd2 ins, opnd3 ins] ! k"

lemma opnd_simps [simp]:
  "opnd ins 0 = opnd0 ins" "opnd ins (Suc 0) = opnd1 ins" "opnd ins 2 = opnd2 ins"
  "opnd ins 3 = opnd3 ins"
  by (simp_all add: opnd_def numeral_2_eq_2 numeral_3_eq_3)

text \<open>The stack register or GPR number that an operand's register byte encodes.\<close>

definition op_reg_index :: "ioperand \<Rightarrow> int" where
  "op_reg_index p = reg_index (reg_byte p)"

lemma reg_index_nonneg [simp]: "0 \<le> reg_index v"
  by (simp add: reg_index_def)

lemma reg_index_less: "reg_index v < 16"
proof -
  have "uint (v AND 0x07) \<le> uint (0x07 :: u8)" "uint (v AND 0x0F) \<le> uint (0x0F :: u8)"
    using word_and_le1 [of v 7] word_and_le1 [of v 15] by (simp_all add: word_le_def)
  then show ?thesis
    by (simp add: reg_index_def)
qed

lemma op_reg_index_nonneg [simp]: "0 \<le> op_reg_index p"
  by (simp add: op_reg_index_def)

lemma op_reg_index_less: "op_reg_index p < 16"
  by (simp add: op_reg_index_def reg_index_less)

section \<open>Opcode numbers\<close>

abbreviation kOpcodeName_add :: "16 word" where "kOpcodeName_add \<equiv> 0x5"
abbreviation kOpcodeName_and :: "16 word" where "kOpcodeName_and \<equiv> 0x6"
abbreviation kOpcodeName_dec :: "16 word" where "kOpcodeName_dec \<equiv> 0x23"
abbreviation kOpcodeName_inc :: "16 word" where "kOpcodeName_inc \<equiv> 0x33"
abbreviation kOpcodeName_or :: "16 word" where "kOpcodeName_or \<equiv> 0x49"
abbreviation kOpcodeName_sub :: "16 word" where "kOpcodeName_sub \<equiv> 0x6C"
abbreviation kOpcodeName_xor :: "16 word" where "kOpcodeName_xor \<equiv> 0x74"
abbreviation kOpcodeName_lea :: "16 word" where "kOpcodeName_lea \<equiv> 0x121"
abbreviation kOpcodeName_mov :: "16 word" where "kOpcodeName_mov \<equiv> 0x138"
abbreviation kOpcodeName_movsx :: "16 word" where "kOpcodeName_movsx \<equiv> 0x158"
abbreviation kOpcodeName_movsxd :: "16 word" where "kOpcodeName_movsxd \<equiv> 0x159"
abbreviation kOpcodeName_movzx :: "16 word" where "kOpcodeName_movzx \<equiv> 0x15C"
abbreviation kOpcodeName_wait :: "16 word" where "kOpcodeName_wait \<equiv> 0x291"
abbreviation kOpcodeName_fcmovb :: "16 word" where "kOpcodeName_fcmovb \<equiv> 0x25"
abbreviation kOpcodeName_fcmovbe :: "16 word" where "kOpcodeName_fcmovbe \<equiv> 0x26"
abbreviation kOpcodeName_fcmove :: "16 word" where "kOpcodeName_fcmove \<equiv> 0x27"
abbreviation kOpcodeName_fcmovnb :: "16 word" where "kOpcodeName_fcmovnb \<equiv> 0x28"
abbreviation kOpcodeName_fcmovnbe :: "16 word" where "kOpcodeName_fcmovnbe \<equiv> 0x29"
abbreviation kOpcodeName_fcmovne :: "16 word" where "kOpcodeName_fcmovne \<equiv> 0x2A"
abbreviation kOpcodeName_fcmovnu :: "16 word" where "kOpcodeName_fcmovnu \<equiv> 0x2B"
abbreviation kOpcodeName_fcmovu :: "16 word" where "kOpcodeName_fcmovu \<equiv> 0x2C"
abbreviation kOpcodeName_fcomi :: "16 word" where "kOpcodeName_fcomi \<equiv> 0x2D"
abbreviation kOpcodeName_fcomip :: "16 word" where "kOpcodeName_fcomip \<equiv> 0x2E"
abbreviation kOpcodeName_fucomi :: "16 word" where "kOpcodeName_fucomi \<equiv> 0x2F"
abbreviation kOpcodeName_fucomip :: "16 word" where "kOpcodeName_fucomip \<equiv> 0x30"
abbreviation kOpcodeName_f2xm1 :: "16 word" where "kOpcodeName_f2xm1 \<equiv> 0xBC"
abbreviation kOpcodeName_fabs :: "16 word" where "kOpcodeName_fabs \<equiv> 0xBD"
abbreviation kOpcodeName_fadd :: "16 word" where "kOpcodeName_fadd \<equiv> 0xBE"
abbreviation kOpcodeName_faddp :: "16 word" where "kOpcodeName_faddp \<equiv> 0xBF"
abbreviation kOpcodeName_fbld :: "16 word" where "kOpcodeName_fbld \<equiv> 0xC0"
abbreviation kOpcodeName_fbstp :: "16 word" where "kOpcodeName_fbstp \<equiv> 0xC1"
abbreviation kOpcodeName_fchs :: "16 word" where "kOpcodeName_fchs \<equiv> 0xC2"
abbreviation kOpcodeName_fclex :: "16 word" where "kOpcodeName_fclex \<equiv> 0xC3"
abbreviation kOpcodeName_fcom :: "16 word" where "kOpcodeName_fcom \<equiv> 0xC4"
abbreviation kOpcodeName_fcomp :: "16 word" where "kOpcodeName_fcomp \<equiv> 0xC5"
abbreviation kOpcodeName_fcompp :: "16 word" where "kOpcodeName_fcompp \<equiv> 0xC6"
abbreviation kOpcodeName_fcos :: "16 word" where "kOpcodeName_fcos \<equiv> 0xC7"
abbreviation kOpcodeName_fdecstp :: "16 word" where "kOpcodeName_fdecstp \<equiv> 0xC8"
abbreviation kOpcodeName_fdisi :: "16 word" where "kOpcodeName_fdisi \<equiv> 0xC9"
abbreviation kOpcodeName_fdiv :: "16 word" where "kOpcodeName_fdiv \<equiv> 0xCA"
abbreviation kOpcodeName_fdivp :: "16 word" where "kOpcodeName_fdivp \<equiv> 0xCB"
abbreviation kOpcodeName_fdivr :: "16 word" where "kOpcodeName_fdivr \<equiv> 0xCC"
abbreviation kOpcodeName_fdivrp :: "16 word" where "kOpcodeName_fdivrp \<equiv> 0xCD"
abbreviation kOpcodeName_feni :: "16 word" where "kOpcodeName_feni \<equiv> 0xCE"
abbreviation kOpcodeName_ffree :: "16 word" where "kOpcodeName_ffree \<equiv> 0xCF"
abbreviation kOpcodeName_fiadd :: "16 word" where "kOpcodeName_fiadd \<equiv> 0xD0"
abbreviation kOpcodeName_ficom :: "16 word" where "kOpcodeName_ficom \<equiv> 0xD1"
abbreviation kOpcodeName_ficomp :: "16 word" where "kOpcodeName_ficomp \<equiv> 0xD2"
abbreviation kOpcodeName_fidiv :: "16 word" where "kOpcodeName_fidiv \<equiv> 0xD3"
abbreviation kOpcodeName_fidivr :: "16 word" where "kOpcodeName_fidivr \<equiv> 0xD4"
abbreviation kOpcodeName_fild :: "16 word" where "kOpcodeName_fild \<equiv> 0xD5"
abbreviation kOpcodeName_fimul :: "16 word" where "kOpcodeName_fimul \<equiv> 0xD6"
abbreviation kOpcodeName_fincstp :: "16 word" where "kOpcodeName_fincstp \<equiv> 0xD7"
abbreviation kOpcodeName_finit :: "16 word" where "kOpcodeName_finit \<equiv> 0xD8"
abbreviation kOpcodeName_fist :: "16 word" where "kOpcodeName_fist \<equiv> 0xD9"
abbreviation kOpcodeName_fistp :: "16 word" where "kOpcodeName_fistp \<equiv> 0xDA"
abbreviation kOpcodeName_fisttp :: "16 word" where "kOpcodeName_fisttp \<equiv> 0xDB"
abbreviation kOpcodeName_fisub :: "16 word" where "kOpcodeName_fisub \<equiv> 0xDC"
abbreviation kOpcodeName_fisubr :: "16 word" where "kOpcodeName_fisubr \<equiv> 0xDD"
abbreviation kOpcodeName_fld :: "16 word" where "kOpcodeName_fld \<equiv> 0xDE"
abbreviation kOpcodeName_fld1 :: "16 word" where "kOpcodeName_fld1 \<equiv> 0xDF"
abbreviation kOpcodeName_fldcw :: "16 word" where "kOpcodeName_fldcw \<equiv> 0xE0"
abbreviation kOpcodeName_fldenv :: "16 word" where "kOpcodeName_fldenv \<equiv> 0xE1"
abbreviation kOpcodeName_fldl2e :: "16 word" where "kOpcodeName_fldl2e \<equiv> 0xE2"
abbreviation kOpcodeName_fldl2t :: "16 word" where "kOpcodeName_fldl2t \<equiv> 0xE3"
abbreviation kOpcodeName_fldlg2 :: "16 word" where "kOpcodeName_fldlg2 \<equiv> 0xE4"
abbreviation kOpcodeName_fldln2 :: "16 word" where "kOpcodeName_fldln2 \<equiv> 0xE5"
abbreviation kOpcodeName_fldpi :: "16 word" where "kOpcodeName_fldpi \<equiv> 0xE6"
abbreviation kOpcodeName_fldz :: "16 word" where "kOpcodeName_fldz \<equiv> 0xE7"
abbreviation kOpcodeName_fmul :: "16 word" where "kOpcodeName_fmul \<equiv> 0xE8"
abbreviation kOpcodeName_fmulp :: "16 word" where "kOpcodeName_fmulp \<equiv> 0xE9"
abbreviation kOpcodeName_fnop :: "16 word" where "kOpcodeName_fnop \<equiv> 0xEA"
abbreviation kOpcodeName_fnstcw :: "16 word" where "kOpcodeName_fnstcw \<equiv> 0xEB"
abbreviation kOpcodeName_fpatan :: "16 word" where "kOpcodeName_fpatan \<equiv> 0xEC"
abbreviation kOpcodeName_fprem :: "16 word" where "kOpcodeName_fprem \<equiv> 0xED"
abbreviation kOpcodeName_fprem1 :: "16 word" where "kOpcodeName_fprem1 \<equiv> 0xEE"
abbreviation kOpcodeName_fptan :: "16 word" where "kOpcodeName_fptan \<equiv> 0xEF"
abbreviation kOpcodeName_frndint :: "16 word" where "kOpcodeName_frndint \<equiv> 0xF0"
abbreviation kOpcodeName_frstor :: "16 word" where "kOpcodeName_frstor \<equiv> 0xF1"
abbreviation kOpcodeName_fsave :: "16 word" where "kOpcodeName_fsave \<equiv> 0xF2"
abbreviation kOpcodeName_fscale :: "16 word" where "kOpcodeName_fscale \<equiv> 0xF3"
abbreviation kOpcodeName_fsin :: "16 word" where "kOpcodeName_fsin \<equiv> 0xF4"
abbreviation kOpcodeName_fsincos :: "16 word" where "kOpcodeName_fsincos \<equiv> 0xF5"
abbreviation kOpcodeName_fsqrt :: "16 word" where "kOpcodeName_fsqrt \<equiv> 0xF6"
abbreviation kOpcodeName_fst :: "16 word" where "kOpcodeName_fst \<equiv> 0xF7"
abbreviation kOpcodeName_fst_stack :: "16 word" where "kOpcodeName_fst_stack \<equiv> 0xF8"
abbreviation kOpcodeName_fstenv :: "16 word" where "kOpcodeName_fstenv \<equiv> 0xF9"
abbreviation kOpcodeName_fstp :: "16 word" where "kOpcodeName_fstp \<equiv> 0xFA"
abbreviation kOpcodeName_fstp_stack :: "16 word" where "kOpcodeName_fstp_stack \<equiv> 0xFB"
abbreviation kOpcodeName_fstsw :: "16 word" where "kOpcodeName_fstsw \<equiv> 0xFC"
abbreviation kOpcodeName_fsub :: "16 word" where "kOpcodeName_fsub \<equiv> 0xFD"
abbreviation kOpcodeName_fsubp :: "16 word" where "kOpcodeName_fsubp \<equiv> 0xFE"
abbreviation kOpcodeName_fsubr :: "16 word" where "kOpcodeName_fsubr \<equiv> 0xFF"
abbreviation kOpcodeName_fsubrp :: "16 word" where "kOpcodeName_fsubrp \<equiv> 0x100"
abbreviation kOpcodeName_ftst :: "16 word" where "kOpcodeName_ftst \<equiv> 0x101"
abbreviation kOpcodeName_fucom :: "16 word" where "kOpcodeName_fucom \<equiv> 0x102"
abbreviation kOpcodeName_fucomp :: "16 word" where "kOpcodeName_fucomp \<equiv> 0x103"
abbreviation kOpcodeName_fucompp :: "16 word" where "kOpcodeName_fucompp \<equiv> 0x104"
abbreviation kOpcodeName_fxam :: "16 word" where "kOpcodeName_fxam \<equiv> 0x105"
abbreviation kOpcodeName_fxch :: "16 word" where "kOpcodeName_fxch \<equiv> 0x106"
abbreviation kOpcodeName_fxrstor :: "16 word" where "kOpcodeName_fxrstor \<equiv> 0x107"
abbreviation kOpcodeName_fxsave :: "16 word" where "kOpcodeName_fxsave \<equiv> 0x108"
abbreviation kOpcodeName_fxtract :: "16 word" where "kOpcodeName_fxtract \<equiv> 0x109"
abbreviation kOpcodeName_fyl2x :: "16 word" where "kOpcodeName_fyl2x \<equiv> 0x10A"
abbreviation kOpcodeName_fyl2xp1 :: "16 word" where "kOpcodeName_fyl2xp1 \<equiv> 0x10B"

end
