(* ===== verification/X87_IR.thy ===== *)
theory X87_IR
  imports Operands
begin

text \<open>
  The intermediate representation of \<^verbatim>\<open>X87IR.h\<close>: opcodes, nodes, and the build context with
  its symbolic stack.  \<^verbatim>\<open>Context::nodes\<close> with \<^verbatim>\<open>num_nodes\<close> is the list \<open>nodes\<close>, bounded by
  \<open>kMaxNodes\<close>; node references are \<open>int\<close> (the source's \<^verbatim>\<open>int16_t\<close>), \<open>-1\<close> meaning unused.
\<close>

section \<open>Opcodes, nodes and flags\<close>

datatype irop =
    ReadSt | LoadF64 | LoadF32 | LoadI16 | LoadI32 | LoadI64 | ConstZero | ConstOne | ConstF64
  | FAdd | FSub | FMul | FDiv | FMAdd | FMSub | FNMSub
  | FNeg | FAbs | FSqrt | FRndInt
  | FSin | FCos | FPatan | FPtan | FYl2x | FScale | FCSel
  | StoreF64 | StoreF32 | StoreI16 | StoreI32 | StoreI64
  | FCmp | FTst | FComI | FStsw | StoreCW | LoadCW
  | BridgeMovRR | BridgeMovRI | BridgeLea | BridgeLoadG | BridgeStoreG | BridgeExt
  | BridgeAluRR | BridgeAluRI | BridgeAluRM | BridgeAluMR

abbreviation (input) kNone :: u8 where "kNone \<equiv> 0"
abbreviation kDead :: u8 where "kDead \<equiv> 1"
abbreviation kFcomFused :: u8 where "kFcomFused \<equiv> 2"
abbreviation kTruncate :: u8 where "kTruncate \<equiv> 4"
abbreviation kFcomIPopping :: u8 where "kFcomIPopping \<equiv> 8"
abbreviation kFmaReduceHead :: u8 where "kFmaReduceHead \<equiv> 16"
abbreviation kFmaReduceMember :: u8 where "kFmaReduceMember \<equiv> 32"
abbreviation kBridge64 :: u8 where "kBridge64 \<equiv> 64"

abbreviation kFcmovCondPF :: u64 where "kFcmovCondPF \<equiv> 16"
abbreviation kFcmovCondNPF :: u64 where "kFcmovCondNPF \<equiv> 17"

text \<open>
  The anonymous union of a node.  \<open>add_node\<close> stores a zero, which is also the null pointer a
  walk over \<^verbatim>\<open>mem_operand\<close> finds there.
\<close>

datatype payload = PImm u64 | PMem ioperand | PDepth int

record node =
  nop :: irop
  nflags :: u8
  nin0 :: int
  nin1 :: int
  nin2 :: int
  npay :: payload

definition ninputs :: "node \<Rightarrow> int list" where
  "ninputs n = [nin0 n, nin1 n, nin2 n]"

definition has_flag :: "u8 \<Rightarrow> node \<Rightarrow> bool" where
  "has_flag f n \<longleftrightarrow> nflags n AND f \<noteq> 0"

definition or_flag :: "u8 \<Rightarrow> node \<Rightarrow> node" where
  "or_flag f n = n\<lparr>nflags := nflags n OR f\<rparr>"

definition null_operand :: ioperand where
  "null_operand = \<lparr>kind = Register, opsize = S8, reg_byte = 0, seg_override = 0, mem_flags = 0,
     base_reg = 0, index_reg = 0, shift_amount = 0, disp = 0\<rparr>"

definition pay_imm :: "node \<Rightarrow> u64" where
  "pay_imm n = (case npay n of PImm w \<Rightarrow> w | _ \<Rightarrow> 0)"

definition pay_mem :: "node \<Rightarrow> ioperand" where
  "pay_mem n = (case npay n of PMem p \<Rightarrow> p | _ \<Rightarrow> null_operand)"

definition pay_depth :: "node \<Rightarrow> int" where
  "pay_depth n = (case npay n of PDepth d \<Rightarrow> d | _ \<Rightarrow> 0)"

text \<open>Guest register numbers inside bridge nodes are stored negatively.\<close>

definition bridge_encode_reg :: "int \<Rightarrow> int" where
  "bridge_encode_reg r = - (r + 2)"

definition bridge_decode_reg :: "int \<Rightarrow> int" where
  "bridge_decode_reg e = - (e + 2)"

lemma bridge_decode_encode [simp]: "bridge_decode_reg (bridge_encode_reg r) = r"
  by (simp add: bridge_decode_reg_def bridge_encode_reg_def)

lemma bridge_encode_negative [simp]: "0 \<le> r \<Longrightarrow> bridge_encode_reg r < 0"
  by (simp add: bridge_encode_reg_def)

abbreviation (input) kBridgeAluAdd :: int where "kBridgeAluAdd \<equiv> 0"
abbreviation (input) kBridgeAluSub :: int where "kBridgeAluSub \<equiv> 1"
abbreviation (input) kBridgeAluAnd :: int where "kBridgeAluAnd \<equiv> 2"
abbreviation (input) kBridgeAluOr :: int where "kBridgeAluOr \<equiv> 3"
abbreviation (input) kBridgeAluXor :: int where "kBridgeAluXor \<equiv> 4"

definition node_ref_input_count :: "node \<Rightarrow> nat" where
  "node_ref_input_count n = (if nop n = FStsw then 1 else 3)"

text \<open>The inputs of a node that are references to other nodes.\<close>

definition node_refs :: "node \<Rightarrow> int list" where
  "node_refs n = filter (\<lambda>x. 0 \<le> x) (take (node_ref_input_count n) (ninputs n))"

section \<open>The build context\<close>

definition kMaxNodes :: nat where
  "kMaxNodes = 128"

record ctx =
  nodes :: "node list"
  node_src :: "int list"
  slot_val :: "int list"
  top_delta :: int
  initial_read :: "int list"
  last_fcmp :: int
  last_fcomi :: int
  consumed :: nat
  fail_opcode :: u16
  native_depths :: u8

definition ctx_init :: ctx where
  "ctx_init = \<lparr>nodes = [], node_src = [], slot_val = map (\<lambda>i. - (int i + 1)) [0..<8],
     top_delta = 0, initial_read = replicate 8 (-1), last_fcmp = -1, last_fcomi = -1,
     consumed = 0, fail_opcode = 0xFFFF, native_depths = 0\<rparr>"

definition add_node :: "irop \<Rightarrow> int \<Rightarrow> int \<Rightarrow> int \<Rightarrow> ctx \<Rightarrow> int \<times> ctx" where
  "add_node op in0 in1 in2 c =
     (if length (nodes c) \<ge> kMaxNodes then (-1, c)
      else (int (length (nodes c)),
            c\<lparr>nodes := nodes c @ [\<lparr>nop = op, nflags = kNone, nin0 = in0, nin1 = in1, nin2 = in2,
                                    npay = PImm 0\<rparr>]\<rparr>))"

definition set_payload :: "int \<Rightarrow> payload \<Rightarrow> ctx \<Rightarrow> ctx" where
  "set_payload i p c = c\<lparr>nodes := (nodes c)[nat i := (nodes c ! nat i)\<lparr>npay := p\<rparr>]\<rparr>"

definition set_flag :: "int \<Rightarrow> u8 \<Rightarrow> ctx \<Rightarrow> ctx" where
  "set_flag i f c = c\<lparr>nodes := (nodes c)[nat i := or_flag f (nodes c ! nat i)]\<rparr>"

definition set_slot :: "int \<Rightarrow> int \<Rightarrow> ctx \<Rightarrow> ctx" where
  "set_slot d v c = c\<lparr>slot_val := (slot_val c)[nat d := v]\<rparr>"

definition resolve :: "int \<Rightarrow> ctx \<Rightarrow> int \<times> ctx" where
  "resolve d c =
     (if d < 0 \<or> d \<ge> 8 then (-1, c)
      else let val = slot_val c ! nat d in
        if val \<ge> 0 then (val, c)
        else let init_d = - (val + 1) in
          if init_d < 0 \<or> init_d \<ge> 8 then (-1, c)
          else if initial_read c ! nat init_d \<ge> 0 then
            (initial_read c ! nat init_d, set_slot d (initial_read c ! nat init_d) c)
          else case add_node ReadSt (-1) (-1) (-1) c of (i, c') \<Rightarrow>
            if i < 0 then (-1, c')
            else (i, set_slot d i (set_payload i (PDepth init_d) c')
                       \<lparr>initial_read := (initial_read c')[nat init_d := i]\<rparr>))"

definition push :: "int \<Rightarrow> ctx \<Rightarrow> ctx" where
  "push v c = c\<lparr>slot_val := v # take 7 (slot_val c), top_delta := top_delta c - 1\<rparr>"

definition pop :: "ctx \<Rightarrow> ctx" where
  "pop c = c\<lparr>slot_val := drop 1 (slot_val c) @ [-100], top_delta := top_delta c + 1\<rparr>"

end
