(* ===== verification/X87_Bridge.thy ===== *)
theory X87_Bridge
  imports Operands
begin

text \<open>
  \<^verbatim>\<open>X87Bridge.h\<close>: which integer instructions may sit in a gap between two x87 runs.  The
  run lookahead uses these predicates to join runs, and the IR builder checks them again before
  it builds a bridge node.
\<close>

definition kMaxGapV1 :: nat where
  "kMaxGapV1 = 2"

definition gpr_32_or_64 :: "ioperand \<Rightarrow> bool" where
  "gpr_32_or_64 p \<longleftrightarrow>
     kind p = Register \<and> (opsize p = S32 \<or> opsize p = S64) \<and> reg_is_gpr (reg_byte p)"

definition mem_32_or_64 :: "ioperand \<Rightarrow> bool" where
  "mem_32_or_64 p \<longleftrightarrow>
     kind p = MemRef \<and> seg_override p = 0 \<and> (opsize p = S32 \<or> opsize p = S64)"

definition plain_immediate :: "ioperand \<Rightarrow> bool" where
  "plain_immediate p \<longleftrightarrow> kind p = BranchOffset"

definition bridge_mov_shape :: "ioperand \<Rightarrow> ioperand \<Rightarrow> bool" where
  "bridge_mov_shape dst src =
     (if gpr_32_or_64 dst then gpr_32_or_64 src \<or> plain_immediate src \<or> mem_32_or_64 src
      else if mem_32_or_64 dst then gpr_32_or_64 src
      else False)"

definition bridge_ext_shape :: "u16 \<Rightarrow> ioperand \<Rightarrow> ioperand \<Rightarrow> bool" where
  "bridge_ext_shape op dst src =
     (if \<not> gpr_32_or_64 dst then False
      else if kind src \<noteq> Register \<or> \<not> reg_is_gpr (reg_byte src) then False
      else (case opsize src of
              S8 \<Rightarrow> reg_byte src AND 0xF0 \<le> 0x10
            | S16 \<Rightarrow> True
            | S32 \<Rightarrow> op = kOpcodeName_movsxd
            | _ \<Rightarrow> False))"

definition is_bridge_v1 :: "irinstr \<Rightarrow> bool" where
  "is_bridge_v1 ins =
     (let op = opcode ins; dst = opnd0 ins; src = opnd1 ins in
      if rep_prefix ins \<noteq> 0 then False
      else if op = kOpcodeName_mov then num_operands ins = 2 \<and> bridge_mov_shape dst src
      else if op = kOpcodeName_lea then
        num_operands ins = 2 \<and> gpr_32_or_64 dst \<and> kind src = MemRef \<and> seg_override src = 0
      else if op \<in> {kOpcodeName_movzx, kOpcodeName_movsx, kOpcodeName_movsxd} then
        num_operands ins = 2 \<and> bridge_ext_shape op dst src
      else op = kOpcodeName_wait)"

definition is_bridge_v2 :: "irinstr \<Rightarrow> bool" where
  "is_bridge_v2 ins =
     (let op = opcode ins; dst = opnd0 ins; src = opnd1 ins in
      if is_bridge_v1 ins then True
      else if rep_prefix ins \<noteq> 0 then False
      else if op \<in> {kOpcodeName_add, kOpcodeName_sub, kOpcodeName_and, kOpcodeName_or,
                    kOpcodeName_xor} then
        num_operands ins = 2 \<and> bridge_mov_shape dst src
      else if op \<in> {kOpcodeName_inc, kOpcodeName_dec} then
        num_operands ins = 1 \<and> gpr_32_or_64 dst
      else False)"

definition flags_dead :: "irinstr \<Rightarrow> bool" where
  "flags_dead ins \<longleftrightarrow> flag_liveness ins = 0"

definition block_has_flag_liveness :: "irinstr list \<Rightarrow> bool" where
  "block_has_flag_liveness instrs = list_ex (\<lambda>ins. flag_liveness ins \<noteq> 0) instrs"

definition is_bridge_v2_proven :: "irinstr \<Rightarrow> bool" where
  "is_bridge_v2_proven ins =
     (if is_bridge_v1 ins then True else is_bridge_v2 ins \<and> flags_dead ins)"

text \<open>The opcodes a bridge can have; no x87 opcode is among them.\<close>

lemma is_bridge_v1_opcode:
  "is_bridge_v1 ins \<Longrightarrow> opcode ins \<in> {kOpcodeName_mov, kOpcodeName_lea, kOpcodeName_movzx,
     kOpcodeName_movsx, kOpcodeName_movsxd, kOpcodeName_wait}"
  by (auto simp: is_bridge_v1_def Let_def split: if_splits)

lemma is_bridge_v2_opcode:
  "is_bridge_v2 ins \<Longrightarrow> opcode ins \<in> {kOpcodeName_mov, kOpcodeName_lea, kOpcodeName_movzx,
     kOpcodeName_movsx, kOpcodeName_movsxd, kOpcodeName_wait, kOpcodeName_add, kOpcodeName_sub,
     kOpcodeName_and, kOpcodeName_or, kOpcodeName_xor, kOpcodeName_inc, kOpcodeName_dec}"
  using is_bridge_v1_opcode [of ins]
  by (auto simp: is_bridge_v2_def Let_def split: if_splits)

lemma is_bridge_v2_proven_imp_v2: "is_bridge_v2_proven ins \<Longrightarrow> is_bridge_v2 ins"
  by (auto simp: is_bridge_v2_proven_def is_bridge_v2_def Let_def split: if_splits)

lemma is_bridge_v1_imp_proven: "is_bridge_v1 ins \<Longrightarrow> is_bridge_v2_proven ins"
  by (simp add: is_bridge_v2_proven_def)

lemma is_bridge_v2_proven_flags:
  "is_bridge_v2_proven ins \<Longrightarrow> opcode ins \<in> {kOpcodeName_add, kOpcodeName_sub, kOpcodeName_and,
     kOpcodeName_or, kOpcodeName_xor, kOpcodeName_inc, kOpcodeName_dec} \<Longrightarrow> flags_dead ins"
  using is_bridge_v1_opcode [of ins] by (auto simp: is_bridge_v2_proven_def split: if_splits)

end
