(* ===== verification/X87_Build.thy ===== *)
theory X87_Build
  imports X87_IR X87_Bridge
begin

text \<open>
  The IR builder, \<^verbatim>\<open>X87IRBuild.cpp\<close>.  Each helper takes the context and returns it mutated; a
  helper that the source declares \<^verbatim>\<open>bool\<close> returns a pair, and what it had already put into the
  context when it failed stays there, as in the source.
\<close>

section \<open>Loads, constants and stores\<close>

definition build_fp_load :: "ioperand \<Rightarrow> ctx \<Rightarrow> int \<times> ctx" where
  "build_fp_load p c =
     (let sel = (case opsize p of S32 \<Rightarrow> Some LoadF32 | S64 \<Rightarrow> Some LoadF64 | _ \<Rightarrow> None) in
      case sel of None \<Rightarrow> (-1, c)
      | Some op \<Rightarrow> (case add_node op (-1) (-1) (-1) c of (i, c') \<Rightarrow>
          if i < 0 then (-1, c') else (i, set_payload i (PMem p) c')))"

definition build_int_load :: "ioperand \<Rightarrow> ctx \<Rightarrow> int \<times> ctx" where
  "build_int_load p c =
     (let sel = (case opsize p of S16 \<Rightarrow> Some LoadI16 | S32 \<Rightarrow> Some LoadI32 | S64 \<Rightarrow> Some LoadI64
                 | _ \<Rightarrow> None) in
      case sel of None \<Rightarrow> (-1, c)
      | Some op \<Rightarrow> (case add_node op (-1) (-1) (-1) c of (i, c') \<Rightarrow>
          if i < 0 then (-1, c') else (i, set_payload i (PMem p) c')))"

definition build_const :: "u64 \<Rightarrow> ctx \<Rightarrow> int \<times> ctx" where
  "build_const bits c =
     (case add_node ConstF64 (-1) (-1) (-1) c of (i, c') \<Rightarrow>
        if i < 0 then (-1, c') else (i, set_payload i (PImm bits) c'))"

definition build_fp_store :: "ioperand \<Rightarrow> int \<Rightarrow> ctx \<Rightarrow> ctx act" where
  "build_fp_store p val c =
     (let sel = (case opsize p of S32 \<Rightarrow> Some StoreF32 | S64 \<Rightarrow> Some StoreF64 | _ \<Rightarrow> None) in
      case sel of None \<Rightarrow> (False, c)
      | Some op \<Rightarrow> (case add_node op val (-1) (-1) c of (i, c') \<Rightarrow>
          if i < 0 then (False, c') else (True, set_payload i (PMem p) c')))"

definition build_int_store :: "ioperand \<Rightarrow> int \<Rightarrow> bool \<Rightarrow> ctx \<Rightarrow> ctx act" where
  "build_int_store p val trunc c =
     (let sel = (case opsize p of S16 \<Rightarrow> Some StoreI16 | S32 \<Rightarrow> Some StoreI32
                 | S64 \<Rightarrow> Some StoreI64 | _ \<Rightarrow> None) in
      case sel of None \<Rightarrow> (False, c)
      | Some op \<Rightarrow> (case add_node op val (-1) (-1) c of (i, c') \<Rightarrow>
          if i < 0 then (False, c')
          else let c'' = set_payload i (PMem p) c' in
            (True, if trunc then set_flag i kTruncate c'' else c'')))"

definition has_segment_override :: "irinstr \<Rightarrow> bool" where
  "has_segment_override ins =
     list_ex (\<lambda>p. kind p \<in> {MemRef, AbsMem, Immediate} \<and> seg_override p \<noteq> 0) (operands ins)"

section \<open>Arithmetic\<close>

text \<open>
  \<open>add_or_fail\<close> is the source's tail of almost every arm: append a node, fail when the array is
  full, otherwise continue with its index.
\<close>

definition add_or_fail ::
  "irop \<Rightarrow> int \<Rightarrow> int \<Rightarrow> int \<Rightarrow> (int \<Rightarrow> ctx \<Rightarrow> ctx) \<Rightarrow> ctx \<Rightarrow> ctx act" where
  "add_or_fail op a b d k c =
     (case add_node op a b d c of (i, c') \<Rightarrow> if i < 0 then (False, c') else (True, k i c'))"

definition build_arith :: "irinstr \<Rightarrow> irop \<Rightarrow> bool \<Rightarrow> ctx \<Rightarrow> ctx act" where
  "build_arith ins base_op reversed c =
     (if kind (opnd0 ins) = Register then
        let depth_dst = op_reg_index (opnd0 ins); depth_src = op_reg_index (opnd1 ins) in
        case resolve depth_dst c of (dst_val, c1) \<Rightarrow>
        case resolve depth_src c1 of (src_val, c2) \<Rightarrow>
          if dst_val < 0 \<or> src_val < 0 then (False, c2)
          else if reversed then
            add_or_fail base_op src_val dst_val (-1) (set_slot depth_dst) c2
          else add_or_fail base_op dst_val src_val (-1) (set_slot depth_dst) c2
      else
        case resolve 0 c of (st0, c1) \<Rightarrow>
          if st0 < 0 then (False, c1)
          else case build_fp_load (opnd0 ins) c1 of (mem_val, c2) \<Rightarrow>
            if mem_val < 0 then (False, c2)
            else if reversed then add_or_fail base_op mem_val st0 (-1) (set_slot 0) c2
            else add_or_fail base_op st0 mem_val (-1) (set_slot 0) c2)"

definition build_arithp :: "irinstr \<Rightarrow> irop \<Rightarrow> bool \<Rightarrow> ctx \<Rightarrow> ctx act" where
  "build_arithp ins base_op reversed c =
     (let depth_dst = op_reg_index (opnd0 ins) in
      case resolve depth_dst c of (dst_val, c1) \<Rightarrow>
      case resolve 0 c1 of (src_val, c2) \<Rightarrow>
        if dst_val < 0 \<or> src_val < 0 then (False, c2)
        else if reversed then
          add_or_fail base_op src_val dst_val (-1) (\<lambda>i c. pop (set_slot depth_dst i c)) c2
        else
          add_or_fail base_op dst_val src_val (-1) (\<lambda>i c. pop (set_slot depth_dst i c)) c2)"

section \<open>Compares and conditional moves\<close>

definition set_last_fcmp :: "int \<Rightarrow> ctx \<Rightarrow> ctx" where
  "set_last_fcmp i c = c\<lparr>last_fcmp := i\<rparr>"

definition set_last_fcomi :: "int \<Rightarrow> ctx \<Rightarrow> ctx" where
  "set_last_fcomi i c = c\<lparr>last_fcomi := i\<rparr>"

definition build_fcom :: "irinstr \<Rightarrow> nat \<Rightarrow> bool \<Rightarrow> ctx \<Rightarrow> ctx act" where
  "build_fcom ins num_pops is_fcompp c =
     (case resolve 0 c of (lhs, c1) \<Rightarrow>
        if lhs < 0 then (False, c1)
        else
          case (if is_fcompp then resolve 1 c1
                else if kind (opnd1 ins) = Register then resolve (op_reg_index (opnd1 ins)) c1
                else build_fp_load (opnd1 ins) c1) of (rhs, c2) \<Rightarrow>
            if rhs < 0 then (False, c2)
            else add_or_fail FCmp lhs rhs (-1)
                   (\<lambda>i c. (pop ^^ num_pops) (set_last_fcmp i c)) c2)"

definition build_ficom :: "irinstr \<Rightarrow> bool \<Rightarrow> ctx \<Rightarrow> ctx act" where
  "build_ficom ins is_popping c =
     (case resolve 0 c of (lhs, c1) \<Rightarrow>
        if lhs < 0 then (False, c1)
        else case build_int_load (opnd0 ins) c1 of (rhs, c2) \<Rightarrow>
          if rhs < 0 then (False, c2)
          else add_or_fail FCmp lhs rhs (-1)
                 (\<lambda>i c. let c' = set_last_fcmp i c in if is_popping then pop c' else c') c2)"

definition build_fcomi :: "irinstr \<Rightarrow> bool \<Rightarrow> ctx \<Rightarrow> ctx act" where
  "build_fcomi ins is_popping c =
     (case resolve 0 c of (st0, c1) \<Rightarrow>
        if st0 < 0 then (False, c1)
        else case resolve (op_reg_index (opnd1 ins)) c1 of (src, c2) \<Rightarrow>
          if src < 0 then (False, c2)
          else add_or_fail FComI st0 src (-1)
                 (\<lambda>i c. let c' = (if is_popping then set_flag i kFcomIPopping c else c);
                            c'' = set_last_fcomi i c'
                        in if is_popping then pop c'' else c'') c2)"

definition build_fcmov :: "irinstr \<Rightarrow> u64 \<Rightarrow> ctx \<Rightarrow> ctx act" where
  "build_fcmov ins cond c =
     (if last_fcomi c < 0 then (False, c)
      else case resolve 0 c of (st0, c1) \<Rightarrow>
        if st0 < 0 then (False, c1)
        else case resolve (op_reg_index (opnd1 ins)) c1 of (src, c2) \<Rightarrow>
          if src < 0 then (False, c2)
          else add_or_fail FCSel st0 src (-1)
                 (\<lambda>i c. set_slot 0 i (set_payload i (PImm cond) c)) c2)"

section \<open>Bridge instructions\<close>

definition width_flag :: "ioperand \<Rightarrow> u8" where
  "width_flag p = (if opsize p = S64 then kBridge64 else kNone)"

definition bridge_node :: "irop \<Rightarrow> int \<Rightarrow> int \<Rightarrow> int \<Rightarrow> u8 \<Rightarrow> payload option \<Rightarrow> ctx \<Rightarrow> ctx act" where
  "bridge_node op a b k fl pay c =
     add_or_fail op a b k
       (\<lambda>i c. let c' = set_flag i fl c in
              case pay of None \<Rightarrow> c' | Some p \<Rightarrow> set_payload i p c') c"

definition alu_kind :: "u16 \<Rightarrow> int" where
  "alu_kind opc =
     (if opc = kOpcodeName_add then kBridgeAluAdd
      else if opc = kOpcodeName_sub then kBridgeAluSub
      else if opc = kOpcodeName_and then kBridgeAluAnd
      else if opc = kOpcodeName_or then kBridgeAluOr
      else if opc = kOpcodeName_xor then kBridgeAluXor
      else -1)"

definition build_bridge_mov :: "ioperand \<Rightarrow> ioperand \<Rightarrow> ctx \<Rightarrow> ctx act" where
  "build_bridge_mov dst src c =
     (let dst_enc = bridge_encode_reg (op_reg_index dst);
          src_enc = bridge_encode_reg (op_reg_index src) in
      if kind dst = Register then
        (if kind src = Register then
           bridge_node BridgeMovRR dst_enc src_enc (-1) (width_flag dst) None c
         else if kind src = BranchOffset then
           bridge_node BridgeMovRI dst_enc (-1) (-1) (width_flag dst) (Some (PImm (disp src))) c
         else if kind src = MemRef then
           bridge_node BridgeLoadG dst_enc (-1) (-1) (width_flag dst) (Some (PMem src)) c
         else (False, c))
      else if kind dst = MemRef \<and> kind src = Register then
        bridge_node BridgeStoreG src_enc (-1) (-1) (width_flag src) (Some (PMem dst)) c
      else (False, c))"

definition ext_class :: "ioperand \<Rightarrow> u64" where
  "ext_class src =
     (case opsize src of
        S8 \<Rightarrow> (if reg_byte src AND 0xF0 = 0x10 then 1 else 0)
      | S16 \<Rightarrow> 2
      | _ \<Rightarrow> 3)"

definition build_bridge_alu :: "int \<Rightarrow> ioperand \<Rightarrow> ioperand \<Rightarrow> ctx \<Rightarrow> ctx act" where
  "build_bridge_alu k dst src c =
     (let kind_enc = bridge_encode_reg k;
          dst_enc = bridge_encode_reg (op_reg_index dst);
          src_enc = bridge_encode_reg (op_reg_index src) in
      if kind dst = Register then
        (if kind src = Register then
           bridge_node BridgeAluRR dst_enc src_enc kind_enc (width_flag dst) None c
         else if kind src = BranchOffset then
           bridge_node BridgeAluRI dst_enc (-1) kind_enc (width_flag dst)
             (Some (PImm (disp src))) c
         else if kind src = MemRef then
           bridge_node BridgeAluRM dst_enc (-1) kind_enc (width_flag dst) (Some (PMem src)) c
         else (False, c))
      else if kind dst = MemRef \<and> kind src = Register then
        bridge_node BridgeAluMR src_enc (-1) kind_enc (width_flag src) (Some (PMem dst)) c
      else (False, c))"

definition build_bridge :: "irinstr \<Rightarrow> ctx \<Rightarrow> ctx act" where
  "build_bridge ins c =
     (let op = opcode ins; dst = opnd0 ins; src = opnd1 ins;
          dst_enc = bridge_encode_reg (op_reg_index dst);
          src_enc = bridge_encode_reg (op_reg_index src) in
      if op = kOpcodeName_wait then (True, c)
      else if op = kOpcodeName_mov then build_bridge_mov dst src c
      else if op = kOpcodeName_lea then
        bridge_node BridgeLea dst_enc (-1) (-1) (width_flag dst) (Some (PMem src)) c
      else if op \<in> {kOpcodeName_movzx, kOpcodeName_movsx, kOpcodeName_movsxd} then
        bridge_node BridgeExt dst_enc src_enc (-1) (width_flag dst)
          (Some (PImm (ext_class src OR (if op = kOpcodeName_movzx then 0 else 4)))) c
      else if op \<in> {kOpcodeName_inc, kOpcodeName_dec} then
        bridge_node BridgeAluRI dst_enc (-1)
          (bridge_encode_reg (if op = kOpcodeName_inc then kBridgeAluAdd else kBridgeAluSub))
          (width_flag dst) (Some (PImm 1)) c
      else if alu_kind op \<ge> 0 then build_bridge_alu (alu_kind op) dst src c
      else (False, c))"

section \<open>The arms of the instruction switch\<close>

definition build_fldz_fld1 :: "irop \<Rightarrow> ctx \<Rightarrow> ctx act" where
  "build_fldz_fld1 op c = add_or_fail op (-1) (-1) (-1) push c"

definition build_fldconst :: "u64 \<Rightarrow> ctx \<Rightarrow> ctx act" where
  "build_fldconst bits c =
     (case build_const bits c of (i, c') \<Rightarrow> if i < 0 then (False, c') else (True, push i c'))"

definition fldconst_bits :: "u16 \<Rightarrow> u64" where
  "fldconst_bits op =
     (if op = kOpcodeName_fldl2e then 0x3FF71547652B82FE
      else if op = kOpcodeName_fldl2t then 0x400A934F0979A371
      else if op = kOpcodeName_fldlg2 then 0x3FD34413509F79FF
      else if op = kOpcodeName_fldln2 then 0x3FE62E42FEFA39EF
      else 0x400921FB54442D18)"

definition build_fld :: "irinstr \<Rightarrow> ctx \<Rightarrow> ctx act" where
  "build_fld ins c =
     (case (if kind (opnd0 ins) = Register then resolve (op_reg_index (opnd1 ins)) c
            else build_fp_load (opnd0 ins) c) of (val, c') \<Rightarrow>
        if val < 0 then (False, c') else (True, push val c'))"

definition build_fild :: "irinstr \<Rightarrow> ctx \<Rightarrow> ctx act" where
  "build_fild ins c =
     (case build_int_load (opnd0 ins) c of (val, c') \<Rightarrow>
        if val < 0 then (False, c') else (True, push val c'))"

definition build_fst :: "irinstr \<Rightarrow> bool \<Rightarrow> ctx \<Rightarrow> ctx act" where
  "build_fst ins is_pop c =
     (case resolve 0 c of (st0, c1) \<Rightarrow>
        if st0 < 0 then (False, c1)
        else
          case (if kind (opnd0 ins) = Register then
                  (let dst_depth = op_reg_index (opnd0 ins) in
                   (True, if dst_depth \<noteq> 0 then set_slot dst_depth st0 c1 else c1))
                else build_fp_store (opnd0 ins) st0 c1) of (ok, c2) \<Rightarrow>
            if \<not> ok then (False, c2) else (True, if is_pop then pop c2 else c2))"

definition build_fist :: "irinstr \<Rightarrow> bool \<Rightarrow> bool \<Rightarrow> ctx \<Rightarrow> ctx act" where
  "build_fist ins trunc is_pop c =
     (case resolve 0 c of (st0, c1) \<Rightarrow>
        if st0 < 0 then (False, c1)
        else case build_int_store (opnd0 ins) st0 trunc c1 of (ok, c2) \<Rightarrow>
          if \<not> ok then (False, c2) else (True, if is_pop then pop c2 else c2))"

definition build_fiarith :: "irinstr \<Rightarrow> irop \<Rightarrow> bool \<Rightarrow> ctx \<Rightarrow> ctx act" where
  "build_fiarith ins arith_op reversed c =
     (case resolve 0 c of (st0, c1) \<Rightarrow>
        if st0 < 0 then (False, c1)
        else case build_int_load (opnd0 ins) c1 of (mem_val, c2) \<Rightarrow>
          if mem_val < 0 then (False, c2)
          else if reversed then add_or_fail arith_op mem_val st0 (-1) (set_slot 0) c2
          else add_or_fail arith_op st0 mem_val (-1) (set_slot 0) c2)"

text \<open>\<^verbatim>\<open>fchs\<close>, \<^verbatim>\<open>fabs\<close>, \<^verbatim>\<open>fsqrt\<close>, \<^verbatim>\<open>frndint\<close>, \<^verbatim>\<open>fsin\<close> and \<^verbatim>\<open>fcos\<close> share one shape.\<close>

definition build_unary :: "irop \<Rightarrow> ctx \<Rightarrow> ctx act" where
  "build_unary op c =
     (case resolve 0 c of (st0, c1) \<Rightarrow>
        if st0 < 0 then (False, c1) else add_or_fail op st0 (-1) (-1) (set_slot 0) c1)"

definition build_fsincos :: "ctx \<Rightarrow> ctx act" where
  "build_fsincos c =
     (case resolve 0 c of (orig, c1) \<Rightarrow>
        if orig < 0 then (False, c1)
        else case add_node FSin orig (-1) (-1) c1 of (sin_id, c2) \<Rightarrow>
          if sin_id < 0 then (False, c2)
          else add_or_fail FCos orig (-1) (-1) (\<lambda>cos_id c. push cos_id (set_slot 0 sin_id c)) c2)"

definition build_fptan :: "ctx \<Rightarrow> ctx act" where
  "build_fptan c =
     (case resolve 0 c of (st0, c1) \<Rightarrow>
        if st0 < 0 then (False, c1)
        else case add_node FPtan st0 (-1) (-1) c1 of (tan_id, c2) \<Rightarrow>
          if tan_id < 0 then (False, c2)
          else add_or_fail ConstOne (-1) (-1) (-1)
                 (\<lambda>one_id c. push one_id (set_slot 0 tan_id c)) c2)"

text \<open>\<^verbatim>\<open>fpatan\<close> and \<^verbatim>\<open>fyl2x\<close>: ST(1) becomes op(ST(1), ST(0)), then pop.\<close>

definition build_st1_pop :: "irop \<Rightarrow> ctx \<Rightarrow> ctx act" where
  "build_st1_pop op c =
     (case resolve 0 c of (st0, c1) \<Rightarrow>
      case resolve 1 c1 of (st1, c2) \<Rightarrow>
        if st0 < 0 \<or> st1 < 0 then (False, c2)
        else add_or_fail op st1 st0 (-1) (\<lambda>i c. pop (set_slot 1 i c)) c2)"

definition build_fscale :: "ctx \<Rightarrow> ctx act" where
  "build_fscale c =
     (case resolve 0 c of (st0, c1) \<Rightarrow>
      case resolve 1 c1 of (st1, c2) \<Rightarrow>
        if st0 < 0 \<or> st1 < 0 then (False, c2)
        else add_or_fail FScale st0 st1 (-1) (set_slot 0) c2)"

definition build_fxch :: "irinstr \<Rightarrow> ctx \<Rightarrow> ctx act" where
  "build_fxch ins c =
     (let depth = op_reg_index (opnd1 ins) in
      if depth \<le> 0 \<or> depth \<ge> 8 then (False, c)
      else
        let c2 = snd (resolve depth (snd (resolve 0 c)));
            tmp = slot_val c2 ! 0
        in (True, set_slot depth tmp (set_slot 0 (slot_val c2 ! nat depth) c2)))"

definition build_ftst :: "ctx \<Rightarrow> ctx act" where
  "build_ftst c =
     (case resolve 0 c of (st0, c1) \<Rightarrow>
        if st0 < 0 then (False, c1) else add_or_fail FTst st0 (-1) (-1) set_last_fcmp c1)"

definition set_inputs :: "int \<Rightarrow> int \<Rightarrow> int \<Rightarrow> int \<Rightarrow> ctx \<Rightarrow> ctx" where
  "set_inputs i a b d c =
     c\<lparr>nodes := (nodes c)[nat i := (nodes c ! nat i)\<lparr>nin0 := a, nin1 := b, nin2 := d\<rparr>]\<rparr>"

definition build_fstsw :: "irinstr \<Rightarrow> ctx \<Rightarrow> ctx act" where
  "build_fstsw ins c =
     (if kind (opnd0 ins) \<noteq> Register then (False, c)
      else add_or_fail FStsw (-1) (-1) (-1)
             (\<lambda>i c. set_inputs i (last_fcmp c) (op_reg_index (opnd0 ins)) (top_delta c) c) c)"

definition build_cw :: "irop \<Rightarrow> irinstr \<Rightarrow> ctx \<Rightarrow> ctx act" where
  "build_cw op ins c =
     add_or_fail op (-1) (-1) (-1) (\<lambda>i. set_payload i (PMem (opnd0 ins))) c"

definition set_fail_opcode :: "u16 \<Rightarrow> ctx \<Rightarrow> ctx" where
  "set_fail_opcode op c = c\<lparr>fail_opcode := op\<rparr>"

section \<open>The switch and the loop\<close>

definition build_step :: "bool \<Rightarrow> bool \<Rightarrow> irinstr \<Rightarrow> ctx \<Rightarrow> ctx act" where
  "build_step allow_bridges bridges_v2 ins c =
     (let op = opcode ins in
      if op = kOpcodeName_fldz then build_fldz_fld1 ConstZero c
      else if op = kOpcodeName_fld1 then build_fldz_fld1 ConstOne c
      else if op \<in> {kOpcodeName_fldl2e, kOpcodeName_fldl2t, kOpcodeName_fldlg2,
                    kOpcodeName_fldln2, kOpcodeName_fldpi} then
        build_fldconst (fldconst_bits op) c
      else if op = kOpcodeName_fld then build_fld ins c
      else if op = kOpcodeName_fild then build_fild ins c
      else if op \<in> {kOpcodeName_fst, kOpcodeName_fst_stack, kOpcodeName_fstp,
                    kOpcodeName_fstp_stack} then
        build_fst ins (op \<in> {kOpcodeName_fstp, kOpcodeName_fstp_stack}) c
      else if op \<in> {kOpcodeName_fistp, kOpcodeName_fist, kOpcodeName_fisttp} then
        build_fist ins (op = kOpcodeName_fisttp) (op \<noteq> kOpcodeName_fist) c
      else if op = kOpcodeName_fadd then build_arith ins FAdd False c
      else if op = kOpcodeName_fsub then build_arith ins FSub False c
      else if op = kOpcodeName_fsubr then build_arith ins FSub True c
      else if op = kOpcodeName_fmul then build_arith ins FMul False c
      else if op = kOpcodeName_fdiv then build_arith ins FDiv False c
      else if op = kOpcodeName_fdivr then build_arith ins FDiv True c
      else if op = kOpcodeName_fiadd then build_fiarith ins FAdd False c
      else if op = kOpcodeName_fisub then build_fiarith ins FSub False c
      else if op = kOpcodeName_fisubr then build_fiarith ins FSub True c
      else if op = kOpcodeName_fimul then build_fiarith ins FMul False c
      else if op = kOpcodeName_fidiv then build_fiarith ins FDiv False c
      else if op = kOpcodeName_fidivr then build_fiarith ins FDiv True c
      else if op = kOpcodeName_faddp then build_arithp ins FAdd False c
      else if op = kOpcodeName_fsubp then build_arithp ins FSub False c
      else if op = kOpcodeName_fsubrp then build_arithp ins FSub True c
      else if op = kOpcodeName_fmulp then build_arithp ins FMul False c
      else if op = kOpcodeName_fdivp then build_arithp ins FDiv False c
      else if op = kOpcodeName_fdivrp then build_arithp ins FDiv True c
      else if op = kOpcodeName_fchs then build_unary FNeg c
      else if op = kOpcodeName_fabs then build_unary FAbs c
      else if op = kOpcodeName_fsqrt then build_unary FSqrt c
      else if op = kOpcodeName_frndint then build_unary FRndInt c
      else if op = kOpcodeName_fsin then build_unary FSin c
      else if op = kOpcodeName_fcos then build_unary FCos c
      else if op = kOpcodeName_fsincos then build_fsincos c
      else if op = kOpcodeName_fptan then build_fptan c
      else if op = kOpcodeName_fpatan then build_st1_pop FPatan c
      else if op = kOpcodeName_fyl2x then build_st1_pop FYl2x c
      else if op = kOpcodeName_fscale then build_fscale c
      else if op = kOpcodeName_fxch then build_fxch ins c
      else if op \<in> {kOpcodeName_fcom, kOpcodeName_fucom} then build_fcom ins 0 False c
      else if op \<in> {kOpcodeName_fcomp, kOpcodeName_fucomp} then build_fcom ins 1 False c
      else if op \<in> {kOpcodeName_fcompp, kOpcodeName_fucompp} then build_fcom ins 2 True c
      else if op = kOpcodeName_ficom then build_ficom ins False c
      else if op = kOpcodeName_ficomp then build_ficom ins True c
      else if op \<in> {kOpcodeName_fcomi, kOpcodeName_fucomi} then build_fcomi ins False c
      else if op \<in> {kOpcodeName_fcomip, kOpcodeName_fucomip} then build_fcomi ins True c
      else if op = kOpcodeName_fcmovb then build_fcmov ins 3 c
      else if op = kOpcodeName_fcmovbe then build_fcmov ins 9 c
      else if op = kOpcodeName_fcmove then build_fcmov ins 0 c
      else if op = kOpcodeName_fcmovnb then build_fcmov ins 2 c
      else if op = kOpcodeName_fcmovnbe then build_fcmov ins 8 c
      else if op = kOpcodeName_fcmovne then build_fcmov ins 1 c
      else if op = kOpcodeName_fcmovu then build_fcmov ins kFcmovCondPF c
      else if op = kOpcodeName_fcmovnu then build_fcmov ins kFcmovCondNPF c
      else if op = kOpcodeName_ftst then build_ftst c
      else if op = kOpcodeName_fstsw then build_fstsw ins c
      else if op = kOpcodeName_fldcw then build_cw StoreCW ins c
      else if op = kOpcodeName_fnstcw then build_cw LoadCW ins c
      else if op = kOpcodeName_fnop then (True, c)
      else if allow_bridges \<and>
              (if bridges_v2 then is_bridge_v2_proven ins else is_bridge_v1 ins) then
        build_bridge ins c
      else (False, set_fail_opcode op c))"

text \<open>Every node an instruction created is attributed to its ordinal, on a bail as well.\<close>

definition attribute_nodes :: "nat \<Rightarrow> ctx \<Rightarrow> ctx" where
  "attribute_nodes i c =
     c\<lparr>node_src := node_src c @ replicate (length (nodes c) - length (node_src c)) (int i)\<rparr>"

fun build_loop :: "bool \<Rightarrow> bool \<Rightarrow> nat \<Rightarrow> irinstr list \<Rightarrow> ctx \<Rightarrow> ctx" where
  "build_loop ab v2 i [] c = c"
| "build_loop ab v2 i (ins # rest) c =
     (if has_segment_override ins then set_fail_opcode (opcode ins) c
      else case build_step ab v2 ins c of (ok, c') \<Rightarrow>
        let c'' = attribute_nodes i c' in
        if \<not> ok then c'' else build_loop ab v2 (Suc i) rest (c''\<lparr>consumed := Suc i\<rparr>))"

definition build ::
  "irinstr list \<Rightarrow> nat \<Rightarrow> nat \<Rightarrow> bool \<Rightarrow> bool \<Rightarrow> bool \<times> ctx" where
  "build instr_array start_idx run_length allow_bridges bridges_v2 =
     (let c = build_loop allow_bridges bridges_v2 0
                (take run_length (drop start_idx instr_array)) ctx_init
      in (consumed c \<ge> 2, c))"

end
