(* ===== verification/X87_Sem.thy ===== *)
theory X87_Sem
  imports X87_IR
begin

text \<open>
  What the IR means.  The comments of \<^verbatim>\<open>X87IR.h\<close> say what each opcode computes; \<open>eval_nodes\<close>
  says it as a function.  The machine underneath (binary64 arithmetic, conversions, guest
  memory, the status word) is not code of this repository: it is the record \<open>fpu\<close>, over which
  every theorem is quantified.  Its types separate what an operation may touch: \<open>'v\<close> is a
  register value, \<open>'m\<close> the guest's memory and integer registers, \<open>'s\<close> the x87 status and control
  words and NZCV.
\<close>

datatype memfmt = F32 | F64 | I16 | I32 | I64

datatype arith = ArAdd | ArSub | ArMul | ArDiv

datatype bridge_act =
    ActMovRR bool int int
  | ActMovRI bool int u64
  | ActLea bool int ioperand
  | ActLoad bool int ioperand
  | ActStore bool int ioperand
  | ActExt bool int int u64
  | ActAluRR bool int int int
  | ActAluRI bool int int u64
  | ActAluRM bool int int ioperand
  | ActAluMR bool int int ioperand

record ('v, 'm, 's) fpu =
  f_bits :: "u64 \<Rightarrow> 'v"
  f_load :: "memfmt \<Rightarrow> ioperand \<Rightarrow> 'm \<Rightarrow> 'v"
  f_store :: "memfmt \<Rightarrow> bool \<Rightarrow> ioperand \<Rightarrow> 'v \<Rightarrow> 's \<Rightarrow> 'm \<Rightarrow> 'm"
  f_arith :: "arith \<Rightarrow> 'v \<Rightarrow> 'v \<Rightarrow> 'v"
  f_fmadd :: "'v \<Rightarrow> 'v \<Rightarrow> 'v \<Rightarrow> 'v"
  f_fmsub :: "'v \<Rightarrow> 'v \<Rightarrow> 'v \<Rightarrow> 'v"
  f_fnmsub :: "'v \<Rightarrow> 'v \<Rightarrow> 'v \<Rightarrow> 'v"
  f_neg :: "'v \<Rightarrow> 'v"
  f_abs :: "'v \<Rightarrow> 'v"
  f_sqrt :: "'v \<Rightarrow> 'v"
  f_rndint :: "'s \<Rightarrow> 'v \<Rightarrow> 'v"
  f_sin :: "'v \<Rightarrow> 'v"
  f_cos :: "'v \<Rightarrow> 'v"
  f_tan :: "'v \<Rightarrow> 'v"
  f_patan :: "'v \<Rightarrow> 'v \<Rightarrow> 'v"
  f_yl2x :: "'v \<Rightarrow> 'v \<Rightarrow> 'v"
  f_scale :: "'v \<Rightarrow> 'v \<Rightarrow> 'v"
  f_cond :: "u64 \<Rightarrow> 's \<Rightarrow> bool"
  f_cmp :: "'v \<Rightarrow> 'v \<Rightarrow> 's \<Rightarrow> 's"
  f_tst :: "'v \<Rightarrow> 's \<Rightarrow> 's"
  f_comi :: "'v \<Rightarrow> 'v \<Rightarrow> 's \<Rightarrow> 's"
  f_stsw :: "int \<Rightarrow> int \<Rightarrow> 's \<Rightarrow> 'm \<Rightarrow> 'm"
  f_ldcw :: "ioperand \<Rightarrow> 'm \<Rightarrow> 's \<Rightarrow> 's"
  f_stcw :: "ioperand \<Rightarrow> 's \<Rightarrow> 'm \<Rightarrow> 'm"
  f_int :: "bridge_act \<Rightarrow> 'm \<Rightarrow> 'm"

record ('v, 'm, 's) conf =
  cenv :: "nat \<Rightarrow> 'v"
  cmem :: 'm
  cstat :: 's

definition bits_one :: u64 where
  "bits_one = 0x3FF0000000000000"

definition nval :: "('v, 'm, 's) fpu \<Rightarrow> (nat \<Rightarrow> 'v) \<Rightarrow> int \<Rightarrow> 'v" where
  "nval S e x = (if x < 0 then f_bits S 0 else e (nat x))"

text \<open>Opcodes that put a value into a register; all others only have effects.\<close>

fun is_value_op :: "irop \<Rightarrow> bool" where
  "is_value_op op \<longleftrightarrow> op \<in> {ReadSt, LoadF64, LoadF32, LoadI16, LoadI32, LoadI64, ConstZero, ConstOne,
     ConstF64, FAdd, FSub, FMul, FDiv, FMAdd, FMSub, FNMSub, FNeg, FAbs, FSqrt, FRndInt, FSin,
     FCos, FPatan, FPtan, FYl2x, FScale, FCSel}"

definition node_value ::
  "('v, 'm, 's) fpu \<Rightarrow> (nat \<Rightarrow> 'v) \<Rightarrow> node \<Rightarrow> (int \<Rightarrow> 'v) \<Rightarrow> 'm \<Rightarrow> 's \<Rightarrow> 'v" where
  "node_value S st0 n v m s = (let a = v (nin0 n); b = v (nin1 n); c = v (nin2 n) in
     case nop n of
       ReadSt \<Rightarrow> st0 (nat (pay_depth n))
     | LoadF64 \<Rightarrow> f_load S F64 (pay_mem n) m
     | LoadF32 \<Rightarrow> f_load S F32 (pay_mem n) m
     | LoadI16 \<Rightarrow> f_load S I16 (pay_mem n) m
     | LoadI32 \<Rightarrow> f_load S I32 (pay_mem n) m
     | LoadI64 \<Rightarrow> f_load S I64 (pay_mem n) m
     | ConstZero \<Rightarrow> f_bits S 0
     | ConstOne \<Rightarrow> f_bits S bits_one
     | ConstF64 \<Rightarrow> f_bits S (pay_imm n)
     | FAdd \<Rightarrow> f_arith S ArAdd a b
     | FSub \<Rightarrow> f_arith S ArSub a b
     | FMul \<Rightarrow> f_arith S ArMul a b
     | FDiv \<Rightarrow> f_arith S ArDiv a b
     | FMAdd \<Rightarrow> f_fmadd S a b c
     | FMSub \<Rightarrow> f_fmsub S a b c
     | FNMSub \<Rightarrow> f_fnmsub S a b c
     | FNeg \<Rightarrow> f_neg S a
     | FAbs \<Rightarrow> f_abs S a
     | FSqrt \<Rightarrow> f_sqrt S a
     | FRndInt \<Rightarrow> f_rndint S s a
     | FSin \<Rightarrow> f_sin S a
     | FCos \<Rightarrow> f_cos S a
     | FPtan \<Rightarrow> f_tan S a
     | FPatan \<Rightarrow> f_patan S a b
     | FYl2x \<Rightarrow> f_yl2x S a b
     | FScale \<Rightarrow> f_scale S a b
     | FCSel \<Rightarrow> (if f_cond S (pay_imm n) s then b else a)
     | _ \<Rightarrow> f_bits S 0)"

definition node_mem ::
  "('v, 'm, 's) fpu \<Rightarrow> node \<Rightarrow> (int \<Rightarrow> 'v) \<Rightarrow> 'm \<Rightarrow> 's \<Rightarrow> 'm" where
  "node_mem S n v m s = (let a = v (nin0 n); w = has_flag kBridge64 n;
       r0 = bridge_decode_reg (nin0 n); r1 = bridge_decode_reg (nin1 n);
       k = bridge_decode_reg (nin2 n) in
     case nop n of
       StoreF64 \<Rightarrow> f_store S F64 False (pay_mem n) a s m
     | StoreF32 \<Rightarrow> f_store S F32 False (pay_mem n) a s m
     | StoreI16 \<Rightarrow> f_store S I16 (has_flag kTruncate n) (pay_mem n) a s m
     | StoreI32 \<Rightarrow> f_store S I32 (has_flag kTruncate n) (pay_mem n) a s m
     | StoreI64 \<Rightarrow> f_store S I64 (has_flag kTruncate n) (pay_mem n) a s m
     | FStsw \<Rightarrow> f_stsw S (nin1 n) (nin2 n) s m
     | LoadCW \<Rightarrow> f_stcw S (pay_mem n) s m
     | BridgeMovRR \<Rightarrow> f_int S (ActMovRR w r0 r1) m
     | BridgeMovRI \<Rightarrow> f_int S (ActMovRI w r0 (pay_imm n)) m
     | BridgeLea \<Rightarrow> f_int S (ActLea w r0 (pay_mem n)) m
     | BridgeLoadG \<Rightarrow> f_int S (ActLoad w r0 (pay_mem n)) m
     | BridgeStoreG \<Rightarrow> f_int S (ActStore w r0 (pay_mem n)) m
     | BridgeExt \<Rightarrow> f_int S (ActExt w r0 r1 (pay_imm n)) m
     | BridgeAluRR \<Rightarrow> f_int S (ActAluRR w k r0 r1) m
     | BridgeAluRI \<Rightarrow> f_int S (ActAluRI w k r0 (pay_imm n)) m
     | BridgeAluRM \<Rightarrow> f_int S (ActAluRM w k r0 (pay_mem n)) m
     | BridgeAluMR \<Rightarrow> f_int S (ActAluMR w k r0 (pay_mem n)) m
     | _ \<Rightarrow> m)"

definition node_stat ::
  "('v, 'm, 's) fpu \<Rightarrow> node \<Rightarrow> (int \<Rightarrow> 'v) \<Rightarrow> 'm \<Rightarrow> 's \<Rightarrow> 's" where
  "node_stat S n v m s = (let a = v (nin0 n); b = v (nin1 n) in
     case nop n of
       FCmp \<Rightarrow> f_cmp S a b s
     | FTst \<Rightarrow> f_tst S a s
     | FComI \<Rightarrow> f_comi S a b s
     | StoreCW \<Rightarrow> f_ldcw S (pay_mem n) m s
     | _ \<Rightarrow> s)"

definition eval_node ::
  "('v, 'm, 's) fpu \<Rightarrow> (nat \<Rightarrow> 'v) \<Rightarrow> nat \<Rightarrow> node \<Rightarrow> ('v, 'm, 's) conf \<Rightarrow> ('v, 'm, 's) conf" where
  "eval_node S st0 i n c =
     (if has_flag kDead n then c
      else let v = nval S (cenv c) in
        \<lparr>cenv = (if is_value_op (nop n)
                then (cenv c)(i := node_value S st0 n v (cmem c) (cstat c)) else cenv c),
         cmem = node_mem S n v (cmem c) (cstat c),
         cstat = node_stat S n v (cmem c) (cstat c)\<rparr>)"

fun eval_nodes ::
  "('v, 'm, 's) fpu \<Rightarrow> (nat \<Rightarrow> 'v) \<Rightarrow> nat \<Rightarrow> node list \<Rightarrow> ('v, 'm, 's) conf \<Rightarrow> ('v, 'm, 's) conf" where
  "eval_nodes S st0 i [] c = c"
| "eval_nodes S st0 i (n # ns) c = eval_nodes S st0 (Suc i) ns (eval_node S st0 i n c)"

lemma eval_nodes_append:
  "eval_nodes S st0 i (xs @ ys) c = eval_nodes S st0 (i + length xs) ys (eval_nodes S st0 i xs c)"
  by (induction xs arbitrary: i c) simp_all

text \<open>Evaluation of a prefix never writes a register of a later node.\<close>

lemma eval_node_env_other: "j \<noteq> i \<Longrightarrow> cenv (eval_node S st0 i n c) j = cenv c j"
  by (simp add: eval_node_def Let_def)

lemma eval_nodes_env_other:
  "j < i \<or> i + length ns \<le> j \<Longrightarrow> cenv (eval_nodes S st0 i ns c) j = cenv c j"
proof (induction ns arbitrary: i c)
  case (Cons n ns)
  then have "cenv (eval_nodes S st0 (Suc i) ns (eval_node S st0 i n c)) j =
      cenv (eval_node S st0 i n c) j"
    by (intro Cons.IH) auto
  also have "\<dots> = cenv c j"
    using Cons.prems by (intro eval_node_env_other) auto
  finally show ?case by simp
qed simp

text \<open>
  The starting configuration, and the configuration a context's nodes reach from it.
\<close>

definition conf0 :: "('v, 'm, 's) fpu \<Rightarrow> 'm \<Rightarrow> 's \<Rightarrow> ('v, 'm, 's) conf" where
  "conf0 S m s = \<lparr>cenv = (\<lambda>_. f_bits S 0), cmem = m, cstat = s\<rparr>"

definition eval_ctx ::
  "('v, 'm, 's) fpu \<Rightarrow> (nat \<Rightarrow> 'v) \<Rightarrow> 'm \<Rightarrow> 's \<Rightarrow> ctx \<Rightarrow> ('v, 'm, 's) conf" where
  "eval_ctx S st0 m s c = eval_nodes S st0 0 (nodes c) (conf0 S m s)"

text \<open>
  The value a context leaves at logical depth \<open>d\<close>: a node's value, the value that was at some
  initial depth, or nothing once that register has been popped.
\<close>

definition slot_result ::
  "('v, 'm, 's) fpu \<Rightarrow> (nat \<Rightarrow> 'v) \<Rightarrow> (nat \<Rightarrow> 'v) \<Rightarrow> int \<Rightarrow> 'v option" where
  "slot_result S st0 e v =
     (if 0 \<le> v then Some (e (nat v))
      else if - 8 \<le> v then Some (st0 (nat (- (v + 1))))
      else None)"

text \<open>
  What a context denotes: the eight stack positions, the change of TOP, the guest memory and
  the status.
\<close>

record ('v, 'm, 's) rstate =
  ring :: "'v option list"
  rtop :: int
  rmem :: 'm
  rstat :: 's

definition denote ::
  "('v, 'm, 's) fpu \<Rightarrow> (nat \<Rightarrow> 'v) \<Rightarrow> 'm \<Rightarrow> 's \<Rightarrow> ctx \<Rightarrow> ('v, 'm, 's) rstate" where
  "denote S st0 m s c =
     (let k = eval_ctx S st0 m s c in
      \<lparr>ring = map (slot_result S st0 (cenv k)) (slot_val c), rtop = top_delta c,
       rmem = cmem k, rstat = cstat k\<rparr>)"

end
