(* ===== verification/X87_Ref.thy ===== *)
theory X87_Ref
  imports X87_Sem
begin

text \<open>
  The specification the IR is measured against: an x87 register stack executing one instruction
  at a time.  A position of the stack is \<open>None\<close> once its register has been popped, and reading
  it has no result.  Operand positions are those of Rosetta's encoding: the source register of
  \<^verbatim>\<open>fld\<close>, \<^verbatim>\<open>fxch\<close>, \<^verbatim>\<open>fcom\<close>, \<^verbatim>\<open>fcomi\<close> and \<^verbatim>\<open>fcmov\<close> is the second operand, the destination of
  \<^verbatim>\<open>fst\<close> and of the arithmetic is the first.
\<close>

section \<open>The register stack\<close>

definition st_get :: "int \<Rightarrow> ('v, 'm, 's) rstate \<Rightarrow> 'v option" where
  "st_get d r = (if 0 \<le> d \<and> d < 8 then ring r ! nat d else None)"

definition st_set :: "int \<Rightarrow> 'v \<Rightarrow> ('v, 'm, 's) rstate \<Rightarrow> ('v, 'm, 's) rstate" where
  "st_set d v r = r\<lparr>ring := (ring r)[nat d := Some v]\<rparr>"

definition st_push :: "'v \<Rightarrow> ('v, 'm, 's) rstate \<Rightarrow> ('v, 'm, 's) rstate" where
  "st_push v r = r\<lparr>ring := Some v # take 7 (ring r), rtop := rtop r - 1\<rparr>"

definition st_pop :: "('v, 'm, 's) rstate \<Rightarrow> ('v, 'm, 's) rstate" where
  "st_pop r = r\<lparr>ring := drop 1 (ring r) @ [None], rtop := rtop r + 1\<rparr>"

definition set_mem :: "'m \<Rightarrow> ('v, 'm, 's) rstate \<Rightarrow> ('v, 'm, 's) rstate" where
  "set_mem m r = r\<lparr>rmem := m\<rparr>"

definition set_stat :: "'s \<Rightarrow> ('v, 'm, 's) rstate \<Rightarrow> ('v, 'm, 's) rstate" where
  "set_stat s r = r\<lparr>rstat := s\<rparr>"

section \<open>Operands\<close>

fun fp_fmt :: "ioperand \<Rightarrow> memfmt option" where
  "fp_fmt p = (case opsize p of S32 \<Rightarrow> Some F32 | S64 \<Rightarrow> Some F64 | _ \<Rightarrow> None)"

fun int_fmt :: "ioperand \<Rightarrow> memfmt option" where
  "int_fmt p = (case opsize p of S16 \<Rightarrow> Some I16 | S32 \<Rightarrow> Some I32 | S64 \<Rightarrow> Some I64 | _ \<Rightarrow> None)"

definition load_op ::
  "('v, 'm, 's) fpu \<Rightarrow> memfmt option \<Rightarrow> ioperand \<Rightarrow> ('v, 'm, 's) rstate \<Rightarrow> 'v option" where
  "load_op S fmt p r = map_option (\<lambda>f. f_load S f p (rmem r)) fmt"

definition store_op ::
  "('v, 'm, 's) fpu \<Rightarrow> memfmt option \<Rightarrow> bool \<Rightarrow> ioperand \<Rightarrow> 'v \<Rightarrow> ('v, 'm, 's) rstate \<Rightarrow>
    ('v, 'm, 's) rstate option" where
  "store_op S fmt tr p v r =
     map_option (\<lambda>f. set_mem (f_store S f tr p v (rstat r) (rmem r)) r) fmt"

section \<open>Instructions\<close>

definition x_const :: "('v, 'm, 's) fpu \<Rightarrow> u64 \<Rightarrow> ('v, 'm, 's) rstate \<Rightarrow> ('v, 'm, 's) rstate option" where
  "x_const S b r = Some (st_push (f_bits S b) r)"

definition x_fld :: "('v, 'm, 's) fpu \<Rightarrow> irinstr \<Rightarrow> ('v, 'm, 's) rstate \<Rightarrow> ('v, 'm, 's) rstate option" where
  "x_fld S ins r =
     map_option (\<lambda>v. st_push v r)
       (if kind (opnd0 ins) = Register then st_get (op_reg_index (opnd1 ins)) r
        else load_op S (fp_fmt (opnd0 ins)) (opnd0 ins) r)"

definition x_fild :: "('v, 'm, 's) fpu \<Rightarrow> irinstr \<Rightarrow> ('v, 'm, 's) rstate \<Rightarrow> ('v, 'm, 's) rstate option" where
  "x_fild S ins r =
     map_option (\<lambda>v. st_push v r) (load_op S (int_fmt (opnd0 ins)) (opnd0 ins) r)"

definition maybe_pop :: "bool \<Rightarrow> ('v, 'm, 's) rstate \<Rightarrow> ('v, 'm, 's) rstate" where
  "maybe_pop b r = (if b then st_pop r else r)"

definition x_fst ::
  "('v, 'm, 's) fpu \<Rightarrow> irinstr \<Rightarrow> bool \<Rightarrow> ('v, 'm, 's) rstate \<Rightarrow> ('v, 'm, 's) rstate option" where
  "x_fst S ins is_pop r =
     (case st_get 0 r of None \<Rightarrow> None
      | Some v \<Rightarrow> map_option (maybe_pop is_pop)
          (if kind (opnd0 ins) = Register then Some (st_set (op_reg_index (opnd0 ins)) v r)
           else store_op S (fp_fmt (opnd0 ins)) False (opnd0 ins) v r))"

definition x_fist ::
  "('v, 'm, 's) fpu \<Rightarrow> irinstr \<Rightarrow> bool \<Rightarrow> bool \<Rightarrow> ('v, 'm, 's) rstate \<Rightarrow> ('v, 'm, 's) rstate option"
  where
  "x_fist S ins tr is_pop r =
     (case st_get 0 r of None \<Rightarrow> None
      | Some v \<Rightarrow> map_option (maybe_pop is_pop)
          (store_op S (int_fmt (opnd0 ins)) tr (opnd0 ins) v r))"

text \<open>\<open>rv\<close> marks the reversed forms, which compute source op destination.\<close>

definition arith_val :: "('v, 'm, 's) fpu \<Rightarrow> arith \<Rightarrow> bool \<Rightarrow> 'v \<Rightarrow> 'v \<Rightarrow> 'v" where
  "arith_val S a rv dst src = (if rv then f_arith S a src dst else f_arith S a dst src)"

definition x_arith ::
  "('v, 'm, 's) fpu \<Rightarrow> irinstr \<Rightarrow> arith \<Rightarrow> bool \<Rightarrow> ('v, 'm, 's) rstate \<Rightarrow> ('v, 'm, 's) rstate option"
  where
  "x_arith S ins a rv r =
     (let reg = (kind (opnd0 ins) = Register);
          d = (if reg then op_reg_index (opnd0 ins) else 0) in
      case (st_get d r,
            if reg then st_get (op_reg_index (opnd1 ins)) r
            else load_op S (fp_fmt (opnd0 ins)) (opnd0 ins) r) of
        (Some x, Some y) \<Rightarrow> Some (st_set d (arith_val S a rv x y) r)
      | _ \<Rightarrow> None)"

definition x_fiarith ::
  "('v, 'm, 's) fpu \<Rightarrow> irinstr \<Rightarrow> arith \<Rightarrow> bool \<Rightarrow> ('v, 'm, 's) rstate \<Rightarrow> ('v, 'm, 's) rstate option"
  where
  "x_fiarith S ins a rv r =
     (case (st_get 0 r, load_op S (int_fmt (opnd0 ins)) (opnd0 ins) r) of
        (Some x, Some y) \<Rightarrow> Some (st_set 0 (arith_val S a rv x y) r)
      | _ \<Rightarrow> None)"

definition x_arithp ::
  "('v, 'm, 's) fpu \<Rightarrow> irinstr \<Rightarrow> arith \<Rightarrow> bool \<Rightarrow> ('v, 'm, 's) rstate \<Rightarrow> ('v, 'm, 's) rstate option"
  where
  "x_arithp S ins a rv r =
     (let d = op_reg_index (opnd0 ins) in
      case (st_get d r, st_get 0 r) of
        (Some x, Some y) \<Rightarrow> Some (st_pop (st_set d (arith_val S a rv x y) r))
      | _ \<Rightarrow> None)"

definition x_unary :: "('v \<Rightarrow> 'v) \<Rightarrow> ('v, 'm, 's) rstate \<Rightarrow> ('v, 'm, 's) rstate option" where
  "x_unary f r = map_option (\<lambda>v. st_set 0 (f v) r) (st_get 0 r)"

definition x_fsincos :: "('v, 'm, 's) fpu \<Rightarrow> ('v, 'm, 's) rstate \<Rightarrow> ('v, 'm, 's) rstate option" where
  "x_fsincos S r = map_option (\<lambda>v. st_push (f_cos S v) (st_set 0 (f_sin S v) r)) (st_get 0 r)"

definition x_fptan :: "('v, 'm, 's) fpu \<Rightarrow> ('v, 'm, 's) rstate \<Rightarrow> ('v, 'm, 's) rstate option" where
  "x_fptan S r =
     map_option (\<lambda>v. st_push (f_bits S bits_one) (st_set 0 (f_tan S v) r)) (st_get 0 r)"

definition x_st1_pop ::
  "('v \<Rightarrow> 'v \<Rightarrow> 'v) \<Rightarrow> ('v, 'm, 's) rstate \<Rightarrow> ('v, 'm, 's) rstate option" where
  "x_st1_pop f r =
     (case (st_get 0 r, st_get 1 r) of
        (Some x, Some y) \<Rightarrow> Some (st_pop (st_set 1 (f y x) r))
      | _ \<Rightarrow> None)"

definition x_fscale :: "('v, 'm, 's) fpu \<Rightarrow> ('v, 'm, 's) rstate \<Rightarrow> ('v, 'm, 's) rstate option" where
  "x_fscale S r =
     (case (st_get 0 r, st_get 1 r) of
        (Some x, Some y) \<Rightarrow> Some (st_set 0 (f_scale S x y) r)
      | _ \<Rightarrow> None)"

definition x_fxch :: "irinstr \<Rightarrow> ('v, 'm, 's) rstate \<Rightarrow> ('v, 'm, 's) rstate option" where
  "x_fxch ins r =
     (let d = op_reg_index (opnd1 ins) in
      if d < 8 then Some (r\<lparr>ring := (ring r)[0 := ring r ! nat d, nat d := ring r ! 0]\<rparr>)
      else None)"

definition x_cmp ::
  "('v, 'm, 's) fpu \<Rightarrow> nat \<Rightarrow> 'v option \<Rightarrow> ('v, 'm, 's) rstate \<Rightarrow> ('v, 'm, 's) rstate option" where
  "x_cmp S pops src r =
     (case (st_get 0 r, src) of
        (Some x, Some y) \<Rightarrow> Some ((st_pop ^^ pops) (set_stat (f_cmp S x y (rstat r)) r))
      | _ \<Rightarrow> None)"

definition fcom_src ::
  "('v, 'm, 's) fpu \<Rightarrow> irinstr \<Rightarrow> bool \<Rightarrow> ('v, 'm, 's) rstate \<Rightarrow> 'v option" where
  "fcom_src S ins is_pp r =
     (if is_pp then st_get 1 r
      else if kind (opnd1 ins) = Register then st_get (op_reg_index (opnd1 ins)) r
      else load_op S (fp_fmt (opnd1 ins)) (opnd1 ins) r)"

definition x_fcom ::
  "('v, 'm, 's) fpu \<Rightarrow> irinstr \<Rightarrow> nat \<Rightarrow> bool \<Rightarrow> ('v, 'm, 's) rstate \<Rightarrow> ('v, 'm, 's) rstate option"
  where
  "x_fcom S ins pops is_pp r = x_cmp S pops (fcom_src S ins is_pp r) r"

definition x_ficom ::
  "('v, 'm, 's) fpu \<Rightarrow> irinstr \<Rightarrow> bool \<Rightarrow> ('v, 'm, 's) rstate \<Rightarrow> ('v, 'm, 's) rstate option" where
  "x_ficom S ins is_pop r =
     x_cmp S (if is_pop then 1 else 0) (load_op S (int_fmt (opnd0 ins)) (opnd0 ins) r) r"

definition x_fcomi ::
  "('v, 'm, 's) fpu \<Rightarrow> irinstr \<Rightarrow> bool \<Rightarrow> ('v, 'm, 's) rstate \<Rightarrow> ('v, 'm, 's) rstate option" where
  "x_fcomi S ins is_pop r =
     (case (st_get 0 r, st_get (op_reg_index (opnd1 ins)) r) of
        (Some x, Some y) \<Rightarrow> Some (maybe_pop is_pop (set_stat (f_comi S x y (rstat r)) r))
      | _ \<Rightarrow> None)"

definition x_fcmov ::
  "('v, 'm, 's) fpu \<Rightarrow> irinstr \<Rightarrow> u64 \<Rightarrow> ('v, 'm, 's) rstate \<Rightarrow> ('v, 'm, 's) rstate option" where
  "x_fcmov S ins cond r =
     (case (st_get 0 r, st_get (op_reg_index (opnd1 ins)) r) of
        (Some x, Some y) \<Rightarrow> Some (st_set 0 (if f_cond S cond (rstat r) then y else x) r)
      | _ \<Rightarrow> None)"

definition x_ftst :: "('v, 'm, 's) fpu \<Rightarrow> ('v, 'm, 's) rstate \<Rightarrow> ('v, 'm, 's) rstate option" where
  "x_ftst S r = map_option (\<lambda>v. set_stat (f_tst S v (rstat r)) r) (st_get 0 r)"

definition x_fstsw :: "('v, 'm, 's) fpu \<Rightarrow> irinstr \<Rightarrow> ('v, 'm, 's) rstate \<Rightarrow> ('v, 'm, 's) rstate option" where
  "x_fstsw S ins r =
     Some (set_mem (f_stsw S (op_reg_index (opnd0 ins)) (rtop r) (rstat r) (rmem r)) r)"

definition x_fldcw :: "('v, 'm, 's) fpu \<Rightarrow> irinstr \<Rightarrow> ('v, 'm, 's) rstate \<Rightarrow> ('v, 'm, 's) rstate option" where
  "x_fldcw S ins r = Some (set_stat (f_ldcw S (opnd0 ins) (rmem r) (rstat r)) r)"

definition x_fnstcw :: "('v, 'm, 's) fpu \<Rightarrow> irinstr \<Rightarrow> ('v, 'm, 's) rstate \<Rightarrow> ('v, 'm, 's) rstate option" where
  "x_fnstcw S ins r = Some (set_mem (f_stcw S (opnd0 ins) (rstat r) (rmem r)) r)"

section \<open>Integer instructions\<close>

text \<open>What an integer instruction of the bridge set does, \<open>None\<close> for no action at all.\<close>

definition is64 :: "ioperand \<Rightarrow> bool" where
  "is64 p \<longleftrightarrow> opsize p = S64"

definition mov_act :: "ioperand \<Rightarrow> ioperand \<Rightarrow> bridge_act" where
  "mov_act dst src =
     (if kind dst = Register then
        (case kind src of
           Register \<Rightarrow> ActMovRR (is64 dst) (op_reg_index dst) (op_reg_index src)
         | BranchOffset \<Rightarrow> ActMovRI (is64 dst) (op_reg_index dst) (disp src)
         | _ \<Rightarrow> ActLoad (is64 dst) (op_reg_index dst) src)
      else ActStore (is64 src) (op_reg_index src) dst)"

definition alu_act :: "int \<Rightarrow> ioperand \<Rightarrow> ioperand \<Rightarrow> bridge_act" where
  "alu_act k dst src =
     (if kind dst = Register then
        (case kind src of
           Register \<Rightarrow> ActAluRR (is64 dst) k (op_reg_index dst) (op_reg_index src)
         | BranchOffset \<Rightarrow> ActAluRI (is64 dst) k (op_reg_index dst) (disp src)
         | _ \<Rightarrow> ActAluRM (is64 dst) k (op_reg_index dst) src)
      else ActAluMR (is64 src) k (op_reg_index src) dst)"

definition ext_act :: "bool \<Rightarrow> ioperand \<Rightarrow> ioperand \<Rightarrow> bridge_act" where
  "ext_act sx dst src =
     (let cls = (if opsize src = S8 then (if reg_byte src AND 0xF0 = 0x10 then 1 else 0)
                 else if opsize src = S16 then 2 else 3) in
      ActExt (is64 dst) (op_reg_index dst) (op_reg_index src) (cls OR (if sx then 4 else 0)))"

definition int_act :: "irinstr \<Rightarrow> bridge_act option" where
  "int_act ins =
     (let op = opcode ins; dst = opnd0 ins; src = opnd1 ins in
      if op = kOpcodeName_mov then Some (mov_act dst src)
      else if op = kOpcodeName_lea then Some (ActLea (is64 dst) (op_reg_index dst) src)
      else if op = kOpcodeName_movzx then Some (ext_act False dst src)
      else if op \<in> {kOpcodeName_movsx, kOpcodeName_movsxd} then Some (ext_act True dst src)
      else if op = kOpcodeName_inc then
        Some (ActAluRI (is64 dst) kBridgeAluAdd (op_reg_index dst) 1)
      else if op = kOpcodeName_dec then
        Some (ActAluRI (is64 dst) kBridgeAluSub (op_reg_index dst) 1)
      else if op = kOpcodeName_add then Some (alu_act kBridgeAluAdd dst src)
      else if op = kOpcodeName_sub then Some (alu_act kBridgeAluSub dst src)
      else if op = kOpcodeName_and then Some (alu_act kBridgeAluAnd dst src)
      else if op = kOpcodeName_or then Some (alu_act kBridgeAluOr dst src)
      else if op = kOpcodeName_xor then Some (alu_act kBridgeAluXor dst src)
      else None)"

definition x_int :: "('v, 'm, 's) fpu \<Rightarrow> irinstr \<Rightarrow> ('v, 'm, 's) rstate \<Rightarrow> ('v, 'm, 's) rstate option" where
  "x_int S ins r =
     Some (case int_act ins of None \<Rightarrow> r | Some a \<Rightarrow> set_mem (f_int S a (rmem r)) r)"

section \<open>One instruction, a run of instructions\<close>

definition ldconst_bits :: "u16 \<Rightarrow> u64" where
  "ldconst_bits op =
     (if op = kOpcodeName_fldl2e then 0x3FF71547652B82FE
      else if op = kOpcodeName_fldl2t then 0x400A934F0979A371
      else if op = kOpcodeName_fldlg2 then 0x3FD34413509F79FF
      else if op = kOpcodeName_fldln2 then 0x3FE62E42FEFA39EF
      else 0x400921FB54442D18)"

definition x87_exec ::
  "('v, 'm, 's) fpu \<Rightarrow> irinstr \<Rightarrow> ('v, 'm, 's) rstate \<Rightarrow> ('v, 'm, 's) rstate option" where
  "x87_exec S ins =
     (let op = opcode ins in
      if op = kOpcodeName_fldz then x_const S 0
      else if op = kOpcodeName_fld1 then x_const S bits_one
      else if op \<in> {kOpcodeName_fldl2e, kOpcodeName_fldl2t, kOpcodeName_fldlg2,
                    kOpcodeName_fldln2, kOpcodeName_fldpi} then x_const S (ldconst_bits op)
      else if op = kOpcodeName_fld then x_fld S ins
      else if op = kOpcodeName_fild then x_fild S ins
      else if op \<in> {kOpcodeName_fst, kOpcodeName_fst_stack, kOpcodeName_fstp,
                    kOpcodeName_fstp_stack} then x_fst S ins (op \<in> {kOpcodeName_fstp, kOpcodeName_fstp_stack})
      else if op \<in> {kOpcodeName_fistp, kOpcodeName_fist, kOpcodeName_fisttp} then x_fist S ins (op = kOpcodeName_fisttp) (op \<noteq> kOpcodeName_fist)
      else if op = kOpcodeName_fadd then x_arith S ins ArAdd False
      else if op = kOpcodeName_fsub then x_arith S ins ArSub False
      else if op = kOpcodeName_fsubr then x_arith S ins ArSub True
      else if op = kOpcodeName_fmul then x_arith S ins ArMul False
      else if op = kOpcodeName_fdiv then x_arith S ins ArDiv False
      else if op = kOpcodeName_fdivr then x_arith S ins ArDiv True
      else if op = kOpcodeName_fiadd then x_fiarith S ins ArAdd False
      else if op = kOpcodeName_fisub then x_fiarith S ins ArSub False
      else if op = kOpcodeName_fisubr then x_fiarith S ins ArSub True
      else if op = kOpcodeName_fimul then x_fiarith S ins ArMul False
      else if op = kOpcodeName_fidiv then x_fiarith S ins ArDiv False
      else if op = kOpcodeName_fidivr then x_fiarith S ins ArDiv True
      else if op = kOpcodeName_faddp then x_arithp S ins ArAdd False
      else if op = kOpcodeName_fsubp then x_arithp S ins ArSub False
      else if op = kOpcodeName_fsubrp then x_arithp S ins ArSub True
      else if op = kOpcodeName_fmulp then x_arithp S ins ArMul False
      else if op = kOpcodeName_fdivp then x_arithp S ins ArDiv False
      else if op = kOpcodeName_fdivrp then x_arithp S ins ArDiv True
      else if op = kOpcodeName_fchs then x_unary (f_neg S)
      else if op = kOpcodeName_fabs then x_unary (f_abs S)
      else if op = kOpcodeName_fsqrt then x_unary (f_sqrt S)
      else if op = kOpcodeName_frndint then (\<lambda>r. x_unary (f_rndint S (rstat r)) r)
      else if op = kOpcodeName_fsin then x_unary (f_sin S)
      else if op = kOpcodeName_fcos then x_unary (f_cos S)
      else if op = kOpcodeName_fsincos then x_fsincos S
      else if op = kOpcodeName_fptan then x_fptan S
      else if op = kOpcodeName_fpatan then x_st1_pop (f_patan S)
      else if op = kOpcodeName_fyl2x then x_st1_pop (f_yl2x S)
      else if op = kOpcodeName_fscale then x_fscale S
      else if op = kOpcodeName_fxch then x_fxch ins
      else if op \<in> {kOpcodeName_fcom, kOpcodeName_fucom} then x_fcom S ins 0 False
      else if op \<in> {kOpcodeName_fcomp, kOpcodeName_fucomp} then x_fcom S ins 1 False
      else if op \<in> {kOpcodeName_fcompp, kOpcodeName_fucompp} then x_fcom S ins 2 True
      else if op = kOpcodeName_ficom then x_ficom S ins False
      else if op = kOpcodeName_ficomp then x_ficom S ins True
      else if op \<in> {kOpcodeName_fcomi, kOpcodeName_fucomi} then x_fcomi S ins False
      else if op \<in> {kOpcodeName_fcomip, kOpcodeName_fucomip} then x_fcomi S ins True
      else if op = kOpcodeName_fcmovb then x_fcmov S ins 3
      else if op = kOpcodeName_fcmovbe then x_fcmov S ins 9
      else if op = kOpcodeName_fcmove then x_fcmov S ins 0
      else if op = kOpcodeName_fcmovnb then x_fcmov S ins 2
      else if op = kOpcodeName_fcmovnbe then x_fcmov S ins 8
      else if op = kOpcodeName_fcmovne then x_fcmov S ins 1
      else if op = kOpcodeName_fcmovu then x_fcmov S ins kFcmovCondPF
      else if op = kOpcodeName_fcmovnu then x_fcmov S ins kFcmovCondNPF
      else if op = kOpcodeName_ftst then x_ftst S
      else if op = kOpcodeName_fstsw then x_fstsw S ins
      else if op = kOpcodeName_fldcw then x_fldcw S ins
      else if op = kOpcodeName_fnstcw then x_fnstcw S ins
      else if op = kOpcodeName_fnop then Some
      else x_int S ins)"

fun x87_run ::
  "('v, 'm, 's) fpu \<Rightarrow> irinstr list \<Rightarrow> ('v, 'm, 's) rstate \<Rightarrow> ('v, 'm, 's) rstate option" where
  "x87_run S [] r = Some r"
| "x87_run S (ins # rest) r =
     (case x87_exec S ins r of None \<Rightarrow> None | Some r' \<Rightarrow> x87_run S rest r')"

lemma x87_run_append:
  "x87_run S (xs @ ys) r = Option.bind (x87_run S xs r) (x87_run S ys)"
  by (induction xs arbitrary: r) (auto split: option.splits)

definition rinit :: "(nat \<Rightarrow> 'v) \<Rightarrow> 'm \<Rightarrow> 's \<Rightarrow> ('v, 'm, 's) rstate" where
  "rinit st0 m s = \<lparr>ring = map (\<lambda>i. Some (st0 i)) [0..<8], rtop = 0, rmem = m, rstat = s\<rparr>"

end
