(* ===== verification/X87_Sim.thy ===== *)
theory X87_Sim
  imports X87_Build X87_Ref
begin

text \<open>
  The relation \<open>sim\<close> between a build context and a state of the reference machine, one rule for
  each primitive operation of the context, and the rules for the builder's control flow: fetch an
  operand or fail, append a node or fail.
\<close>

section \<open>Well-formed contexts\<close>

definition node_ok :: "nat \<Rightarrow> node \<Rightarrow> bool" where
  "node_ok i n \<longleftrightarrow> (\<forall>x \<in> set (node_refs n). x < int i)"

definition wf_ctx :: "ctx \<Rightarrow> bool" where
  "wf_ctx c \<longleftrightarrow>
     length (slot_val c) = 8 \<and> length (initial_read c) = 8 \<and> length (nodes c) \<le> kMaxNodes \<and>
     (\<forall>v \<in> set (slot_val c). v < int (length (nodes c))) \<and>
     (\<forall>i < length (nodes c). node_ok i (nodes c ! i)) \<and>
     last_fcmp c < int (length (nodes c)) \<and> length (node_src c) \<le> length (nodes c)"

definition read_ok :: "ctx \<Rightarrow> nat \<Rightarrow> bool" where
  "read_ok c d \<longleftrightarrow>
     initial_read c ! d < int (length (nodes c)) \<and>
     (0 \<le> initial_read c ! d \<longrightarrow>
        nop (nodes c ! nat (initial_read c ! d)) = ReadSt \<and>
        npay (nodes c ! nat (initial_read c ! d)) = PDepth (int d))"

definition wf_build :: "ctx \<Rightarrow> bool" where
  "wf_build c \<longleftrightarrow>
     wf_ctx c \<and> (\<forall>n \<in> set (nodes c). \<not> has_flag kDead n) \<and> (\<forall>d < 8. read_ok c d)"

definition append_node :: "node \<Rightarrow> ctx \<Rightarrow> ctx" where
  "append_node n c = c\<lparr>nodes := nodes c @ [n]\<rparr>"

definition mk_node :: "irop \<Rightarrow> int \<Rightarrow> int \<Rightarrow> int \<Rightarrow> node" where
  "mk_node op a b d = \<lparr>nop = op, nflags = kNone, nin0 = a, nin1 = b, nin2 = d, npay = PImm 0\<rparr>"

lemma mk_node_sel [simp]:
  "nop (mk_node op a b d) = op" "nflags (mk_node op a b d) = 0" "nin0 (mk_node op a b d) = a"
  "nin1 (mk_node op a b d) = b" "nin2 (mk_node op a b d) = d" "npay (mk_node op a b d) = PImm 0"
  by (simp_all add: mk_node_def)

lemma append_node_sel [ctx_simps]:
  "nodes (append_node n c) = nodes c @ [n]" "slot_val (append_node n c) = slot_val c"
  "top_delta (append_node n c) = top_delta c" "initial_read (append_node n c) = initial_read c"
  "last_fcmp (append_node n c) = last_fcmp c" "last_fcomi (append_node n c) = last_fcomi c"
  "node_src (append_node n c) = node_src c" "consumed (append_node n c) = consumed c"
  by (simp_all add: append_node_def)

lemma add_node_eq:
  "add_node op a b d c =
     (if length (nodes c) \<ge> kMaxNodes then (-1, c)
      else (int (length (nodes c)), append_node (mk_node op a b d) c))"
  by (simp add: add_node_def append_node_def mk_node_def)

lemma set_payload_append [ctx_simps]:
  "set_payload (int (length (nodes c))) p (append_node n c) = append_node (n\<lparr>npay := p\<rparr>) c"
  by (simp add: set_payload_def append_node_def)

lemma set_flag_append [ctx_simps]:
  "set_flag (int (length (nodes c))) f (append_node n c) = append_node (or_flag f n) c"
  by (simp add: set_flag_def append_node_def)

lemma set_inputs_append [ctx_simps]:
  "set_inputs (int (length (nodes c))) a b d (append_node n c) =
     append_node (n\<lparr>nin0 := a, nin1 := b, nin2 := d\<rparr>) c"
  by (simp add: set_inputs_def append_node_def)

lemma eval_ctx_append:
  "eval_ctx S st0 m s (append_node n c) =
     eval_node S st0 (length (nodes c)) n (eval_ctx S st0 m s c)"
  by (simp add: eval_ctx_def append_node_def eval_nodes_append)

section \<open>The relation and its primitive rules\<close>

definition sim ::
  "('v, 'm, 's) fpu \<Rightarrow> (nat \<Rightarrow> 'v) \<Rightarrow> 'm \<Rightarrow> 's \<Rightarrow> ctx \<Rightarrow> ('v, 'm, 's) rstate \<Rightarrow> bool" where
  "sim S st0 m s c r \<longleftrightarrow> wf_build c \<and> denote S st0 m s c = r"

definition holds ::
  "('v, 'm, 's) fpu \<Rightarrow> (nat \<Rightarrow> 'v) \<Rightarrow> 'm \<Rightarrow> 's \<Rightarrow> ctx \<Rightarrow> int \<Rightarrow> 'v \<Rightarrow> bool" where
  "holds S st0 m s c i v \<longleftrightarrow>
     0 \<le> i \<and> i < int (length (nodes c)) \<and> cenv (eval_ctx S st0 m s c) (nat i) = v"

lemma sim_ring_length: "sim S st0 m s c r \<Longrightarrow> length (ring r) = 8"
  by (auto simp: sim_def wf_build_def wf_ctx_def denote_def Let_def)

lemma sim_slot_length: "sim S st0 m s c r \<Longrightarrow> length (slot_val c) = 8"
  by (auto simp: sim_def wf_build_def wf_ctx_def)

lemma sim_rtop: "sim S st0 m s c r \<Longrightarrow> rtop r = top_delta c"
  by (auto simp: sim_def denote_def Let_def)

lemma slot_result_mono:
  "v < int i \<Longrightarrow> slot_result S st0 (cenv (eval_node S st0 i n k)) v = slot_result S st0 (cenv k) v"
  by (auto simp: slot_result_def eval_node_env_other)

lemma node_ok_append: "i < length xs \<Longrightarrow> node_ok i ((xs @ ys) ! i) = node_ok i (xs ! i)"
  by (simp add: nth_append)

lemma wf_build_append:
  assumes "wf_build c" "length (nodes c) < kMaxNodes" "node_ok (length (nodes c)) n"
    "\<not> has_flag kDead n"
  shows "wf_build (append_node n c)"
proof -
  have "read_ok (append_node n c) d" if "d < 8" for d
    using assms(1) that by (auto simp: wf_build_def read_ok_def append_node_def nth_append)
  moreover have "node_ok i ((nodes c @ [n]) ! i)" if "i < Suc (length (nodes c))" for i
    using assms that
    by (cases "i = length (nodes c)") (auto simp: nth_append wf_build_def wf_ctx_def)
  ultimately show ?thesis
    using assms by (auto simp: wf_build_def wf_ctx_def append_node_def)
qed

lemma holds_append:
  "holds S st0 m s c i v \<Longrightarrow> holds S st0 m s (append_node n c) i v"
  by (auto simp: holds_def eval_ctx_append append_node_sel eval_node_env_other)

lemma nval_holds: "holds S st0 m s c i v \<Longrightarrow> nval S (cenv (eval_ctx S st0 m s c)) i = v"
  by (auto simp: holds_def nval_def)

lemma denote_append_ring:
  assumes "wf_build c"
  shows "map (slot_result S st0 (cenv (eval_node S st0 (length (nodes c)) n k))) (slot_val c) =
    map (slot_result S st0 (cenv k)) (slot_val c)"
  using assms by (auto simp: wf_build_def wf_ctx_def intro!: slot_result_mono)

text \<open>
  \<open>nval_at\<close> reads the value of a node reference from a context.
\<close>

definition nval_at ::
  "('v, 'm, 's) fpu \<Rightarrow> (nat \<Rightarrow> 'v) \<Rightarrow> 'm \<Rightarrow> 's \<Rightarrow> ctx \<Rightarrow> int \<Rightarrow> 'v" where
  "nval_at S st0 m s c = nval S (cenv (eval_ctx S st0 m s c))"

lemma nval_at_holds: "holds S st0 m s c i v \<Longrightarrow> nval_at S st0 m s c i = v"
  by (simp add: nval_at_def nval_holds)

text \<open>A value node changes no observable part of the state.\<close>

lemma value_op_no_effect:
  "is_value_op (nop n) \<Longrightarrow> node_mem S n v m s = m"
  "is_value_op (nop n) \<Longrightarrow> node_stat S n v m s = s"
  by (auto simp: node_mem_def node_stat_def Let_def)

lemma eval_node_live:
  assumes "\<not> has_flag kDead n"
  shows "cmem (eval_node S st0 i n k) = node_mem S n (nval S (cenv k)) (cmem k) (cstat k)"
    "cstat (eval_node S st0 i n k) = node_stat S n (nval S (cenv k)) (cmem k) (cstat k)"
    "is_value_op (nop n) \<Longrightarrow>
      cenv (eval_node S st0 i n k) i = node_value S st0 n (nval S (cenv k)) (cmem k) (cstat k)"
  using assms by (simp_all add: eval_node_def Let_def del: is_value_op.simps)

lemma sim_append_value:
  assumes "sim S st0 m s c r" "length (nodes c) < kMaxNodes" "node_ok (length (nodes c)) n"
    "\<not> has_flag kDead n" "is_value_op (nop n)"
  shows "sim S st0 m s (append_node n c) r"
    "holds S st0 m s (append_node n c) (int (length (nodes c)))
       (node_value S st0 n (nval_at S st0 m s c) (rmem r) (rstat r))"
proof -
  have wf: "wf_build c" and r: "denote S st0 m s c = r"
    using assms(1) by (auto simp: sim_def)
  show "sim S st0 m s (append_node n c) r"
    using wf_build_append [OF wf assms(2-4)] assms(4,5) r denote_append_ring [OF wf, of S st0 n "eval_ctx S st0 m s c"]
    by (auto simp: sim_def denote_def eval_ctx_append Let_def append_node_sel
        eval_node_live value_op_no_effect simp del: is_value_op.simps)
  have "rmem r = cmem (eval_ctx S st0 m s c)" "rstat r = cstat (eval_ctx S st0 m s c)"
    by (simp_all add: r [symmetric] denote_def Let_def)
  then show "holds S st0 m s (append_node n c) (int (length (nodes c)))
       (node_value S st0 n (nval_at S st0 m s c) (rmem r) (rstat r))"
    using assms(4,5)
    by (simp add: holds_def eval_ctx_append append_node_sel eval_node_live nval_at_def
        del: is_value_op.simps)
qed

lemma sim_append_effect:
  assumes "sim S st0 m s c r" "length (nodes c) < kMaxNodes" "node_ok (length (nodes c)) n"
    "\<not> has_flag kDead n" "\<not> is_value_op (nop n)"
  shows "sim S st0 m s (append_node n c)
    (set_stat (node_stat S n (nval_at S st0 m s c) (rmem r) (rstat r))
      (set_mem (node_mem S n (nval_at S st0 m s c) (rmem r) (rstat r)) r))"
proof -
  have wf: "wf_build c" and r: "denote S st0 m s c = r"
    using assms(1) by (auto simp: sim_def)
  show ?thesis
    using wf_build_append [OF wf assms(2-4)] assms(4,5) denote_append_ring [OF wf, of S st0 n "eval_ctx S st0 m s c"]
    by (auto simp: sim_def denote_def eval_ctx_append Let_def append_node_sel r [symmetric]
        eval_node_live set_mem_def set_stat_def nval_at_def simp del: is_value_op.simps)
qed

subsection \<open>Slots\<close>

lemma set_slot_sel [ctx_simps]:
  "nodes (set_slot d v c) = nodes c" "slot_val (set_slot d v c) = (slot_val c)[nat d := v]"
  "top_delta (set_slot d v c) = top_delta c" "initial_read (set_slot d v c) = initial_read c"
  "last_fcmp (set_slot d v c) = last_fcmp c" "node_src (set_slot d v c) = node_src c"
  by (simp_all add: set_slot_def)

lemma eval_ctx_nodes: "nodes c' = nodes c \<Longrightarrow> eval_ctx S st0 m s c' = eval_ctx S st0 m s c"
  by (simp add: eval_ctx_def)

lemma holds_nodes: "nodes c' = nodes c \<Longrightarrow> holds S st0 m s c' i v = holds S st0 m s c i v"
  by (simp add: holds_def eval_ctx_nodes [of c' c])

lemma holds_set_slot: "holds S st0 m s (set_slot d w c) i v = holds S st0 m s c i v"
  by (rule holds_nodes) (simp add: set_slot_sel)

lemma nval_at_nodes: "nodes c' = nodes c \<Longrightarrow> nval_at S st0 m s c' = nval_at S st0 m s c"
  by (simp add: nval_at_def eval_ctx_nodes [of c' c])

lemma slot_result_holds: "holds S st0 m s c i v \<Longrightarrow> slot_result S st0 (cenv (eval_ctx S st0 m s c)) i = Some v"
  by (auto simp: holds_def slot_result_def)

lemma wf_build_slots:
  assumes "wf_build c" "nodes c' = nodes c" "initial_read c' = initial_read c"
    "last_fcmp c' = last_fcmp c" "node_src c' = node_src c" "length (slot_val c') = 8"
    "\<forall>v \<in> set (slot_val c'). v < int (length (nodes c))"
  shows "wf_build c'"
  using assms by (auto simp: wf_build_def wf_ctx_def read_ok_def)

lemma sim_wf: "sim S st0 m s c r \<Longrightarrow> wf_build c"
  by (simp add: sim_def)

lemma sim_slot_bound: "sim S st0 m s c r \<Longrightarrow> v \<in> set (slot_val c) \<Longrightarrow> v < int (length (nodes c))"
  by (simp add: sim_def wf_build_def wf_ctx_def)

lemma holds_bound: "holds S st0 m s c i v \<Longrightarrow> i < int (length (nodes c))"
  by (simp add: holds_def)

lemma sim_reslot:
  assumes sim: "sim S st0 m s c r"
    and c': "c' = c\<lparr>slot_val := vs, top_delta := t\<rparr>"
    and len: "length vs = 8" and bnd: "\<And>v. v \<in> set vs \<Longrightarrow> v < int (length (nodes c))"
    and ring: "map (slot_result S st0 (cenv (eval_ctx S st0 m s c))) vs = g"
  shows "sim S st0 m s c' (r\<lparr>ring := g, rtop := t\<rparr>)"
proof -
  have "wf_build c'"
    by (rule wf_build_slots [OF sim_wf [OF sim]]) (use len bnd in \<open>simp_all add: c'\<close>)
  moreover have ev: "eval_ctx S st0 m s c' = eval_ctx S st0 m s c"
    by (rule eval_ctx_nodes) (simp add: c')
  have "denote S st0 m s c' = (denote S st0 m s c)\<lparr>ring := g, rtop := t\<rparr>"
    unfolding denote_def ev Let_def by (simp add: c' ring)
  moreover have "denote S st0 m s c = r"
    using sim by (simp only: sim_def)
  ultimately show ?thesis
    by (simp only: sim_def)
qed

lemma sim_ring: "sim S st0 m s c r \<Longrightarrow> ring r = map (slot_result S st0 (cenv (eval_ctx S st0 m s c))) (slot_val c)"
  by (auto simp: sim_def denote_def Let_def)

lemma sim_set_slot:
  assumes "sim S st0 m s c r" "holds S st0 m s c i v" "0 \<le> d" "d < 8"
  shows "sim S st0 m s (set_slot d i c) (st_set d v r)"
proof -
  have "sim S st0 m s (set_slot d i c) (r\<lparr>ring := (ring r)[nat d := Some v], rtop := top_delta c\<rparr>)"
    using assms(1)
  proof (rule sim_reslot)
    show "set_slot d i c = c\<lparr>slot_val := (slot_val c)[nat d := i], top_delta := top_delta c\<rparr>"
      by (simp add: set_slot_def)
    show "w < int (length (nodes c))" if "w \<in> set ((slot_val c)[nat d := i])" for w
      using set_update_subset_insert [THEN subsetD, OF that] sim_slot_bound [OF assms(1), of w]
        holds_bound [OF assms(2)] by auto
  qed (simp_all add: sim_slot_length [OF assms(1)] map_update slot_result_holds [OF assms(2)]
        sim_ring [OF assms(1)])
  then show ?thesis
    by (simp add: st_set_def sim_rtop [OF assms(1), symmetric])
qed

lemma sim_push:
  assumes "sim S st0 m s c r" "holds S st0 m s c i v"
  shows "sim S st0 m s (push i c) (st_push v r)"
  unfolding st_push_def sim_rtop [OF assms(1)]
  using assms(1)
proof (rule sim_reslot)
  show "push i c = c\<lparr>slot_val := i # take 7 (slot_val c), top_delta := top_delta c - 1\<rparr>"
    by (simp add: push_def)
  show "w < int (length (nodes c))" if "w \<in> set (i # take 7 (slot_val c))" for w
    using that holds_bound [OF assms(2)] sim_slot_bound [OF assms(1), of w]
    by (auto dest: in_set_takeD)
qed (simp_all add: sim_slot_length [OF assms(1)] slot_result_holds [OF assms(2)] take_map
      sim_ring [OF assms(1)])

lemma sim_pop:
  assumes "sim S st0 m s c r"
  shows "sim S st0 m s (pop c) (st_pop r)"
  unfolding st_pop_def sim_rtop [OF assms(1)]
  using assms(1)
proof (rule sim_reslot)
  show "pop c = c\<lparr>slot_val := drop 1 (slot_val c) @ [-100], top_delta := top_delta c + 1\<rparr>"
    by (simp add: pop_def)
  show "w < int (length (nodes c))" if "w \<in> set (drop 1 (slot_val c) @ [-100])" for w
    using that sim_slot_bound [OF assms(1), of w] by (auto dest: in_set_dropD)
qed (simp_all add: sim_slot_length [OF assms(1)] slot_result_def drop_map sim_ring [OF assms(1)])

lemma sim_pops: "sim S st0 m s c r \<Longrightarrow> sim S st0 m s ((pop ^^ k) c) ((st_pop ^^ k) r)"
  by (induction k) (auto intro: sim_pop)

lemma sim_same:
  assumes "sim S st0 m s c r" "nodes c' = nodes c" "slot_val c' = slot_val c"
    "top_delta c' = top_delta c" "initial_read c' = initial_read c"
    "length (node_src c') \<le> length (nodes c)" "last_fcmp c' < int (length (nodes c))"
  shows "sim S st0 m s c' r"
proof -
  have "wf_build c'"
    using assms by (simp add: sim_def wf_build_def wf_ctx_def read_ok_def)
  moreover have "denote S st0 m s c' = denote S st0 m s c"
    using assms by (simp add: denote_def eval_ctx_nodes [of c' c])
  ultimately show ?thesis
    using assms(1) by (simp add: sim_def)
qed

lemma sim_fcmp_bound: "sim S st0 m s c r \<Longrightarrow> last_fcmp c < int (length (nodes c))"
  using sim_wf [of S st0 m s c r] by (simp only: wf_build_def wf_ctx_def)

lemma sim_src_bound: "sim S st0 m s c r \<Longrightarrow> length (node_src c) \<le> length (nodes c)"
  using sim_wf [of S st0 m s c r] by (simp only: wf_build_def wf_ctx_def)

lemma sim_last_fcmp:
  "sim S st0 m s c r \<Longrightarrow> i < int (length (nodes c)) \<Longrightarrow> sim S st0 m s (set_last_fcmp i c) r"
  by (frule sim_src_bound, erule sim_same) (simp_all add: set_last_fcmp_def)

lemma sim_last_fcomi: "sim S st0 m s c r \<Longrightarrow> sim S st0 m s (set_last_fcomi i c) r"
  by (frule sim_src_bound, frule sim_fcmp_bound, erule sim_same) (simp_all add: set_last_fcomi_def)

lemma sim_fail_opcode: "sim S st0 m s c r \<Longrightarrow> sim S st0 m s (set_fail_opcode i c) r"
  by (frule sim_src_bound, frule sim_fcmp_bound, erule sim_same) (simp_all add: set_fail_opcode_def)

lemma sim_attribute: "sim S st0 m s c r \<Longrightarrow> sim S st0 m s (attribute_nodes i c) r"
  by (frule sim_src_bound, frule sim_fcmp_bound, erule sim_same) (simp_all add: attribute_nodes_def)

lemma sim_consumed: "sim S st0 m s c r \<Longrightarrow> sim S st0 m s (c\<lparr>consumed := i\<rparr>) r"
  by (frule sim_src_bound, frule sim_fcmp_bound, erule sim_same) simp_all

subsection \<open>Resolving a stack position\<close>

lemma eval_nodes_read:
  assumes "j < length ns" "nop (ns ! j) = ReadSt" "npay (ns ! j) = PDepth (int d)"
    "\<not> has_flag kDead (ns ! j)"
  shows "cenv (eval_nodes S st0 0 ns k) j = st0 d"
proof -
  have ns: "ns = take j ns @ ns ! j # drop (Suc j) ns"
    using assms(1) by (simp add: id_take_nth_drop)
  have "cenv (eval_nodes S st0 0 ns k) j =
      cenv (eval_node S st0 j (ns ! j) (eval_nodes S st0 0 (take j ns) k)) j"
    using assms(1) by (subst ns) (simp add: eval_nodes_append min_def eval_nodes_env_other)
  also have "\<dots> = st0 d"
    using assms by (subst eval_node_live) (simp_all add: node_value_def pay_depth_def)
  finally show ?thesis .
qed

lemma read_value:
  assumes "sim S st0 m s c r" "d < 8" "0 \<le> initial_read c ! d"
  shows "holds S st0 m s c (initial_read c ! d) (st0 d)"
proof -
  let ?i = "initial_read c ! d"
  have ok: "read_ok c d" and nd: "\<forall>n \<in> set (nodes c). \<not> has_flag kDead n"
    using sim_wf [OF assms(1)] assms(2) by (simp_all add: wf_build_def)
  then have "nat ?i < length (nodes c)"
    using assms(3) by (simp add: read_ok_def nat_less_iff)
  then show ?thesis
    using ok nd assms(3) by (simp add: holds_def read_ok_def eval_ctx_def eval_nodes_read)
qed

lemma sim_get:
  assumes "sim S st0 m s c r" "0 \<le> d" "d < 8"
  shows "st_get d r = slot_result S st0 (cenv (eval_ctx S st0 m s c)) (slot_val c ! nat d)"
  using assms by (simp add: st_get_def sim_ring [OF assms(1)] sim_slot_length [OF assms(1)])

lemma st_set_same: "0 \<le> d \<Longrightarrow> st_get d r = Some v \<Longrightarrow> st_set d v r = r"
  by (auto simp: st_get_def st_set_def list_update_same_conv split: if_splits)
    (metis list_update_id rstate.surjective rstate.update_convs(1))

definition new_read :: "nat \<Rightarrow> ctx \<Rightarrow> ctx" where
  "new_read d c =
     (append_node ((mk_node ReadSt (-1) (-1) (-1))\<lparr>npay := PDepth (int d)\<rparr>) c)
       \<lparr>initial_read := (initial_read c)[d := int (length (nodes c))]\<rparr>"

lemma not_dead_fresh [simp]: "\<not> has_flag kDead (mk_node op a b d)"
  by (simp add: has_flag_def)

lemma sim_new_read:
  assumes "sim S st0 m s c r" "length (nodes c) < kMaxNodes" "d < 8"
  shows "sim S st0 m s (new_read d c) r"
    "holds S st0 m s (new_read d c) (int (length (nodes c))) (st0 d)"
    "holds S st0 m s c j v \<Longrightarrow> holds S st0 m s (new_read d c) j v"
proof -
  let ?n = "(mk_node ReadSt (-1) (-1) (-1))\<lparr>npay := PDepth (int d)\<rparr>"
  let ?c = "append_node ?n c"
  have n: "node_ok (length (nodes c)) ?n" "\<not> has_flag kDead ?n" "is_value_op (nop ?n)"
    by (simp_all add: node_ok_def node_refs_def node_ref_input_count_def ninputs_def has_flag_def)
  note ap = sim_append_value [OF assms(1,2) n]
  have sel: "nodes (new_read d c) = nodes ?c" "slot_val (new_read d c) = slot_val ?c"
    "last_fcmp (new_read d c) = last_fcmp ?c" "node_src (new_read d c) = node_src ?c"
    "initial_read (new_read d c) = (initial_read c)[d := int (length (nodes c))]"
    "top_delta (new_read d c) = top_delta ?c"
    by (simp_all add: new_read_def)
  note nodes = sel(1)
  have len: "length (initial_read c) = 8" and old: "\<And>e. e < 8 \<Longrightarrow> read_ok ?c e"
    using sim_wf [OF ap(1)] by (simp_all add: wf_build_def wf_ctx_def append_node_sel)
  have "read_ok (new_read d c) e" if "e < 8" for e
    using old [OF that] len assms(3)
    by (cases "e = d") (simp_all add: read_ok_def new_read_def append_node_sel)
  then have "wf_build (new_read d c)"
    using sim_wf [OF ap(1)] len by (simp add: wf_build_def wf_ctx_def sel)
  moreover have "denote S st0 m s (new_read d c) = denote S st0 m s ?c"
    by (simp add: denote_def eval_ctx_nodes [OF nodes] sel)
  ultimately show "sim S st0 m s (new_read d c) r"
    using ap(1) by (simp add: sim_def)
  show "holds S st0 m s (new_read d c) (int (length (nodes c))) (st0 d)"
    using ap(2) by (simp add: holds_nodes [OF nodes] node_value_def pay_depth_def)
  show "holds S st0 m s c j v \<Longrightarrow> holds S st0 m s (new_read d c) j v"
    by (simp add: holds_nodes [OF nodes] holds_append)
qed

lemma resolve_eq:
  assumes "length (slot_val c) = 8" "length (initial_read c) = 8"
  shows "resolve d c =
    (if d < 0 \<or> d \<ge> 8 then (-1, c)
     else if 0 \<le> slot_val c ! nat d then (slot_val c ! nat d, c)
     else let e = - (slot_val c ! nat d + 1) in
       if e < 0 \<or> e \<ge> 8 then (-1, c)
       else if 0 \<le> initial_read c ! nat e then
         (initial_read c ! nat e, set_slot d (initial_read c ! nat e) c)
       else if length (nodes c) \<ge> kMaxNodes then (-1, c)
       else (int (length (nodes c)), set_slot d (int (length (nodes c))) (new_read (nat e) c)))"
  by (simp add: resolve_def Let_def add_node_eq ctx_simps new_read_def)
    (simp add: set_slot_def append_node_def)

lemma resolve_sim:
  assumes sim: "sim S st0 m s c r" and res: "resolve d c = (i, c1)"
  shows "sim S st0 m s c1 r" (is ?A)
    and "holds S st0 m s c j w \<Longrightarrow> holds S st0 m s c1 j w" (is "?h \<Longrightarrow> ?B")
    and "0 \<le> i \<Longrightarrow> \<exists>v. st_get d r = Some v \<and> holds S st0 m s c1 i v" (is "_ \<Longrightarrow> ?C")
proof -
  have len: "length (slot_val c) = 8" "length (initial_read c) = 8"
    using sim_wf [OF sim] by (simp_all add: wf_build_def wf_ctx_def)
  let ?v = "slot_val c ! nat d" and ?e = "- (slot_val c ! nat d + 1)"
  have "?A \<and> (?h \<longrightarrow> ?B) \<and> (0 \<le> i \<longrightarrow> ?C)"
  proof (cases "d < 0 \<or> d \<ge> 8 \<or> ?v < - 8")
    case True
    then show ?thesis
      using res sim by (auto simp: resolve_eq [OF len] Let_def split: if_splits)
  next
    case False
    then have d: "0 \<le> d" "d < 8" and v8: "- 8 \<le> ?v" by auto
    note get = sim_get [OF sim d]
    show ?thesis
    proof (cases "0 \<le> ?v")
      case True
      then have i: "i = ?v" and c1: "c1 = c"
        using res d by (auto simp: resolve_eq [OF len])
      moreover have "?v < int (length (nodes c))"
        using sim_slot_bound [OF sim] d len by simp
      ultimately show ?thesis
        using True sim get by (auto simp: slot_result_def holds_def i c1)
    next
      case neg: False
      then have e: "0 \<le> ?e" "?e < 8" "nat ?e < 8" using v8 by auto
      have g: "st_get d r = Some (st0 (nat ?e))"
        using neg v8 get by (simp add: slot_result_def)
      note same = st_set_same [OF d(1) g]
      show ?thesis
      proof (cases "0 \<le> initial_read c ! nat ?e")
        case True
        then have i: "i = initial_read c ! nat ?e" and c1: "c1 = set_slot d i c"
          using res d neg e by (auto simp: resolve_eq [OF len] Let_def)
        have h: "holds S st0 m s c i (st0 (nat ?e))"
          using read_value [OF sim e(3) True] by (simp add: i)
        show ?thesis
          using sim_set_slot [OF sim h d, unfolded same] h g
          by (simp add: c1 holds_set_slot)
      next
        case fresh: False
        show ?thesis
        proof (cases "length (nodes c) \<ge> kMaxNodes")
          case True
          then show ?thesis
            using res d neg e fresh sim by (auto simp: resolve_eq [OF len] Let_def)
        next
          case room: False
          then have i: "i = int (length (nodes c))" and c1: "c1 = set_slot d i (new_read (nat ?e) c)"
            using res d neg e fresh by (auto simp: resolve_eq [OF len] Let_def)
          note nr = sim_new_read [OF sim _ e(3)]
          have h: "holds S st0 m s (new_read (nat ?e) c) i (st0 (nat ?e))"
            using nr(2) room by (simp add: i)
          show ?thesis
            using sim_set_slot [OF nr(1) h d, unfolded same] h g nr(3) [of j w] room
            by (simp add: c1 holds_set_slot)
        qed
      qed
    qed
  qed
  then show ?A "?h \<Longrightarrow> ?B" "0 \<le> i \<Longrightarrow> ?C" by auto
qed

section \<open>Rules for the builder's control flow\<close>

text \<open>
  \<open>fetch\<close>: the routine produced the node of an operand whose value is \<open>x\<close>, or failed, and kept
  the relation either way.  \<open>refines\<close>: on success the context matches the stepped machine, on
  failure it still matches the machine before the step.
\<close>

definition fetch ::
  "('v, 'm, 's) fpu \<Rightarrow> (nat \<Rightarrow> 'v) \<Rightarrow> 'm \<Rightarrow> 's \<Rightarrow> ctx \<Rightarrow> ('v, 'm, 's) rstate \<Rightarrow> int \<times> ctx \<Rightarrow>
    'v option \<Rightarrow> bool" where
  "fetch S st0 m s c r res x \<longleftrightarrow> (case res of (i, c1) \<Rightarrow>
     sim S st0 m s c1 r \<and> (\<forall>j w. holds S st0 m s c j w \<longrightarrow> holds S st0 m s c1 j w) \<and>
     (0 \<le> i \<longrightarrow> (\<exists>v. x = Some v \<and> holds S st0 m s c1 i v)))"

definition refines ::
  "('v, 'm, 's) fpu \<Rightarrow> (nat \<Rightarrow> 'v) \<Rightarrow> 'm \<Rightarrow> 's \<Rightarrow> ('v, 'm, 's) rstate \<Rightarrow> ctx act \<Rightarrow>
    ('v, 'm, 's) rstate option \<Rightarrow> bool" where
  "refines S st0 m s r res r' \<longleftrightarrow> (case res of (ok, c1) \<Rightarrow>
     if ok then \<exists>q. r' = Some q \<and> sim S st0 m s c1 q else sim S st0 m s c1 r)"

lemma refines_fail [rel_intros]: "sim S st0 m s c r \<Longrightarrow> refines S st0 m s r (False, c) r'"
  by (simp add: refines_def)

lemma refines_done [rel_intros]: "sim S st0 m s c q \<Longrightarrow> refines S st0 m s r (True, c) (Some q)"
  by (simp add: refines_def)

lemma fetch_resolve [rel_intros]:
  "sim S st0 m s c r \<Longrightarrow> fetch S st0 m s c r (resolve d c) (st_get d r)"
  using resolve_sim [of S st0 m s c r d] unfolding fetch_def
  by (cases "resolve d c") simp

lemma refines_fetch:
  assumes "fetch S st0 m s c r res x"
    and "\<And>v c1 y. sim S st0 m s c1 r \<Longrightarrow> (\<And>j w. holds S st0 m s c j w \<Longrightarrow> holds S st0 m s c1 j w) \<Longrightarrow>
      x = Some y \<Longrightarrow> holds S st0 m s c1 v y \<Longrightarrow> refines S st0 m s r (G v c1) r'"
  shows "refines S st0 m s r (case res of (v, c1) \<Rightarrow> if v < 0 then (False, c1) else G v c1) r'"
proof (cases res)
  case (Pair v c1)
  show ?thesis
  proof (cases "v < 0")
    case True
    then show ?thesis using assms(1) by (simp add: Pair fetch_def refines_def)
  next
    case False
    then have "sim S st0 m s c1 r" "\<And>j w. holds S st0 m s c j w \<Longrightarrow> holds S st0 m s c1 j w"
      "\<exists>y. x = Some y \<and> holds S st0 m s c1 v y"
      using assms(1) by (auto simp: Pair fetch_def)
    then show ?thesis using assms(2) False by (auto simp: Pair)
  qed
qed

lemma refines_fetch2:
  assumes "fetch S st0 m s c r res x"
    and "\<And>c1. sim S st0 m s c1 r \<Longrightarrow> fetch S st0 m s c1 r (g c1) x'"
    and "\<And>v u c2 y y'. sim S st0 m s c2 r \<Longrightarrow> x = Some y \<Longrightarrow> x' = Some y' \<Longrightarrow> holds S st0 m s c2 v y \<Longrightarrow>
      holds S st0 m s c2 u y' \<Longrightarrow> refines S st0 m s r (G v u c2) r'"
  shows "refines S st0 m s r
    (case res of (v, c1) \<Rightarrow> case g c1 of (u, c2) \<Rightarrow>
       if v < 0 \<or> u < 0 then (False, c2) else G v u c2) r'"
proof (cases res)
  case (Pair v c1)
  have 1: "sim S st0 m s c1 r"
    "0 \<le> v \<Longrightarrow> \<exists>y. x = Some y \<and> holds S st0 m s c1 v y"
    using assms(1) by (auto simp: Pair fetch_def)
  obtain u c2 where g: "g c1 = (u, c2)" by fastforce
  have 2: "sim S st0 m s c2 r" "\<And>j w. holds S st0 m s c1 j w \<Longrightarrow> holds S st0 m s c2 j w"
    "0 \<le> u \<Longrightarrow> \<exists>y. x' = Some y \<and> holds S st0 m s c2 u y"
    using assms(2) [OF 1(1)] by (auto simp: g fetch_def)
  show ?thesis
  proof (cases "v < 0 \<or> u < 0")
    case True
    then show ?thesis using 2(1) by (auto simp: Pair g refines_def)
  next
    case False
    then obtain y y' where "x = Some y" "x' = Some y'" "holds S st0 m s c1 v y"
      "holds S st0 m s c2 u y'"
      using 1(2) 2(3) by auto
    then show ?thesis
      using assms(3) [OF 2(1)] 2(2) False by (auto simp: Pair g)
  qed
qed

lemma refines_fetch_seq:
  assumes "fetch S st0 m s c r res x"
    and "\<And>c1. sim S st0 m s c1 r \<Longrightarrow> fetch S st0 m s c1 r (g c1) x'"
    and "\<And>v u c2 y y'. sim S st0 m s c2 r \<Longrightarrow> x = Some y \<Longrightarrow> x' = Some y' \<Longrightarrow> holds S st0 m s c2 v y \<Longrightarrow>
      holds S st0 m s c2 u y' \<Longrightarrow> refines S st0 m s r (G v u c2) r'"
  shows "refines S st0 m s r
    (case res of (v, c1) \<Rightarrow> if v < 0 then (False, c1) else
       (case g c1 of (u, c2) \<Rightarrow> if u < 0 then (False, c2) else G v u c2)) r'"
  using assms(1)
proof (rule refines_fetch)
  fix v c1 y
  assume "sim S st0 m s c1 r" "\<And>j w. holds S st0 m s c j w \<Longrightarrow> holds S st0 m s c1 j w" and x: "x = Some y"
    and v: "holds S st0 m s c1 v y"
  then show "refines S st0 m s r
      (case g c1 of (u, c2) \<Rightarrow> if u < 0 then (False, c2) else G v u c2) r'"
    by (intro refines_fetch [OF assms(2)] assms(3) [OF _ x _ _]) auto
qed

lemma refines_add_value:
  assumes "sim S st0 m s c r"
    and eq: "k (int (length (nodes c))) (append_node (mk_node op a b d) c) =
      h (int (length (nodes c))) (append_node n c)"
    and n: "node_ok (length (nodes c)) n" "\<not> has_flag kDead n" "is_value_op (nop n)"
    and k: "\<And>i c1. sim S st0 m s c1 r \<Longrightarrow>
      holds S st0 m s c1 i (node_value S st0 n (nval_at S st0 m s c) (rmem r) (rstat r)) \<Longrightarrow>
      (\<And>j w. holds S st0 m s c j w \<Longrightarrow> holds S st0 m s c1 j w) \<Longrightarrow>
      refines S st0 m s r (True, h i c1) r'"
  shows "refines S st0 m s r (add_or_fail op a b d k c) r'"
proof (cases "kMaxNodes \<le> length (nodes c)")
  case True
  then show ?thesis using assms(1) by (simp add: add_or_fail_def add_node_eq refines_fail)
next
  case False
  then show ?thesis
    using sim_append_value [OF assms(1) _ n] holds_append [of S st0 m s c _ _ n] eq
    by (simp add: add_or_fail_def add_node_eq k del: is_value_op.simps)
qed

lemma refines_add_effect:
  assumes "sim S st0 m s c r"
    and eq: "k (int (length (nodes c))) (append_node (mk_node op a b d) c) =
      h (int (length (nodes c))) (append_node n c)"
    and n: "node_ok (length (nodes c)) n" "\<not> has_flag kDead n" "\<not> is_value_op (nop n)"
    and k: "\<And>i c1. sim S st0 m s c1
        (set_stat (node_stat S n (nval_at S st0 m s c) (rmem r) (rstat r))
          (set_mem (node_mem S n (nval_at S st0 m s c) (rmem r) (rstat r)) r)) \<Longrightarrow>
      i < int (length (nodes c1)) \<Longrightarrow> refines S st0 m s r (True, h i c1) r'"
  shows "refines S st0 m s r (add_or_fail op a b d k c) r'"
proof (cases "kMaxNodes \<le> length (nodes c)")
  case True
  then show ?thesis using assms(1) by (simp add: add_or_fail_def add_node_eq refines_fail)
next
  case False
  then show ?thesis
    using sim_append_effect [OF assms(1) _ n] eq
    by (simp add: add_or_fail_def add_node_eq k append_node_sel del: is_value_op.simps)
qed

lemma node_refs_mk: "node_refs (mk_node op a b d) = filter ((\<le>) 0) (if op = FStsw then [a] else [a, b, d])"
  by (cases "op = FStsw") (simp_all add: node_refs_def node_ref_input_count_def ninputs_def)

lemma node_ok_mk [simp]:
  "node_ok i (mk_node op a b d) \<longleftrightarrow> a < int i \<and> (op = FStsw \<or> b < int i \<and> d < int i)"
  by (cases "op = FStsw"; simp add: node_ok_def node_refs_mk; arith)

lemma not_dead_upd [simp]: "has_flag kDead (n\<lparr>npay := p\<rparr>) = has_flag kDead n"
  by (simp add: has_flag_def)

lemma node_ok_upd [simp]: "node_ok i (n\<lparr>npay := p\<rparr>) = node_ok i n"
  by (simp add: node_ok_def node_refs_def node_ref_input_count_def ninputs_def)

lemma node_ok_flag [simp]: "node_ok i (or_flag f n) = node_ok i n"
  by (simp add: node_ok_def node_refs_def node_ref_input_count_def ninputs_def or_flag_def)

text \<open>Loads\<close>

lemma or_flag_sel [simp]:
  "nop (or_flag f n) = nop n" "nin0 (or_flag f n) = nin0 n" "nin1 (or_flag f n) = nin1 n"
  "nin2 (or_flag f n) = nin2 n" "npay (or_flag f n) = npay n" "pay_mem (or_flag f n) = pay_mem n"
  "pay_imm (or_flag f n) = pay_imm n"
  by (simp_all add: or_flag_def pay_mem_def pay_imm_def)

lemma or_flag_live: "f AND kDead = 0 \<Longrightarrow> has_flag kDead (or_flag f n) = has_flag kDead n"
  by (simp add: has_flag_def or_flag_def bit.conj_disj_distrib2)

lemma has_flag_or [simp]: "has_flag f (or_flag f n) \<longleftrightarrow> f \<noteq> 0"
  by (simp add: has_flag_def or_flag_def bit.conj_disj_distrib2)

definition add_load :: "irop \<Rightarrow> ioperand \<Rightarrow> ctx \<Rightarrow> int \<times> ctx" where
  "add_load op p c =
     (case add_node op (-1) (-1) (-1) c of (i, c') \<Rightarrow>
        if i < 0 then (-1, c') else (i, set_payload i (PMem p) c'))"

fun load_ir :: "memfmt \<Rightarrow> irop" where
  "load_ir F32 = LoadF32"
| "load_ir F64 = LoadF64"
| "load_ir I16 = LoadI16"
| "load_ir I32 = LoadI32"
| "load_ir I64 = LoadI64"

lemma load_node_value:
  "node_value S st0 ((mk_node (load_ir f) a b d)\<lparr>npay := PMem p\<rparr>) v m s = f_load S f p m"
  by (cases f) (simp_all add: node_value_def pay_mem_def)

lemma load_value_op: "is_value_op (load_ir f)"
  by (cases f) simp_all

lemma fetch_load:
  assumes "sim S st0 m s c r"
  shows "fetch S st0 m s c r (add_load (load_ir f) p c) (Some (f_load S f p (rmem r)))"
proof -
  let ?n = "(mk_node (load_ir f) (-1) (-1) (-1))\<lparr>npay := PMem p\<rparr>"
  have n: "node_ok (length (nodes c)) ?n" "\<not> has_flag kDead ?n" "is_value_op (nop ?n)"
    by (simp_all add: load_value_op del: is_value_op.simps)
  show ?thesis
    using sim_append_value [OF assms _ n] holds_append [of S st0 m s c _ _ ?n] assms
    by (simp add: fetch_def add_load_def add_node_eq set_payload_append load_node_value
        del: is_value_op.simps)
qed

lemma fetch_bail: "sim S st0 m s c r \<Longrightarrow> fetch S st0 m s c r (-1, c) v"
  by (simp add: fetch_def)

lemma build_fp_load_eq:
  "build_fp_load p c =
     (case fp_fmt p of None \<Rightarrow> (-1, c) | Some f \<Rightarrow> add_load (load_ir f) p c)"
  by (cases "opsize p") (simp_all add: build_fp_load_def add_load_def)

lemma build_int_load_eq:
  "build_int_load p c =
     (case int_fmt p of None \<Rightarrow> (-1, c) | Some f \<Rightarrow> add_load (load_ir f) p c)"
  by (cases "opsize p") (simp_all add: build_int_load_def add_load_def)

lemma fetch_fp_load [rel_intros]:
  "sim S st0 m s c r \<Longrightarrow> fetch S st0 m s c r (build_fp_load p c) (load_op S (fp_fmt p) p r)"
  by (cases "fp_fmt p")
    (simp_all add: build_fp_load_eq load_op_def fetch_load fetch_bail del: fp_fmt.simps)

lemma fetch_int_load [rel_intros]:
  "sim S st0 m s c r \<Longrightarrow> fetch S st0 m s c r (build_int_load p c) (load_op S (int_fmt p) p r)"
  by (cases "int_fmt p")
    (simp_all add: build_int_load_eq load_op_def fetch_load fetch_bail del: int_fmt.simps)

lemma fetch_if [rel_intros]:
  "(b \<Longrightarrow> fetch S st0 m s c r x v) \<Longrightarrow> (\<not> b \<Longrightarrow> fetch S st0 m s c r y w) \<Longrightarrow>
   fetch S st0 m s c r (if b then x else y) (if b then v else w)"
  by simp

section \<open>Binary nodes\<close>

lemmas value_simps = node_value_def nval_at_holds pay_imm_def pay_mem_def

fun irop_of :: "arith \<Rightarrow> irop" where
  "irop_of ArAdd = FAdd"
| "irop_of ArSub = FSub"
| "irop_of ArMul = FMul"
| "irop_of ArDiv = FDiv"

lemma arith_node_value:
  "node_value S st0 (mk_node (irop_of a) i j k) v m s = f_arith S a (v i) (v j)"
  by (cases a) (simp_all add: node_value_def)

lemma arith_value_op: "is_value_op (irop_of a)" "irop_of a \<noteq> FStsw"
  by (cases a; simp)+

text \<open>
  A binary node over two operands that the context already holds, written to a stack position.
\<close>

lemma refines_binary:
  assumes "sim S st0 m s c r" "holds S st0 m s c i x" "holds S st0 m s c j y"
    and "is_value_op op" "op \<noteq> FStsw"
    and "node_value S st0 (mk_node op i j (-1)) (nval_at S st0 m s c) (rmem r) (rstat r) = z"
    and "\<And>i c1. sim S st0 m s c1 r \<Longrightarrow> holds S st0 m s c1 i z \<Longrightarrow> refines S st0 m s r (True, h i c1) r'"
  shows "refines S st0 m s r (add_or_fail op i j (-1) h c) r'"
  using assms(1) _ _ _ _
proof (rule refines_add_value [where n = "mk_node op i j (-1)"])
  show "node_ok (length (nodes c)) (mk_node op i j (-1))"
    using assms by (auto simp: holds_def)
qed (use assms in \<open>auto simp del: is_value_op.simps\<close>)

lemma refines_arith:
  assumes "sim S st0 m s c r" "holds S st0 m s c i x" "holds S st0 m s c j y"
    and "\<And>n c1. sim S st0 m s c1 r \<Longrightarrow> holds S st0 m s c1 n (arith_val S a rv x y) \<Longrightarrow>
      refines S st0 m s r (True, h n c1) r'"
  shows "refines S st0 m s r
    (if rv then add_or_fail (irop_of a) j i (-1) h c else add_or_fail (irop_of a) i j (-1) h c) r'"
proof (cases rv)
  case True
  then show ?thesis
    using assms refines_binary [OF assms(1,3,2) arith_value_op arith_node_value]
    by (simp add: arith_val_def nval_at_holds)
next
  case False
  then show ?thesis
    using assms refines_binary [OF assms(1-3) arith_value_op arith_node_value]
    by (simp add: arith_val_def nval_at_holds)
qed

end
