(* ===== verification/X87_Build_Correct.thy ===== *)
theory X87_Build_Correct
  imports X87_Build X87_Sim
begin

text \<open>
  The builder computes what the x87 instructions mean: one lemma per routine, the switch, and the
  induction over the run.
\<close>

section \<open>One lemma per routine of the builder\<close>

lemmas step_intros = refines_done refines_fail sim_set_slot sim_push sim_pop

lemma get_bounds: "st_get d r = Some v \<Longrightarrow> 0 \<le> d" "st_get d r = Some v \<Longrightarrow> d < 8"
  by (simp_all add: st_get_def split: if_splits)

lemma build_arith_refines:
  assumes sim: "sim S st0 m s c r"
  shows "refines S st0 m s r (build_arith ins (irop_of a) rv c) (x_arith S ins a rv r)"
proof (cases "kind (opnd0 ins) = Register")
  case True
  show ?thesis
    unfolding build_arith_def x_arith_def Let_def if_P [OF True]
    apply (rule refines_fetch2, rule fetch_resolve, rule sim, erule fetch_resolve)
    apply (simp only: option.case prod.case)
    apply (rule refines_arith, assumption+)
    apply (auto intro!: step_intros dest: get_bounds simp: True)
    done
next
  case False
  show ?thesis
    unfolding build_arith_def x_arith_def Let_def if_not_P [OF False]
    apply (rule refines_fetch_seq, rule fetch_resolve, rule sim, erule fetch_fp_load)
    apply (simp only: option.case prod.case)
    apply (rule refines_arith, assumption+)
    apply (auto intro!: step_intros simp: False)
    done
qed

lemma build_fiarith_refines:
  assumes sim: "sim S st0 m s c r"
  shows "refines S st0 m s r (build_fiarith ins (irop_of a) rv c) (x_fiarith S ins a rv r)"
  unfolding build_fiarith_def x_fiarith_def
  apply (rule refines_fetch_seq, rule fetch_resolve, rule sim, erule fetch_int_load)
  apply (simp only: option.case prod.case)
  apply (rule refines_arith, assumption+)
  apply (auto intro!: step_intros)
  done

lemma build_arithp_refines:
  assumes sim: "sim S st0 m s c r"
  shows "refines S st0 m s r (build_arithp ins (irop_of a) rv c) (x_arithp S ins a rv r)"
  unfolding build_arithp_def x_arithp_def Let_def
  apply (rule refines_fetch2, rule fetch_resolve, rule sim, erule fetch_resolve)
  apply (simp only: option.case prod.case)
  apply (rule refines_arith, assumption+)
  apply (auto intro!: step_intros dest: get_bounds)
  done

lemma build_fld_refines:
  assumes sim: "sim S st0 m s c r"
  shows "refines S st0 m s r (build_fld ins c) (x_fld S ins r)"
  unfolding build_fld_def x_fld_def
  by (rule refines_fetch, rule fetch_if, rule fetch_resolve [OF sim], rule fetch_fp_load [OF sim])
    (auto intro!: step_intros)

lemma build_fild_refines:
  assumes sim: "sim S st0 m s c r"
  shows "refines S st0 m s r (build_fild ins c) (x_fild S ins r)"
  unfolding build_fild_def x_fild_def
  by (rule refines_fetch, rule fetch_int_load [OF sim]) (auto intro!: step_intros)

lemma build_unary_refines:
  assumes sim: "sim S st0 m s c r" and op: "is_value_op op"
    and val: "\<And>i v. node_value S st0 (mk_node op i (-1) (-1)) v (rmem r) (rstat r) = f (v i)"
  shows "refines S st0 m s r (build_unary op c) (x_unary f r)"
  unfolding build_unary_def x_unary_def
  apply (rule refines_fetch, rule fetch_resolve, rule sim)
  apply (rule refines_add_value [where n = "mk_node op _ (-1) (-1)"], assumption, rule refl)
     apply (use op in \<open>auto simp: val nval_at_holds holds_bound intro!: step_intros simp del: is_value_op.simps\<close>)
  done

text \<open>A compare node over two held operands.\<close>

lemma cmp_effect:
  "node_stat S (mk_node FCmp i j d) v m s = f_cmp S (v i) (v j) s"
  "node_mem S (mk_node FCmp i j d) v m s = m"
  "node_stat S (mk_node FTst i j d) v m s = f_tst S (v i) s"
  "node_mem S (mk_node FTst i j d) v m s = m"
  by (simp_all add: node_stat_def node_mem_def Let_def)

lemma set_mem_same [simp]: "set_mem (rmem r) r = r"
  by (simp add: set_mem_def)

lemma set_stat_same [simp]: "set_stat (rstat r) r = r"
  by (simp add: set_stat_def)

lemma refines_cmp:
  assumes "sim S st0 m s c r" "holds S st0 m s c i x" "holds S st0 m s c j y"
    and "\<And>n c1. sim S st0 m s c1 (set_stat (f_cmp S x y (rstat r)) r) \<Longrightarrow>
      n < int (length (nodes c1)) \<Longrightarrow> refines S st0 m s r (True, h n c1) r'"
  shows "refines S st0 m s r (add_or_fail FCmp i j (-1) h c) r'"
  using assms(1)
  by (rule refines_add_effect [where n = "mk_node FCmp i j (-1)"])
    (use assms in \<open>auto simp: holds_bound cmp_effect nval_at_holds\<close>)

lemma build_fcom_refines:
  assumes sim: "sim S st0 m s c r"
  shows "refines S st0 m s r (build_fcom ins k pp c) (x_fcom S ins k pp r)"
  unfolding build_fcom_def x_fcom_def x_cmp_def fcom_src_def
  apply (rule refines_fetch_seq, rule fetch_resolve, rule sim, rule fetch_if, erule fetch_resolve, rule fetch_if, erule fetch_resolve, erule fetch_fp_load)
  apply (simp only: option.case prod.case)
  apply (rule refines_cmp, assumption+)
  apply (auto intro!: step_intros sim_pops sim_last_fcmp)
  done

lemma build_ficom_refines:
  assumes sim: "sim S st0 m s c r"
  shows "refines S st0 m s r (build_ficom ins p c) (x_ficom S ins p r)"
  unfolding build_ficom_def x_ficom_def x_cmp_def Let_def
  apply (rule refines_fetch_seq, rule fetch_resolve, rule sim, erule fetch_int_load)
  apply (simp only: option.case prod.case)
  apply (rule refines_cmp, assumption+)
  apply (auto intro!: step_intros sim_last_fcmp)
  done

lemma set_stat_mem_same [simp]: "set_stat (rstat r) (set_mem m r) = set_mem m r"
  by (simp add: set_stat_def set_mem_def)

lemma comi_effect:
  "node_stat S (mk_node FComI i j d) v m s = f_comi S (v i) (v j) s"
  "node_mem S (mk_node FComI i j d) v m s = m"
  "node_stat S (or_flag f n) v m s = node_stat S n v m s"
  "node_mem S (or_flag f (mk_node FComI i j d)) v m s = m"
  by (simp_all only: node_stat_def node_mem_def or_flag_sel) (simp_all add: Let_def)

lemma build_fcomi_refines:
  assumes sim: "sim S st0 m s c r"
  shows "refines S st0 m s r (build_fcomi ins p c) (x_fcomi S ins p r)"
  unfolding build_fcomi_def x_fcomi_def Let_def
  apply (rule refines_fetch_seq, rule fetch_resolve, rule sim, erule fetch_resolve)
  apply (simp only: option.case prod.case)
  subgoal for i j c2 x y
    apply (rule refines_add_effect [where n = "(if p then or_flag kFcomIPopping else id) (mk_node FComI i j (-1))"
          and h = "\<lambda>i c. (if p then pop else id) (set_last_fcomi i c)"], assumption)
        apply (simp_all add: set_flag_append)
       apply (auto simp: holds_bound or_flag_live cmp_effect comi_effect nval_at_holds maybe_pop_def
        intro!: step_intros sim_last_fcomi)
    done
  done

lemma build_fcmov_refines:
  assumes sim: "sim S st0 m s c r"
  shows "refines S st0 m s r (build_fcmov ins cond c) (x_fcmov S ins cond r)"
proof (cases "last_fcomi c < 0")
  case True
  then show ?thesis using sim by (simp add: build_fcmov_def refines_fail)
next
  case False
  show ?thesis
    unfolding build_fcmov_def x_fcmov_def if_not_P [OF False]
    apply (rule refines_fetch_seq, rule fetch_resolve, rule sim, erule fetch_resolve)
    apply (simp only: option.case prod.case)
    subgoal for i j c2 x y
      apply (rule refines_add_value [where n = "(mk_node FCSel i j (-1))\<lparr>npay := PImm cond\<rparr>"
            and h = "set_slot 0"], assumption)
          apply (simp_all add: set_payload_append)
       apply (auto simp: holds_bound node_value_def pay_imm_def nval_at_holds intro!: step_intros)
      done
    done
qed

section \<open>Constants and transcendentals\<close>

lemma build_const_refines:
  assumes sim: "sim S st0 m s c r"
  shows "refines S st0 m s r (build_fldconst bits c) (x_const S bits r)"
proof -
  let ?n = "(mk_node ConstF64 (-1) (-1) (-1))\<lparr>npay := PImm bits\<rparr>"
  have eq: "build_fldconst bits c =
      add_or_fail ConstF64 (-1) (-1) (-1) (\<lambda>i c. push i (set_payload i (PImm bits) c)) c"
    by (simp add: build_fldconst_def build_const_def add_or_fail_def add_node_eq)
  show ?thesis
    unfolding eq x_const_def
    by (rule refines_add_value [where n = ?n and h = push], rule sim)
      (auto simp: set_payload_append node_value_def pay_imm_def intro!: step_intros)
qed

lemma build_fldz_fld1_refines:
  assumes sim: "sim S st0 m s c r"
  shows "refines S st0 m s r (build_fldz_fld1 ConstZero c) (x_const S 0 r)"
    and "refines S st0 m s r (build_fldz_fld1 ConstOne c) (x_const S bits_one r)"
  unfolding build_fldz_fld1_def x_const_def
  by (rule refines_add_value [where h = push], rule sim, rule refl,
      auto simp: node_value_def intro!: step_intros)+

text \<open>Two nodes in a row: the second is appended to a context that already holds the first.\<close>

lemma refines_unary_then:
  assumes "sim S st0 m s c r" "holds S st0 m s c a x" "is_value_op op"
    and "node_value S st0 (mk_node op a (-1) (-1)) (nval_at S st0 m s c) (rmem r) (rstat r) = z"
    and "\<And>i c1. sim S st0 m s c1 r \<Longrightarrow> holds S st0 m s c1 i z \<Longrightarrow> holds S st0 m s c1 a x \<Longrightarrow>
      refines S st0 m s r (G i c1) r'"
  shows "refines S st0 m s r
    (case add_node op a (-1) (-1) c of (i, c1) \<Rightarrow> if i < 0 then (False, c1) else G i c1) r'"
proof (rule refines_fetch [where x = "Some z"])
  let ?n = "mk_node op a (-1) (-1)"
  show "fetch S st0 m s c r (add_node op a (-1) (-1) c) (Some z)"
    using assms(1-4) sim_append_value [OF assms(1), of ?n] holds_append [of S st0 m s c _ _ ?n]
    by (auto simp: fetch_def add_node_eq holds_bound simp del: is_value_op.simps)
qed (use assms(2,5) in auto)

lemma build_fsincos_refines:
  assumes sim: "sim S st0 m s c r"
  shows "refines S st0 m s r (build_fsincos c) (x_fsincos S r)"
  unfolding build_fsincos_def x_fsincos_def
  apply (rule refines_fetch, rule fetch_resolve, rule sim)
  subgoal for i c1 x
    apply (rule refines_unary_then [where z = "f_sin S x"], assumption+)
      apply (simp_all add: holds_bound node_value_def nval_at_holds)
    subgoal for j c2
      by (rule refines_add_value [where n = "mk_node FCos i (-1) (-1)"], assumption, rule refl)
        (auto simp: holds_bound node_value_def nval_at_holds holds_set_slot intro!: step_intros)
    done
  done

lemma build_fptan_refines:
  assumes sim: "sim S st0 m s c r"
  shows "refines S st0 m s r (build_fptan c) (x_fptan S r)"
  unfolding build_fptan_def x_fptan_def
  apply (rule refines_fetch, rule fetch_resolve, rule sim)
  subgoal for i c1 x
    apply (rule refines_unary_then [where z = "f_tan S x"], assumption+)
      apply (simp_all add: holds_bound node_value_def nval_at_holds)
    subgoal for j c2
      by (rule refines_add_value [where n = "mk_node ConstOne (-1) (-1) (-1)"], assumption, rule refl)
        (auto simp: holds_bound node_value_def nval_at_holds holds_set_slot intro!: step_intros)
    done
  done

lemma build_st1_pop_refines:
  assumes sim: "sim S st0 m s c r" and op: "is_value_op op" "op \<noteq> FStsw"
    and val: "\<And>i j v. node_value S st0 (mk_node op i j (-1)) v (rmem r) (rstat r) = f (v i) (v j)"
  shows "refines S st0 m s r (build_st1_pop op c) (x_st1_pop f r)"
  unfolding build_st1_pop_def x_st1_pop_def
  apply (rule refines_fetch2, rule fetch_resolve, rule sim, erule fetch_resolve)
  apply (simp only: option.case prod.case)
  apply (rule refines_binary, assumption, assumption, assumption, rule op, rule op)
   apply (auto simp: val nval_at_holds intro!: step_intros)
  done

lemma build_fscale_refines:
  assumes sim: "sim S st0 m s c r"
  shows "refines S st0 m s r (build_fscale c) (x_fscale S r)"
  unfolding build_fscale_def x_fscale_def
  apply (rule refines_fetch2, rule fetch_resolve, rule sim, erule fetch_resolve)
  apply (simp only: option.case prod.case)
  apply (rule refines_binary, assumption, assumption, assumption)
     apply (auto simp: node_value_def nval_at_holds intro!: step_intros)
  done

section \<open>Stores, status and control words\<close>

fun store_ir :: "memfmt \<Rightarrow> irop" where
  "store_ir F32 = StoreF32"
| "store_ir F64 = StoreF64"
| "store_ir I16 = StoreI16"
| "store_ir I32 = StoreI32"
| "store_ir I64 = StoreI64"

lemma store_ir_effect:
  "\<not> is_value_op (store_ir f)" "store_ir f \<noteq> FStsw"
  "nop n = store_ir f \<Longrightarrow> node_stat S n v m s = s"
  "nop n = store_ir f \<Longrightarrow> f \<in> {F32, F64} \<longrightarrow> \<not> has_flag kTruncate n \<Longrightarrow>
     node_mem S n v m s = f_store S f (has_flag kTruncate n) (pay_mem n) (v (nin0 n)) s m"
  by (cases f; simp add: node_stat_def node_mem_def Let_def)+

definition add_store :: "irop \<Rightarrow> ioperand \<Rightarrow> int \<Rightarrow> bool \<Rightarrow> ctx \<Rightarrow> ctx act" where
  "add_store op p val tr c =
     add_or_fail op val (-1) (-1)
       (\<lambda>i c. if tr then set_flag i kTruncate (set_payload i (PMem p) c) else set_payload i (PMem p) c) c"

lemma build_fp_store_eq:
  "build_fp_store p val c =
     (case fp_fmt p of None \<Rightarrow> (False, c) | Some f \<Rightarrow> add_store (store_ir f) p val False c)"
  by (cases "opsize p") (simp_all add: build_fp_store_def add_store_def add_or_fail_def)

lemma build_int_store_eq:
  "build_int_store p val tr c =
     (case int_fmt p of None \<Rightarrow> (False, c) | Some f \<Rightarrow> add_store (store_ir f) p val tr c)"
  by (cases "opsize p")
    (simp_all add: build_int_store_def add_store_def add_or_fail_def Let_def split: prod.split)

lemma add_store_refines:
  assumes sim: "sim S st0 m s c r" and i: "holds S st0 m s c i x"
    and f: "f \<in> {F32, F64} \<longrightarrow> \<not> tr"
  shows "refines S st0 m s r (add_store (store_ir f) p i tr c)
    (Some (set_mem (f_store S f tr p x (rstat r) (rmem r)) r))"
proof -
  let ?m = "(mk_node (store_ir f) i (-1) (-1))\<lparr>npay := PMem p\<rparr>"
  define n where "n = (if tr then or_flag kTruncate ?m else ?m)"
  have n: "nop n = store_ir f" "has_flag kTruncate n = tr" "pay_mem n = p" "nin0 n = i"
    "\<not> has_flag kDead n" "node_ok l n \<longleftrightarrow> node_ok l ?m" for l
    by (simp_all add: n_def or_flag_live) (simp_all add: pay_mem_def has_flag_def)
  have mem: "node_mem S n (nval_at S st0 m s c) (rmem r) (rstat r) =
      f_store S f tr p x (rstat r) (rmem r)"
    using store_ir_effect(4) [OF n(1), of S "nval_at S st0 m s c" "rmem r" "rstat r"] f n
      nval_at_holds [OF i] by simp
  let ?k = "\<lambda>i c. if tr then set_flag i kTruncate (set_payload i (PMem p) c) else set_payload i (PMem p) c"
  show ?thesis
    unfolding add_store_def
  proof (rule refines_add_effect [where n = n and h = "\<lambda>_. id", OF sim])
    show "?k (int (length (nodes c))) (append_node (mk_node (store_ir f) i (-1) (-1)) c) = id (append_node n c)"
      by (simp add: n_def set_payload_append set_flag_append)
    show "node_ok (length (nodes c)) n"
      using holds_bound [OF i] by (simp add: n)
    show "\<not> has_flag kDead n" "\<not> is_value_op (nop n)"
      by (simp_all only: n store_ir_effect simp_thms)
  next
    fix j c1
    assume "sim S st0 m s c1 (set_stat (node_stat S n (nval_at S st0 m s c) (rmem r) (rstat r))
      (set_mem (node_mem S n (nval_at S st0 m s c) (rmem r) (rstat r)) r))"
    then show "refines S st0 m s r (True, id c1) (Some (set_mem (f_store S f tr p x (rstat r) (rmem r)) r))"
      by (simp add: mem store_ir_effect(3) [OF n(1)] refines_done)
  qed
qed

text \<open>The tail of both store instructions: an optional pop after the store succeeded.\<close>

lemma refines_then_pop:
  assumes "refines S st0 m s r res r'"
  shows "refines S st0 m s r
    (case res of (ok, c1) \<Rightarrow> if \<not> ok then (False, c1) else (True, if p then pop c1 else c1))
    (map_option (maybe_pop p) r')"
  using assms by (auto simp: refines_def maybe_pop_def intro!: sim_pop split: prod.splits if_splits)

lemma store_op_refines:
  assumes "sim S st0 m s c r" "holds S st0 m s c i x"
  shows "refines S st0 m s r (build_fp_store p i c) (store_op S (fp_fmt p) False p x r)"
    and "refines S st0 m s r (build_int_store p i tr c) (store_op S (int_fmt p) tr p x r)"
proof -
  show "refines S st0 m s r (build_fp_store p i c) (store_op S (fp_fmt p) False p x r)"
    using assms by (cases "fp_fmt p")
      (simp_all add: build_fp_store_eq store_op_def refines_fail add_store_refines del: fp_fmt.simps)
  have "int_fmt p \<noteq> Some F32" "int_fmt p \<noteq> Some F64"
    by (cases "opsize p"; simp)+
  then show "refines S st0 m s r (build_int_store p i tr c) (store_op S (int_fmt p) tr p x r)"
    using assms by (cases "int_fmt p")
      (auto simp: build_int_store_eq store_op_def refines_fail add_store_refines simp del: int_fmt.simps)
qed

lemma build_fist_refines:
  assumes sim: "sim S st0 m s c r"
  shows "refines S st0 m s r (build_fist ins tr p c) (x_fist S ins tr p r)"
  unfolding build_fist_def x_fist_def
  apply (rule refines_fetch, rule fetch_resolve, rule sim)
  apply (simp only: option.case)
  apply (rule refines_then_pop, rule store_op_refines, assumption+)
  done

text \<open>
  \<^verbatim>\<open>ctx.slot_val[dst_depth] = st0\<close> is only an array access when the operand is a stack
  register, which the instruction encoding guarantees.
\<close>

definition fst_operand_ok :: "irinstr \<Rightarrow> bool" where
  "fst_operand_ok ins \<longleftrightarrow>
     (opcode ins \<in> {kOpcodeName_fst, kOpcodeName_fst_stack, kOpcodeName_fstp, kOpcodeName_fstp_stack} \<and>
      kind (opnd0 ins) = Register \<longrightarrow> op_reg_index (opnd0 ins) < 8)"

lemma build_fst_refines:
  assumes sim: "sim S st0 m s c r"
    and ok: "kind (opnd0 ins) = Register \<Longrightarrow> op_reg_index (opnd0 ins) < 8"
  shows "refines S st0 m s r (build_fst ins p c) (x_fst S ins p r)"
  unfolding build_fst_def x_fst_def Let_def
  apply (rule refines_fetch, rule fetch_resolve, rule sim)
  apply (simp only: option.case)
  apply (rule refines_then_pop)
  apply (cases "kind (opnd0 ins) = Register")
   apply (cases "op_reg_index (opnd0 ins) = 0")
    apply (auto intro!: step_intros store_op_refines simp: ok st_set_same simp del: fp_fmt.simps)
  done

lemma build_ftst_refines:
  assumes sim: "sim S st0 m s c r"
  shows "refines S st0 m s r (build_ftst c) (x_ftst S r)"
  unfolding build_ftst_def x_ftst_def
  apply (rule refines_fetch, rule fetch_resolve, rule sim)
  subgoal for i c1 x
    by (rule refines_add_effect [where n = "mk_node FTst i (-1) (-1)"], assumption, rule refl)
      (auto simp: holds_bound cmp_effect nval_at_holds intro!: step_intros sim_last_fcmp)
  done

lemma fstsw_effect:
  fixes i j k :: int
  defines "n \<equiv> (mk_node FStsw (-1) (-1) (-1))\<lparr>nin0 := i, nin1 := j, nin2 := k\<rparr>"
  shows "node_stat S n v m s = s" "node_mem S n v m s = f_stsw S j k s m"
    "\<not> is_value_op (nop n)" "\<not> has_flag kDead n" "node_ok l n = (i < int l)"
  by (simp_all add: n_def node_stat_def node_mem_def has_flag_def node_ok_def node_refs_def
      node_ref_input_count_def ninputs_def)

lemma build_fstsw_refines:
  assumes sim: "sim S st0 m s c r"
  shows "refines S st0 m s r (build_fstsw ins c) (x_fstsw S ins r)"
proof (cases "kind (opnd0 ins) = Register")
  case True
  then have eq: "build_fstsw ins c = add_or_fail FStsw (-1) (-1) (-1)
      (\<lambda>i c. set_inputs i (last_fcmp c) (op_reg_index (opnd0 ins)) (top_delta c) c) c"
    by (simp add: build_fstsw_def)
  show ?thesis
    unfolding eq x_fstsw_def
    by (rule refines_add_effect [where h = "\<lambda>_. id" and n = "(mk_node FStsw (-1) (-1) (-1))
        \<lparr>nin0 := last_fcmp c, nin1 := op_reg_index (opnd0 ins), nin2 := top_delta c\<rparr>"], rule sim)
      (auto simp: set_inputs_append append_node_sel fstsw_effect sim_fcmp_bound [OF sim]
        sim_rtop [OF sim] intro!: step_intros)
next
  case False
  then show ?thesis using sim by (simp add: build_fstsw_def refines_fail)
qed

lemma cw_effect:
  "node_stat S ((mk_node StoreCW i j k)\<lparr>npay := PMem p\<rparr>) v m s = f_ldcw S p m s"
  "node_mem S ((mk_node StoreCW i j k)\<lparr>npay := PMem p\<rparr>) v m s = m"
  "node_stat S ((mk_node LoadCW i j k)\<lparr>npay := PMem p\<rparr>) v m s = s"
  "node_mem S ((mk_node LoadCW i j k)\<lparr>npay := PMem p\<rparr>) v m s = f_stcw S p s m"
  by (simp_all add: node_stat_def node_mem_def pay_mem_def)

lemma build_cw_refines:
  assumes sim: "sim S st0 m s c r"
  shows "refines S st0 m s r (build_cw StoreCW ins c) (x_fldcw S ins r)"
    and "refines S st0 m s r (build_cw LoadCW ins c) (x_fnstcw S ins r)"
  unfolding build_cw_def x_fldcw_def x_fnstcw_def
  by (rule refines_add_effect [where h = "\<lambda>_. id" and n = "(mk_node _ (-1) (-1) (-1))\<lparr>npay := PMem (opnd0 ins)\<rparr>", OF sim],
      auto simp: set_payload_append cw_effect intro!: step_intros)+

section \<open>Exchange\<close>

lemma build_fxch_refines:
  assumes sim: "sim S st0 m s c r"
  shows "refines S st0 m s r (build_fxch ins c) (x_fxch ins r)"
proof (cases "op_reg_index (opnd1 ins) \<le> 0 \<or> op_reg_index (opnd1 ins) \<ge> 8")
  case True
  then show ?thesis using sim by (simp add: build_fxch_def Let_def refines_fail)
next
  case False
  define d where "d = op_reg_index (opnd1 ins)"
  have d: "0 < d" "d < 8" using False by (auto simp: d_def)
  define c2 where "c2 = snd (resolve d (snd (resolve 0 c)))"
  have sim2: "sim S st0 m s c2 r"
    using resolve_sim(1) [OF resolve_sim(1) [OF sim]] by (simp add: c2_def prod_eq_iff)
  let ?sv = "slot_val c2"
  let ?vs = "?sv[0 := ?sv ! nat d, nat d := ?sv ! 0]"
  have len: "length ?sv = 8" by (rule sim_slot_length [OF sim2])
  have "sim S st0 m s (set_slot d (?sv ! 0) (set_slot 0 (?sv ! nat d) c2))
      (r\<lparr>ring := (ring r)[0 := ring r ! nat d, nat d := ring r ! 0], rtop := rtop r\<rparr>)"
    unfolding sim_rtop [OF sim2]
  proof (rule sim_reslot [OF sim2, where vs = ?vs])
    show "set_slot d (?sv ! 0) (set_slot 0 (?sv ! nat d) c2) =
        c2\<lparr>slot_val := ?vs, top_delta := top_delta c2\<rparr>"
      by (simp add: set_slot_def)
    have sub: "set ?vs \<subseteq> set ?sv"
      using len d by (intro set_update_subsetI) auto
    show "v < int (length (nodes c2))" if "v \<in> set ?vs" for v
      using sim_slot_bound [OF sim2] subsetD [OF sub that] by blast
  qed (use len d in \<open>simp_all add: map_update sim_ring [OF sim2]\<close>)
  then show ?thesis
    using d by (simp add: build_fxch_def x_fxch_def Let_def d_def [symmetric] c2_def [symmetric]
        refines_done)
qed

section \<open>Bridges\<close>

lemma width_flag_live: "has_flag kDead (or_flag (width_flag p) n) = has_flag kDead n"
  by (simp add: width_flag_def or_flag_live)

lemma width_flag_is64: "has_flag kBridge64 (or_flag (width_flag p) (mk_node op a b d)) = is64 p"
  by (simp add: width_flag_def is64_def has_flag_def or_flag_def)

lemma bridge_encode_neg [simp]: "bridge_encode_reg (op_reg_index p) < 0"
  by simp

definition with_payload :: "payload option \<Rightarrow> node \<Rightarrow> node" where
  "with_payload pay n = (case pay of None \<Rightarrow> n | Some p \<Rightarrow> n\<lparr>npay := p\<rparr>)"

lemma with_payload_sel [simp]:
  "nop (with_payload pay n) = nop n" "nin0 (with_payload pay n) = nin0 n"
  "nin1 (with_payload pay n) = nin1 n" "nin2 (with_payload pay n) = nin2 n"
  "has_flag f (with_payload pay n) = has_flag f n" "node_ok i (with_payload pay n) = node_ok i n"
  "pay_mem (with_payload (Some (PMem p)) n) = p" "pay_imm (with_payload (Some (PImm w)) n) = w"
  by (simp_all add: with_payload_def has_flag_def pay_mem_def pay_imm_def split: option.split)

lemma refines_bridge:
  assumes sim: "sim S st0 m s c r"
    and neg: "a < 0" "b < 0" "k < 0" and op: "\<not> is_value_op op"
    and stat: "\<And>n v m s. nop n = op \<Longrightarrow> node_stat S n v m s = s"
    and mem: "\<And>v. node_mem S (with_payload pay (or_flag (width_flag p) (mk_node op a b k))) v (rmem r)
      (rstat r) = f_int S act (rmem r)"
  shows "refines S st0 m s r (bridge_node op a b k (width_flag p) pay c)
    (Some (set_mem (f_int S act (rmem r)) r))"
proof -
  define n where "n = with_payload pay (or_flag (width_flag p) (mk_node op a b k))"
  have n: "nop n = op" "\<not> has_flag kDead n" "node_ok l n" for l
    using neg by (auto simp: n_def width_flag_live)
  show ?thesis
    unfolding bridge_node_def
  proof (rule refines_add_effect [where n = n and h = "\<lambda>_. id", OF sim _ n(3,2)])
    show "(let c' = set_flag (int (length (nodes c))) (width_flag p) (append_node (mk_node op a b k) c)
        in case pay of None \<Rightarrow> c' | Some p \<Rightarrow> set_payload (int (length (nodes c))) p c') =
        id (append_node n c)"
      by (simp add: n_def with_payload_def set_flag_append set_payload_append split: option.split)
    show "\<not> is_value_op (nop n)" using op by (simp only: n(1) simp_thms)
  qed (simp add: stat [OF n(1)] mem [folded n_def] refines_done)
qed

lemma bridge_stat:
  "nop n \<in> {BridgeMovRR, BridgeMovRI, BridgeLea, BridgeLoadG, BridgeStoreG, BridgeExt, BridgeAluRR,
     BridgeAluRI, BridgeAluRM, BridgeAluMR} \<Longrightarrow> node_stat S n v m s = s"
  by (elim insertE emptyE) (simp_all add: node_stat_def Let_def)

lemmas bridge_rule = refines_bridge [OF _ _ _ _ _ bridge_stat]

lemma build_bridge_mov_refines:
  assumes sim: "sim S st0 m s c r"
  shows "refines S st0 m s r (build_bridge_mov dst src c)
    (Some (set_mem (f_int S (mov_act dst src) (rmem r)) r))"
  unfolding build_bridge_mov_def Let_def mov_act_def
  by (cases "kind dst"; cases "kind src")
    (simp_all add: refines_fail [OF sim],
     (rule bridge_rule [OF sim], simp_all add: node_mem_def Let_def width_flag_is64)+)

lemma build_bridge_alu_refines:
  assumes sim: "sim S st0 m s c r" and k: "0 \<le> k"
  shows "refines S st0 m s r (build_bridge_alu k dst src c)
    (Some (set_mem (f_int S (alu_act k dst src) (rmem r)) r))"
  unfolding build_bridge_alu_def Let_def alu_act_def
  by (cases "kind dst"; cases "kind src")
    (simp_all add: refines_fail [OF sim],
     (rule bridge_rule [OF sim], simp_all add: k node_mem_def Let_def width_flag_is64)+)

lemma ext_act_eq:
  "ext_act sx dst src = ActExt (is64 dst) (op_reg_index dst) (op_reg_index src)
     (ext_class src OR (if sx then 4 else 0))"
  by (cases "opsize src") (simp_all add: ext_act_def ext_class_def)

lemma build_bridge_refines:
  assumes sim: "sim S st0 m s c r"
  shows "refines S st0 m s r (build_bridge ins c) (x_int S ins r)"
proof -
  note rules = bridge_rule [OF sim] build_bridge_mov_refines [OF sim] build_bridge_alu_refines [OF sim]
    refines_done [OF sim] refines_fail [OF sim]
  consider "opcode ins = kOpcodeName_wait" | "opcode ins = kOpcodeName_mov" | "opcode ins = kOpcodeName_lea"
    | "opcode ins \<in> {kOpcodeName_movzx, kOpcodeName_movsx, kOpcodeName_movsxd}"
    | "opcode ins \<in> {kOpcodeName_inc, kOpcodeName_dec}"
    | "opcode ins \<in> {kOpcodeName_add, kOpcodeName_sub, kOpcodeName_and, kOpcodeName_or, kOpcodeName_xor}"
    | "opcode ins \<notin> {kOpcodeName_wait, kOpcodeName_mov, kOpcodeName_lea, kOpcodeName_movzx,
        kOpcodeName_movsx, kOpcodeName_movsxd, kOpcodeName_inc, kOpcodeName_dec, kOpcodeName_add,
        kOpcodeName_sub, kOpcodeName_and, kOpcodeName_or, kOpcodeName_xor}"
    by fast
  then show ?thesis
  proof cases
    case 1 then show ?thesis by (simp add: build_bridge_def x_int_def int_act_def Let_def rules)
  next
    case 2 then show ?thesis by (simp add: build_bridge_def x_int_def int_act_def Let_def rules)
  next
    case 3 then show ?thesis
      by (simp add: build_bridge_def x_int_def int_act_def Let_def)
        (rule rules, simp_all add: node_mem_def Let_def width_flag_is64)
  next
    case 4
    from 4 show ?thesis
      by (elim insertE emptyE)
        (simp_all add: build_bridge_def x_int_def int_act_def Let_def ext_act_eq,
         (rule rules, simp_all add: node_mem_def Let_def width_flag_is64)+)
  next
    case 5 then show ?thesis
      by (elim insertE emptyE)
        (simp_all add: build_bridge_def x_int_def int_act_def Let_def,
         (rule rules, simp_all add: node_mem_def Let_def width_flag_is64)+)
  next
    case 6 then show ?thesis
      by (elim insertE emptyE)
        (simp_all add: build_bridge_def x_int_def int_act_def Let_def alu_kind_def rules)
  next
    case 7 then show ?thesis by (simp add: build_bridge_def alu_kind_def Let_def rules)
  qed
qed

section \<open>The switch\<close>

lemma refines_if:
  "(b \<Longrightarrow> refines S st0 m s r x (f r)) \<Longrightarrow> (\<not> b \<Longrightarrow> refines S st0 m s r y (g r)) \<Longrightarrow>
   refines S st0 m s r (if b then x else y) ((if b then f else g) r)"
  by simp

lemma build_unary_ops:
  assumes sim: "sim S st0 m s c r"
  shows "refines S st0 m s r (build_unary FNeg c) (x_unary (f_neg S) r)"
    "refines S st0 m s r (build_unary FAbs c) (x_unary (f_abs S) r)"
    "refines S st0 m s r (build_unary FSqrt c) (x_unary (f_sqrt S) r)"
    "refines S st0 m s r (build_unary FRndInt c) (x_unary (f_rndint S (rstat r)) r)"
    "refines S st0 m s r (build_unary FSin c) (x_unary (f_sin S) r)"
    "refines S st0 m s r (build_unary FCos c) (x_unary (f_cos S) r)"
    "refines S st0 m s r (build_st1_pop FPatan c) (x_st1_pop (f_patan S) r)"
    "refines S st0 m s r (build_st1_pop FYl2x c) (x_st1_pop (f_yl2x S) r)"
  by (rule build_unary_refines [OF sim] build_st1_pop_refines [OF sim],
      simp_all add: node_value_def)+

lemma fldconst_bits_ref: "fldconst_bits = ldconst_bits"
  by (simp add: fun_eq_iff fldconst_bits_def ldconst_bits_def)

lemmas arm_refines =
  build_fldz_fld1_refines build_const_refines build_fld_refines build_fild_refines
  build_fst_refines build_fist_refines build_unary_ops build_fsincos_refines build_fptan_refines
  build_fscale_refines build_fxch_refines build_fcom_refines build_ficom_refines
  build_fcomi_refines build_fcmov_refines build_ftst_refines build_fstsw_refines
  build_cw_refines build_bridge_refines refines_done
  build_arith_refines [where a = ArAdd, simplified] build_arith_refines [where a = ArSub, simplified]
  build_arith_refines [where a = ArMul, simplified] build_arith_refines [where a = ArDiv, simplified]
  build_fiarith_refines [where a = ArAdd, simplified] build_fiarith_refines [where a = ArSub, simplified]
  build_fiarith_refines [where a = ArMul, simplified] build_fiarith_refines [where a = ArDiv, simplified]
  build_arithp_refines [where a = ArAdd, simplified] build_arithp_refines [where a = ArSub, simplified]
  build_arithp_refines [where a = ArMul, simplified] build_arithp_refines [where a = ArDiv, simplified]

lemma refines_guard:
  "refines S st0 m s r x r' \<Longrightarrow> sim S st0 m s c r \<Longrightarrow> refines S st0 m s r (if b then x else (False, c)) r'"
  by (simp add: refines_fail)

lemma fst_operand_okD:
  "fst_operand_ok ins \<Longrightarrow> opcode ins \<in> {kOpcodeName_fst, kOpcodeName_fst_stack, kOpcodeName_fstp,
     kOpcodeName_fstp_stack} \<Longrightarrow> kind (opnd0 ins) = Register \<Longrightarrow> op_reg_index (opnd0 ins) < 8"
  unfolding fst_operand_ok_def by blast

lemma build_step_refines:
  assumes sim: "sim S st0 m s c r" and ok: "fst_operand_ok ins"
  shows "refines S st0 m s r (build_step ab v2 ins c) (x87_exec S ins r)"
  unfolding build_step_def x87_exec_def Let_def fldconst_bits_ref
  apply (intro refines_if)
  apply (rule arm_refines [OF sim] refines_guard [OF build_bridge_refines [OF sim] sim_fail_opcode [OF sim]]
      | erule (1) fst_operand_okD [OF ok])+
  done

section \<open>What a step leaves alone\<close>

text \<open>
  The routines of the switch never touch the loop's own fields, on success or on failure, and
  never remove a node.
\<close>

definition kept :: "ctx \<Rightarrow> ctx \<Rightarrow> bool" where
  "kept c c' \<longleftrightarrow> consumed c' = consumed c \<and> node_src c' = node_src c \<and>
     native_depths c' = native_depths c \<and> length (nodes c) \<le> length (nodes c')"

lemma kept_refl [rel_intros]: "kept c c"
  by (simp add: kept_def)

lemma kept_trans: "kept c0 c \<Longrightarrow> kept c c1 \<Longrightarrow> kept c0 c1"
  by (simp add: kept_def)

lemma kept_prims:
  assumes "kept c0 c"
  shows "kept c0 (set_payload i p c)" "kept c0 (set_flag i f c)" "kept c0 (set_slot d v c)"
    "kept c0 (push v c)" "kept c0 (pop c)" "kept c0 (set_last_fcmp i c)"
    "kept c0 (set_last_fcomi i c)" "kept c0 (set_inputs i a b d c)" "kept c0 (set_fail_opcode op c)"
    "kept c0 (snd (add_node op' a' b' d' c))"
  using assms
  by (simp_all add: kept_def set_payload_def set_flag_def set_slot_def push_def pop_def
      set_last_fcmp_def set_last_fcomi_def set_inputs_def set_fail_opcode_def add_node_def)

lemma kept_pops: "kept c0 c \<Longrightarrow> kept c0 ((pop ^^ k) c)"
  by (induction k) (auto intro: kept_prims)

text \<open>One rule per shape of the monadic code.\<close>

lemma kept_bind:
  "kept c0 (snd res) \<Longrightarrow> (\<And>v c1. kept c0 c1 \<Longrightarrow> kept c0 (snd (G v c1))) \<Longrightarrow>
   kept c0 (snd (case res of (v, c1) \<Rightarrow> G v c1))"
  by (cases res) simp

lemma kept_if:
  "(b \<Longrightarrow> kept c0 (snd x)) \<Longrightarrow> (\<not> b \<Longrightarrow> kept c0 (snd y)) \<Longrightarrow> kept c0 (snd (if b then x else y))"
  by simp

lemma kept_ret: "kept c0 c \<Longrightarrow> kept c0 (snd (v, c))"
  by simp

lemma kept_if_ctx:
  "kept c0 x \<Longrightarrow> kept c0 y \<Longrightarrow> kept c0 (if b then x else y)"
  by simp

lemma kept_resolve: "kept c0 c \<Longrightarrow> kept c0 (snd (resolve d c))"
  by (rule kept_trans, assumption)
    (auto simp: resolve_def kept_def Let_def add_node_def set_slot_def set_payload_def)

lemma kept_add_or_fail:
  "kept c0 c \<Longrightarrow> (\<And>i c1. kept c0 c1 \<Longrightarrow> kept c0 (k i c1)) \<Longrightarrow>
   kept c0 (snd (add_or_fail op a b d k c))"
  unfolding add_or_fail_def by (rule kept_bind, erule kept_prims) (intro kept_if kept_ret)

lemma kept_loads:
  assumes "kept c0 c"
  shows "kept c0 (snd (build_fp_load p c))" "kept c0 (snd (build_int_load p c))"
    "kept c0 (snd (build_const w c))"
  unfolding build_fp_load_def build_int_load_def build_const_def Let_def
  by (use assms in \<open>auto intro!: kept_bind kept_if kept_ret kept_prims split: osize.split option.split\<close>)

lemma kept_stores:
  assumes "kept c0 c"
  shows "kept c0 (snd (build_fp_store p v c))" "kept c0 (snd (build_int_store p v tr c))"
  unfolding build_fp_store_def build_int_store_def Let_def
  by (use assms in \<open>auto intro!: kept_bind kept_if kept_ret kept_prims split: osize.split option.split\<close>)

lemmas kept_rules = kept_bind kept_if kept_ret kept_if_ctx kept_prims kept_pops kept_resolve
  kept_add_or_fail kept_loads kept_stores

lemma kept_arith:
  "kept c (snd (build_arith ins op rv c))" "kept c (snd (build_arithp ins op rv c))"
  "kept c (snd (build_fiarith ins op rv c))" "kept c (snd (build_unary op c))"
  "kept c (snd (build_st1_pop op c))" "kept c (snd (build_fscale c))"
  "kept c (snd (build_fsincos c))" "kept c (snd (build_fptan c))"
  unfolding build_arith_def build_arithp_def build_fiarith_def build_unary_def build_st1_pop_def
    build_fscale_def build_fsincos_def build_fptan_def Let_def
  by (intro kept_rules kept_refl; assumption)+

lemma kept_compare:
  "kept c (snd (build_fcom ins k pp c))" "kept c (snd (build_ficom ins p c))"
  "kept c (snd (build_fcomi ins p c))" "kept c (snd (build_fcmov ins cond c))"
  "kept c (snd (build_ftst c))" "kept c (snd (build_fstsw ins c))" "kept c (snd (build_cw op ins c))"
  unfolding build_fcom_def build_ficom_def build_fcomi_def build_fcmov_def build_ftst_def
    build_fstsw_def build_cw_def Let_def
  by (intro kept_rules kept_refl; assumption)+

lemma kept_moves:
  "kept c (snd (build_fldz_fld1 op c))" "kept c (snd (build_fldconst w c))"
  "kept c (snd (build_fld ins c))" "kept c (snd (build_fild ins c))"
  "kept c (snd (build_fst ins p c))" "kept c (snd (build_fist ins tr p c))"
  "kept c (snd (build_fxch ins c))"
  unfolding build_fldz_fld1_def build_fldconst_def build_fld_def build_fild_def build_fst_def
    build_fist_def build_fxch_def Let_def
  by (intro kept_rules kept_refl; assumption)+

lemma kept_bridge_node: "kept c (snd (bridge_node op a b k fl pay c))"
  unfolding bridge_node_def Let_def
  by (cases pay; simp only: option.case; intro kept_rules kept_refl; assumption)

lemma kept_bridge: "kept c (snd (build_bridge ins c))"
  unfolding build_bridge_def build_bridge_mov_def build_bridge_alu_def Let_def
  by (intro kept_if kept_ret kept_bridge_node kept_refl)

lemma kept_step: "kept c (snd (build_step ab v2 ins c))"
  unfolding build_step_def Let_def
  by (intro kept_if kept_arith kept_compare kept_moves kept_bridge kept_ret kept_prims kept_refl)

section \<open>The run\<close>

lemma build_loop_refines:
  assumes "sim S st0 m s c r" "consumed c = i" "\<forall>ins \<in> set xs. fst_operand_ok ins"
  shows "\<exists>k \<le> length xs. consumed (build_loop ab v2 i xs c) = i + k \<and>
    (\<exists>q. x87_run S (take k xs) r = Some q \<and> sim S st0 m s (build_loop ab v2 i xs c) q)"
  using assms
proof (induction xs arbitrary: i c r)
  case Nil
  then show ?case by simp
next
  case (Cons ins rest)
  show ?case
  proof (cases "has_segment_override ins")
    case True
    then show ?thesis
      using Cons.prems sim_fail_opcode [OF Cons.prems(1)]
      by (intro exI [of _ 0]) (simp add: set_fail_opcode_def)
  next
    case seg: False
    obtain ok c' where step: "build_step ab v2 ins c = (ok, c')" by fastforce
    have ref: "refines S st0 m s r (ok, c') (x87_exec S ins r)"
      using build_step_refines [OF Cons.prems(1), of ins ab v2] Cons.prems(3) by (simp add: step)
    have cons: "consumed c' = i"
      using kept_step [of c ab v2 ins] Cons.prems(2) by (simp add: step kept_def)
    let ?c = "attribute_nodes i c'"
    show ?thesis
    proof (cases ok)
      case False
      then have "sim S st0 m s ?c r"
        using ref by (auto simp: refines_def intro: sim_attribute)
      then show ?thesis
        using False seg step cons by (intro exI [of _ 0]) (simp add: attribute_nodes_def)
    next
      case True
      then obtain q where q: "x87_exec S ins r = Some q" "sim S st0 m s (?c\<lparr>consumed := Suc i\<rparr>) q"
        using ref by (auto simp: refines_def intro: sim_consumed sim_attribute)
      from Cons.IH [OF q(2)] Cons.prems(3) obtain k q' where
        "k \<le> length rest"
        "consumed (build_loop ab v2 (Suc i) rest (?c\<lparr>consumed := Suc i\<rparr>)) = Suc i + k"
        "x87_run S (take k rest) q = Some q'"
        "sim S st0 m s (build_loop ab v2 (Suc i) rest (?c\<lparr>consumed := Suc i\<rparr>)) q'"
        by auto
      then show ?thesis
        using True seg step q(1) by (intro exI [of _ "Suc k"]) (simp add: Let_def)
    qed
  qed
qed

lemma sim_init: "sim S st0 m s ctx_init (rinit st0 m s)"
proof -
  have "upt 0 8 = [0, 1, 2, 3, 4, 5, 6, 7]"
    by (simp add: upt_rec)
  then show ?thesis
    by (auto simp: sim_def wf_build_def wf_ctx_def read_ok_def ctx_init_def denote_def Let_def
        rinit_def eval_ctx_def slot_result_def conf0_def)
qed

lemma build_sim:
  assumes "build arr start n ab v2 = (ok, c)"
    and "\<forall>ins \<in> set (take n (drop start arr)). fst_operand_ok ins"
  shows "consumed c \<le> length (take n (drop start arr))"
    "\<exists>q. x87_run S (take (consumed c) (take n (drop start arr))) (rinit st0 m s) = Some q \<and>
      sim S st0 m s c q"
proof -
  have c: "c = build_loop ab v2 0 (take n (drop start arr)) ctx_init"
    using assms(1) by (simp add: build_def Let_def)
  show "consumed c \<le> length (take n (drop start arr))"
    "\<exists>q. x87_run S (take (consumed c) (take n (drop start arr))) (rinit st0 m s) = Some q \<and>
      sim S st0 m s c q"
    using build_loop_refines [OF sim_init [of S st0 m s] _ assms(2), of 0 ab v2]
    by (auto simp: c ctx_init_def)
qed

end
