(* ===== verification/X87_Build_Slots.thy ===== *)
theory X87_Build_Slots
  imports X87_Build_Correct
begin

text \<open>
  Where the builder leaves stack values physically: a slot that the context still names by its
  initial position is at that position.  The invariant holds whenever the node array was not
  exhausted; a full array breaks it, because \<^verbatim>\<open>fxch\<close> ignores that it could not resolve its slots.
\<close>

section \<open>The stack epilogue's assumption\<close>

text \<open>
  Lowering writes a slot back only when its symbolic value is a node; a slot that still names an
  initial position is taken to hold that very register already.  \<open>slots_home\<close> says that it does.
\<close>

definition slots_home :: "ctx \<Rightarrow> bool" where
  "slots_home c \<longleftrightarrow>
     (\<forall>d < 8. slot_val c ! d < 0 \<longrightarrow> - 8 \<le> slot_val c ! d \<longrightarrow>
        - (slot_val c ! d + 1) = int d + top_delta c)"

definition homed :: "ctx \<Rightarrow> bool" where
  "homed c \<longleftrightarrow> length (slot_val c) = 8 \<and> length (initial_read c) = 8 \<and> slots_home c"

lemma homed_same:
  "homed c \<Longrightarrow> slot_val c' = slot_val c \<Longrightarrow> top_delta c' = top_delta c \<Longrightarrow>
   length (initial_read c') = length (initial_read c) \<Longrightarrow> homed c'"
  by (simp add: homed_def slots_home_def)

lemma homed_set_slot:
  assumes "homed c" "0 \<le> v"
  shows "homed (set_slot d v c)"
proof -
  have "- (x + 1) = int e + top_delta c"
    if "e < 8" "x = (slot_val c)[nat d := v] ! e" "x < 0" "- 8 \<le> x" for e x
    using that assms by (cases "e = nat d") (auto simp: homed_def slots_home_def)
  then show ?thesis
    using assms by (simp add: homed_def slots_home_def set_slot_sel)
qed

lemma homed_push:
  assumes "homed c" "0 \<le> v"
  shows "homed (push v c)"
proof -
  have "- (x + 1) = int d + (top_delta c - 1)"
    if "d < 8" "x = (v # take 7 (slot_val c)) ! d" "x < 0" "- 8 \<le> x" for d x
    using that assms by (cases d) (auto simp: homed_def slots_home_def)
  then show ?thesis
    using assms by (simp add: homed_def slots_home_def push_def)
qed

lemma homed_pop:
  assumes "homed c"
  shows "homed (pop c)"
proof -
  have "- (x + 1) = int d + (top_delta c + 1)"
    if "d < 8" "x = (drop 1 (slot_val c) @ [-100]) ! d" "x < 0" "- 8 \<le> x" for d x
    using that assms by (cases "d = 7") (auto simp: homed_def slots_home_def nth_append)
  then show ?thesis
    using assms by (simp add: homed_def slots_home_def pop_def)
qed

lemma homed_prims:
  assumes "homed c"
  shows "homed (set_payload i p c)" "homed (set_flag i f c)" "homed (set_last_fcmp i c)"
    "homed (set_last_fcomi i c)" "homed (set_inputs i a b d c)" "homed (set_fail_opcode op c)"
    "homed (append_node n c)" "homed (attribute_nodes k c)" "homed (c\<lparr>consumed := j\<rparr>)"
    "homed (snd (add_node op' a' b' d' c))"
  by (rule homed_same [OF assms];
      simp add: set_payload_def set_flag_def set_last_fcmp_def set_last_fcomi_def set_inputs_def
        set_fail_opcode_def append_node_def attribute_nodes_def add_node_def)+

lemma homed_pops: "homed c \<Longrightarrow> homed ((pop ^^ k) c)"
  by (induction k) (auto intro: homed_pop)

lemma homed_new_read: "homed c \<Longrightarrow> homed (new_read d c)"
  by (erule homed_same) (simp_all add: new_read_def append_node_def)

lemma homed_resolve: "homed c \<Longrightarrow> homed (snd (resolve d c))"
  by (simp add: resolve_eq homed_def [of c] Let_def)
    (auto simp: homed_def [symmetric] intro!: homed_set_slot homed_new_read)

lemma homed_bind:
  "homed (snd res) \<Longrightarrow> (\<And>v c1. homed c1 \<Longrightarrow> 0 \<le> v \<Longrightarrow> homed (snd (G v c1))) \<Longrightarrow>
   homed (snd (case res of (v, c1) \<Rightarrow> if v < (0 :: int) then (b, c1) else G v c1))"
  by (cases res) simp

lemma homed_bind2:
  "homed (snd res) \<Longrightarrow> (\<And>c1. homed c1 \<Longrightarrow> homed (snd (g c1))) \<Longrightarrow>
   (\<And>v u c2. homed c2 \<Longrightarrow> 0 \<le> v \<Longrightarrow> 0 \<le> u \<Longrightarrow> homed (snd (G v u c2))) \<Longrightarrow>
   homed (snd (case res of (v, c1) \<Rightarrow> case g c1 of (u, c2) \<Rightarrow>
     if v < (0 :: int) \<or> u < (0 :: int) then (b, c2) else G v u c2))"
  by (cases res; cases "g (snd res)") force

lemma homed_bind_ok:
  "homed (snd res) \<Longrightarrow> (\<And>c1. homed c1 \<Longrightarrow> homed (snd (G c1))) \<Longrightarrow>
   homed (snd (case res of (ok, c1) \<Rightarrow> if \<not> ok then (b, c1) else G c1))"
  by (cases res) simp

lemma homed_if:
  "(b \<Longrightarrow> homed (snd x)) \<Longrightarrow> (\<not> b \<Longrightarrow> homed (snd y)) \<Longrightarrow> homed (snd (if b then x else y))"
  "(b \<Longrightarrow> homed c) \<Longrightarrow> (\<not> b \<Longrightarrow> homed c') \<Longrightarrow> homed (if b then c else c')"
  by simp_all

lemma homed_ret: "homed c \<Longrightarrow> homed (snd (v, c))"
  by simp

lemma homed_add_or_fail:
  "homed c \<Longrightarrow> (\<And>i c1. homed c1 \<Longrightarrow> 0 \<le> i \<Longrightarrow> homed (k i c1)) \<Longrightarrow>
   homed (snd (add_or_fail op a b d k c))"
  unfolding add_or_fail_def by (rule homed_bind, erule homed_prims) (intro homed_ret)

lemma homed_memory:
  assumes "homed c"
  shows "homed (snd (build_fp_load p c))" "homed (snd (build_int_load p c))"
    "homed (snd (build_const w c))" "homed (snd (build_fp_store p v c))"
    "homed (snd (build_int_store p v tr c))"
  unfolding build_fp_load_def build_int_load_def build_const_def build_fp_store_def
    build_int_store_def Let_def
  by (use assms in \<open>auto intro!: homed_bind homed_if homed_ret homed_prims split: osize.split option.split\<close>)

lemmas homed_rules = homed_bind2 homed_bind homed_bind_ok homed_if homed_ret homed_prims homed_pops
  homed_pop homed_push homed_set_slot homed_resolve homed_add_or_fail homed_memory

lemma homed_arith:
  assumes "homed c"
  shows "homed (snd (build_arith ins op rv c))" "homed (snd (build_arithp ins op rv c))"
  "homed (snd (build_fiarith ins op rv c))" "homed (snd (build_unary op c))"
  "homed (snd (build_st1_pop op c))" "homed (snd (build_fscale c))"
  "homed (snd (build_fsincos c))" "homed (snd (build_fptan c))"
  unfolding build_arith_def build_arithp_def build_fiarith_def build_unary_def build_st1_pop_def
    build_fscale_def build_fsincos_def build_fptan_def Let_def
  by (intro homed_rules assms; assumption)+

lemma homed_compare:
  assumes "homed c"
  shows "homed (snd (build_fcom ins k pp c))" "homed (snd (build_ficom ins p c))"
  "homed (snd (build_fcomi ins p c))" "homed (snd (build_fcmov ins cond c))"
  "homed (snd (build_ftst c))" "homed (snd (build_fstsw ins c))" "homed (snd (build_cw op ins c))"
  unfolding build_fcom_def build_ficom_def build_fcomi_def build_fcmov_def build_ftst_def
    build_fstsw_def build_cw_def Let_def
  by (intro homed_rules assms; assumption)+

lemma homed_moves:
  assumes "homed c"
  shows "homed (snd (build_fldz_fld1 op c))" "homed (snd (build_fldconst w c))"
  "homed (snd (build_fld ins c))" "homed (snd (build_fild ins c))"
  "homed (snd (build_fst ins p c))" "homed (snd (build_fist ins tr p c))"
  unfolding build_fldz_fld1_def build_fldconst_def build_fld_def build_fild_def build_fst_def
    build_fist_def Let_def
  by (intro homed_rules assms; assumption)+

lemma homed_bridge_node: "homed c \<Longrightarrow> homed (snd (bridge_node op a b k fl pay c))"
  unfolding bridge_node_def Let_def
  by (cases pay; simp only: option.case; intro homed_rules; assumption)

lemma homed_bridge: "homed c \<Longrightarrow> homed (snd (build_bridge ins c))"
  unfolding build_bridge_def build_bridge_mov_def build_bridge_alu_def Let_def
  by (intro homed_if homed_ret homed_bridge_node)

section \<open>Exchange\<close>

text \<open>With room in the node array, a resolved slot holds a node or is a popped register.\<close>

definition settled :: "ctx \<Rightarrow> int \<Rightarrow> bool" where
  "settled c d \<longleftrightarrow> 0 \<le> slot_val c ! nat d \<or> slot_val c ! nat d < - 8"

lemma resolve_settles:
  assumes "homed c" "0 \<le> d" "d < 8" "length (nodes (snd (resolve d c))) < kMaxNodes"
  shows "settled (snd (resolve d c)) d"
    and "settled c e \<Longrightarrow> settled (snd (resolve d c)) e"
proof -
  have len: "length (slot_val c) = 8" "length (initial_read c) = 8"
    using assms(1) by (simp_all add: homed_def)
  let ?v = "slot_val c ! nat d"
  have room: "\<not> kMaxNodes \<le> length (nodes c)"
    using assms(4) kept_resolve [OF kept_refl, of c d] by (simp add: kept_def)
  have upd: "settled (set_slot d w c1) e \<longleftrightarrow> (if nat e = nat d then True else settled c1 e)"
    if "0 \<le> w" "length (slot_val c1) = 8" for w c1 e
    using that assms(2,3) by (auto simp: settled_def set_slot_sel)
  have nr: "length (slot_val (new_read k c)) = 8" "settled (new_read k c) e = settled c e" for k e
    using len by (simp_all add: settled_def new_read_def append_node_sel)
  show "settled (snd (resolve d c)) d"
    using assms(2,3) room len
    by (auto simp: resolve_eq [OF len] Let_def upd nr) (auto simp: settled_def)
  show "settled c e \<Longrightarrow> settled (snd (resolve d c)) e"
    using assms(2,3) room len
    by (auto simp: resolve_eq [OF len] Let_def upd nr)
qed

lemma homed_fxch:
  assumes "homed c" "length (nodes (snd (build_fxch ins c))) < kMaxNodes"
  shows "homed (snd (build_fxch ins c))"
proof (cases "op_reg_index (opnd1 ins) \<le> 0 \<or> op_reg_index (opnd1 ins) \<ge> 8")
  case True
  then show ?thesis using assms(1) by (simp add: build_fxch_def Let_def)
next
  case False
  define d where "d = op_reg_index (opnd1 ins)"
  have d: "0 < d" "d < 8" using False by (auto simp: d_def)
  define c1 where "c1 = snd (resolve 0 c)"
  define c2 where "c2 = snd (resolve d c1)"
  have res: "snd (build_fxch ins c) = set_slot d (slot_val c2 ! 0) (set_slot 0 (slot_val c2 ! nat d) c2)"
    using d by (simp add: build_fxch_def Let_def d_def [symmetric] c2_def c1_def)
  have h1: "homed c1" and h2: "homed c2"
    using assms(1) by (auto simp: c1_def c2_def intro: homed_resolve)
  have n2: "length (nodes c2) < kMaxNodes"
    using assms(2) by (simp add: res set_slot_sel)
  then have n1: "length (nodes c1) < kMaxNodes"
    using kept_resolve [OF kept_refl, of c1 d] by (simp add: kept_def c2_def)
  have "settled c1 0"
    using resolve_settles(1) [OF assms(1)] n1 by (simp add: c1_def)
  then have s: "settled c2 0" "settled c2 d"
    using resolve_settles [OF h1, of d] n2 d by (auto simp: c2_def)
  have "- (x + 1) = int e + top_delta c2"
    if "e < 8" "x = (slot_val c2)[0 := slot_val c2 ! nat d, nat d := slot_val c2 ! 0] ! e" "x < 0" "- 8 \<le> x"
    for e x
    using that h2 s d
    by (cases "e = nat d"; cases "e = 0") (auto simp: homed_def slots_home_def settled_def)
  then show ?thesis
    using h2 by (simp add: res homed_def slots_home_def set_slot_sel)
qed

lemma homed_step:
  assumes "homed c" "length (nodes (snd (build_step ab v2 ins c))) < kMaxNodes"
  shows "homed (snd (build_step ab v2 ins c))"
proof (cases "opcode ins = kOpcodeName_fxch")
  case True
  then have "build_step ab v2 ins c = build_fxch ins c"
    by (simp add: build_step_def Let_def)
  then show ?thesis using assms homed_fxch by simp
next
  case False
  then show ?thesis
    unfolding build_step_def Let_def if_not_P [OF False]
    by (intro homed_if homed_arith homed_compare homed_moves homed_bridge homed_ret homed_prims assms(1))
qed

lemma build_loop_nodes: "length (nodes c) \<le> length (nodes (build_loop ab v2 i xs c))"
proof (induction xs arbitrary: i c)
  case (Cons ins rest)
  obtain ok c' where step: "build_step ab v2 ins c = (ok, c')" by fastforce
  have "length (nodes c) \<le> length (nodes c')"
    using kept_step [of c ab v2 ins] by (simp add: step kept_def)
  then show ?case
    using Cons.IH [of "(attribute_nodes i c')\<lparr>consumed := Suc i\<rparr>" "Suc i"]
    by (auto simp: step set_fail_opcode_def Let_def attribute_nodes_def)
qed simp

lemma homed_loop:
  "homed c \<Longrightarrow> length (nodes (build_loop ab v2 i xs c)) < kMaxNodes \<Longrightarrow>
   homed (build_loop ab v2 i xs c)"
proof (induction xs arbitrary: i c)
  case (Cons ins rest)
  obtain ok c' where step: "build_step ab v2 ins c = (ok, c')" by fastforce
  show ?case
  proof (cases "has_segment_override ins")
    case True
    then show ?thesis using Cons.prems(1) by (simp add: homed_prims)
  next
    case False
    let ?c = "attribute_nodes i c'"
    have nodes: "nodes ?c = nodes c'"
      by (simp add: attribute_nodes_def)
    have "length (nodes c') \<le> length (nodes (build_loop ab v2 i (ins # rest) c))"
      using build_loop_nodes [of "?c\<lparr>consumed := Suc i\<rparr>" ab v2 "Suc i" rest] False
      by (auto simp: step Let_def nodes)
    then have "homed ?c"
      using homed_step [OF Cons.prems(1), of ab v2 ins] Cons.prems(2) by (simp add: step homed_prims)
    then show ?thesis
      using Cons.IH [of "?c\<lparr>consumed := Suc i\<rparr>" "Suc i"] Cons.prems(2) False
      by (auto simp: step Let_def homed_prims)
  qed
qed simp

lemma homed_init: "homed ctx_init"
  by (simp add: homed_def slots_home_def ctx_init_def)

end
