(* ===== verification/X87_Examples.thy ===== *)
theory X87_Examples
  imports X87_Build X87_Ref
begin

text \<open>
  Concrete inputs: a machine whose values are integers, an operand and an instruction of each
  kind, and short programs.  The theorems of the development are applied to them.
\<close>

definition int_fpu :: "(int, u64 \<Rightarrow> int, int) fpu" where
  "int_fpu = \<lparr>f_bits = (\<lambda>b. if b = bits_one then 1 else uint b),
     f_load = (\<lambda>f p m. m (disp p)),
     f_store = (\<lambda>f tr p v s m. m(disp p := v)),
     f_arith = (\<lambda>a x y. case a of ArAdd \<Rightarrow> x + y | ArSub \<Rightarrow> x - y | ArMul \<Rightarrow> x * y | ArDiv \<Rightarrow> x div y),
     f_fmadd = (\<lambda>x y z. x * y + z), f_fmsub = (\<lambda>x y z. z - x * y),
     f_fnmsub = (\<lambda>x y z. x * y - z),
     f_neg = uminus, f_abs = abs, f_sqrt = id, f_rndint = (\<lambda>s x. x), f_sin = id, f_cos = id,
     f_tan = id, f_patan = (\<lambda>x y. x + y), f_yl2x = (\<lambda>x y. x * y), f_scale = (\<lambda>x y. x * y),
     f_cond = (\<lambda>c s. s = 0), f_cmp = (\<lambda>x y s. x - y), f_tst = (\<lambda>x s. x),
     f_comi = (\<lambda>x y s. x - y), f_stsw = (\<lambda>d t s m. m(0 := s)), f_ldcw = (\<lambda>p m s. s),
     f_stcw = (\<lambda>p s m. m(disp p := s)), f_int = (\<lambda>a m. m)\<rparr>"

definition st_opnd :: "u8 \<Rightarrow> ioperand" where
  "st_opnd i = \<lparr>kind = Register, opsize = S80, reg_byte = 0x70 OR i, seg_override = 0,
     mem_flags = 0, base_reg = 0, index_reg = 0, shift_amount = 0, disp = 0\<rparr>"

definition gpr_opnd :: "u8 \<Rightarrow> ioperand" where
  "gpr_opnd i = \<lparr>kind = Register, opsize = S32, reg_byte = 0x20 OR i, seg_override = 0,
     mem_flags = 0, base_reg = 0, index_reg = 0, shift_amount = 0, disp = 0\<rparr>"

definition mem_opnd :: "osize \<Rightarrow> u64 \<Rightarrow> ioperand" where
  "mem_opnd sz a = \<lparr>kind = MemRef, opsize = sz, reg_byte = 0, seg_override = 0,
     mem_flags = 1, base_reg = 3, index_reg = 0, shift_amount = 0, disp = a\<rparr>"

definition insn :: "u16 \<Rightarrow> ioperand list \<Rightarrow> irinstr" where
  "insn op ps = \<lparr>pc = 0, opcode = op, rep_prefix = 0, flag_liveness = 0, num_operands = length ps,
     opnd0 = (ps @ replicate 4 null_operand) ! 0, opnd1 = (ps @ replicate 4 null_operand) ! 1,
     opnd2 = (ps @ replicate 4 null_operand) ! 2, opnd3 = (ps @ replicate 4 null_operand) ! 3\<rparr>"

text \<open>\<^verbatim>\<open>fld [8]; fld [16]; fmulp st(1), st; fadd st, st(1); fstp [24]\<close>\<close>

definition prog_mul_add :: "irinstr list" where
  "prog_mul_add =
     [insn kOpcodeName_fld [mem_opnd S64 8], insn kOpcodeName_fld [mem_opnd S64 16],
      insn kOpcodeName_fmulp [st_opnd 1, st_opnd 0], insn kOpcodeName_fadd [st_opnd 0, st_opnd 1],
      insn kOpcodeName_fstp [mem_opnd S64 24]]"

end
