(* ===== verification/X87_Build_Props.thy ===== *)
theory X87_Build_Props
  imports X87_Build_Slots X87_Examples
begin

text \<open>The builder's theorems, each applied to a concrete run.\<close>

section \<open>Meaning\<close>

text \<open>C1: the builder is a translation: what the IR denotes from any machine state is what the
  reference machine computes on exactly the instructions the builder reports as consumed.\<close>

theorem build_refines_x87:
  assumes "build arr start n ab v2 = (ok, c)"
    and "\<forall>ins \<in> set (take n (drop start arr)). fst_operand_ok ins"
  shows "x87_run S (take (consumed c) (take n (drop start arr))) (rinit st0 m s) =
    Some (denote S st0 m s c)"
  using build_sim(2) [OF assms, of S st0 m s] by (auto simp: sim_def)

lemma build_refines_x87_witness:
  "x87_run int_fpu (take (consumed (snd (build prog_mul_add 0 5 False False))) (take 5 (drop 0 prog_mul_add)))
     (rinit int (\<lambda>_. 0) 0) =
   Some (denote int_fpu int (\<lambda>_. 0) 0 (snd (build prog_mul_add 0 5 False False)))"
  by (rule build_refines_x87 [where ok = "fst (build prog_mul_add 0 5 False False)"])
    (simp, code_simp)

text \<open>C2: what the builder leaves is well formed: at most \<open>kMaxNodes\<close> nodes, every reference
  points backwards, every stack position names an existing node, an initial register or nothing.\<close>

theorem build_wf:
  assumes "build arr start n ab v2 = (ok, c)"
    and "\<forall>ins \<in> set (take n (drop start arr)). fst_operand_ok ins"
  shows "wf_build c \<and> consumed c \<le> n"
proof -
  have "consumed c \<le> length (take n (drop start arr))"
    using build_sim(1) [OF assms] .
  then have "consumed c \<le> n" by simp
  moreover have "wf_build c"
    using build_sim(2) [OF assms, of undefined undefined undefined undefined]
    by (auto simp: sim_def)
  ultimately show ?thesis by simp
qed

lemma build_wf_witness:
  "wf_build (snd (build prog_mul_add 0 5 False False)) \<and>
   consumed (snd (build prog_mul_add 0 5 False False)) \<le> 5"
  by (rule build_wf [of prog_mul_add 0 5 False False "fst (build prog_mul_add 0 5 False False)"])
    (simp, code_simp)

section \<open>Attribution\<close>

definition attributed :: "nat \<Rightarrow> ctx \<Rightarrow> bool" where
  "attributed b c \<longleftrightarrow> length (node_src c) = length (nodes c) \<and> sorted (node_src c) \<and>
     (\<forall>x \<in> set (node_src c). 0 \<le> x \<and> x < int b)"

lemma attributed_step:
  assumes "attributed i c" "kept c c'"
  shows "attributed (Suc i) (attribute_nodes i c')"
proof -
  have "sorted (node_src c @ replicate k (int i))" for k
    using assms(1) by (fastforce simp: attributed_def sorted_append sorted_replicate)
  then show ?thesis
    using assms by (auto simp: attributed_def attribute_nodes_def kept_def)
qed

lemma attributed_mono: "attributed a c \<Longrightarrow> a \<le> b \<Longrightarrow> attributed b c"
  by (fastforce simp: attributed_def)

lemma build_loop_attributed:
  "attributed i c \<Longrightarrow> consumed c = i \<Longrightarrow>
   attributed (Suc (consumed (build_loop ab v2 i xs c))) (build_loop ab v2 i xs c)"
proof (induction xs arbitrary: i c)
  case Nil
  then show ?case by (auto intro: attributed_mono)
next
  case (Cons ins rest)
  obtain ok c' where step: "build_step ab v2 ins c = (ok, c')" by fastforce
  have k: "kept c c'" using kept_step [of c ab v2 ins] by (simp add: step)
  have a: "attributed (Suc i) (attribute_nodes i c')"
    by (rule attributed_step [OF Cons.prems(1) k])
  have cons: "consumed (attribute_nodes i c') = i"
    using k Cons.prems(2) by (simp add: kept_def attribute_nodes_def)
  have "attributed (Suc i) ((attribute_nodes i c')\<lparr>consumed := Suc i\<rparr>)"
    using a by (simp add: attributed_def)
  from Cons.IH [OF this] show ?case
    using Cons.prems a cons step
    by (auto simp: Let_def set_fail_opcode_def attributed_def dest: attributed_mono)
qed

text \<open>Every node is attributed to the instruction that created it, in program order, and
  only to a consumed instruction or to the one the builder stopped at.\<close>

theorem build_attribution:
  "attributed (Suc (consumed (snd (build arr start n ab v2)))) (snd (build arr start n ab v2))"
  unfolding build_def Let_def snd_conv
  by (rule build_loop_attributed) (simp_all add: attributed_def ctx_init_def)

section \<open>Stack positions\<close>

text \<open>C3: unless the node array was filled to the last entry, every stack position that is still
  named by an initial register is held by that very register, so the write-back of the stack may
  skip it.\<close>

theorem build_slots_home:
  assumes "length (nodes (snd (build arr start n ab v2))) < kMaxNodes"
  shows "slots_home (snd (build arr start n ab v2))"
  using homed_loop [OF homed_init, of ab v2 0 "take n (drop start arr)"] assms
  by (simp add: build_def Let_def homed_def)

lemma build_slots_home_witness:
  "slots_home (snd (build prog_mul_add 0 5 False False))"
  by (rule build_slots_home) code_simp

definition cw_insn :: irinstr where
  "cw_insn = insn kOpcodeName_fnstcw [mem_opnd S16 0]"

definition fxch_insn :: irinstr where
  "fxch_insn = insn kOpcodeName_fxch [st_opnd 0, st_opnd 1]"

lemma cw_insn_step:
  assumes "length (nodes c) < kMaxNodes"
  shows "\<not> has_segment_override cw_insn"
    "\<exists>c'. build_step ab v2 cw_insn c = (True, c') \<and> length (nodes c') = Suc (length (nodes c)) \<and>
      slot_val c' = slot_val c \<and> initial_read c' = initial_read c"
proof -
  show "\<not> has_segment_override cw_insn" by code_simp
  have "opcode cw_insn = kOpcodeName_fnstcw" by code_simp
  then have "build_step ab v2 cw_insn c = build_cw LoadCW cw_insn c"
    by (simp add: build_step_def)
  then show "\<exists>c'. build_step ab v2 cw_insn c = (True, c') \<and> length (nodes c') = Suc (length (nodes c)) \<and>
      slot_val c' = slot_val c \<and> initial_read c' = initial_read c"
    using assms by (simp add: build_cw_def add_or_fail_def add_node_eq set_payload_append append_node_sel)
qed

lemma cw_insns_loop:
  "length (nodes c) + k \<le> kMaxNodes \<Longrightarrow>
   \<exists>c'. build_loop ab v2 i (replicate k cw_insn @ xs) c = build_loop ab v2 (i + k) xs c' \<and>
     length (nodes c') = length (nodes c) + k \<and> slot_val c' = slot_val c \<and>
     initial_read c' = initial_read c"
proof (induction k arbitrary: i c)
  case 0
  show ?case by (intro exI [of _ c]) simp
next
  case (Suc k)
  have "length (nodes c) < kMaxNodes" using Suc.prems by simp
  note st = cw_insn_step [OF this]
  obtain c1 where c1: "build_step ab v2 cw_insn c = (True, c1)" "length (nodes c1) = Suc (length (nodes c))"
    "slot_val c1 = slot_val c" "initial_read c1 = initial_read c"
    using st(2) by blast
  let ?c = "(attribute_nodes i c1)\<lparr>consumed := Suc i\<rparr>"
  have "length (nodes ?c) + k \<le> kMaxNodes"
    using Suc.prems c1(2) by (simp add: attribute_nodes_def)
  from Suc.IH [OF this, of "Suc i"] show ?case
    using st(1) c1 by (auto simp: attribute_nodes_def)
qed

text \<open>C4: with the node array full, \<^verbatim>\<open>fxch\<close> is accepted and exchanges two unresolved positions:
  the run reports success, yet both values now sit where the write-back takes them to be
  already, so the exchange is lost.\<close>

theorem fxch_full_array_not_home:
  "let run = replicate kMaxNodes cw_insn @ [fxch_insn]; c = snd (build run 0 (length run) False False)
   in fst (build run 0 (length run) False False) \<and> consumed c = length run \<and>
      slot_val c = [-2, -1, -3, -4, -5, -6, -7, -8] \<and> \<not> slots_home c"
proof -
  let ?run = "replicate kMaxNodes cw_insn @ [fxch_insn]"
  have "length (nodes ctx_init) + kMaxNodes \<le> kMaxNodes"
    by (simp add: ctx_init_def)
  then obtain c' where c': "build_loop False False 0 ?run ctx_init = build_loop False False kMaxNodes [fxch_insn] c'"
    "length (nodes c') = kMaxNodes" "slot_val c' = slot_val ctx_init" "initial_read c' = initial_read ctx_init"
    using cw_insns_loop [of ctx_init kMaxNodes False False 0 "[fxch_insn]"] by (auto simp: ctx_init_def)
  have fx: "\<not> has_segment_override fxch_insn" "opcode fxch_insn = kOpcodeName_fxch"
    "op_reg_index (opnd1 fxch_insn) = 1"
    by code_simp+
  have sv: "slot_val ctx_init = [-1, -2, -3, -4, -5, -6, -7, -8]" "initial_read ctx_init = replicate 8 (-1)"
    by code_simp+
  have "resolve d c' = (-1, c')" if "d = 0 \<or> d = 1" for d
    using that c'(2-4) by (auto simp: resolve_def sv add_node_def)
  then have "build_fxch fxch_insn c' = (True, set_slot 1 (-1) (set_slot 0 (-2) c'))"
    by (simp add: build_fxch_def fx c' sv)
  then have step: "build_step False False fxch_insn c' = (True, set_slot 1 (-1) (set_slot 0 (-2) c'))"
    by (simp add: build_step_def fx)
  define fin where "fin = snd (build ?run 0 (length ?run) False False)"
  have c: "consumed fin = Suc kMaxNodes" "slot_val fin = [-2, -1, -3, -4, -5, -6, -7, -8]"
    by (simp_all add: fin_def build_def Let_def c' step fx attribute_nodes_def set_slot_sel sv)
  have "\<not> slots_home fin"
  proof
    assume home: "slots_home fin"
    have "- (slot_val fin ! d + 1) = int d + top_delta fin"
      if "d < 8" "slot_val fin ! d < 0" "- 8 \<le> slot_val fin ! d" for d
      using home that by (simp only: slots_home_def)
    from this [of 0] this [of 1] show False by (simp add: c)
  qed
  moreover have "fst (build ?run 0 (length ?run) False False)"
    using c(1) by (simp add: fin_def build_def Let_def kMaxNodes_def)
  ultimately show ?thesis
    unfolding Let_def fin_def [symmetric] using c by simp
qed

section \<open>What the builder accepts\<close>

definition alu_opcode :: "u16 \<Rightarrow> bool" where
  "alu_opcode op \<longleftrightarrow> op \<in> {kOpcodeName_add, kOpcodeName_sub, kOpcodeName_and, kOpcodeName_or,
     kOpcodeName_xor, kOpcodeName_inc, kOpcodeName_dec}"

lemma build_step_alu:
  assumes "fst (build_step ab v2 ins c)" "alu_opcode (opcode ins)"
  shows "ab \<and> v2 \<and> is_bridge_v2_proven ins \<and> flags_dead ins"
proof -
  have "build_step ab v2 ins c =
      (if ab \<and> (if v2 then is_bridge_v2_proven ins else is_bridge_v1 ins)
       then build_bridge ins c else (False, set_fail_opcode (opcode ins) c))"
    using assms(2) unfolding alu_opcode_def by (elim insertE emptyE) (simp_all add: build_step_def split del: if_split cong: if_cong)
  with assms(1) have "ab \<and> (if v2 then is_bridge_v2_proven ins else is_bridge_v1 ins)"
    by (auto split: if_splits)
  moreover have "\<not> is_bridge_v1 ins"
    using is_bridge_v1_opcode [of ins] assms(2) by (auto simp: alu_opcode_def)
  ultimately show ?thesis
    using is_bridge_v2_proven_flags [of ins] assms(2)
    by (auto simp: alu_opcode_def split: if_splits)
qed

lemma build_loop_accepts:
  assumes "consumed c = i" "j < consumed (build_loop ab v2 i xs c) - i"
  shows "\<not> has_segment_override (xs ! j) \<and>
    (alu_opcode (opcode (xs ! j)) \<longrightarrow> ab \<and> v2 \<and> flags_dead (xs ! j))"
  using assms
proof (induction xs arbitrary: i j c)
  case (Cons ins rest)
  obtain ok c' where step: "build_step ab v2 ins c = (ok, c')" by fastforce
  have k: "consumed c' = i" using kept_step [of c ab v2 ins] Cons.prems(1) by (simp add: step kept_def)
  have seg: "\<not> has_segment_override ins" and ok: "ok"
    using Cons.prems step k by (auto simp: set_fail_opcode_def attribute_nodes_def Let_def split: if_splits)
  let ?c = "(attribute_nodes i c')\<lparr>consumed := Suc i\<rparr>"
  have loop: "build_loop ab v2 i (ins # rest) c = build_loop ab v2 (Suc i) rest ?c"
    using seg ok step by (simp add: Let_def)
  show ?case
  proof (cases j)
    case 0
    then show ?thesis using seg ok step build_step_alu [of ab v2 ins c] by simp
  next
    case (Suc j')
    have "j' < consumed (build_loop ab v2 (Suc i) rest ?c) - Suc i"
      using Cons.prems(2) unfolding loop Suc by simp
    then show ?thesis
      using Cons.IH [of ?c "Suc i" j'] Suc by simp
  qed
qed simp

text \<open>C5: an integer ALU instruction is taken into a run only with bridging enabled and with its
  flags proved dead, and an instruction with a segment override is never taken.\<close>

theorem build_accepts_only_safe:
  assumes "j < consumed (snd (build arr start n ab v2))"
  shows "\<not> has_segment_override (take n (drop start arr) ! j) \<and>
    (alu_opcode (opcode (take n (drop start arr) ! j)) \<longrightarrow>
       ab \<and> v2 \<and> flags_dead (take n (drop start arr) ! j))"
  using build_loop_accepts [of ctx_init 0 j ab v2 "take n (drop start arr)"] assms
  by (simp add: build_def Let_def ctx_init_def)

definition prog_bridge :: "irinstr list" where
  "prog_bridge =
     [insn kOpcodeName_fld [mem_opnd S64 8], insn kOpcodeName_add [gpr_opnd 1, gpr_opnd 2],
      insn kOpcodeName_fstp [mem_opnd S64 24]]"

lemma build_accepts_only_safe_witness:
  "flags_dead (take 3 (drop 0 prog_bridge) ! 1)"
proof -
  have "1 < consumed (snd (build prog_bridge 0 3 True True))" by code_simp
  moreover have "alu_opcode (opcode (take 3 (drop 0 prog_bridge) ! 1))" by code_simp
  ultimately show ?thesis
    using build_accepts_only_safe [of 1 prog_bridge 0 3 True True] by blast
qed

end
