(* ===== verification/X87_Optimize.thy ===== *)
theory X87_Optimize
  imports X87_IR
begin

text \<open>
  The optimiser, \<^verbatim>\<open>X87IROptimize.cpp\<close>: dead code elimination, FMA contraction, tagging of FMA
  reductions, fusion of a compare with the status read that follows it, and the exact copy of
  64-bit integers.  The arrays \<^verbatim>\<open>use_count[kMaxNodes]\<close> are functions from node indices.  The
  diagnostic counters are left out, except that the validation of a reduction chain returns
  the reason it would be counted under.
\<close>

section \<open>Configuration\<close>

text \<open>The fields of \<^verbatim>\<open>g_rosetta_config\<close> that the passes read; \<open>None\<close> is the null pointer.\<close>

record opt_config =
  enable_fma_reduce :: bool
  enable_fma_contract :: bool
  fild_fistp_disabled :: bool

section \<open>Use counts\<close>

type_synonym counts = "nat \<Rightarrow> int"

fun count_refs :: "int list \<Rightarrow> counts \<Rightarrow> counts" where
  "count_refs [] u = u"
| "count_refs (x # xs) u = count_refs xs (if 0 \<le> x then u(nat x := u (nat x) + 1) else u)"

fun uncount_refs :: "int list \<Rightarrow> counts \<Rightarrow> counts" where
  "uncount_refs [] u = u"
| "uncount_refs (x # xs) u = uncount_refs xs (if 0 \<le> x then u(nat x := u (nat x) - 1) else u)"

definition slot_refs :: "ctx \<Rightarrow> int list" where
  "slot_refs c = filter (\<lambda>d. 0 \<le> d \<and> d < int (length (nodes c))) (slot_val c)"

fun count_nodes :: "node list \<Rightarrow> counts \<Rightarrow> counts" where
  "count_nodes [] u = u"
| "count_nodes (n # ns) u =
     count_nodes ns (if has_flag kDead n then u else count_refs (ninputs n) u)"

definition use_counts :: "ctx \<Rightarrow> counts" where
  "use_counts c = count_nodes (nodes c) (count_refs (slot_refs c) (\<lambda>_. 0))"

section \<open>Dead code elimination\<close>

fun side_effect_op :: "irop \<Rightarrow> bool" where
  "side_effect_op op \<longleftrightarrow> op \<in> {StoreF64, StoreF32, StoreI16, StoreI32, StoreI64, FCmp, FTst, FStsw,
     FComI, StoreCW, LoadCW, BridgeMovRR, BridgeMovRI, BridgeLea, BridgeLoadG, BridgeStoreG,
     BridgeExt, BridgeAluRR, BridgeAluRI, BridgeAluRM, BridgeAluMR}"

definition dse_step :: "nat \<Rightarrow> ctx \<times> counts \<Rightarrow> ctx \<times> counts" where
  "dse_step i cu = (case cu of (c, u) \<Rightarrow>
     let n = nodes c ! i in
     if has_flag kDead n then (c, u)
     else if side_effect_op (nop n) then (c, u)
     else if u i = 0 then (set_flag (int i) kDead c, uncount_refs (ninputs n) u)
     else (c, u))"

fun dse_walk :: "nat \<Rightarrow> ctx \<times> counts \<Rightarrow> ctx \<times> counts" where
  "dse_walk 0 cu = cu"
| "dse_walk (Suc i) cu = dse_walk i (dse_step i cu)"

definition pass_dse :: "ctx \<Rightarrow> ctx" where
  "pass_dse c =
     (let n = length (nodes c) in fst (dse_walk n (dse_walk n (c, use_counts c))))"

section \<open>FMA contraction\<close>

definition update_node :: "nat \<Rightarrow> (node \<Rightarrow> node) \<Rightarrow> ctx \<Rightarrow> ctx" where
  "update_node i f c = c\<lparr>nodes := (nodes c)[i := f (nodes c ! i)]\<rparr>"

definition fma_variant :: "irop \<Rightarrow> nat \<Rightarrow> irop" where
  "fma_variant op mul_input_idx =
     (if op = FAdd then FMAdd else if mul_input_idx = 0 then FNMSub else FMSub)"

definition fma_candidate :: "int \<Rightarrow> ctx \<Rightarrow> counts \<Rightarrow> bool" where
  "fma_candidate mul_id c u \<longleftrightarrow>
     0 \<le> mul_id \<and> mul_id < int (length (nodes c)) \<and> nop (nodes c ! nat mul_id) = FMul \<and>
     \<not> has_flag kDead (nodes c ! nat mul_id) \<and> u (nat mul_id) = 1"

definition fuse :: "nat \<Rightarrow> nat \<Rightarrow> int \<Rightarrow> int \<Rightarrow> ctx \<times> counts \<Rightarrow> ctx \<times> counts" where
  "fuse i mul_idx mul_id other_id cu = (case cu of (c, u) \<Rightarrow>
     let mul = nodes c ! nat mul_id;
         c1 = update_node i (\<lambda>n. n\<lparr>nop := fma_variant (nop n) mul_idx, nin0 := nin0 mul,
                nin1 := nin1 mul, nin2 := other_id\<rparr>) c;
         c2 = set_flag mul_id kDead c1
     in (c2, count_refs [nin0 mul, nin1 mul] (u(nat mul_id := 0))))"

definition fma_step :: "nat \<Rightarrow> ctx \<times> counts \<Rightarrow> ctx \<times> counts" where
  "fma_step i cu = (case cu of (c, u) \<Rightarrow>
     let n = nodes c ! i; in0 = nin0 n; in1 = nin1 n in
     if has_flag kDead n then (c, u)
     else if nop n \<noteq> FAdd \<and> nop n \<noteq> FSub then (c, u)
     else if fma_candidate in0 c u then fuse i 0 in0 in1 (c, u)
     else if fma_candidate in1 c u then fuse i 1 in1 in0 (c, u)
     else (c, u))"

fun fma_walk :: "nat list \<Rightarrow> ctx \<times> counts \<Rightarrow> ctx \<times> counts" where
  "fma_walk [] cu = cu"
| "fma_walk (i # is) cu = fma_walk is (fma_step i cu)"

definition pass_fma :: "ctx \<Rightarrow> ctx" where
  "pass_fma c = fst (fma_walk [0..<length (nodes c)] (c, use_counts c))"

section \<open>Fusion of a compare with the status read\<close>

definition is_cc_op :: "irop \<Rightarrow> bool" where
  "is_cc_op op \<longleftrightarrow> op = FCmp \<or> op = FTst"

definition clean_between :: "nat \<Rightarrow> nat \<Rightarrow> ctx \<Rightarrow> bool" where
  "clean_between a b c \<longleftrightarrow>
     list_all (\<lambda>j. has_flag kDead (nodes c ! j) \<or> \<not> is_cc_op (nop (nodes c ! j))) [Suc a..<b]"

definition fcom_step :: "nat \<Rightarrow> ctx \<Rightarrow> ctx" where
  "fcom_step i c =
     (let n = nodes c ! i; f = nin0 n in
      if has_flag kDead n then c
      else if nop n \<noteq> FStsw then c
      else if f < 0 \<or> f \<ge> int (length (nodes c)) then c
      else if \<not> is_cc_op (nop (nodes c ! nat f)) then c
      else if clean_between (nat f) i c then set_flag (int i) kFcomFused (set_flag f kFcomFused c)
      else c)"

definition pass_fcom_fstsw_fusion :: "ctx \<Rightarrow> ctx" where
  "pass_fcom_fstsw_fusion c = fold fcom_step [0..<length (nodes c)] c"

section \<open>FMA reductions\<close>

definition is_bridge_op :: "irop \<Rightarrow> bool" where
  "is_bridge_op op \<longleftrightarrow> op \<in> {BridgeMovRR, BridgeMovRI, BridgeLea, BridgeLoadG, BridgeStoreG, BridgeExt,
     BridgeAluRR, BridgeAluRI, BridgeAluRM, BridgeAluMR}"

text \<open>
  \<open>extract_simple_mem\<close> of a load or store node: the base register and the displacement of a
  plain base-plus-displacement operand.
\<close>

definition extract_simple_mem :: "node \<Rightarrow> (u8 \<times> u64) option" where
  "extract_simple_mem n = (case npay n of
     PMem op \<Rightarrow>
       (if kind op \<noteq> MemRef then None
        else if mem_flags op AND 1 = 0 then None
        else if mem_flags op AND 2 \<noteq> 0 then None
        else if seg_override op \<noteq> 0 then None
        else Some (base_reg op, disp op))
   | _ \<Rightarrow> None)"

datatype fma_reject = RejShort | RejStride | RejLoadKind | RejLoadUse | RejMemShape

definition in_range :: "int \<Rightarrow> ctx \<Rightarrow> bool" where
  "in_range x c \<longleftrightarrow> 0 \<le> x \<and> x < int (length (nodes c))"

fun find_node :: "(nat \<Rightarrow> bool) \<Rightarrow> nat list \<Rightarrow> nat option" where
  "find_node P [] = None"
| "find_node P (j # js) = (if P j then Some j else find_node P js)"

definition next_in_chain :: "nat \<Rightarrow> ctx \<Rightarrow> nat option" where
  "next_in_chain tail c =
     find_node (\<lambda>j. \<not> has_flag kDead (nodes c ! j) \<and> nop (nodes c ! j) = FMAdd \<and>
       nin2 (nodes c ! j) = int tail) [Suc tail..<length (nodes c)]"

text \<open>
  The forward walk \<^verbatim>\<open>while (chain_len < kMaxNodes)\<close>, \<open>k\<close> being the room left in \<^verbatim>\<open>chain\<close>.
\<close>

fun extend_chain :: "nat \<Rightarrow> nat \<Rightarrow> ctx \<Rightarrow> counts \<Rightarrow> nat list" where
  "extend_chain 0 tail c u = []"
| "extend_chain (Suc k) tail c u =
     (case next_in_chain tail c of None \<Rightarrow> []
      | Some j \<Rightarrow> if u tail \<noteq> 1 then [] else j # extend_chain k j c u)"

definition fma_chain :: "nat \<Rightarrow> ctx \<Rightarrow> counts \<Rightarrow> nat list" where
  "fma_chain i c u = i # extend_chain (kMaxNodes - 1) i c u"

text \<open>
  The loop over the chain's members: \<open>st\<close> is the element width and the two streams' bases, first
  displacements and strides, set at the first and second member.
\<close>

record stream_state =
  elem_op :: irop
  base_l :: u8
  base_w :: u8
  first_l :: u64
  first_w :: u64
  stride_l :: u64
  stride_w :: u64

definition check_loads :: "nat \<Rightarrow> nat \<Rightarrow> ctx \<Rightarrow> counts \<Rightarrow> stream_state \<Rightarrow>
  fma_reject + (irop \<times> (u8 \<times> u64) \<times> (u8 \<times> u64))" where
  "check_loads k a c u st =
     (let l = nin0 (nodes c ! a); w = nin1 (nodes c ! a) in
      if \<not> in_range l c \<or> \<not> in_range w c then Inl RejLoadKind
      else let ln = nodes c ! nat l; wn = nodes c ! nat w in
        if (if k = 0 then (nop ln \<noteq> LoadF32 \<and> nop ln \<noteq> LoadF64) \<or> nop wn \<noteq> nop ln
            else nop ln \<noteq> elem_op st \<or> nop wn \<noteq> elem_op st) then Inl RejLoadKind
        else if has_flag kDead ln \<or> has_flag kDead wn then Inl RejLoadKind
        else if u (nat l) \<noteq> 1 \<or> u (nat w) \<noteq> 1 then Inl RejLoadUse
        else if has_flag kFmaReduceMember ln \<or> has_flag kFmaReduceMember wn then Inl RejLoadUse
        else (case extract_simple_mem ln of None \<Rightarrow> Inl RejMemShape
          | Some lm \<Rightarrow> (case extract_simple_mem wn of None \<Rightarrow> Inl RejMemShape
            | Some wm \<Rightarrow> Inr (nop ln, lm, wm))))"

fun check_members :: "nat \<Rightarrow> nat list \<Rightarrow> ctx \<Rightarrow> counts \<Rightarrow> stream_state \<Rightarrow> fma_reject option" where
  "check_members k [] c u st = None"
| "check_members k (a # as) c u st = (case check_loads k a c u st of
     Inl r \<Rightarrow> Some r
   | Inr (e, (lb, ld), (wb, wd)) \<Rightarrow>
       if k = 0 then
         check_members (Suc k) as c u
           \<lparr>elem_op = e, base_l = lb, base_w = wb, first_l = ld, first_w = wd, stride_l = 0, stride_w = 0\<rparr>
       else
         let st' = (if k = 1 then st\<lparr>stride_l := ld - first_l st, stride_w := wd - first_w st\<rparr>
                    else st) in
         if k = 1 \<and> (stride_l st' = 0 \<or> stride_w st' = 0) then Some RejStride
         else if lb \<noteq> base_l st' \<or> ld \<noteq> first_l st' + stride_l st' * word_of_nat k then Some RejStride
         else if wb \<noteq> base_w st' \<or> wd \<noteq> first_w st' + stride_w st' * word_of_nat k then Some RejStride
         else check_members (Suc k) as c u st')"

definition init_streams :: stream_state where
  "init_streams = \<lparr>elem_op = LoadF32, base_l = 0, base_w = 0, first_l = 0, first_w = 0,
     stride_l = 0, stride_w = 0\<rparr>"

definition check_chain :: "nat list \<Rightarrow> ctx \<Rightarrow> counts \<Rightarrow> fma_reject option" where
  "check_chain chain c u =
     (if length chain < 2 then Some RejShort else check_members 0 chain c u init_streams)"

definition tag_member :: "nat \<Rightarrow> ctx \<Rightarrow> ctx" where
  "tag_member a c =
     (let c1 = set_flag (int a) kFmaReduceMember c; n = nodes c1 ! a in
      set_flag (nin1 n) kFmaReduceMember (set_flag (nin0 n) kFmaReduceMember c1))"

definition tag_chain :: "nat list \<Rightarrow> ctx \<Rightarrow> ctx" where
  "tag_chain chain c = fold tag_member chain (set_flag (int (hd chain)) kFmaReduceHead c)"

definition is_chain_head :: "nat \<Rightarrow> ctx \<Rightarrow> bool" where
  "is_chain_head i c \<longleftrightarrow>
     (let h = nodes c ! i in
      \<not> has_flag (kDead OR kFmaReduceMember) h \<and> nop h = FMAdd \<and>
      \<not> (in_range (nin2 h) c \<and> nop (nodes c ! nat (nin2 h)) = FMAdd \<and>
         has_flag kFmaReduceMember (nodes c ! nat (nin2 h))))"

definition fma_reduce_step :: "counts \<Rightarrow> nat \<Rightarrow> ctx \<Rightarrow> ctx" where
  "fma_reduce_step u i c =
     (if \<not> is_chain_head i c then c
      else let chain = fma_chain i c u in
        case check_chain chain c u of Some _ \<Rightarrow> c | None \<Rightarrow> tag_chain chain c)"

text \<open>\<^verbatim>\<open>count_uses\<close> bounds every reference by the number of nodes.\<close>

definition bounded_counts :: "ctx \<Rightarrow> counts" where
  "bounded_counts c =
     fold (\<lambda>n. if has_flag kDead n then id else count_refs (filter (\<lambda>x. in_range x c) (ninputs n)))
       (nodes c) (count_refs (slot_refs c) (\<lambda>_. 0))"

definition pass_fma_reduce :: "opt_config option \<Rightarrow> ctx \<Rightarrow> ctx" where
  "pass_fma_reduce cfg c =
     (case cfg of None \<Rightarrow> c
      | Some g \<Rightarrow>
          if \<not> enable_fma_reduce g then c
          else if list_ex (\<lambda>n. is_bridge_op (nop n)) (nodes c) then c
          else fold (fma_reduce_step (bounded_counts c)) [0..<length (nodes c)] c)"

section \<open>Exact copy of 64-bit integers\<close>

definition has_seg_override :: "node \<Rightarrow> bool" where
  "has_seg_override n = (case npay n of PMem p \<Rightarrow> seg_override p \<noteq> 0 | _ \<Rightarrow> False)"

text \<open>
  The two arrays: how many 64-bit integer stores consume a node, and whether anything else does.
\<close>

fun i64_uses_of :: "nat \<Rightarrow> nat \<Rightarrow> node \<Rightarrow> int list \<Rightarrow> (nat \<Rightarrow> nat) \<times> (nat \<Rightarrow> bool) \<Rightarrow>
  (nat \<Rightarrow> nat) \<times> (nat \<Rightarrow> bool)" where
  "i64_uses_of len k n [] so = so"
| "i64_uses_of len k n (x # xs) so = (case so of (su, ou) \<Rightarrow>
     i64_uses_of len (Suc k) n xs
       (if x < 0 \<or> x \<ge> int len then (su, ou)
        else if nop n = StoreI64 \<and> k = 0 \<and> \<not> has_seg_override n
        then (su(nat x := su (nat x) + 1), ou)
        else (su, ou(nat x := True))))"

fun i64_uses_nodes :: "nat \<Rightarrow> node list \<Rightarrow> (nat \<Rightarrow> nat) \<times> (nat \<Rightarrow> bool) \<Rightarrow>
  (nat \<Rightarrow> nat) \<times> (nat \<Rightarrow> bool)" where
  "i64_uses_nodes len [] so = so"
| "i64_uses_nodes len (n # ns) so =
     i64_uses_nodes len ns
       (if has_flag kDead n then so
        else i64_uses_of len 0 n (take (node_ref_input_count n) (ninputs n)) so)"

definition i64_uses :: "ctx \<Rightarrow> (nat \<Rightarrow> nat) \<times> (nat \<Rightarrow> bool)" where
  "i64_uses c =
     i64_uses_nodes (length (nodes c)) (nodes c)
       (\<lambda>_. 0, \<lambda>i. int i \<in> set (slot_refs c))"

definition retag_store :: "nat \<Rightarrow> node \<Rightarrow> node" where
  "retag_store i s =
     (if nop s = StoreI64 \<and> \<not> has_flag kDead s \<and> nin0 s = int i
      then s\<lparr>nop := StoreF64, nflags := nflags s AND NOT kTruncate\<rparr> else s)"

definition retag_copy :: "nat \<Rightarrow> ctx \<Rightarrow> ctx" where
  "retag_copy i c =
     (let c1 = update_node i (\<lambda>n. n\<lparr>nop := LoadF64\<rparr>) c in
      c1\<lparr>nodes := take (Suc i) (nodes c1) @ map (retag_store i) (drop (Suc i) (nodes c1))\<rparr>)"

definition i64_step :: "(nat \<Rightarrow> nat) \<times> (nat \<Rightarrow> bool) \<Rightarrow> nat \<Rightarrow> ctx \<Rightarrow> ctx" where
  "i64_step so i c =
     (let n = nodes c ! i in
      if nop n \<noteq> LoadI64 \<or> has_flag kDead n \<or> snd so i \<or> fst so i = 0 \<or> has_seg_override n
      then c else retag_copy i c)"

definition pass_exact_i64_copy :: "opt_config option \<Rightarrow> ctx \<Rightarrow> ctx" where
  "pass_exact_i64_copy cfg c =
     (if (case cfg of None \<Rightarrow> False | Some g \<Rightarrow> fild_fistp_disabled g) then c
      else fold (i64_step (i64_uses c)) [0..<length (nodes c)] c)"

section \<open>The pass pipeline\<close>

definition optimize :: "opt_config option \<Rightarrow> ctx \<Rightarrow> ctx" where
  "optimize cfg c =
     (let c1 = pass_dse c;
          c2 = (if (case cfg of None \<Rightarrow> False | Some g \<Rightarrow> enable_fma_contract g) then pass_fma c1 else c1)
      in pass_exact_i64_copy cfg (pass_fcom_fstsw_fusion (pass_fma_reduce cfg c2)))"

end
