(* ===== verification/X87_Pass_Sem.thy ===== *)
theory X87_Pass_Sem
  imports X87_Optimize X87_Sim
begin

text \<open>
  What an optimisation pass must prove: a simulation between the evaluation of the nodes before
  and after, index by index, and the contract \<open>ir_pass\<close> that every pass fulfils.  Contracts
  compose, so the pipeline's contract follows from those of its passes.
\<close>

section \<open>Evaluating two node lists in step\<close>

lemma eval_nodes_rel:
  assumes "length ns' = length ns" "R i k k'"
    and "\<And>j k k'. j < length ns \<Longrightarrow> R (i + j) k k' \<Longrightarrow>
      R (Suc (i + j)) (eval_node S st0 (i + j) (ns ! j) k) (eval_node S' st0' (i + j) (ns' ! j) k')"
  shows "R (i + length ns) (eval_nodes S st0 i ns k) (eval_nodes S' st0' i ns' k')"
  using assms
proof (induction ns arbitrary: ns' i k k')
  case Nil
  then show ?case by simp
next
  case (Cons n ns)
  then obtain n' ns'' where ns': "ns' = n' # ns''" "length ns'' = length ns"
    by (cases ns') auto
  have "R (Suc i + length ns) (eval_nodes S st0 (Suc i) ns (eval_node S st0 i n k))
      (eval_nodes S' st0' (Suc i) ns'' (eval_node S' st0' i n' k'))"
  proof (rule Cons.IH [OF ns'(2)])
    show "R (Suc i) (eval_node S st0 i n k) (eval_node S' st0' i n' k')"
      using Cons.prems(3) [of 0] Cons.prems(2) by (simp add: ns')
  next
    fix j k k'
    assume "j < length ns" "R (Suc i + j) k k'"
    then show "R (Suc (Suc i + j)) (eval_node S st0 (Suc i + j) (ns ! j) k)
        (eval_node S' st0' (Suc i + j) (ns'' ! j) k')"
      using Cons.prems(3) [of "Suc j" k k'] by (simp add: ns')
  qed
  then show ?case by (simp add: ns')
qed

definition agree :: "(nat \<Rightarrow> bool) \<Rightarrow> ('v, 'm, 's) conf \<Rightarrow> ('v, 'm, 's) conf \<Rightarrow> bool" where
  "agree L k k' \<longleftrightarrow>
     (\<forall>j. L j \<longrightarrow> cenv k j = cenv k' j) \<and> cmem k = cmem k' \<and> cstat k = cstat k'"

lemma agree_refl: "agree L k k"
  by (simp add: agree_def)

text \<open>A node reads only the registers it references.\<close>

definition refs_agree :: "node \<Rightarrow> ('v, 'm, 's) conf \<Rightarrow> ('v, 'm, 's) conf \<Rightarrow> bool" where
  "refs_agree n k k' \<longleftrightarrow> (\<forall>x \<in> set (node_refs n). cenv k (nat x) = cenv k' (nat x))"

lemma nval_refs:
  assumes "refs_agree n k k'" "nop n \<noteq> FStsw"
  shows "nval S (cenv k) (nin0 n) = nval S (cenv k') (nin0 n)"
    "nval S (cenv k) (nin1 n) = nval S (cenv k') (nin1 n)"
    "nval S (cenv k) (nin2 n) = nval S (cenv k') (nin2 n)"
  using assms by (auto simp: nval_def refs_agree_def node_refs_def node_ref_input_count_def ninputs_def)

lemma node_sem_refs:
  assumes "refs_agree n k k'"
  shows "is_value_op (nop n) \<Longrightarrow>
      node_value S st0 n (nval S (cenv k)) m s = node_value S st0 n (nval S (cenv k')) m s"
    and "node_mem S n (nval S (cenv k)) m s = node_mem S n (nval S (cenv k')) m s"
    and "node_stat S n (nval S (cenv k)) m s = node_stat S n (nval S (cenv k')) m s"
proof -
  show "node_value S st0 n (nval S (cenv k)) m s = node_value S st0 n (nval S (cenv k')) m s"
    if "is_value_op (nop n)"
  proof -
    have ne: "nop n \<noteq> FStsw" using that by auto
    show ?thesis by (simp only: node_value_def nval_refs [OF assms ne])
  qed
  show "node_mem S n (nval S (cenv k)) m s = node_mem S n (nval S (cenv k')) m s"
  proof (cases "nop n = FStsw")
    case True
    then show ?thesis by (simp add: node_mem_def Let_def)
  next
    case False
    show ?thesis by (simp only: node_mem_def nval_refs [OF assms False])
  qed
  show "node_stat S n (nval S (cenv k)) m s = node_stat S n (nval S (cenv k')) m s"
  proof (cases "nop n = FStsw")
    case True
    then show ?thesis by (simp add: node_stat_def Let_def)
  next
    case False
    show ?thesis by (simp only: node_stat_def nval_refs [OF assms False])
  qed
qed

definition sources_in :: "(nat \<Rightarrow> bool) \<Rightarrow> node \<Rightarrow> bool" where
  "sources_in L n \<longleftrightarrow> (\<forall>x \<in> set (node_refs n). L (nat x))"

lemma agree_step:
  assumes "agree L k k'" "sources_in L n"
  shows "agree L (eval_node S st0 i n k) (eval_node S st0 i n k')"
proof -
  have r: "refs_agree n k k'" and eq: "cmem k = cmem k'" "cstat k = cstat k'"
    and env: "\<And>j. L j \<Longrightarrow> cenv k j = cenv k' j"
    using assms by (auto simp: refs_agree_def agree_def sources_in_def)
  show ?thesis
    using env by (auto simp: agree_def eval_node_def Let_def eq node_sem_refs [OF r]
        simp del: is_value_op.simps)
qed

text \<open>Replacing a node whose effects are the same and whose register nobody reads.\<close>

lemma agree_step_mute:
  assumes "agree L k k'" "\<not> L i"
    and "\<And>v m s. \<not> has_flag kDead n \<Longrightarrow> node_mem S n v m s = m \<and> node_stat S n v m s = s"
    and "\<And>v m s. \<not> has_flag kDead n' \<Longrightarrow> node_mem S' n' v m s = m \<and> node_stat S' n' v m s = s"
  shows "agree L (eval_node S st0 i n k) (eval_node S' st0 i n' k')"
  using assms by (auto simp: agree_def eval_node_def Let_def simp del: is_value_op.simps)

lemma agree_step_value:
  assumes "agree L k k'" "is_value_op (nop n)" "is_value_op (nop n')"
    "\<not> has_flag kDead n" "\<not> has_flag kDead n'"
    and "L i \<Longrightarrow> node_value S st0 n (nval S (cenv k)) (cmem k) (cstat k) =
      node_value S' st0 n' (nval S' (cenv k')) (cmem k') (cstat k')"
  shows "agree L (eval_node S st0 i n k) (eval_node S' st0 i n' k')"
  using assms by (auto simp: agree_def eval_node_live eval_node_env_other value_op_no_effect
      simp del: is_value_op.simps, metis eval_node_env_other eval_node_live(3))

text \<open>Contexts that agree on the registers their stack names denote the same state.\<close>

lemma denote_agree:
  assumes "agree L (eval_ctx S st0 m s c) (eval_ctx S' st0 m s c')"
    and "slot_val c' = slot_val c" "top_delta c' = top_delta c"
    and "\<And>v. v \<in> set (slot_val c) \<Longrightarrow> 0 \<le> v \<Longrightarrow> L (nat v)"
  shows "denote S' st0 m s c' = denote S st0 m s c"
  using assms by (auto simp: denote_def Let_def agree_def slot_result_def)

text \<open>The usual shape of a pass's proof: the same number of nodes, and a step for every index.\<close>

lemma denote_steps:
  assumes "length (nodes c') = length (nodes c)" "slot_val c' = slot_val c" "top_delta c' = top_delta c"
    and "\<And>v. v \<in> set (slot_val c) \<Longrightarrow> 0 \<le> v \<Longrightarrow> L (nat v)"
    and "f_bits S' 0 = f_bits S 0"
    and "\<And>i k k'. i < length (nodes c) \<Longrightarrow> agree L k k' \<Longrightarrow>
      agree L (eval_node S st0 i (nodes c ! i) k) (eval_node S' st0 i (nodes c' ! i) k')"
  shows "denote S' st0 m s c' = denote S st0 m s c"
proof -
  have init: "conf0 S' m s = conf0 S m s"
    by (simp add: conf0_def assms(5))
  have "agree L (eval_ctx S st0 m s c) (eval_ctx S' st0 m s c')"
    unfolding eval_ctx_def init
    by (rule eval_nodes_rel [where R = "\<lambda>_. agree L", OF assms(1) agree_refl])
      (use assms(6) in simp)
  then show ?thesis
    using assms(2-4) by (rule denote_agree)
qed

section \<open>The contract of a pass\<close>

text \<open>
  \<open>law\<close> is what the pass needs of the machine underneath; \<open>inv\<close> what it needs of the context and
  keeps.
\<close>

locale ir_pass =
  fixes law :: "('v, 'm, 's) fpu \<Rightarrow> bool"
    and inv :: "ctx \<Rightarrow> bool"
    and run :: "ctx \<Rightarrow> ctx"
  assumes keeps: "inv c \<Longrightarrow> inv (run c)"
    and sound: "law S \<Longrightarrow> inv c \<Longrightarrow> denote S st0 m s (run c) = denote S st0 m s c"
begin

lemma run_twice: "law S \<Longrightarrow> inv c \<Longrightarrow> denote S st0 m s (run (run c)) = denote S st0 m s c"
  by (simp add: keeps sound)

lemma run_when:
  "law S \<Longrightarrow> inv c \<Longrightarrow> denote S st0 m s (if b then run c else c) = denote S st0 m s c"
  by (simp add: sound)

lemma keeps_when: "inv c \<Longrightarrow> inv (if b then run c else c)"
  by (simp add: keeps)

end

locale ir_pass_pair = p: ir_pass law_p inv run_p + q: ir_pass law_q inv run_q
  for law_p law_q :: "('v, 'm, 's) fpu \<Rightarrow> bool" and inv run_p run_q

sublocale ir_pass_pair \<subseteq> both: ir_pass "\<lambda>S. law_p S \<and> law_q S" inv "\<lambda>c. run_q (run_p c)"
  by unfold_locales (simp_all add: p.keeps q.keeps p.sound q.sound)

section \<open>Passes that only set flags\<close>

text \<open>Flags other than \<^verbatim>\<open>kDead\<close>, \<^verbatim>\<open>kTruncate\<close> and \<^verbatim>\<open>kBridge64\<close> have no meaning of their own.\<close>

definition quiet_flag :: "u8 \<Rightarrow> bool" where
  "quiet_flag f \<longleftrightarrow> f AND kDead = 0 \<and> f AND kTruncate = 0 \<and> f AND kBridge64 = 0"

definition quiet_change :: "node \<Rightarrow> node \<Rightarrow> bool" where
  "quiet_change n n' \<longleftrightarrow> (\<exists>f. quiet_flag f \<and> n' = or_flag f n)"

definition flags_only :: "ctx \<Rightarrow> ctx \<Rightarrow> bool" where
  "flags_only c c' \<longleftrightarrow> c' = c\<lparr>nodes := nodes c'\<rparr> \<and> list_all2 quiet_change (nodes c) (nodes c')"

lemma quiet_change_refl: "quiet_change n n"
  by (auto simp: quiet_change_def quiet_flag_def or_flag_def intro!: exI [of _ 0])

lemma quiet_change_trans:
  assumes "quiet_change n n1" "quiet_change n1 n2"
  shows "quiet_change n n2"
proof -
  obtain f g where "quiet_flag f" "n1 = or_flag f n" "quiet_flag g" "n2 = or_flag g n1"
    using assms by (auto simp: quiet_change_def)
  then have "quiet_flag (f OR g) \<and> n2 = or_flag (f OR g) n"
    by (simp add: quiet_flag_def or_flag_def or.assoc bit.conj_disj_distrib2)
  then show ?thesis by (auto simp: quiet_change_def)
qed

lemma flags_only_refl: "flags_only c c"
  by (simp add: flags_only_def list_all2_refl quiet_change_refl)

lemma flags_only_trans:
  assumes "flags_only a b" "flags_only b c"
  shows "flags_only a c"
proof -
  have "list_all2 quiet_change (nodes a) (nodes c)"
    by (rule list_all2_trans [OF quiet_change_trans]) (use assms in \<open>auto simp: flags_only_def\<close>)
  moreover have "c = a\<lparr>nodes := nodes c\<rparr>"
    using assms unfolding flags_only_def by (metis ctx.update_convs(1) ctx.surjective)
  ultimately show ?thesis by (simp add: flags_only_def)
qed

lemma flags_only_set_flag:
  assumes "quiet_flag f"
  shows "flags_only c (set_flag i f c)"
proof -
  have "quiet_change (nodes c ! j) ((nodes c)[nat i := or_flag f (nodes c ! nat i)] ! j)"
    if "j < length (nodes c)" for j
    using that assms quiet_change_refl by (cases "j = nat i") (auto simp: quiet_change_def)
  then show ?thesis
    by (simp add: flags_only_def set_flag_def list_all2_conv_all_nth)
qed

lemma flags_only_fold:
  "(\<And>x c. x \<in> set xs \<Longrightarrow> flags_only c (f x c)) \<Longrightarrow> flags_only c (fold f xs c)"
  by (induction xs arbitrary: c) (auto intro: flags_only_refl flags_only_trans)

lemma quiet_has_flag:
  assumes "quiet_flag f" "g \<in> {kDead, kTruncate, kBridge64}"
  shows "has_flag g (or_flag f n) = has_flag g n"
proof -
  have "f AND g = 0"
    using assms by (auto simp: quiet_flag_def)
  then show ?thesis
    by (simp add: has_flag_def or_flag_def bit.conj_disj_distrib2)
qed

lemma quiet_sem:
  assumes "quiet_flag f"
  shows "eval_node S st0 i (or_flag f n) k = eval_node S st0 i n k"
proof -
  note q = quiet_has_flag [OF assms, of kDead] quiet_has_flag [OF assms, of kTruncate]
    quiet_has_flag [OF assms, of kBridge64]
  have q': "has_flag kDead (or_flag f n) = has_flag kDead n"
    "has_flag kTruncate (or_flag f n) = has_flag kTruncate n"
    "has_flag kBridge64 (or_flag f n) = has_flag kBridge64 n"
    using q by simp_all
  have d: "pay_depth (or_flag f n) = pay_depth n"
    by (simp add: pay_depth_def)
  show ?thesis
    by (simp only: eval_node_def node_value_def node_mem_def node_stat_def or_flag_sel q' d)
qed

lemma quiet_node_refs: "node_refs (or_flag f n) = node_refs n"
  by (simp add: node_refs_def node_ref_input_count_def ninputs_def)

lemma flags_only_sel:
  assumes "flags_only c c'"
  shows "slot_val c' = slot_val c" "top_delta c' = top_delta c" "initial_read c' = initial_read c"
    "last_fcmp c' = last_fcmp c" "node_src c' = node_src c"
proof -
  from assms have eq: "c' = c\<lparr>nodes := nodes c'\<rparr>"
    by (simp add: flags_only_def)
  show "slot_val c' = slot_val c" by (subst eq) simp
  show "top_delta c' = top_delta c" by (subst eq) simp
  show "initial_read c' = initial_read c" by (subst eq) simp
  show "last_fcmp c' = last_fcmp c" by (subst eq) simp
  show "node_src c' = node_src c" by (subst eq) simp
qed

lemma flags_only_length: "flags_only c c' \<Longrightarrow> length (nodes c') = length (nodes c)"
  by (auto simp: flags_only_def dest: list_all2_lengthD)

lemma flags_only_nth:
  "flags_only c c' \<Longrightarrow> i < length (nodes c) \<Longrightarrow>
   \<exists>f. quiet_flag f \<and> nodes c' ! i = or_flag f (nodes c ! i)"
  by (auto simp: flags_only_def list_all2_conv_all_nth quiet_change_def)

lemma flags_only_denote:
  assumes "flags_only c c'"
  shows "denote S st0 m s c' = denote S st0 m s c"
proof (rule denote_steps [where L = "\<lambda>_. True"])
  show "slot_val c' = slot_val c" "top_delta c' = top_delta c" "length (nodes c') = length (nodes c)"
    by (simp_all add: flags_only_sel [OF assms] flags_only_length [OF assms])
  show "agree (\<lambda>_. True) (eval_node S st0 i (nodes c ! i) k) (eval_node S st0 i (nodes c' ! i) k')"
    if i: "i < length (nodes c)" and a: "agree (\<lambda>_. True) k k'" for i k k'
  proof -
    obtain f where "quiet_flag f" "nodes c' ! i = or_flag f (nodes c ! i)"
      using assms i by (auto simp: flags_only_def list_all2_conv_all_nth quiet_change_def)
    then show ?thesis
      using agree_step [OF a, of "nodes c ! i" S st0 i] by (simp add: quiet_sem sources_in_def)
  qed
qed simp_all

lemma flags_only_wf:
  assumes "flags_only c c'" "wf_ctx c"
  shows "wf_ctx c'"
proof -
  have "node_ok i (nodes c' ! i)" if "i < length (nodes c)" for i
    using flags_only_nth [OF assms(1) that] assms(2) that by (auto simp: wf_ctx_def)
  then show ?thesis
    using assms(2) by (simp add: wf_ctx_def flags_only_sel [OF assms(1)] flags_only_length [OF assms(1)])
qed

end
