(* ===== verification/X87_Dse.thy ===== *)
theory X87_Dse
  imports X87_Pass_Sem
begin

text \<open>
  Dead code elimination: the use counts are exact throughout both walks, a node is only killed
  when nothing reads it, and nothing unread survives.
\<close>

section \<open>Use counts\<close>

lemma count_refs_apply: "count_refs xs u x = u x + int (count_list xs (int x))"
  by (induction xs arbitrary: u) auto

lemma uncount_refs_apply: "uncount_refs xs u x = u x - int (count_list xs (int x))"
  by (induction xs arbitrary: u) auto

definition node_uses :: "node list \<Rightarrow> nat \<Rightarrow> nat" where
  "node_uses ns x =
     sum_list (map (\<lambda>n. if has_flag kDead n then 0 else count_list (ninputs n) (int x)) ns)"

definition uses :: "ctx \<Rightarrow> nat \<Rightarrow> nat" where
  "uses c x = count_list (slot_refs c) (int x) + node_uses (nodes c) x"

lemma count_nodes_apply: "count_nodes ns u x = u x + int (node_uses ns x)"
  by (induction ns arbitrary: u) (auto simp: node_uses_def count_refs_apply)

lemma use_counts_apply: "use_counts c x = int (uses c x)"
  by (simp add: use_counts_def count_nodes_apply count_refs_apply uses_def)

lemma count_list_pos: "x \<in> set xs \<Longrightarrow> 0 < count_list xs x"
  using count_notin [of x xs] by (metis count_list_0_iff gr0I)

lemma node_uses_pos:
  assumes "j < length ns" "\<not> has_flag kDead (ns ! j)" "int x \<in> set (ninputs (ns ! j))"
  shows "0 < node_uses ns x"
proof -
  let ?f = "\<lambda>n. if has_flag kDead n then 0 else count_list (ninputs n) (int x)"
  have "?f (ns ! j) \<le> sum_list (map ?f ns)"
    using elem_le_sum_list [of j "map ?f ns"] assms(1) by simp
  moreover have "0 < ?f (ns ! j)"
    using assms(2,3) by (simp add: count_list_pos)
  ultimately show ?thesis
    unfolding node_uses_def by linarith
qed

lemma node_uses_kill:
  assumes "i < length ns" "\<not> has_flag kDead (ns ! i)"
  shows "node_uses (ns[i := or_flag kDead (ns ! i)]) x + count_list (ninputs (ns ! i)) (int x) =
    node_uses ns x"
proof -
  let ?f = "\<lambda>n. if has_flag kDead n then 0 else count_list (ninputs n) (int x)"
  have "sum_list (map ?f (ns[i := or_flag kDead (ns ! i)])) =
      sum_list (map ?f ns) + ?f (or_flag kDead (ns ! i)) - ?f (ns ! i)"
    using sum_list_update [of i "map ?f ns" "?f (or_flag kDead (ns ! i))"] assms(1)
    by (simp only: map_update length_map nth_map)
  moreover have "?f (or_flag kDead (ns ! i)) = 0"
    by simp
  moreover have "?f (ns ! i) \<le> sum_list (map ?f ns)"
    using elem_le_sum_list [of i "map ?f ns"] assms(1) by simp
  ultimately show ?thesis
    using assms(2) by (simp add: node_uses_def)
qed

definition exact :: "ctx \<Rightarrow> counts \<Rightarrow> bool" where
  "exact c u \<longleftrightarrow> (\<forall>x. u x = int (uses c x))"

lemma exact_use_counts: "exact c (use_counts c)"
  by (simp add: exact_def use_counts_apply)

section \<open>Killing nodes\<close>

lemma side_effect_iff: "side_effect_op op \<longleftrightarrow> \<not> is_value_op op"
  by (cases op) simp_all

declare side_effect_op.simps [simp del] is_value_op.simps [simp del]

definition kill :: "nat \<Rightarrow> ctx \<Rightarrow> ctx" where
  "kill i c = c\<lparr>nodes := (nodes c)[i := or_flag kDead (nodes c ! i)]\<rparr>"

lemma set_flag_kill: "set_flag (int i) kDead c = kill i c"
  by (simp add: set_flag_def kill_def)

lemma kill_sel [pass_simps]:
  "nodes (kill i c) = (nodes c)[i := or_flag kDead (nodes c ! i)]" "slot_val (kill i c) = slot_val c"
  "top_delta (kill i c) = top_delta c" "initial_read (kill i c) = initial_read c"
  "last_fcmp (kill i c) = last_fcmp c" "node_src (kill i c) = node_src c"
  "slot_refs (kill i c) = slot_refs c"
  by (simp_all add: kill_def slot_refs_def)

lemma uses_kill:
  assumes "i < length (nodes c)" "\<not> has_flag kDead (nodes c ! i)"
  shows "int (uses (kill i c) x) = int (uses c x) - int (count_list (ninputs (nodes c ! i)) (int x))"
  using node_uses_kill [OF assms, of x] by (simp add: uses_def kill_sel)

text \<open>
  \<open>killed c c'\<close>: some live value nodes of \<open>c\<close> are dead in \<open>c'\<close>, and those have no use left.
\<close>

definition killed_at :: "ctx \<Rightarrow> ctx \<Rightarrow> nat \<Rightarrow> bool" where
  "killed_at c c' i \<longleftrightarrow> nodes c' ! i = nodes c ! i \<or>
     (nodes c' ! i = or_flag kDead (nodes c ! i) \<and> is_value_op (nop (nodes c ! i)) \<and>
      \<not> has_flag kDead (nodes c ! i) \<and> uses c' i = 0)"

definition killed :: "ctx \<Rightarrow> ctx \<Rightarrow> bool" where
  "killed c c' \<longleftrightarrow> c' = c\<lparr>nodes := nodes c'\<rparr> \<and> length (nodes c') = length (nodes c) \<and>
     (\<forall>i < length (nodes c). killed_at c c' i)"

lemma killed_refl: "killed c c"
  by (simp add: killed_def killed_at_def)

lemma killed_sel:
  assumes "killed c c'"
  shows "slot_val c' = slot_val c" "top_delta c' = top_delta c" "initial_read c' = initial_read c"
    "last_fcmp c' = last_fcmp c" "node_src c' = node_src c" "length (nodes c') = length (nodes c)"
    "slot_refs c' = slot_refs c"
proof -
  from assms have eq: "c' = c\<lparr>nodes := nodes c'\<rparr>" and len: "length (nodes c') = length (nodes c)"
    by (simp_all add: killed_def)
  show "slot_val c' = slot_val c" by (subst eq) simp
  then show "slot_refs c' = slot_refs c" by (simp add: slot_refs_def len)
  show "top_delta c' = top_delta c" by (subst eq) simp
  show "initial_read c' = initial_read c" by (subst eq) simp
  show "last_fcmp c' = last_fcmp c" by (subst eq) simp
  show "node_src c' = node_src c" by (subst eq) simp
  show "length (nodes c') = length (nodes c)" by (rule len)
qed

lemma killed_step:
  assumes "killed c c'" "i < length (nodes c')" "\<not> has_flag kDead (nodes c' ! i)"
    "is_value_op (nop (nodes c' ! i))" "uses c' i = 0"
  shows "killed c (kill i c')"
proof -
  have len: "length (nodes c') = length (nodes c)" by (rule killed_sel(6) [OF assms(1)])
  have less: "uses (kill i c') j = 0" if "uses c' j = 0" for j
    using uses_kill [OF assms(2,3), of j] that by linarith
  have "killed_at c (kill i c') j" if j: "j < length (nodes c)" for j
  proof (cases "j = i")
    case True
    have old: "nodes c' ! i = nodes c ! i"
      using assms(1,3) j True by (auto simp: killed_def killed_at_def has_flag_or)
    then show ?thesis
      using True assms(2-5) less [OF assms(5)] by (simp add: killed_at_def kill_sel)
  next
    case False
    then show ?thesis
      using assms(1) j less [of j] by (auto simp: killed_def killed_at_def kill_sel)
  qed
  moreover have "kill i c' = c\<lparr>nodes := nodes (kill i c')\<rparr>"
    using assms(1) unfolding killed_def kill_def by (metis ctx.update_convs(1) ctx.surjective)
  ultimately show ?thesis
    using len by (simp add: killed_def kill_sel)
qed

text \<open>Killing unread nodes is invisible.\<close>

lemma ninputs_node_refs: "x \<in> set (node_refs n) \<Longrightarrow> 0 \<le> x \<and> x \<in> set (ninputs n)"
  by (auto simp: node_refs_def dest: in_set_takeD)

lemma killed_wf:
  assumes "killed c c'" "wf_ctx c"
  shows "wf_ctx c'"
proof -
  have "node_ok i (nodes c' ! i)" if "i < length (nodes c)" for i
    using assms that by (auto simp: wf_ctx_def killed_def killed_at_def)
  then show ?thesis
    using assms(2) by (simp add: wf_ctx_def killed_sel [OF assms(1)])
qed

lemma killed_denote:
  fixes S :: "('v, 'm, 's) fpu"
  assumes k: "killed c c'" and wf: "wf_ctx c"
  shows "denote S st0 m s c' = denote S st0 m s c"
proof -
  define L where "L = (\<lambda>j. j < length (nodes c) \<and> nodes c' ! j = nodes c ! j)"
  have live: "L j" if "j < length (nodes c)" "0 < uses c' j" for j
    using k that by (auto simp: L_def killed_def killed_at_def)
  show ?thesis
  proof (rule denote_steps [where L = L])
    show "L (nat v)" if "v \<in> set (slot_val c)" "0 \<le> v" for v
    proof -
      have b: "v < int (length (nodes c))" using wf that(1) by (simp add: wf_ctx_def)
      then have "v \<in> set (slot_refs c')"
        using that by (simp add: slot_refs_def killed_sel [OF k])
      then have "0 < uses c' (nat v)"
        using that(2) by (simp add: uses_def count_list_pos)
      then show ?thesis using b that(2) by (intro live) auto
    qed
  next
    fix i :: nat and k1 k2 :: "('v, 'm, 's) conf"
    assume i: "i < length (nodes c)" and a: "agree L k1 k2"
    have ok: "node_ok i (nodes c ! i)" using wf i by (simp add: wf_ctx_def)
    consider "nodes c' ! i = nodes c ! i" "has_flag kDead (nodes c ! i)"
      | "nodes c' ! i = nodes c ! i" "\<not> has_flag kDead (nodes c ! i)"
      | "nodes c' ! i = or_flag kDead (nodes c ! i)" "is_value_op (nop (nodes c ! i))"
          "\<not> has_flag kDead (nodes c ! i)"
      using k i by (auto simp: killed_def killed_at_def L_def)
    then show "agree L (eval_node S st0 i (nodes c ! i) k1) (eval_node S st0 i (nodes c' ! i) k2)"
    proof cases
      case 1
      then show ?thesis using a by (simp add: eval_node_def)
    next
      case 2
      have "L (nat x)" if x: "x \<in> set (node_refs (nodes c ! i))" for x
      proof -
        have "x < int i" using ok x by (simp add: node_ok_def)
        moreover have "0 \<le> x" "x \<in> set (ninputs (nodes c ! i))" using ninputs_node_refs [OF x] by auto
        moreover have "0 < node_uses (nodes c') (nat x)"
          by (rule node_uses_pos [of i]) (use 2 i calculation in \<open>simp_all add: killed_sel [OF k]\<close>)
        ultimately show ?thesis using i by (intro live) (auto simp: uses_def)
      qed
      then show ?thesis using agree_step [OF a] 2(1) by (simp add: sources_in_def)
    next
      case 3
      then have "has_flag kDead (nodes c' ! i)" by simp
      then have "\<not> L i" using 3(3) by (auto simp: L_def)
      then show ?thesis using 3
        by (intro agree_step_mute [OF a]) (simp_all add: value_op_no_effect has_flag_or)
    qed
  qed (simp_all add: killed_sel [OF k])
qed

section \<open>The walks\<close>

lemma dse_step_inv:
  assumes "dse_step i (c', u) = (c2, u2)" "i < length (nodes c')" "exact c' u" "killed c c'"
  shows "exact c2 u2" "killed c c2"
proof -
  have "exact c2 u2 \<and> killed c c2"
  proof (cases "\<not> has_flag kDead (nodes c' ! i) \<and> is_value_op (nop (nodes c' ! i)) \<and> u i = 0")
    case True
    then have eq: "c2 = kill i c'" "u2 = uncount_refs (ninputs (nodes c' ! i)) u"
      using assms(1) by (simp_all add: dse_step_def side_effect_iff set_flag_kill)
    have "uses c' i = 0" using assms(3) True by (simp add: exact_def)
    then have "killed c c2"
      using killed_step [OF assms(4,2)] True by (simp add: eq)
    moreover have "exact c2 u2"
      using assms(3) True uses_kill [OF assms(2)] by (simp add: exact_def eq uncount_refs_apply)
    ultimately show ?thesis by simp
  next
    case False
    then have "c2 = c'" "u2 = u"
      using assms(1) by (auto simp: dse_step_def side_effect_iff Let_def split: if_splits)
    then show ?thesis using assms(3,4) by simp
  qed
  then show "exact c2 u2" "killed c c2" by auto
qed

lemma dse_walk_inv:
  "dse_walk k (c', u) = (c2, u2) \<Longrightarrow> k \<le> length (nodes c') \<Longrightarrow> exact c' u \<Longrightarrow> killed c c' \<Longrightarrow>
   exact c2 u2 \<and> killed c c2"
proof (induction k arbitrary: c' u)
  case (Suc k)
  obtain c1 u1 where st: "dse_step k (c', u) = (c1, u1)" by fastforce
  have "exact c1 u1" "killed c c1"
    using dse_step_inv [OF st _ Suc.prems(3,4)] Suc.prems(2) by auto
  moreover have "length (nodes c1) = length (nodes c')"
    using killed_sel(6) [OF \<open>killed c c1\<close>] killed_sel(6) [OF Suc.prems(4)] by simp
  ultimately show ?case
    using Suc.IH [of c1 u1] Suc.prems by (simp add: st)
qed simp

lemma pass_dse_killed: "killed c (pass_dse c)"
proof -
  let ?n = "length (nodes c)"
  obtain c1 u1 where 1: "dse_walk ?n (c, use_counts c) = (c1, u1)" by fastforce
  obtain c2 u2 where 2: "dse_walk ?n (c1, u1) = (c2, u2)" by fastforce
  have a: "exact c1 u1 \<and> killed c c1"
    by (rule dse_walk_inv [OF 1]) (simp_all add: exact_use_counts killed_refl)
  have "exact c2 u2 \<and> killed c c2"
    by (rule dse_walk_inv [OF 2]) (use a killed_sel(6) [of c c1] in auto)
  then show ?thesis
    by (simp add: pass_dse_def Let_def 1 2)
qed

interpretation dse: ir_pass "\<lambda>_. True" wf_ctx pass_dse
  by unfold_locales (erule killed_wf [OF pass_dse_killed], erule killed_denote [OF pass_dse_killed])

section \<open>Nothing unread survives\<close>

text \<open>
  \<open>read_from k c\<close>: from index \<open>k\<close> on every live value node is read.  One walk establishes it for
  all nodes, because killing a node only releases nodes before it.
\<close>

definition read_from :: "nat \<Rightarrow> ctx \<Rightarrow> bool" where
  "read_from k c \<longleftrightarrow> (\<forall>j < length (nodes c). k \<le> j \<longrightarrow> \<not> has_flag kDead (nodes c ! j) \<longrightarrow>
     is_value_op (nop (nodes c ! j)) \<longrightarrow> 0 < uses c j)"

lemma value_inputs_back:
  assumes "wf_ctx c" "i < length (nodes c)" "is_value_op (nop (nodes c ! i))" "i \<le> j"
  shows "count_list (ninputs (nodes c ! i)) (int j) = 0"
proof -
  have "nop (nodes c ! i) \<noteq> FStsw"
    using assms(3) by (auto simp: is_value_op.simps)
  then have "x \<in> set (node_refs (nodes c ! i))" if "x \<in> set (ninputs (nodes c ! i))" "0 \<le> x" for x
    using that by (auto simp: node_refs_def node_ref_input_count_def ninputs_def)
  then have "int j \<notin> set (ninputs (nodes c ! i))"
    using assms(1,2,4) by (fastforce simp: wf_ctx_def node_ok_def)
  then show ?thesis by simp
qed

lemma dse_step_read:
  assumes "dse_step k (c, u) = (c2, u2)" "k < length (nodes c)" "exact c u" "wf_ctx c"
    "read_from (Suc k) c"
  shows "read_from k c2"
proof (cases "\<not> has_flag kDead (nodes c ! k) \<and> is_value_op (nop (nodes c ! k)) \<and> u k = 0")
  case True
  then have c2: "c2 = kill k c"
    using assms(1) by (simp add: dse_step_def side_effect_iff set_flag_kill)
  have "uses c2 j = uses c j" if "k \<le> j" for j
    using uses_kill [OF assms(2), of j] value_inputs_back [OF assms(4,2) _ that] True by (simp add: c2)
  moreover have "nodes c2 ! j = nodes c ! j" if "j \<noteq> k" for j
    using that by (simp add: c2 kill_sel)
  moreover have "has_flag kDead (nodes c2 ! k)"
    using assms(2) by (simp add: c2 kill_sel)
  ultimately show ?thesis
    using assms(5) unfolding read_from_def
    by (metis Suc_leI c2 kill_sel(1) le_neq_implies_less length_list_update)
next
  case False
  then have c2: "c2 = c"
    using assms(1) by (auto simp: dse_step_def side_effect_iff Let_def split: if_splits)
  show ?thesis
    unfolding read_from_def
  proof (intro allI impI)
    fix j
    assume j: "j < length (nodes c2)" "k \<le> j" "\<not> has_flag kDead (nodes c2 ! j)"
      "is_value_op (nop (nodes c2 ! j))"
    show "0 < uses c2 j"
    proof (cases "j = k")
      case True
      then show ?thesis using j False assms(3) by (auto simp: c2 exact_def)
    next
      case False
      then show ?thesis using j assms(5) by (simp add: c2 read_from_def)
    qed
  qed
qed

lemma dse_walk_read:
  "dse_walk k (c', u) = (c2, u2) \<Longrightarrow> k \<le> length (nodes c') \<Longrightarrow> exact c' u \<Longrightarrow> killed c c' \<Longrightarrow>
   wf_ctx c \<Longrightarrow> read_from k c' \<Longrightarrow> read_from 0 c2"
proof (induction k arbitrary: c' u)
  case (Suc k)
  obtain c1 u1 where st: "dse_step k (c', u) = (c1, u1)" by fastforce
  have k: "k < length (nodes c')" using Suc.prems(2) by simp
  note inv = dse_step_inv [OF st k Suc.prems(3,4)]
  have "read_from k c1"
    by (rule dse_step_read [OF st k Suc.prems(3) killed_wf [OF Suc.prems(4,5)] Suc.prems(6)])
  then show ?case
    using Suc.IH [of c1 u1] Suc.prems inv killed_sel(6) [OF inv(2)] killed_sel(6) [OF Suc.prems(4)]
    by (simp add: st)
qed simp

lemma dse_walk_idle:
  "exact c u \<Longrightarrow> read_from 0 c \<Longrightarrow> k \<le> length (nodes c) \<Longrightarrow> dse_walk k (c, u) = (c, u)"
proof (induction k)
  case (Suc k)
  have "0 < uses c k" if "\<not> has_flag kDead (nodes c ! k)" "is_value_op (nop (nodes c ! k))"
    using Suc.prems that by (simp add: read_from_def)
  then have "dse_step k (c, u) = (c, u)"
    using Suc.prems(1) by (fastforce simp: dse_step_def side_effect_iff Let_def exact_def)
  then show ?case using Suc by simp
qed simp

lemma pass_dse_one_walk:
  assumes "wf_ctx c"
  shows "pass_dse c = fst (dse_walk (length (nodes c)) (c, use_counts c))" "read_from 0 (pass_dse c)"
proof -
  let ?n = "length (nodes c)"
  obtain c1 u1 where 1: "dse_walk ?n (c, use_counts c) = (c1, u1)" by fastforce
  have a: "exact c1 u1 \<and> killed c c1"
    by (rule dse_walk_inv [OF 1]) (simp_all add: exact_use_counts killed_refl)
  have r: "read_from 0 c1"
    by (rule dse_walk_read [OF 1 _ exact_use_counts killed_refl assms]) (simp_all add: read_from_def)
  have "dse_walk ?n (c1, u1) = (c1, u1)"
    by (rule dse_walk_idle) (use a r killed_sel(6) [of c c1] in auto)
  then show "pass_dse c = fst (dse_walk ?n (c, use_counts c))" "read_from 0 (pass_dse c)"
    using r by (simp_all add: pass_dse_def Let_def 1)
qed

end
