(* ===== verification/X87_Fma.thy ===== *)
theory X87_Fma
  imports X87_Dse
begin

text \<open>
  FMA contraction: a product with a single use is folded into the sum that reads it.  Over any
  machine whose fused operations are the unfused ones, the state denoted is the same.
\<close>

definition fused_law :: "('v, 'm, 's) fpu \<Rightarrow> bool" where
  "fused_law S \<longleftrightarrow>
     (\<forall>a b c. f_fmadd S a b c = f_arith S ArAdd (f_arith S ArMul a b) c \<and>
        f_fmsub S a b c = f_arith S ArSub c (f_arith S ArMul a b) \<and>
        f_fnmsub S a b c = f_arith S ArSub (f_arith S ArMul a b) c) \<and>
     (\<forall>a b. f_arith S ArAdd a b = f_arith S ArAdd b a)"

section \<open>A single use\<close>

lemma node_uses_update:
  assumes "i < length ns" "\<not> has_flag kDead (ns ! i)" "\<not> has_flag kDead n"
  shows "node_uses (ns[i := n]) x + count_list (ninputs (ns ! i)) (int x) =
    node_uses ns x + count_list (ninputs n) (int x)"
proof -
  let ?f = "\<lambda>n. if has_flag kDead n then 0 else count_list (ninputs n) (int x)"
  have "sum_list (map ?f (ns[i := n])) = sum_list (map ?f ns) + ?f n - ?f (ns ! i)"
    using sum_list_update [of i "map ?f ns" "?f n"] assms(1)
    by (simp only: map_update length_map nth_map)
  moreover have "?f (ns ! i) \<le> sum_list (map ?f ns)"
    using elem_le_sum_list [of i "map ?f ns"] assms(1) by simp
  ultimately show ?thesis
    using assms(2,3) by (simp add: node_uses_def)
qed

lemma single_use:
  assumes "uses c m \<le> 1" "i < length (nodes c)" "\<not> has_flag kDead (nodes c ! i)"
    "int m \<in> set (ninputs (nodes c ! i))"
  shows "count_list (ninputs (nodes c ! i)) (int m) = 1" "int m \<notin> set (slot_refs c)"
    "j < length (nodes c) \<Longrightarrow> j \<noteq> i \<Longrightarrow> \<not> has_flag kDead (nodes c ! j) \<Longrightarrow>
      int m \<notin> set (ninputs (nodes c ! j))"
proof -
  let ?ns = "(nodes c)[i := or_flag kDead (nodes c ! i)]"
  have cnt: "0 < count_list (ninputs (nodes c ! i)) (int m)"
    by (rule count_list_pos [OF assms(4)])
  have sum: "node_uses ?ns m + count_list (ninputs (nodes c ! i)) (int m) = node_uses (nodes c) m"
    by (rule node_uses_kill [OF assms(2,3)])
  have le: "count_list (slot_refs c) (int m) + node_uses (nodes c) m \<le> 1"
    using assms(1) by (simp add: uses_def)
  show "count_list (ninputs (nodes c ! i)) (int m) = 1"
    using cnt sum le by linarith
  have "count_list (slot_refs c) (int m) = 0"
    using cnt sum le by linarith
  then show "int m \<notin> set (slot_refs c)"
    by (simp add: count_list_0_iff)
  show "int m \<notin> set (ninputs (nodes c ! j))"
    if "j < length (nodes c)" "j \<noteq> i" "\<not> has_flag kDead (nodes c ! j)"
  proof
    assume "int m \<in> set (ninputs (nodes c ! j))"
    then have "0 < node_uses ?ns m"
      using that by (intro node_uses_pos [of j]) simp_all
    then show False using cnt sum le by linarith
  qed
qed

section \<open>One fusion\<close>

text \<open>\<open>fusable c i m x q\<close>: node \<open>i\<close> is the sum or difference that reads the product \<open>m\<close>, as its
  first input when \<open>q = 0\<close>, and \<open>x\<close> is its other input.\<close>

definition fusable :: "ctx \<Rightarrow> nat \<Rightarrow> nat \<Rightarrow> int \<Rightarrow> nat \<Rightarrow> bool" where
  "fusable c i m x q \<longleftrightarrow>
     i < length (nodes c) \<and> \<not> has_flag kDead (nodes c ! i) \<and> nop (nodes c ! i) \<in> {FAdd, FSub} \<and>
     m < length (nodes c) \<and> nop (nodes c ! m) = FMul \<and> \<not> has_flag kDead (nodes c ! m) \<and>
     uses c m \<le> 1 \<and>
     (if q = 0 then nin0 (nodes c ! i) = int m \<and> nin1 (nodes c ! i) = x
      else nin1 (nodes c ! i) = int m \<and> nin0 (nodes c ! i) = x)"

definition fused_node :: "ctx \<Rightarrow> nat \<Rightarrow> nat \<Rightarrow> int \<Rightarrow> nat \<Rightarrow> node" where
  "fused_node c i m x q =
     (nodes c ! i)\<lparr>nop := fma_variant (nop (nodes c ! i)) q, nin0 := nin0 (nodes c ! m),
        nin1 := nin1 (nodes c ! m), nin2 := x\<rparr>"

definition fused :: "ctx \<Rightarrow> nat \<Rightarrow> nat \<Rightarrow> int \<Rightarrow> nat \<Rightarrow> ctx" where
  "fused c i m x q = c\<lparr>nodes := (nodes c)[i := fused_node c i m x q, m := or_flag kDead (nodes c ! m)]\<rparr>"

lemma fused_node_sel [simp]:
  "nop (fused_node c i m x q) = fma_variant (nop (nodes c ! i)) q"
  "nin0 (fused_node c i m x q) = nin0 (nodes c ! m)" "nin1 (fused_node c i m x q) = nin1 (nodes c ! m)"
  "nin2 (fused_node c i m x q) = x" "has_flag f (fused_node c i m x q) = has_flag f (nodes c ! i)"
  by (simp_all add: fused_node_def has_flag_def)

lemma fma_variant_value: "is_value_op (fma_variant op q)" "fma_variant op q \<noteq> FStsw"
  by (simp_all add: fma_variant_def is_value_op.simps)

lemma fused_sel:
  "slot_val (fused c i m x q) = slot_val c" "top_delta (fused c i m x q) = top_delta c"
  "initial_read (fused c i m x q) = initial_read c" "last_fcmp (fused c i m x q) = last_fcmp c"
  "node_src (fused c i m x q) = node_src c" "length (nodes (fused c i m x q)) = length (nodes c)"
  "slot_refs (fused c i m x q) = slot_refs c"
  by (simp_all add: fused_def slot_refs_def)

lemma back_refs:
  assumes "wf_ctx c" "j < length (nodes c)" "nop (nodes c ! j) \<noteq> FStsw"
  shows "nin0 (nodes c ! j) < int j" "nin1 (nodes c ! j) < int j" "nin2 (nodes c ! j) < int j"
proof -
  have "\<forall>x \<in> set (node_refs (nodes c ! j)). x < int j"
    using assms(1,2) by (simp add: wf_ctx_def node_ok_def)
  moreover have "node_refs (nodes c ! j) =
      filter (\<lambda>x. 0 \<le> x) [nin0 (nodes c ! j), nin1 (nodes c ! j), nin2 (nodes c ! j)]"
    using assms(3) by (simp add: node_refs_def node_ref_input_count_def ninputs_def)
  ultimately have in_refs: "0 \<le> x \<Longrightarrow> x \<in> {nin0 (nodes c ! j), nin1 (nodes c ! j), nin2 (nodes c ! j)} \<Longrightarrow>
      x < int j" for x
    by auto
  show "nin0 (nodes c ! j) < int j" by (cases "0 \<le> nin0 (nodes c ! j)") (use in_refs in auto)
  show "nin1 (nodes c ! j) < int j" by (cases "0 \<le> nin1 (nodes c ! j)") (use in_refs in auto)
  show "nin2 (nodes c ! j) < int j" by (cases "0 \<le> nin2 (nodes c ! j)") (use in_refs in auto)
qed

lemma fusable_order:
  assumes "fusable c i m x q" "wf_ctx c"
  shows "m < i" "nin0 (nodes c ! m) < int m" "nin1 (nodes c ! m) < int m" "x < int i" "x \<noteq> int m"
proof -
  have i: "nop (nodes c ! i) \<noteq> FStsw" and m: "nop (nodes c ! m) \<noteq> FStsw"
    using assms(1) by (auto simp: fusable_def)
  show "m < i" "x < int i"
    using back_refs [OF assms(2) _ i] assms(1) by (auto simp: fusable_def split: if_splits)
  show "nin0 (nodes c ! m) < int m" "nin1 (nodes c ! m) < int m"
    using back_refs [OF assms(2) _ m] assms(1) by (auto simp: fusable_def)
  have "int m \<in> set (ninputs (nodes c ! i))"
    using assms(1) by (auto simp: fusable_def ninputs_def split: if_splits)
  then have "count_list (ninputs (nodes c ! i)) (int m) = 1"
    using assms(1) by (intro single_use) (simp_all add: fusable_def)
  then show "x \<noteq> int m"
    using assms(1) by (auto simp: fusable_def ninputs_def split: if_splits)
qed

lemma fused_wf:
  assumes f: "fusable c i m x q" and wf: "wf_ctx c"
  shows "wf_ctx (fused c i m x q)"
proof -
  note o = fusable_order [OF f wf]
  have "node_ok j (nodes (fused c i m x q) ! j)" if j: "j < length (nodes c)" for j
  proof -
    have ok: "node_ok j (nodes c ! j)" using wf j by (simp add: wf_ctx_def)
    have "node_ok i (fused_node c i m x q)"
      using o by (auto simp: node_ok_def node_refs_def node_ref_input_count_def ninputs_def fma_variant_value)
    then show ?thesis
      using ok j o(1) by (cases "j = m"; cases "j = i") (simp_all add: fused_def)
  qed
  then show ?thesis
    using wf by (simp add: wf_ctx_def fused_sel)
qed

lemma fma_value:
  assumes "fused_law S" "nop (nodes c ! i) \<in> {FAdd, FSub}"
    and "if q = 0 then nin0 (nodes c ! i) = int m \<and> nin1 (nodes c ! i) = x
      else nin1 (nodes c ! i) = int m \<and> nin0 (nodes c ! i) = x"
    and "v (int m) = f_arith S ArMul (v' (nin0 (nodes c ! m))) (v' (nin1 (nodes c ! m)))" "v x = v' x"
  shows "node_value S st0 (nodes c ! i) v me s = node_value S st0 (fused_node c i m x q) v' me s"
  using assms by (cases "q = 0") (auto simp: fused_law_def node_value_def fma_variant_def)

lemma fused_denote:
  fixes S :: "('v, 'm, 's) fpu"
  assumes law: "fused_law S" and f: "fusable c i m x q" and wf: "wf_ctx c"
  shows "denote S st0 me s (fused c i m x q) = denote S st0 me s c"
proof (rule denote_agree)
  let ?ns = "nodes c" and ?c = "fused c i m x q"
  let ?a = "nin0 (?ns ! m)" and ?b = "nin1 (?ns ! m)"
  define L where "L = (\<lambda>j. j \<noteq> m)"
  note o = fusable_order [OF f wf]
  have fu: "i < length ?ns" "\<not> has_flag kDead (?ns ! i)" "nop (?ns ! i) \<in> {FAdd, FSub}"
    "m < length ?ns" "nop (?ns ! m) = FMul" "\<not> has_flag kDead (?ns ! m)" "uses c m \<le> 1"
    using f by (simp_all add: fusable_def)
  have im: "int m \<in> set (ninputs (?ns ! i))"
    using f by (auto simp: fusable_def ninputs_def split: if_splits)
  note one = single_use [OF fu(7,1,2) im]
  have prod_refs: "nval S (cenv (eval_node S st0 j n k)) y = nval S (cenv k) y"
    if "m \<le> j" "y \<in> {?a, ?b}" for j n and k :: "('v, 'm, 's) conf" and y
    using that o(2,3) by (auto simp: nval_def eval_node_env_other)
  define R where "R = (\<lambda>j (k :: ('v, 'm, 's) conf) k'. agree L k k' \<and>
    (m < j \<longrightarrow> cenv k m = f_arith S ArMul (nval S (cenv k) ?a) (nval S (cenv k) ?b)))"
  have "R (0 + length ?ns) (eval_nodes S st0 0 ?ns (conf0 S me s)) (eval_nodes S st0 0 (nodes ?c) (conf0 S me s))"
  proof (rule eval_nodes_rel)
    show "length (nodes ?c) = length ?ns" by (rule fused_sel)
    show "R 0 (conf0 S me s) (conf0 S me s)" by (simp add: R_def agree_refl)
  next
    fix j and k k' :: "('v, 'm, 's) conf"
    assume j: "j < length ?ns" and R: "R (0 + j) k k'"
    then have a: "agree L k k'" and prod: "m < j \<Longrightarrow>
        cenv k m = f_arith S ArMul (nval S (cenv k) ?a) (nval S (cenv k) ?b)"
      by (simp_all add: R_def)
    have agree: "agree L (eval_node S st0 j (?ns ! j) k) (eval_node S st0 j (nodes ?c ! j) k')"
    proof -
      consider "j = m" | "j = i" | "j \<noteq> m" "j \<noteq> i" by blast
      then show ?thesis
      proof cases
        case 1
        then have "nodes ?c ! j = or_flag kDead (?ns ! m)" using fu(4) by (simp add: fused_def)
        then show ?thesis
          using 1 fu(5) by (intro agree_step_mute [OF a]) (simp_all add: L_def node_mem_def node_stat_def)
      next
        case 2
        then have n: "nodes ?c ! j = fused_node c i m x q" using fu(1) o(1) by (simp add: fused_def)
        have L: "L (nat y)" if "0 \<le> y" "y \<noteq> int m" for y using that by (auto simp: L_def)
        have env: "nval S (cenv k) y = nval S (cenv k') y" if "y \<noteq> int m" for y
          using a L [of y] that by (cases "0 \<le> y") (auto simp: nval_def agree_def)
        have "node_value S st0 (?ns ! i) (nval S (cenv k)) (cmem k) (cstat k) =
            node_value S st0 (fused_node c i m x q) (nval S (cenv k')) (cmem k) (cstat k)"
        proof (rule fma_value [OF law fu(3)])
          show "if q = 0 then nin0 (?ns ! i) = int m \<and> nin1 (?ns ! i) = x
              else nin1 (?ns ! i) = int m \<and> nin0 (?ns ! i) = x"
            using f by (simp add: fusable_def)
          show "nval S (cenv k) (int m) = f_arith S ArMul (nval S (cenv k') ?a) (nval S (cenv k') ?b)"
            using prod 2 o(1) env [of ?a] env [of ?b] o(2,3) by (simp add: nval_def)
          show "nval S (cenv k) x = nval S (cenv k') x" by (rule env [OF o(5)])
        qed
        moreover have "cmem k = cmem k'" "cstat k = cstat k'" using a by (simp_all add: agree_def)
        moreover have "is_value_op (nop (?ns ! i))" using fu(3) by (auto simp: is_value_op.simps)
        ultimately show ?thesis
          using 2 n fu(2) by (intro agree_step_value [OF a]) (simp_all add: fma_variant_value)
      next
        case 3
        then have n: "nodes ?c ! j = ?ns ! j" using j by (simp add: fused_def)
        show ?thesis
        proof (cases "has_flag kDead (?ns ! j)")
          case True
          then show ?thesis using a by (simp add: n eval_node_def)
        next
          case False
          have "nat y \<noteq> m" if "y \<in> set (node_refs (?ns ! j))" for y
            using one(3) [OF j 3(2) False] ninputs_node_refs [OF that] by auto
          then have "sources_in L (?ns ! j)"
            by (auto simp: sources_in_def L_def)
          then show ?thesis using agree_step [OF a] by (simp add: n)
        qed
      qed
    qed
    have "cenv (eval_node S st0 j (?ns ! j) k) m =
        f_arith S ArMul (nval S (cenv (eval_node S st0 j (?ns ! j) k)) ?a)
          (nval S (cenv (eval_node S st0 j (?ns ! j) k)) ?b)" if "m \<le> j"
    proof (cases "j = m")
      case True
      then show ?thesis
        using eval_node_live(3) [of "?ns ! m" S st0 m k] fu(5,6)
        by (simp add: prod_refs node_value_def is_value_op.simps)
    next
      case False
      then show ?thesis
        using prod that by (simp add: prod_refs eval_node_env_other)
    qed
    then show "R (Suc (0 + j)) (eval_node S st0 (0 + j) (?ns ! j) k) (eval_node S st0 (0 + j) (nodes ?c ! j) k')"
      using agree by (simp add: R_def)
  qed
  then show "agree L (eval_ctx S st0 me s c) (eval_ctx S st0 me s ?c)"
    by (simp add: R_def eval_ctx_def)
  show "L (nat v)" if "v \<in> set (slot_val c)" "0 \<le> v" for v
  proof -
    have "v < int (length ?ns)" using wf that(1) by (simp add: wf_ctx_def)
    then have "v \<in> set (slot_refs c)" using that by (simp add: slot_refs_def)
    then show ?thesis using one(2) that(2) by (auto simp: L_def)
  qed
qed (simp_all add: fused_sel)

section \<open>The walk\<close>

definition bounded :: "ctx \<Rightarrow> counts \<Rightarrow> bool" where
  "bounded c u \<longleftrightarrow> (\<forall>x. int (uses c x) \<le> u x)"

lemma fused_uses:
  assumes f: "fusable c i m x q" and wf: "wf_ctx c"
  shows "uses (fused c i m x q) y + (if y = m then 1 else 0) \<le> uses c y"
proof -
  note o = fusable_order [OF f wf]
  have fu: "i < length (nodes c)" "\<not> has_flag kDead (nodes c ! i)" "m < length (nodes c)"
    "\<not> has_flag kDead (nodes c ! m)"
    using f by (simp_all add: fusable_def)
  let ?n = "fused_node c i m x q"
  let ?ns1 = "(nodes c)[i := ?n]"
  have m1: "?ns1 ! m = nodes c ! m" using o(1) by simp
  have "node_uses ?ns1 y + count_list (ninputs (nodes c ! i)) (int y) =
      node_uses (nodes c) y + count_list (ninputs ?n) (int y)"
    by (rule node_uses_update) (use fu in simp_all)
  moreover have "node_uses (?ns1[m := or_flag kDead (?ns1 ! m)]) y + count_list (ninputs (?ns1 ! m)) (int y) =
      node_uses ?ns1 y"
    by (rule node_uses_kill) (use fu m1 in simp_all)
  moreover have "count_list (ninputs ?n) (int y) + (if y = m then 1 else 0) \<le>
      count_list (ninputs (nodes c ! i)) (int y) + count_list (ninputs (nodes c ! m)) (int y)"
    using f by (auto simp: ninputs_def fusable_def split: if_splits)
  moreover have "nodes (fused c i m x q) = ?ns1[m := or_flag kDead (?ns1 ! m)]"
    by (simp add: fused_def m1)
  ultimately show ?thesis
    unfolding uses_def fused_sel m1 by simp
qed

lemma count_refs_mono: "u x \<le> count_refs xs u x"
  by (simp add: count_refs_apply)

lemma fuse_eq:
  assumes "i \<noteq> m" "m < length (nodes c)"
  shows "fuse i q (int m) x (c, u) =
    (fused c i m x q, count_refs [nin0 (nodes c ! m), nin1 (nodes c ! m)] (u(m := 0)))"
  using assms by (simp add: fuse_def Let_def fused_def update_node_def set_flag_def fused_node_def)

lemma fma_step_cases:
  assumes "fma_step i (c, u) = (c', u')" "i < length (nodes c)" "wf_ctx c" "bounded c u"
  obtains "c' = c" "u' = u" | m x q where "fusable c i m x q" "c' = fused c i m x q" "bounded c' u'"
proof (cases "fma_step i (c, u) = (c, u)")
  case True
  then show ?thesis using assms(1) that(1) by simp
next
  case False
  let ?n = "nodes c ! i"
  have live: "\<not> has_flag kDead ?n" "nop ?n \<in> {FAdd, FSub}"
    using False by (auto simp: fma_step_def Let_def split: if_splits)
  obtain q mul x where st: "fma_step i (c, u) = fuse i q mul x (c, u)" "fma_candidate mul c u"
    "if q = 0 then nin0 ?n = mul \<and> nin1 ?n = x else nin1 ?n = mul \<and> nin0 ?n = x"
    using False live by (auto simp: fma_step_def Let_def split: if_splits)
  define m where "m = nat mul"
  have mul: "mul = int m" "m < length (nodes c)" "nop (nodes c ! m) = FMul"
    "\<not> has_flag kDead (nodes c ! m)" "u m = 1"
    using st(2) by (auto simp: fma_candidate_def m_def)
  have f: "fusable c i m x q"
    using assms(2,4) live mul st(3) unfolding fusable_def bounded_def
    by (metis mul(1) of_nat_1 of_nat_le_iff)
  note o = fusable_order [OF f assms(3)]
  have c': "c' = fused c i m x q" "u' = count_refs [nin0 (nodes c ! m), nin1 (nodes c ! m)] (u(m := 0))"
    using assms(1) st(1) fuse_eq [of i m c q x u] o(1) mul(1,2) by simp_all
  have "int (uses c' y) \<le> u' y" for y
  proof -
    have "int (uses c' y) \<le> (u(m := 0)) y"
    proof (cases "y = m")
      case True
      have "uses c m \<le> 1" using f by (simp add: fusable_def)
      then show ?thesis using fused_uses [OF f assms(3), of m] True by (simp add: c')
    next
      case False
      have "int (uses c y) \<le> u y" using assms(4) by (simp add: bounded_def)
      then show ?thesis using fused_uses [OF f assms(3), of y] False by (simp add: c')
    qed
    also have "\<dots> \<le> u' y" unfolding c' by (rule count_refs_mono)
    finally show ?thesis .
  qed
  then show ?thesis using that(2) f c' by (simp add: bounded_def)
qed

lemma fma_walk_inv:
  fixes S :: "('v, 'm, 's) fpu"
  shows "fma_walk js (c, u) = (c', u') \<Longrightarrow> \<forall>i \<in> set js. i < length (nodes c) \<Longrightarrow> wf_ctx c \<Longrightarrow> bounded c u \<Longrightarrow>
   wf_ctx c' \<and> (fused_law S \<longrightarrow> denote S st0 m s c' = denote S st0 m s c)"
proof (induction js arbitrary: c u)
  case (Cons i js)
  obtain c1 u1 where st: "fma_step i (c, u) = (c1, u1)" by fastforce
  have i: "i < length (nodes c)" using Cons.prems(2) by simp
  show ?case
  proof (rule fma_step_cases [OF st i Cons.prems(3,4)])
    assume "c1 = c" "u1 = u"
    then show ?thesis using Cons.IH [of c u] Cons.prems by (simp add: st)
  next
    fix mm x q
    assume f: "fusable c i mm x q" and c1: "c1 = fused c i mm x q" and b: "bounded c1 u1"
    have "wf_ctx c' \<and> (fused_law S \<longrightarrow> denote S st0 m s c' = denote S st0 m s c1)"
      using Cons.IH [of c1 u1] Cons.prems fused_wf [OF f Cons.prems(3)] b
      by (simp add: st c1 fused_sel)
    then show ?thesis using fused_denote [of S, OF _ f Cons.prems(3)] by (simp add: c1)
  qed
qed simp

lemma bounded_use_counts: "bounded c (use_counts c)"
  by (simp add: bounded_def use_counts_apply)

lemma pass_fma_inv:
  assumes wf: "wf_ctx c"
  shows "wf_ctx (pass_fma c)" "fused_law S \<Longrightarrow> denote S st0 m s (pass_fma c) = denote S st0 m s c"
proof -
  obtain c' u' where w: "fma_walk [0..<length (nodes c)] (c, use_counts c) = (c', u')" by fastforce
  have in_range: "\<forall>i \<in> set [0..<length (nodes c)]. i < length (nodes c)" by simp
  have pass: "pass_fma c = c'" by (simp add: pass_fma_def w)
  note inv = fma_walk_inv [OF w in_range wf bounded_use_counts]
  show "wf_ctx (pass_fma c)"
    unfolding pass by (rule conjunct1 [OF inv])
  show "fused_law S \<Longrightarrow> denote S st0 m s (pass_fma c) = denote S st0 m s c"
    unfolding pass by (rule mp [OF conjunct2 [OF inv]])
qed

interpretation fma: ir_pass fused_law wf_ctx pass_fma
  by unfold_locales (simp_all add: pass_fma_inv)

end
