(* ===== verification/X87_Exact_Copy.thy ===== *)
theory X87_Exact_Copy
  imports X87_Dse
begin

text \<open>
  The exact copy of 64-bit integers: a 64-bit integer load that only 64-bit integer stores
  consume is retagged, with those stores, to move the bits.  On a machine whose integer copy is
  exact, as the x87's is, the denotation does not change.
\<close>

definition exact_copy :: "('v, 'm, 's) fpu \<Rightarrow> bool" where
  "exact_copy S \<longleftrightarrow> (\<forall>tr p q m0 s m.
     f_store S I64 tr q (f_load S I64 p m0) s m = f_store S F64 False q (f_load S F64 p m0) s m)"

section \<open>Which nodes qualify\<close>

definition only_stores :: "nat \<Rightarrow> ctx \<Rightarrow> bool" where
  "only_stores i c \<longleftrightarrow> int i \<notin> set (slot_refs c) \<and>
     (\<forall>j < length (nodes c). \<not> has_flag kDead (nodes c ! j) \<longrightarrow> int i \<in> set (node_refs (nodes c ! j)) \<longrightarrow>
        nop (nodes c ! j) = StoreI64 \<and> nin0 (nodes c ! j) = int i)"

lemma i64_uses_of_other:
  "snd (i64_uses_of len k n xs so) x \<longleftrightarrow> snd so x \<or>
     (\<exists>p < length xs. xs ! p = int x \<and> x < len \<and> \<not> (nop n = StoreI64 \<and> k + p = 0 \<and> \<not> has_seg_override n))"
proof (induction xs arbitrary: k so)
  case Nil
  then show ?case by simp
next
  case (Cons y ys)
  obtain su ou where so: "so = (su, ou)" by fastforce
  show ?case
    by (simp add: so Cons.IH Ex_less_Suc2) auto
qed

definition other_use_in :: "nat \<Rightarrow> node \<Rightarrow> nat \<Rightarrow> bool" where
  "other_use_in len n x \<longleftrightarrow> \<not> has_flag kDead n \<and>
     (\<exists>p < node_ref_input_count n. ninputs n ! p = int x \<and> x < len \<and>
        \<not> (nop n = StoreI64 \<and> p = 0 \<and> \<not> has_seg_override n))"

lemma i64_uses_nodes_other:
  "snd (i64_uses_nodes len ns so) x \<longleftrightarrow> snd so x \<or> (\<exists>n \<in> set ns. other_use_in len n x)"
proof (induction ns arbitrary: so)
  case (Cons n ns)
  have len: "p < node_ref_input_count n \<Longrightarrow> p < length (ninputs n)" for p
    by (simp add: ninputs_def node_ref_input_count_def split: if_splits)
  have ex: "(\<exists>p < length (take (node_ref_input_count n) (ninputs n)).
        take (node_ref_input_count n) (ninputs n) ! p = int x \<and> Q p) \<longleftrightarrow>
      (\<exists>p < node_ref_input_count n. ninputs n ! p = int x \<and> Q p)" for Q
    by (rule ex_cong1) (use len in auto)
  have one: "snd (if has_flag kDead n then so
        else i64_uses_of len 0 n (take (node_ref_input_count n) (ninputs n)) so) x \<longleftrightarrow>
      snd so x \<or> other_use_in len n x"
    by (simp add: i64_uses_of_other other_use_in_def ex del: length_take)
  show ?case by (simp only: i64_uses_nodes.simps Cons.IH one) auto
qed simp

lemma wf_ctx_ref:
  "wf_ctx c \<Longrightarrow> j < length (nodes c) \<Longrightarrow> x \<in> set (node_refs (nodes c ! j)) \<Longrightarrow> x < int j"
  unfolding wf_ctx_def node_ok_def by blast

lemma i64_uses_only_stores:
  assumes "wf_ctx c" "\<not> snd (i64_uses c) i"
  shows "only_stores i c"
proof -
  have "nop (nodes c ! j) = StoreI64 \<and> nin0 (nodes c ! j) = int i"
    if j: "j < length (nodes c)" "\<not> has_flag kDead (nodes c ! j)" "int i \<in> set (node_refs (nodes c ! j))" for j
  proof -
    let ?n = "nodes c ! j"
    have "int i < int j" by (rule wf_ctx_ref [OF assms(1) j(1,3)])
    then have il: "i < length (nodes c)" using j(1) by simp
    obtain p where p: "p < node_ref_input_count ?n" "ninputs ?n ! p = int i"
      using j(3) by (auto simp: node_refs_def in_set_conv_nth)
    have "nop ?n = StoreI64 \<and> p = 0"
      using assms(2) j(1,2) p il by (force simp: i64_uses_def i64_uses_nodes_other other_use_in_def)
    then show ?thesis using p(2) by (simp add: ninputs_def)
  qed
  then show ?thesis
    using assms(2) by (simp add: only_stores_def i64_uses_def i64_uses_nodes_other)
qed

section \<open>One retagging\<close>

lemma retag_store_sel [simp]:
  "nin0 (retag_store i s) = nin0 s" "nin1 (retag_store i s) = nin1 s" "nin2 (retag_store i s) = nin2 s"
  "npay (retag_store i s) = npay s" "has_flag kDead (retag_store i s) = has_flag kDead s"
  by (simp_all add: retag_store_def has_flag_def) (simp add: and.assoc)

lemma retag_store_refs [simp]: "node_refs (retag_store i s) = node_refs s"
  by (auto simp: retag_store_def node_refs_def node_ref_input_count_def ninputs_def)

lemma retag_copy_nth:
  assumes "i < length (nodes c)" "j < length (nodes c)"
  shows "nodes (retag_copy i c) ! j =
    (if j < i then nodes c ! j else if j = i then (nodes c ! i)\<lparr>nop := LoadF64\<rparr>
     else retag_store i (nodes c ! j))"
  using assms by (simp add: retag_copy_def update_node_def Let_def nth_append min_def)

lemma retag_copy_sel:
  assumes "i < length (nodes c)"
  shows "slot_val (retag_copy i c) = slot_val c" "top_delta (retag_copy i c) = top_delta c"
    "initial_read (retag_copy i c) = initial_read c" "last_fcmp (retag_copy i c) = last_fcmp c"
    "node_src (retag_copy i c) = node_src c" "length (nodes (retag_copy i c)) = length (nodes c)"
    "slot_refs (retag_copy i c) = slot_refs c"
  using assms by (simp_all add: retag_copy_def update_node_def Let_def slot_refs_def)

lemma load_refs [simp]:
  "nop n = LoadI64 \<Longrightarrow> node_refs (n\<lparr>nop := LoadF64\<rparr>) = node_refs n"
  by (simp add: node_refs_def node_ref_input_count_def ninputs_def)

lemma retag_copy_refs:
  assumes "i < length (nodes c)" "nop (nodes c ! i) = LoadI64" "j < length (nodes c)"
  shows "node_refs (nodes (retag_copy i c) ! j) = node_refs (nodes c ! j)"
    "has_flag kDead (nodes (retag_copy i c) ! j) = has_flag kDead (nodes c ! j)"
  using assms by (simp_all add: retag_copy_nth has_flag_def [of _ "_\<lparr>nop := _\<rparr>"]) (simp add: has_flag_def)

lemma retag_copy_wf:
  assumes "i < length (nodes c)" "nop (nodes c ! i) = LoadI64" "wf_ctx c"
  shows "wf_ctx (retag_copy i c)"
  using assms(3) retag_copy_refs(1) [OF assms(1,2)]
  by (simp add: wf_ctx_def retag_copy_sel [OF assms(1)] node_ok_def)

lemma retag_copy_only_stores:
  assumes "i < length (nodes c)" "nop (nodes c ! i) = LoadI64" "only_stores i' c" "i' \<noteq> i"
  shows "only_stores i' (retag_copy i c)"
proof -
  have "nop (nodes (retag_copy i c) ! j) = StoreI64 \<and> nin0 (nodes (retag_copy i c) ! j) = int i'"
    if j: "j < length (nodes c)" "\<not> has_flag kDead (nodes (retag_copy i c) ! j)"
      "int i' \<in> set (node_refs (nodes (retag_copy i c) ! j))" for j
  proof -
    have "nop (nodes c ! j) = StoreI64 \<and> nin0 (nodes c ! j) = int i'"
      using assms(3) j retag_copy_refs [OF assms(1,2) j(1)] by (simp add: only_stores_def)
    then show ?thesis
      using assms(2,4) j(1) by (auto simp: retag_copy_nth [OF assms(1) j(1)] retag_store_def)
  qed
  then show ?thesis
    using assms(3) by (simp add: only_stores_def retag_copy_sel [OF assms(1)])
qed

lemma retag_store_flags:
  "nop s = StoreI64 \<Longrightarrow> \<not> has_flag kDead s \<Longrightarrow> nin0 s = int i \<Longrightarrow>
   nop (retag_store i s) = StoreF64 \<and> pay_mem (retag_store i s) = pay_mem s"
  by (simp add: retag_store_def pay_mem_def)

lemma retag_copy_denote:
  fixes S :: "('v, 'm, 's) fpu"
  assumes law: "exact_copy S" and i: "i < length (nodes c)" "nop (nodes c ! i) = LoadI64"
    "\<not> has_flag kDead (nodes c ! i)" and only: "only_stores i c" and wf: "wf_ctx c"
  shows "denote S st0 m s (retag_copy i c) = denote S st0 m s c"
proof (rule denote_agree)
  let ?c = "retag_copy i c" and ?p = "pay_mem (nodes c ! i)"
  define L where "L = (\<lambda>j. j \<noteq> i)"
  define R where "R = (\<lambda>j (k :: ('v, 'm, 's) conf) k'. agree L k k' \<and>
    (i < j \<longrightarrow> (\<exists>m0. cenv k i = f_load S I64 ?p m0 \<and> cenv k' i = f_load S F64 ?p m0)))"
  have "R (0 + length (nodes c)) (eval_nodes S st0 0 (nodes c) (conf0 S m s))
      (eval_nodes S st0 0 (nodes ?c) (conf0 S m s))"
  proof (rule eval_nodes_rel)
    show "length (nodes ?c) = length (nodes c)" by (rule retag_copy_sel [OF i(1)])
    show "R 0 (conf0 S m s) (conf0 S m s)" by (simp add: R_def agree_refl)
  next
    fix j and k k' :: "('v, 'm, 's) conf"
    assume j: "j < length (nodes c)" and R: "R (0 + j) k k'"
    then have a: "agree L k k'" and mem: "cmem k = cmem k'" "cstat k = cstat k'"
      by (simp_all add: R_def agree_def)
    let ?n = "nodes c ! j" and ?n' = "nodes ?c ! j"
    have n': "?n' = (if j < i then ?n else if j = i then ?n\<lparr>nop := LoadF64\<rparr> else retag_store i ?n)"
      using retag_copy_nth [OF i(1) j] by simp
    have agree: "agree L (eval_node S st0 j ?n k) (eval_node S st0 j ?n' k')"
    proof (cases "j = i")
      case True
      then show ?thesis
        using i(2) n' by (intro agree_step_mute [OF a]) (simp_all add: L_def node_mem_def node_stat_def)
    next
      case ji: False
      show ?thesis
      proof (cases "\<not> has_flag kDead ?n \<and> int i \<in> set (node_refs ?n)")
        case True
        then have st: "nop ?n = StoreI64" "nin0 ?n = int i" using only j by (auto simp: only_stores_def)
        have "i < j" using wf_ctx_ref [OF wf j] True by fastforce
        then obtain m0 where m0: "cenv k i = f_load S I64 ?p m0" "cenv k' i = f_load S F64 ?p m0"
          using R by (auto simp: R_def)
        have r: "?n' = retag_store i ?n" using n' \<open>i < j\<close> by simp
        have eff: "node_mem S ?n (nval S (cenv k)) me se = node_mem S ?n' (nval S (cenv k')) me se"
          "node_stat S ?n v me se = se" "node_stat S ?n' v me se = se" for me se v
          using st True m0 law retag_store_flags [OF st(1) _ st(2)]
          by (simp_all add: r node_mem_def node_stat_def Let_def nval_def exact_copy_def)
        have ops: "\<not> is_value_op (nop ?n)" "\<not> is_value_op (nop ?n')" "\<not> has_flag kDead ?n'"
          using st True retag_store_flags [OF st(1) _ st(2)] by (simp_all add: r is_value_op.simps)
        show ?thesis
          using a True ops eff mem by (simp add: agree_def eval_node_def Let_def)
      next
        case False
        have "nin0 ?n = int i \<Longrightarrow> nop ?n = StoreI64 \<Longrightarrow> int i \<in> set (node_refs ?n)"
          by (simp add: node_refs_def node_ref_input_count_def ninputs_def)
        then have same: "?n' = ?n"
          using n' ji False by (auto simp: retag_store_def)
        show ?thesis
        proof (cases "has_flag kDead ?n")
          case True
          then show ?thesis using a by (simp add: same eval_node_def)
        next
          case live: False
          have "nat y \<noteq> i" if "y \<in> set (node_refs ?n)" for y
            using that False live ninputs_node_refs [OF that] by auto
          then show ?thesis
            using agree_step [OF a, of ?n] by (simp add: same sources_in_def L_def)
        qed
      qed
    qed
    have "\<exists>m0. cenv (eval_node S st0 j ?n k) i = f_load S I64 ?p m0 \<and>
        cenv (eval_node S st0 j ?n' k') i = f_load S F64 ?p m0" if "i \<le> j"
    proof (cases "j = i")
      case True
      have "cenv (eval_node S st0 i (nodes c ! i) k) i = f_load S I64 ?p (cmem k)"
        using i by (subst eval_node_live(3)) (simp_all add: is_value_op.simps node_value_def)
      moreover have "cenv (eval_node S st0 i ?n' k') i = f_load S F64 ?p (cmem k)"
        using i True n' by (subst eval_node_live(3))
          (simp_all add: is_value_op.simps node_value_def mem has_flag_def pay_mem_def)
      ultimately show ?thesis using True by auto
    next
      case False
      then show ?thesis using R that by (auto simp: R_def eval_node_env_other)
    qed
    then show "R (Suc (0 + j)) (eval_node S st0 (0 + j) ?n k) (eval_node S st0 (0 + j) ?n' k')"
      using agree by (simp add: R_def)
  qed
  then show "agree L (eval_ctx S st0 m s c) (eval_ctx S st0 m s ?c)"
    by (simp add: R_def eval_ctx_def)
  show "L (nat v)" if "v \<in> set (slot_val c)" "0 \<le> v" for v
  proof -
    have "v < int (length (nodes c))" using wf that(1) by (simp add: wf_ctx_def)
    then have "v \<in> set (slot_refs c)" using that by (simp add: slot_refs_def)
    then show ?thesis using only that(2) by (auto simp: L_def only_stores_def)
  qed
qed (simp_all add: retag_copy_sel [OF i(1)])

section \<open>The pass\<close>

lemma i64_fold_inv:
  fixes S :: "('v, 'm, 's) fpu"
  assumes "distinct js" "\<forall>i \<in> set js. i < length (nodes c) \<and> (\<not> snd so i \<longrightarrow> only_stores i c)" "wf_ctx c"
  shows "wf_ctx (fold (i64_step so) js c) \<and>
    (exact_copy S \<longrightarrow> denote S st0 m s (fold (i64_step so) js c) = denote S st0 m s c)"
  using assms
proof (induction js arbitrary: c)
  case (Cons i js)
  show ?case
  proof (cases "i64_step so i c = c")
    case True
    then show ?thesis using Cons by simp
  next
    case False
    then have i: "nop (nodes c ! i) = LoadI64" "\<not> has_flag kDead (nodes c ! i)" "\<not> snd so i"
      and st: "i64_step so i c = retag_copy i c"
      by (auto simp: i64_step_def Let_def split: if_splits)
    have len: "i < length (nodes c)" and only: "only_stores i c"
      using Cons.prems(2) i(3) by simp_all
    have "\<forall>i' \<in> set js. i' < length (nodes (retag_copy i c)) \<and> (\<not> snd so i' \<longrightarrow> only_stores i' (retag_copy i c))"
      using Cons.prems(1,2) retag_copy_only_stores [OF len i(1)] retag_copy_sel(6) [OF len] by auto
    then have "wf_ctx (fold (i64_step so) js (retag_copy i c)) \<and>
        (exact_copy S \<longrightarrow> denote S st0 m s (fold (i64_step so) js (retag_copy i c)) =
          denote S st0 m s (retag_copy i c))"
      using Cons.IH [of "retag_copy i c"] Cons.prems(1) retag_copy_wf [OF len i(1) Cons.prems(3)] by simp
    then show ?thesis
      using retag_copy_denote [of S, OF _ len i(1,2) only Cons.prems(3)] by (simp add: st)
  qed
qed simp

lemma pass_exact_inv:
  assumes wf: "wf_ctx c"
  shows "wf_ctx (pass_exact_i64_copy cfg c)"
    "exact_copy S \<Longrightarrow> denote S st0 m s (pass_exact_i64_copy cfg c) = denote S st0 m s c"
proof -
  have "\<forall>i \<in> set [0..<length (nodes c)]. i < length (nodes c) \<and> (\<not> snd (i64_uses c) i \<longrightarrow> only_stores i c)"
    using i64_uses_only_stores [OF wf] by simp
  note inv = i64_fold_inv [OF distinct_upt this wf]
  show "wf_ctx (pass_exact_i64_copy cfg c)"
    unfolding pass_exact_i64_copy_def using wf conjunct1 [OF inv] by simp
  show "exact_copy S \<Longrightarrow> denote S st0 m s (pass_exact_i64_copy cfg c) = denote S st0 m s c"
    unfolding pass_exact_i64_copy_def using mp [OF conjunct2 [OF inv], of S] by simp
qed

interpretation i64: ir_pass exact_copy wf_ctx "pass_exact_i64_copy cfg" for cfg
  by unfold_locales (simp_all add: pass_exact_inv)

end
