(* ===== verification/X87_Tags.thy ===== *)
theory X87_Tags
  imports X87_Pass_Sem
begin

text \<open>
  The two passes that only tag nodes: the fusion of a compare with the status read that follows
  it, and the recognition of FMA reductions.
\<close>

section \<open>Compare and status read\<close>

lemma quiet_tags: "quiet_flag kFcomFused" "quiet_flag kFmaReduceHead" "quiet_flag kFmaReduceMember"
  by (simp_all add: quiet_flag_def)

lemma fcom_step_flags: "flags_only c (fcom_step i c)"
  unfolding fcom_step_def Let_def
  by (auto intro: flags_only_refl flags_only_trans flags_only_set_flag quiet_tags)

lemma pass_fcom_flags: "flags_only c (pass_fcom_fstsw_fusion c)"
  unfolding pass_fcom_fstsw_fusion_def by (rule flags_only_fold) (rule fcom_step_flags)

interpretation fcom: ir_pass "\<lambda>_. True" wf_ctx pass_fcom_fstsw_fusion
  by unfold_locales (erule flags_only_wf [OF pass_fcom_flags], rule flags_only_denote [OF pass_fcom_flags])

text \<open>
  What a fused status read relies on: its compare is an earlier live compare, fused as well, and
  no other compare wrote the condition codes in between.
\<close>

definition fused_ok :: "ctx \<Rightarrow> nat \<Rightarrow> bool" where
  "fused_ok c i \<longleftrightarrow>
     (let f = nin0 (nodes c ! i) in
      0 \<le> f \<and> f < int i \<and> is_cc_op (nop (nodes c ! nat f)) \<and>
      has_flag kFcomFused (nodes c ! nat f) \<and> clean_between (nat f) i c)"

definition fused_reads_ok :: "ctx \<Rightarrow> bool" where
  "fused_reads_ok c \<longleftrightarrow>
     (\<forall>i < length (nodes c). nop (nodes c ! i) = FStsw \<longrightarrow> has_flag kFcomFused (nodes c ! i) \<longrightarrow> fused_ok c i)"

lemma set_flag_nth:
  "j < length (nodes c) \<Longrightarrow>
   nodes (set_flag i f c) ! j = (if j = nat i then or_flag f (nodes c ! j) else nodes c ! j)"
  by (simp add: set_flag_def)

lemma set_flag_length [simp]: "length (nodes (set_flag i f c)) = length (nodes c)"
  by (simp add: set_flag_def)

lemma clean_between_flags:
  assumes "flags_only c c'" "b \<le> length (nodes c)"
  shows "clean_between a b c' = clean_between a b c"
proof -
  have "has_flag kDead (nodes c' ! j) = has_flag kDead (nodes c ! j) \<and> nop (nodes c' ! j) = nop (nodes c ! j)"
    if "j < length (nodes c)" for j
    using flags_only_nth [OF assms(1) that] quiet_has_flag [of _ kDead] by auto
  then show ?thesis
    using assms(2) by (auto simp: clean_between_def list_all_iff)
qed

lemma has_flag_or_mono: "has_flag g n \<Longrightarrow> has_flag g (or_flag f n)"
  by (auto simp: has_flag_def or_flag_def bit.conj_disj_distrib2 or_eq_0_iff)

lemma has_flag_quiet_mono:
  assumes "flags_only c c'" "i < length (nodes c)" "has_flag g (nodes c ! i)"
  shows "has_flag g (nodes c' ! i)"
  using flags_only_nth [OF assms(1,2)] assms(3) by (auto intro: has_flag_or_mono)

lemma fused_ok_flags:
  assumes "flags_only c c'" "i < length (nodes c)" "fused_ok c i"
  shows "fused_ok c' i"
proof -
  let ?f = "nin0 (nodes c ! i)"
  have f: "0 \<le> ?f" "nat ?f < length (nodes c)"
    using assms(2,3) by (auto simp: fused_ok_def Let_def)
  have "nin0 (nodes c' ! i) = ?f" "nop (nodes c' ! nat ?f) = nop (nodes c ! nat ?f)"
    using flags_only_nth [OF assms(1,2)] flags_only_nth [OF assms(1) f(2)] by auto
  then show ?thesis
    using assms(2,3) has_flag_quiet_mono [OF assms(1) f(2)] clean_between_flags [OF assms(1), of i]
    by (simp add: fused_ok_def Let_def)
qed

lemma fcom_step_ok:
  assumes "wf_ctx c" "i < length (nodes c)" "fused_reads_ok c"
  shows "fused_reads_ok (fcom_step i c)"
proof (cases "fcom_step i c = c")
  case True
  then show ?thesis using assms by simp
next
  case False
  let ?f = "nin0 (nodes c ! i)"
  have st: "fcom_step i c = set_flag (int i) kFcomFused (set_flag ?f kFcomFused c)"
    and i: "nop (nodes c ! i) = FStsw" "0 \<le> ?f" "?f < int (length (nodes c))"
      "is_cc_op (nop (nodes c ! nat ?f))" "clean_between (nat ?f) i c"
    using False by (auto simp: fcom_step_def Let_def split: if_splits)
  have "?f \<in> set (node_refs (nodes c ! i))"
    using i by (simp add: node_refs_def node_ref_input_count_def ninputs_def)
  then have fi: "?f < int i"
    using assms(1,2) by (auto simp: wf_ctx_def node_ok_def)
  note fl = fcom_step_flags [of c i]
  have nth: "nodes (fcom_step i c) ! j =
      (if j = i then or_flag kFcomFused (if i = nat ?f then or_flag kFcomFused (nodes c ! i) else nodes c ! i)
       else if j = nat ?f then or_flag kFcomFused (nodes c ! j) else nodes c ! j)" if "j < length (nodes c)" for j
    using that assms(2) by (simp add: st set_flag_nth)
  show ?thesis
    unfolding fused_reads_ok_def
  proof (intro allI impI)
    fix j
    assume j: "j < length (nodes (fcom_step i c))" "nop (nodes (fcom_step i c) ! j) = FStsw"
      "has_flag kFcomFused (nodes (fcom_step i c) ! j)"
    then have jl: "j < length (nodes c)" by (simp add: flags_only_length [OF fl])
    show "fused_ok (fcom_step i c) j"
    proof (cases "j = i")
      case True
      have "nat ?f \<noteq> i" "nat ?f < length (nodes c)" using fi i(2,3) by auto
      then show ?thesis
        using True i fi jl nth [of "nat ?f"] nth [of i] clean_between_flags [OF fl, of i]
        by (simp add: fused_ok_def Let_def)
    next
      case False
      have "j \<noteq> nat ?f"
        using j(2) nth [OF jl] i(4) False by (auto simp: is_cc_op_def)
      then have "fused_ok c j"
        using assms(3) jl j False nth [OF jl] by (simp add: fused_reads_ok_def)
      then show ?thesis by (rule fused_ok_flags [OF fl jl])
    qed
  qed
qed

lemma pass_fcom_ok:
  assumes "wf_ctx c" "fused_reads_ok c"
  shows "fused_reads_ok (pass_fcom_fstsw_fusion c)"
proof -
  have "wf_ctx (fold fcom_step js c) \<and> fused_reads_ok (fold fcom_step js c)"
    if "\<forall>i \<in> set js. i < length (nodes c)" "wf_ctx c" "fused_reads_ok c" for js c
    using that
  proof (induction js arbitrary: c)
    case (Cons i js)
    have "wf_ctx (fcom_step i c)" "fused_reads_ok (fcom_step i c)"
      using Cons.prems fcom_step_ok flags_only_wf [OF fcom_step_flags] by auto
    then show ?case
      using Cons.IH [of "fcom_step i c"] Cons.prems(1) by (simp add: flags_only_length [OF fcom_step_flags])
  qed simp
  from this [of "[0..<length (nodes c)]" c] show ?thesis
    using assms by (simp add: pass_fcom_fstsw_fusion_def)
qed

section \<open>FMA reductions\<close>

lemma tag_member_flags: "flags_only c (tag_member a c)"
  unfolding tag_member_def Let_def
  by (intro flags_only_trans [OF flags_only_set_flag flags_only_trans [OF flags_only_set_flag flags_only_set_flag]]
      quiet_tags)

lemma tag_chain_flags: "flags_only c (tag_chain chain c)"
  unfolding tag_chain_def
  by (rule flags_only_trans [OF flags_only_set_flag flags_only_fold]) (simp_all add: quiet_tags tag_member_flags)

lemma fma_reduce_step_flags: "flags_only c (fma_reduce_step u i c)"
  by (auto simp: fma_reduce_step_def Let_def tag_chain_flags flags_only_refl split: option.split)

lemma pass_fma_reduce_flags: "flags_only c (pass_fma_reduce cfg c)"
  by (auto simp: pass_fma_reduce_def flags_only_refl flags_only_fold fma_reduce_step_flags split: option.split)

interpretation fma_reduce: ir_pass "\<lambda>_. True" wf_ctx "pass_fma_reduce cfg" for cfg
  by unfold_locales
    (erule flags_only_wf [OF pass_fma_reduce_flags], rule flags_only_denote [OF pass_fma_reduce_flags])

text \<open>
  A chain that passes the check: at least two members, all loads of one width, read once, and each
  stream advancing by its own nonzero stride from one base register.
\<close>

definition stream_at :: "ctx \<Rightarrow> counts \<Rightarrow> irop \<Rightarrow> u8 \<Rightarrow> u64 \<Rightarrow> u64 \<Rightarrow> nat \<Rightarrow> int \<Rightarrow> bool" where
  "stream_at c u e b d st k x \<longleftrightarrow>
     in_range x c \<and> nop (nodes c ! nat x) = e \<and> \<not> has_flag kDead (nodes c ! nat x) \<and> u (nat x) = 1 \<and>
     \<not> has_flag kFmaReduceMember (nodes c ! nat x) \<and>
     extract_simple_mem (nodes c ! nat x) = Some (b, d + st * word_of_nat k)"

lemma check_loads_InrD:
  assumes "check_loads k a c u st = Inr (e, (lb, ld), (wb, wd))"
  shows "stream_at c u e lb ld 0 k (nin0 (nodes c ! a))" "stream_at c u e wb wd 0 k (nin1 (nodes c ! a))"
    "k = 0 \<Longrightarrow> e \<in> {LoadF32, LoadF64}" "k \<noteq> 0 \<Longrightarrow> e = elem_op st"
  using assms by (auto simp: check_loads_def stream_at_def Let_def split: if_splits option.splits)

text \<open>From the second member on, both streams and the strides are fixed.\<close>

lemma check_members_tail:
  "check_members k as c u st = None \<Longrightarrow> 2 \<le> k \<Longrightarrow> p < length as \<Longrightarrow>
   stream_at c u (elem_op st) (base_l st) (first_l st) (stride_l st) (k + p) (nin0 (nodes c ! (as ! p))) \<and>
   stream_at c u (elem_op st) (base_w st) (first_w st) (stride_w st) (k + p) (nin1 (nodes c ! (as ! p)))"
proof (induction as arbitrary: k p)
  case (Cons a as)
  obtain e lb ld wb wd where ch: "check_loads k a c u st = Inr (e, (lb, ld), (wb, wd))"
    using Cons.prems(1) by (cases "check_loads k a c u st") auto
  note ld = check_loads_InrD [OF ch]
  have eqs: "e = elem_op st" "lb = base_l st" "ld = first_l st + stride_l st * word_of_nat k"
    "wb = base_w st" "wd = first_w st + stride_w st * word_of_nat k"
    and rest: "check_members (Suc k) as c u st = None"
    using Cons.prems(1,2) ld(4) by (auto simp: ch Let_def split: if_splits)
  show ?case
  proof (cases p)
    case 0
    then show ?thesis using ld(1,2) eqs by (simp add: stream_at_def)
  next
    case (Suc p')
    then show ?thesis using Cons.IH [OF rest, of p'] Cons.prems(2,3) by simp
  qed
qed simp

lemma check_chain_streams:
  assumes "check_chain chain c u = None"
  obtains e sl sw bl fl bw fw where "2 \<le> length chain" "e \<in> {LoadF32, LoadF64}" "sl \<noteq> 0" "sw \<noteq> 0"
    "\<forall>k < length chain. stream_at c u e bl fl sl k (nin0 (nodes c ! (chain ! k))) \<and>
      stream_at c u e bw fw sw k (nin1 (nodes c ! (chain ! k)))"
proof -
  obtain a0 a1 as where chain: "chain = a0 # a1 # as"
    using assms by (auto simp: check_chain_def Suc_le_length_iff numeral_2_eq_2 not_less split: if_splits)
  let ?st0 = init_streams
  obtain e lb ld wb wd where 0: "check_loads 0 a0 c u ?st0 = Inr (e, (lb, ld), (wb, wd))"
    using assms by (cases "check_loads 0 a0 c u ?st0") (auto simp: check_chain_def chain)
  define st1 where "st1 = \<lparr>elem_op = e, base_l = lb, base_w = wb, first_l = ld, first_w = wd,
    stride_l = 0, stride_w = 0\<rparr>"
  have m1: "check_members 1 (a1 # as) c u st1 = None"
    using assms by (simp add: check_chain_def chain 0 st1_def)
  obtain e1 lb1 ld1 wb1 wd1 where 1: "check_loads 1 a1 c u st1 = Inr (e1, (lb1, ld1), (wb1, wd1))"
    using m1 by (cases "check_loads 1 a1 c u st1") auto
  define st2 where "st2 = st1\<lparr>stride_l := ld1 - ld, stride_w := wd1 - wd\<rparr>"
  have m2: "check_members 2 as c u st2 = None" "lb1 = lb" "wb1 = wb" "ld1 - ld \<noteq> 0" "wd1 - wd \<noteq> 0"
    using m1 by (auto simp: 1 [unfolded One_nat_def st1_def] Let_def st1_def st2_def numeral_2_eq_2 split: if_splits)
  have e1: "e1 = e" using check_loads_InrD(4) [OF 1] by (simp add: st1_def)
  have "stream_at c u e lb ld (ld1 - ld) k (nin0 (nodes c ! (chain ! k))) \<and>
      stream_at c u e wb wd (wd1 - wd) k (nin1 (nodes c ! (chain ! k)))" if k: "k < length chain" for k
  proof -
    consider "k = 0" | "k = 1" | p where "k = 2 + p" "p < length as"
      using k by (metis One_nat_def Suc_1 add_2_eq_Suc chain length_Cons less_Suc_eq_0_disj less_Suc0
          not_less_eq old.nat.exhaust)
    then show ?thesis
    proof cases
      case 1
      then show ?thesis using check_loads_InrD(1,2) [OF 0] by (simp add: chain stream_at_def)
    next
      case 2
      then show ?thesis using check_loads_InrD(1,2) [OF 1] m2(2,3) e1 by (simp add: chain stream_at_def)
    next
      case 3
      then show ?thesis
        using check_members_tail [OF m2(1), of p] by (simp add: chain st2_def st1_def)
    qed
  qed
  moreover have "e \<in> {LoadF32, LoadF64}" using check_loads_InrD(3) [OF 0] by simp
  moreover have "2 \<le> length chain" by (simp add: chain)
  ultimately show ?thesis using that m2(4,5) by blast
qed

text \<open>The members of a chain are live FMAs, each the only reader of the one before.\<close>

lemma find_node_Some: "find_node P js = Some j \<Longrightarrow> j \<in> set js \<and> P j"
  by (induction js) (auto split: if_splits)

lemma next_in_chain_Some:
  "next_in_chain t c = Some j \<Longrightarrow> t < j \<and> j < length (nodes c) \<and> \<not> has_flag kDead (nodes c ! j) \<and>
     nop (nodes c ! j) = FMAdd \<and> nin2 (nodes c ! j) = int t"
  unfolding next_in_chain_def by (drule find_node_Some) auto

lemma extend_chain_link:
  "p < length (extend_chain k t c u) \<Longrightarrow>
   (let j = extend_chain k t c u ! p; prev = (t # extend_chain k t c u) ! p in
    prev < j \<and> j < length (nodes c) \<and> \<not> has_flag kDead (nodes c ! j) \<and> nop (nodes c ! j) = FMAdd \<and>
    nin2 (nodes c ! j) = int prev \<and> u prev = 1)"
proof (induction k t c u arbitrary: p rule: extend_chain.induct)
  case (2 k t c u)
  obtain j where j: "next_in_chain t c = Some j" "u t = 1"
    using "2.prems" by (auto split: option.splits if_splits)
  show ?case
  proof (cases p)
    case 0
    then show ?thesis using next_in_chain_Some [OF j(1)] j by simp
  next
    case (Suc q)
    then show ?thesis using "2.IH" [OF j(1), of q] "2.prems" j by simp
  qed
qed simp

lemma extend_chain_length: "length (extend_chain k t c u) \<le> k"
  by (induction k t c u rule: extend_chain.induct) (auto split: option.split)

end
