(* ===== verification/X87_Pipeline.thy ===== *)
theory X87_Pipeline
  imports X87_Fma X87_Exact_Copy X87_Tags X87_Build_Props
begin

text \<open>The optimiser as a whole: the passes' contracts composed, and the theorems about them.\<close>

section \<open>Composition\<close>

interpretation tags: ir_pass_pair "\<lambda>_. True" "\<lambda>_. True" wf_ctx "pass_fma_reduce cfg" pass_fcom_fstsw_fusion
  for cfg ..

interpretation tail: ir_pass_pair "\<lambda>S. True \<and> True" exact_copy wf_ctx
  "\<lambda>c. pass_fcom_fstsw_fusion (pass_fma_reduce cfg c)" "pass_exact_i64_copy cfg'" for cfg cfg' ..

definition contracts :: "opt_config option \<Rightarrow> bool" where
  "contracts cfg \<longleftrightarrow> (case cfg of None \<Rightarrow> False | Some g \<Rightarrow> enable_fma_contract g)"

lemma optimize_eq:
  "optimize cfg c =
     pass_exact_i64_copy cfg (pass_fcom_fstsw_fusion (pass_fma_reduce cfg
       (if contracts cfg then pass_fma (pass_dse c) else pass_dse c)))"
  by (simp add: optimize_def contracts_def Let_def)

lemma optimize_wf: "wf_ctx c \<Longrightarrow> wf_ctx (optimize cfg c)"
  unfolding optimize_eq by (simp add: tail.both.keeps dse.keeps fma.keeps)

lemma optimize_sound:
  assumes "wf_ctx c" "exact_copy S" "contracts cfg \<Longrightarrow> fused_law S"
  shows "denote S st0 m s (optimize cfg c) = denote S st0 m s c"
proof -
  let ?c = "if contracts cfg then pass_fma (pass_dse c) else pass_dse c"
  have "wf_ctx ?c" using assms(1) by (simp add: dse.keeps fma.keeps)
  then have "denote S st0 m s (optimize cfg c) = denote S st0 m s ?c"
    unfolding optimize_eq using tail.both.sound [where S = S and c = ?c] assms(2) by simp
  also have "\<dots> = denote S st0 m s (pass_dse c)"
    using fma.sound [where S = S and c = "pass_dse c"] assms by (simp add: dse.keeps)
  also have "\<dots> = denote S st0 m s c"
    using dse.sound [where S = S and c = c] assms(1) by simp
  finally show ?thesis .
qed

section \<open>The optimiser\<close>

definition all_on :: "opt_config option" where
  "all_on = Some \<lparr>enable_fma_reduce = True, enable_fma_contract = True, fild_fistp_disabled = False\<rparr>"

definition int_laws :: bool where
  "int_laws \<longleftrightarrow> exact_copy int_fpu \<and> fused_law int_fpu"

lemma int_laws: "exact_copy int_fpu" "fused_law int_fpu"
  by (simp_all add: exact_copy_def fused_law_def int_fpu_def)

lemma wf_build_ctx: "wf_build c \<Longrightarrow> wf_ctx c"
  by (simp add: wf_build_def)

lemma built_wf:
  "\<forall>ins \<in> set (take n (drop start arr)). fst_operand_ok ins \<Longrightarrow> wf_ctx (snd (build arr start n ab v2))"
  using build_sim(2) [of arr start n ab v2 "fst (build arr start n ab v2)" "snd (build arr start n ab v2)"
      undefined undefined undefined undefined]
  by (auto simp: sim_def wf_build_def)




definition prog_dead :: "irinstr list" where
  "prog_dead =
     [insn kOpcodeName_fld [mem_opnd S64 8], insn kOpcodeName_fsqrt [],
      insn kOpcodeName_fstp [st_opnd 0], insn kOpcodeName_fld1 [], insn kOpcodeName_fstp [mem_opnd S64 24]]"


section \<open>Contraction on a machine with its own fused operations\<close>

text \<open>
  Over an arbitrary machine contraction changes results.  It changes them only by replacing a
  product and a sum by the fused operation: reading every fused operation as the two it replaced
  gives the denotation of the IR before.
\<close>

definition unfused :: "('v, 'm, 's) fpu \<Rightarrow> ('v, 'm, 's) fpu" where
  "unfused S = S\<lparr>f_fmadd := (\<lambda>a b c. f_arith S ArAdd (f_arith S ArMul a b) c),
     f_fmsub := (\<lambda>a b c. f_arith S ArSub c (f_arith S ArMul a b)),
     f_fnmsub := (\<lambda>a b c. f_arith S ArSub (f_arith S ArMul a b) c)\<rparr>"

definition no_fma :: "ctx \<Rightarrow> bool" where
  "no_fma c \<longleftrightarrow> list_all (\<lambda>n. nop n \<notin> {FMAdd, FMSub, FNMSub}) (nodes c)"

lemma unfused_sel:
  "f_bits (unfused S) = f_bits S" "f_load (unfused S) = f_load S" "f_store (unfused S) = f_store S"
  "f_arith (unfused S) = f_arith S" "f_neg (unfused S) = f_neg S" "f_abs (unfused S) = f_abs S"
  "f_sqrt (unfused S) = f_sqrt S" "f_rndint (unfused S) = f_rndint S" "f_sin (unfused S) = f_sin S"
  "f_cos (unfused S) = f_cos S" "f_tan (unfused S) = f_tan S" "f_patan (unfused S) = f_patan S"
  "f_yl2x (unfused S) = f_yl2x S" "f_scale (unfused S) = f_scale S" "f_cond (unfused S) = f_cond S"
  "f_cmp (unfused S) = f_cmp S" "f_tst (unfused S) = f_tst S" "f_comi (unfused S) = f_comi S"
  "f_stsw (unfused S) = f_stsw S" "f_ldcw (unfused S) = f_ldcw S" "f_stcw (unfused S) = f_stcw S"
  "f_int (unfused S) = f_int S"
  by (simp_all add: unfused_def)

lemma unfused_node:
  assumes "nop n \<notin> {FMAdd, FMSub, FNMSub}"
  shows "eval_node (unfused S) st0 i n k = eval_node S st0 i n k"
proof -
  have v: "nval (unfused S) = nval S"
    by (simp only: fun_eq_iff nval_def unfused_sel) simp
  have m: "node_mem (unfused S) n = node_mem S n" and s: "node_stat (unfused S) n = node_stat S n"
    by (simp_all only: fun_eq_iff node_mem_def node_stat_def unfused_sel) simp_all
  have "node_value (unfused S) st0 n f me st = node_value S st0 n f me st" for f me st
    using assms by (cases "nop n") (simp_all add: node_value_def unfused_sel)
  then show ?thesis
    by (simp only: eval_node_def v m s)
qed

lemma unfused_denote:
  assumes "no_fma c"
  shows "denote (unfused S) st0 m s c = denote S st0 m s c"
proof (rule denote_steps [where L = "\<lambda>_. True"])
  show "agree (\<lambda>_. True) (eval_node S st0 i (nodes c ! i) k) (eval_node (unfused S) st0 i (nodes c ! i) k')"
    if i: "i < length (nodes c)" and a: "agree (\<lambda>_. True) k k'" for i and k k' :: "('a, 'b, 'c) conf"
  proof -
    have "nop (nodes c ! i) \<notin> {FMAdd, FMSub, FNMSub}"
      using assms i by (simp add: no_fma_def list_all_length)
    then have "eval_node (unfused S) st0 i (nodes c ! i) k' = eval_node S st0 i (nodes c ! i) k'"
      by (rule unfused_node)
    then show ?thesis
      using agree_step [OF a, of "nodes c ! i" S st0 i] by (simp add: sources_in_def)
  qed
qed (simp_all add: unfused_sel)



section \<open>Fusion of compares and status reads\<close>


definition prog_two_fstsw :: "irinstr list" where
  "prog_two_fstsw =
     [insn kOpcodeName_fcom [st_opnd 0, st_opnd 1], insn kOpcodeName_fstsw [gpr_opnd 0],
      insn kOpcodeName_fstsw [gpr_opnd 0]]"



section \<open>Reductions\<close>

text \<open>A chain accepted for vectorisation is a chain of fused additions, each the only reader of
  the one before, over two streams of loads of one width that nothing else reads, each stream at a
  constant nonzero stride from a single base register.\<close>

theorem accepted_reduction_is_strided:
  assumes "is_chain_head i c" "i < length (nodes c)" "check_chain (fma_chain i c u) c u = None"
  shows "\<exists>e bl bw fl fw sl sw. e \<in> {LoadF32, LoadF64} \<and> sl \<noteq> 0 \<and> sw \<noteq> 0 \<and>
    2 \<le> length (fma_chain i c u) \<and> length (fma_chain i c u) \<le> kMaxNodes \<and>
    (\<forall>k < length (fma_chain i c u).
       nop (nodes c ! (fma_chain i c u ! k)) = FMAdd \<and>
       stream_at c u e bl fl sl k (nin0 (nodes c ! (fma_chain i c u ! k))) \<and>
       stream_at c u e bw fw sw k (nin1 (nodes c ! (fma_chain i c u ! k)))) \<and>
    (\<forall>k. Suc k < length (fma_chain i c u) \<longrightarrow>
       nin2 (nodes c ! (fma_chain i c u ! Suc k)) = int (fma_chain i c u ! k) \<and> u (fma_chain i c u ! k) = 1)"
proof -
  let ?ch = "fma_chain i c u"
  obtain e sl sw bl fl bw fw where st: "2 \<le> length ?ch" "e \<in> {LoadF32, LoadF64}" "sl \<noteq> 0" "sw \<noteq> 0"
    "\<forall>k < length ?ch. stream_at c u e bl fl sl k (nin0 (nodes c ! (?ch ! k))) \<and>
      stream_at c u e bw fw sw k (nin1 (nodes c ! (?ch ! k)))"
    by (rule check_chain_streams [OF assms(3)])
  have link: "nop (nodes c ! (?ch ! Suc k)) = FMAdd \<and> nin2 (nodes c ! (?ch ! Suc k)) = int (?ch ! k) \<and> u (?ch ! k) = 1"
    if "Suc k < length ?ch" for k
    using extend_chain_link [of k "kMaxNodes - 1" i c u] that by (simp add: fma_chain_def Let_def)
  have "nop (nodes c ! (?ch ! k)) = FMAdd" if "k < length ?ch" for k
    using that link assms(1) by (cases k) (auto simp: fma_chain_def is_chain_head_def Let_def)
  moreover have "length ?ch \<le> kMaxNodes"
    using extend_chain_length [of "kMaxNodes - 1" i c u] by (simp add: fma_chain_def kMaxNodes_def)
  ultimately show ?thesis using st link by blast
qed

definition prog_reduce :: "irinstr list" where
  "prog_reduce =
     [insn kOpcodeName_fldz [],
      insn kOpcodeName_fld [mem_opnd S64 8], insn kOpcodeName_fmul [mem_opnd S64 64],
      insn kOpcodeName_faddp [st_opnd 1, st_opnd 0],
      insn kOpcodeName_fld [mem_opnd S64 16], insn kOpcodeName_fmul [mem_opnd S64 72],
      insn kOpcodeName_faddp [st_opnd 1, st_opnd 0],
      insn kOpcodeName_fstp [mem_opnd S64 24]]"

definition reduce_ctx :: ctx where
  "reduce_ctx = pass_fma (pass_dse (snd (build prog_reduce 0 8 False False)))"

lemma accepted_reduction_is_strided_witness:
  "\<exists>e bl bw fl fw sl sw. e \<in> {LoadF32, LoadF64} \<and> sl \<noteq> 0 \<and> sw \<noteq> 0 \<and>
    stream_at reduce_ctx (bounded_counts reduce_ctx) e bl fl sl 1 (nin0 (nodes reduce_ctx ! 8)) \<and>
    stream_at reduce_ctx (bounded_counts reduce_ctx) e bw fw sw 1 (nin1 (nodes reduce_ctx ! 8)) \<and>
    has_flag kFmaReduceMember (nodes (pass_fma_reduce all_on reduce_ctx) ! 8)"
proof -
  let ?u = "bounded_counts reduce_ctx"
  have h: "is_chain_head 4 reduce_ctx" "4 < length (nodes reduce_ctx)"
    "check_chain (fma_chain 4 reduce_ctx ?u) reduce_ctx ?u = None"
    by code_simp+
  have ch: "fma_chain 4 reduce_ctx ?u = [4, 8]"
    "has_flag kFmaReduceMember (nodes (pass_fma_reduce all_on reduce_ctx) ! 8)"
    by code_simp+
  obtain e bl bw fl fw sl sw where st: "e \<in> {LoadF32, LoadF64}" "sl \<noteq> 0" "sw \<noteq> 0"
    "\<forall>k < length (fma_chain 4 reduce_ctx ?u).
       stream_at reduce_ctx ?u e bl fl sl k (nin0 (nodes reduce_ctx ! (fma_chain 4 reduce_ctx ?u ! k))) \<and>
       stream_at reduce_ctx ?u e bw fw sw k (nin1 (nodes reduce_ctx ! (fma_chain 4 reduce_ctx ?u ! k)))"
    using accepted_reduction_is_strided [OF h] by blast
  show ?thesis
    using st(1-3) spec [OF st(4), of 1] ch
    by (intro exI [of _ e] exI [of _ bl] exI [of _ bw] exI [of _ fl] exI [of _ fw] exI [of _ sl] exI [of _ sw])
      simp
qed

definition prog_reduce_alias :: "irinstr list" where
  "prog_reduce_alias =
     [insn kOpcodeName_fldz [],
      insn kOpcodeName_fld [mem_opnd S64 8], insn kOpcodeName_fmul [mem_opnd S64 64],
      insn kOpcodeName_faddp [st_opnd 1, st_opnd 0],
      insn kOpcodeName_fld1 [], insn kOpcodeName_fstp [mem_opnd S64 72],
      insn kOpcodeName_fld [mem_opnd S64 16], insn kOpcodeName_fmul [mem_opnd S64 72],
      insn kOpcodeName_faddp [st_opnd 1, st_opnd 0],
      insn kOpcodeName_fstp [mem_opnd S64 24]]"


end
