(* ===== verification/X87_Cache.thy ===== *)
theory X87_Cache
  imports X87_Bridge
begin

text \<open>
  \<^verbatim>\<open>X87Cache.cpp\<close> and \<^verbatim>\<open>X87Cache.h\<close>: which instructions form a run, what an instruction
  does to the register stack, and the state that is cached across the instructions of a run.
  The members of \<^verbatim>\<open>X87Cache\<close> that only feed the profiler are left out.
\<close>

section \<open>Runs\<close>

definition is_handled_x87 :: "u16 \<Rightarrow> bool" where
  "is_handled_x87 op \<longleftrightarrow> op \<in> {
     kOpcodeName_fldz, kOpcodeName_fld1, kOpcodeName_fldl2e, kOpcodeName_fldl2t, kOpcodeName_fldlg2,
     kOpcodeName_fldln2, kOpcodeName_fldpi, kOpcodeName_fld, kOpcodeName_fild, kOpcodeName_fadd,
     kOpcodeName_faddp, kOpcodeName_fiadd, kOpcodeName_fsub, kOpcodeName_fsubr, kOpcodeName_fsubp,
     kOpcodeName_fsubrp, kOpcodeName_fdiv, kOpcodeName_fdivr, kOpcodeName_fdivp, kOpcodeName_fdivrp,
     kOpcodeName_fmul, kOpcodeName_fmulp, kOpcodeName_fst, kOpcodeName_fst_stack, kOpcodeName_fstp,
     kOpcodeName_fstp_stack, kOpcodeName_fstsw, kOpcodeName_fcom, kOpcodeName_fcomp,
     kOpcodeName_fcompp, kOpcodeName_fucom, kOpcodeName_fucomp, kOpcodeName_fucompp,
     kOpcodeName_fxch, kOpcodeName_fchs, kOpcodeName_fabs, kOpcodeName_fsqrt, kOpcodeName_fistp,
     kOpcodeName_fisttp, kOpcodeName_fidiv, kOpcodeName_fimul, kOpcodeName_fisub,
     kOpcodeName_fidivr, kOpcodeName_frndint, kOpcodeName_fcomi, kOpcodeName_fcomip,
     kOpcodeName_fucomi, kOpcodeName_fucomip, kOpcodeName_ftst, kOpcodeName_fist,
     kOpcodeName_fisubr, kOpcodeName_fcmovb, kOpcodeName_fcmovbe, kOpcodeName_fcmove,
     kOpcodeName_fcmovnb, kOpcodeName_fcmovnbe, kOpcodeName_fcmovne, kOpcodeName_fcmovu,
     kOpcodeName_fcmovnu, kOpcodeName_ficom, kOpcodeName_ficomp, kOpcodeName_fldcw,
     kOpcodeName_fnstcw, kOpcodeName_fnop, kOpcodeName_fdisi, kOpcodeName_feni, kOpcodeName_fxam,
     kOpcodeName_fbld, kOpcodeName_fdecstp, kOpcodeName_fincstp, kOpcodeName_ffree,
     kOpcodeName_fxtract, kOpcodeName_fscale, kOpcodeName_fbstp, kOpcodeName_frstor,
     kOpcodeName_fsave, kOpcodeName_fsin, kOpcodeName_fcos, kOpcodeName_f2xm1, kOpcodeName_fpatan,
     kOpcodeName_fsincos, kOpcodeName_fptan, kOpcodeName_fyl2x, kOpcodeName_fyl2xp1,
     kOpcodeName_fprem, kOpcodeName_fprem1}"

definition is_native_transport_x87 :: "u16 \<Rightarrow> bool" where
  "is_native_transport_x87 op \<longleftrightarrow> op \<in> {
     kOpcodeName_fild, kOpcodeName_fist, kOpcodeName_fistp, kOpcodeName_fisttp, kOpcodeName_fldcw,
     kOpcodeName_fnstcw, kOpcodeName_fnop, kOpcodeName_fdisi, kOpcodeName_feni}"

text \<open>The loop of \<^verbatim>\<open>lookahead\<close>, over the instructions from the entry on.\<close>

fun lookahead_loop :: "irinstr list \<Rightarrow> nat \<Rightarrow> nat" where
  "lookahead_loop [] count = count"
| "lookahead_loop (ins # rest) count =
     (if \<not> is_handled_x87 (opcode ins) then count else lookahead_loop rest (Suc count))"

definition lookahead :: "irinstr list \<Rightarrow> nat \<Rightarrow> nat" where
  "lookahead instrs idx = lookahead_loop (drop idx instrs) 0"

fun native_transport_loop :: "irinstr list \<Rightarrow> bool \<Rightarrow> bool" where
  "native_transport_loop [] moved = moved"
| "native_transport_loop (ins # rest) moved =
     (if \<not> is_handled_x87 (opcode ins) then moved
      else if \<not> is_native_transport_x87 (opcode ins) then False
      else native_transport_loop rest True)"

definition is_native_transport_run :: "irinstr list \<Rightarrow> nat \<Rightarrow> bool" where
  "is_native_transport_run instrs idx = native_transport_loop (drop idx instrs) False"

section \<open>Runs bridged over integer instructions\<close>

definition to_i16 :: "int \<Rightarrow> int" where
  "to_i16 x = sint (word_of_int x :: 16 word)"

record bridged_run =
  br_total :: int
  br_x87 :: int
  br_bridges :: int

record bridge_scan =
  bs_total :: nat
  bs_x87 :: nat
  bs_bridges :: nat
  bs_gap :: nat
  bs_joins :: nat

definition bridge_scan_init :: bridge_scan where
  "bridge_scan_init = \<lparr>bs_total = 0, bs_x87 = 0, bs_bridges = 0, bs_gap = 0, bs_joins = 0\<rparr>"

text \<open>\<open>off\<close> is \<^verbatim>\<open>i - insn_idx\<close>.\<close>

fun bridge_scan_loop ::
  "bool \<Rightarrow> nat \<Rightarrow> nat \<Rightarrow> nat \<Rightarrow> irinstr list \<Rightarrow> bridge_scan \<Rightarrow> bridge_scan" where
  "bridge_scan_loop v2 max_gap max_bridges off [] s = s"
| "bridge_scan_loop v2 max_gap max_bridges off (ins # rest) s =
     (if is_handled_x87 (opcode ins) then
        (let s1 = (if bs_gap s > 0
                   then s\<lparr>bs_joins := Suc (bs_joins s), bs_bridges := bs_bridges s + bs_gap s, bs_gap := 0\<rparr>
                   else s)
         in bridge_scan_loop v2 max_gap max_bridges (Suc off) rest
              (s1\<lparr>bs_x87 := Suc (bs_x87 s1), bs_total := Suc off\<rparr>))
      else if (if v2 then is_bridge_v2_proven ins else is_bridge_v1 ins) \<and>
              bs_gap s < max_gap \<and> bs_bridges s + bs_gap s < max_bridges
      then bridge_scan_loop v2 max_gap max_bridges (Suc off) rest (s\<lparr>bs_gap := Suc (bs_gap s)\<rparr>)
      else s)"

definition lookahead_bridged ::
  "irinstr list \<Rightarrow> nat \<Rightarrow> nat \<Rightarrow> nat \<Rightarrow> bool \<Rightarrow> bridged_run" where
  "lookahead_bridged instrs idx max_gap max_bridges allow_v2 =
     (let v2 = allow_v2 \<and> block_has_flag_liveness instrs;
          s = bridge_scan_loop v2 max_gap max_bridges 0 (drop idx instrs) bridge_scan_init
      in if bs_joins s = 0 \<or> bs_x87 s < 3 then \<lparr>br_total = 0, br_x87 = 0, br_bridges = 0\<rparr>
         else \<lparr>br_total = to_i16 (int (bs_total s)), br_x87 = to_i16 (int (bs_x87 s)),
               br_bridges = to_i16 (int (bs_bridges s))\<rparr>)"

section \<open>What an instruction does to the stack\<close>

datatype effect_kind = EffPlain | EffFxch | EffFree | EffTopInc | EffTopDec | EffSave | EffRestore

record slot_eff =
  e_reads :: u8
  e_soft :: u8
  e_writes :: u8
  e_pushes :: nat
  e_pops :: nat
  e_kind :: effect_kind
  e_arg :: int

definition no_effect :: slot_eff where
  "no_effect = \<lparr>e_reads = 0, e_soft = 0, e_writes = 0, e_pushes = 0, e_pops = 0, e_kind = EffPlain, e_arg = 0\<rparr>"

definition st_operand :: "irinstr \<Rightarrow> nat \<Rightarrow> int" where
  "st_operand ins k =
     (if num_operands ins \<le> k \<or> kind (opnd ins k) \<noteq> Register then -1
      else op_reg_index (opnd ins k) mod 8)"

definition depth_bit :: "int \<Rightarrow> u8" where
  "depth_bit d = push_bit (nat d) 1"

definition st_operand_mask :: "irinstr \<Rightarrow> u8" where
  "st_operand_mask ins =
     fold (\<lambda>k mask. let d = st_operand ins k in if d \<ge> 0 then mask OR depth_bit d else mask)
       [0..<min 4 (num_operands ins)] 0"

definition fld_effect :: "irinstr \<Rightarrow> slot_eff" where
  "fld_effect ins =
     (let src = st_operand ins 1 in
      if st_operand ins 0 \<ge> 0 \<and> src \<ge> 0
      then no_effect\<lparr>e_reads := depth_bit src, e_soft := depth_bit src, e_pushes := 1\<rparr>
      else no_effect\<lparr>e_pushes := 1\<rparr>)"

definition fst_effect :: "irinstr \<Rightarrow> slot_eff" where
  "fst_effect ins =
     (let dst = st_operand ins 0;
          m80 = (dst < 0 \<and> num_operands ins > 0 \<and> opsize (opnd0 ins) = S80);
          e1 = (if m80 then no_effect else no_effect\<lparr>e_reads := 1, e_soft := 1\<rparr>);
          e2 = (if dst > 0 then e1\<lparr>e_writes := depth_bit dst\<rparr> else e1)
      in if opcode ins \<in> {kOpcodeName_fstp, kOpcodeName_fstp_stack} then e2\<lparr>e_pops := 1\<rparr> else e2)"

definition fxch_effect :: "irinstr \<Rightarrow> slot_eff" where
  "fxch_effect ins =
     (let d = st_operand ins 1 in
      if d > 0 then no_effect\<lparr>e_reads := 1 OR depth_bit d, e_soft := 1 OR depth_bit d, e_kind := EffFxch,
        e_arg := d\<rparr>
      else no_effect)"

definition slot_effect :: "irinstr \<Rightarrow> slot_eff" where
  "slot_effect ins =
     (let op = opcode ins in
      if op \<in> {kOpcodeName_fldz, kOpcodeName_fld1, kOpcodeName_fldl2e, kOpcodeName_fldl2t,
               kOpcodeName_fldlg2, kOpcodeName_fldln2, kOpcodeName_fldpi, kOpcodeName_fild,
               kOpcodeName_fbld} then no_effect\<lparr>e_pushes := 1\<rparr>
      else if op = kOpcodeName_fld then fld_effect ins
      else if op \<in> {kOpcodeName_fst, kOpcodeName_fstp, kOpcodeName_fst_stack, kOpcodeName_fstp_stack}
      then fst_effect ins
      else if op \<in> {kOpcodeName_fadd, kOpcodeName_fsub, kOpcodeName_fsubr, kOpcodeName_fdiv,
               kOpcodeName_fdivr, kOpcodeName_fmul, kOpcodeName_fcom, kOpcodeName_fucom,
               kOpcodeName_fcomi, kOpcodeName_fucomi, kOpcodeName_fcmovb, kOpcodeName_fcmovbe,
               kOpcodeName_fcmove, kOpcodeName_fcmovnb, kOpcodeName_fcmovnbe, kOpcodeName_fcmovne,
               kOpcodeName_fcmovu, kOpcodeName_fcmovnu}
      then no_effect\<lparr>e_reads := st_operand_mask ins OR 1\<rparr>
      else if op \<in> {kOpcodeName_faddp, kOpcodeName_fsubp, kOpcodeName_fsubrp, kOpcodeName_fdivp,
               kOpcodeName_fdivrp, kOpcodeName_fmulp, kOpcodeName_fcomp, kOpcodeName_fucomp,
               kOpcodeName_fcomip, kOpcodeName_fucomip}
      then no_effect\<lparr>e_reads := st_operand_mask ins OR 1, e_pops := 1\<rparr>
      else if op \<in> {kOpcodeName_fcompp, kOpcodeName_fucompp} then no_effect\<lparr>e_reads := 3, e_pops := 2\<rparr>
      else if op = kOpcodeName_fist then no_effect\<lparr>e_reads := 1, e_soft := 1\<rparr>
      else if op \<in> {kOpcodeName_fistp, kOpcodeName_fisttp}
      then no_effect\<lparr>e_reads := 1, e_soft := 1, e_pops := 1\<rparr>
      else if op \<in> {kOpcodeName_fiadd, kOpcodeName_fisub, kOpcodeName_fisubr, kOpcodeName_fimul,
               kOpcodeName_fidiv, kOpcodeName_fidivr, kOpcodeName_ficom, kOpcodeName_ftst,
               kOpcodeName_fxam, kOpcodeName_fchs, kOpcodeName_fabs, kOpcodeName_fsqrt,
               kOpcodeName_frndint, kOpcodeName_fsin, kOpcodeName_fcos, kOpcodeName_f2xm1}
      then no_effect\<lparr>e_reads := 1\<rparr>
      else if op \<in> {kOpcodeName_ficomp, kOpcodeName_fbstp} then no_effect\<lparr>e_reads := 1, e_pops := 1\<rparr>
      else if op \<in> {kOpcodeName_fsincos, kOpcodeName_fptan, kOpcodeName_fxtract}
      then no_effect\<lparr>e_reads := 1, e_pushes := 1\<rparr>
      else if op \<in> {kOpcodeName_fscale, kOpcodeName_fprem, kOpcodeName_fprem1}
      then no_effect\<lparr>e_reads := 3\<rparr>
      else if op \<in> {kOpcodeName_fpatan, kOpcodeName_fyl2x, kOpcodeName_fyl2xp1}
      then no_effect\<lparr>e_reads := 3, e_pops := 1\<rparr>
      else if op = kOpcodeName_fxch then fxch_effect ins
      else if op = kOpcodeName_ffree
      then no_effect\<lparr>e_kind := EffFree, e_arg := (if st_operand ins 0 < 0 then 0 else st_operand ins 0)\<rparr>
      else if op = kOpcodeName_fincstp then no_effect\<lparr>e_kind := EffTopInc\<rparr>
      else if op = kOpcodeName_fdecstp then no_effect\<lparr>e_kind := EffTopDec\<rparr>
      else if op = kOpcodeName_fsave then no_effect\<lparr>e_reads := 0xFF, e_soft := 0xFF, e_kind := EffSave\<rparr>
      else if op = kOpcodeName_frstor then no_effect\<lparr>e_kind := EffRestore\<rparr>
      else no_effect)"

section \<open>The cached state\<close>

datatype slot_fmt = SlotNative | SlotF64 | SlotDead | SlotDeadNative

definition slot_holds_f80 :: "slot_fmt \<Rightarrow> bool" where
  "slot_holds_f80 f \<longleftrightarrow> f = SlotNative \<or> f = SlotDeadNative"

definition slot_killed :: "slot_fmt \<Rightarrow> slot_fmt" where
  "slot_killed f = (if slot_holds_f80 f then SlotDeadNative else SlotDead)"

record x87_cache =
  base_gpr :: nat
  top_gpr :: nat
  run_remaining :: int
  st_base_gpr :: nat
  top_dirty :: bool
  gprs_valid :: bool
  st_base_valid :: bool
  tag_push_pending :: bool
  deferred_pop_count :: int
  native_transport :: bool
  native_slots :: bool
  top_unused :: bool
  top_rel :: nat
  fmts :: "slot_fmt list"
  perm :: "nat list"
  perm_dirty :: bool
  last_insn_idx :: int
  last_next_idx :: int
  prev_block :: "nat option"
  bridge_pending_total :: int
  bridge_pending_x87 :: int
  bridge_pending_plain :: int
  bridge_pending_idx :: int
  declined_block :: "nat option"
  declined_idx :: int
  declined_num_instrs :: int
  declined_start_pc :: u32
  stock_free_gpr_mask :: u32

definition cache_init :: x87_cache where
  "cache_init = \<lparr>base_gpr = 0, top_gpr = 0, run_remaining = 0, st_base_gpr = 0, top_dirty = False,
     gprs_valid = False, st_base_valid = False, tag_push_pending = False, deferred_pop_count = 0,
     native_transport = False, native_slots = False, top_unused = False, top_rel = 0, fmts = replicate 8 SlotNative, perm = [0..<8], perm_dirty = False,
     last_insn_idx = -1, last_next_idx = -1, prev_block = None, bridge_pending_total = 0,
     bridge_pending_x87 = 0, bridge_pending_plain = 0,
     bridge_pending_idx = -1, declined_block = None, declined_idx = -1, declined_num_instrs = 0,
     declined_start_pc = 0, stock_free_gpr_mask = 0x3FC00000\<rparr>"

definition cache_active :: "x87_cache \<Rightarrow> bool" where
  "cache_active c \<longleftrightarrow> run_remaining c > 0"

definition reset_perm :: "x87_cache \<Rightarrow> x87_cache" where
  "reset_perm c = c\<lparr>perm := [0..<8], perm_dirty := False\<rparr>"

definition invalidate :: "x87_cache \<Rightarrow> x87_cache" where
  "invalidate c = reset_perm (c\<lparr>gprs_valid := False, st_base_valid := False, top_dirty := False,
     tag_push_pending := False, deferred_pop_count := 0, run_remaining := 0\<rparr>)"

definition set_run :: "int \<Rightarrow> x87_cache \<Rightarrow> x87_cache" where
  "set_run n c = (if n \<ge> 2 then c\<lparr>run_remaining := to_i16 n\<rparr> else c)"

definition tick :: "x87_cache \<Rightarrow> x87_cache" where
  "tick c =
     (if run_remaining c > 0 then
        (let c1 = c\<lparr>run_remaining := run_remaining c - 1\<rparr> in
         if run_remaining c1 = 0
         then c1\<lparr>gprs_valid := False, st_base_valid := False, top_dirty := False,
                 tag_push_pending := False, deferred_pop_count := 0\<rparr>
         else c1)
      else c)"

definition perm_is_identity :: "x87_cache \<Rightarrow> bool" where
  "perm_is_identity c = list_all (\<lambda>i. perm c ! i = i) [0..<8]"

definition pinned_mask :: "x87_cache \<Rightarrow> u32" where
  "pinned_mask c =
     (if gprs_valid c then
        push_bit (base_gpr c) 1 OR push_bit (top_gpr c) 1 OR
        (if st_base_valid c then push_bit (st_base_gpr c) 1 else 0)
      else 0)"

end
