(* ===== verification/X87_Cache_Props.thy ===== *)
theory X87_Cache_Props
  imports X87_Cache X87_Examples
begin

text \<open>Theorems about runs, bridged regions and the run state.\<close>

section \<open>Plain runs\<close>

lemma lookahead_loop_eq:
  "lookahead_loop xs n = n + length (takeWhile (\<lambda>ins. is_handled_x87 (opcode ins)) xs)"
  by (induction xs n rule: lookahead_loop.induct) simp_all

lemma native_transport_loop_eq:
  "native_transport_loop xs b \<longleftrightarrow>
     (b \<or> takeWhile (\<lambda>ins. is_handled_x87 (opcode ins)) xs \<noteq> []) \<and>
     list_all (\<lambda>ins. is_native_transport_x87 (opcode ins)) (takeWhile (\<lambda>ins. is_handled_x87 (opcode ins)) xs)"
  by (induction xs b rule: native_transport_loop.induct) auto

text \<open>A native transport run is what \<open>lookahead\<close> counts, when it is not empty and every
  instruction of it only moves integers or the control word.\<close>

theorem native_transport_is_the_run:
  "is_native_transport_run instrs idx \<longleftrightarrow>
     lookahead instrs idx > 0 \<and>
     list_all (\<lambda>ins. is_handled_x87 (opcode ins) \<and> is_native_transport_x87 (opcode ins))
       (take (lookahead instrs idx) (drop idx instrs))"
proof -
  let ?P = "\<lambda>ins. is_handled_x87 (opcode ins)" and ?xs = "drop idx instrs"
  have take: "take (length (takeWhile ?P ?xs)) ?xs = takeWhile ?P ?xs"
    by (metis append_eq_conv_conj takeWhile_dropWhile_id)
  have "list_all ?P (takeWhile ?P ?xs)"
    by (auto simp only: list_all_iff dest: set_takeWhileD)
  then have "list_all (\<lambda>ins. ?P ins \<and> is_native_transport_x87 (opcode ins)) (takeWhile ?P ?xs) \<longleftrightarrow>
      list_all (\<lambda>ins. is_native_transport_x87 (opcode ins)) (takeWhile ?P ?xs)"
    by (auto simp only: list_all_iff)
  then show ?thesis
    by (simp only: is_native_transport_run_def lookahead_def native_transport_loop_eq lookahead_loop_eq
        add_0 take length_greater_0_conv simp_thms)
qed

section \<open>Bridged regions\<close>

text \<open>No more than \<open>g\<close> consecutive instructions that are not x87, \<open>k\<close> of them already seen.\<close>

fun gaps_ok :: "nat \<Rightarrow> nat \<Rightarrow> irinstr list \<Rightarrow> bool" where
  "gaps_ok g k [] \<longleftrightarrow> True"
| "gaps_ok g k (x # xs) \<longleftrightarrow>
     (if is_handled_x87 (opcode x) then gaps_ok g 0 xs else Suc k \<le> g \<and> gaps_ok g (Suc k) xs)"

definition gap_instr :: "bool \<Rightarrow> irinstr \<Rightarrow> bool" where
  "gap_instr v2 ins \<longleftrightarrow> (if v2 then is_bridge_v2_proven ins else is_bridge_v1 ins)"

definition x87_count :: "irinstr list \<Rightarrow> nat" where
  "x87_count xs = length (filter (\<lambda>ins. is_handled_x87 (opcode ins)) xs)"

definition scan_result :: "bool \<Rightarrow> nat \<Rightarrow> nat \<Rightarrow> nat \<Rightarrow> irinstr list \<Rightarrow> bridge_scan \<Rightarrow> bridge_scan \<Rightarrow> nat \<Rightarrow> bool" where
  "scan_result v2 g m off xs s r t \<longleftrightarrow>
     t \<le> length xs \<and> bs_joins r \<le> bs_bridges r + (bs_joins s - bs_bridges s) \<and>
     (if t = 0 then bs_total r = bs_total s \<and> bs_x87 r = bs_x87 s \<and> bs_bridges r = bs_bridges s
      else bs_total r = off + t \<and> is_handled_x87 (opcode (xs ! (t - 1))) \<and>
        list_all (\<lambda>ins. is_handled_x87 (opcode ins) \<or> gap_instr v2 ins) (take t xs) \<and>
        gaps_ok g (bs_gap s) (take t xs) \<and>
        bs_x87 r = bs_x87 s + x87_count (take t xs) \<and>
        bs_x87 r + bs_bridges r = bs_x87 s + bs_bridges s + bs_gap s + t \<and> bs_bridges r \<le> m)"

lemma bridge_scan_loop_result:
  "bs_bridges s + bs_gap s \<le> m \<Longrightarrow> bs_joins s \<le> bs_bridges s \<Longrightarrow>
   \<exists>t. scan_result v2 g m off xs s (bridge_scan_loop v2 g m off xs s) t"
proof (induction xs arbitrary: off s)
  case Nil
  then show ?case by (intro exI [of _ 0]) (simp add: scan_result_def)
next
  case (Cons ins rest)
  consider (x87) "is_handled_x87 (opcode ins)"
    | (gap) "\<not> is_handled_x87 (opcode ins)" "gap_instr v2 ins" "bs_gap s < g" "bs_bridges s + bs_gap s < m"
    | (stop) "\<not> is_handled_x87 (opcode ins)" "\<not> (gap_instr v2 ins \<and> bs_gap s < g \<and> bs_bridges s + bs_gap s < m)"
    by blast
  then show ?case
  proof cases
    case x87
    define s1 where "s1 = (if bs_gap s > 0
      then s\<lparr>bs_joins := Suc (bs_joins s), bs_bridges := bs_bridges s + bs_gap s, bs_gap := 0\<rparr> else s)"
    define s2 where "s2 = s1\<lparr>bs_x87 := Suc (bs_x87 s1), bs_total := Suc off\<rparr>"
    have s2: "bs_gap s2 = 0" "bs_bridges s2 = bs_bridges s + bs_gap s" "bs_x87 s2 = Suc (bs_x87 s)"
      "bs_total s2 = Suc off" "bs_joins s2 \<le> bs_bridges s2"
      using Cons.prems by (simp_all add: s2_def s1_def)
    obtain t where t: "scan_result v2 g m (Suc off) rest s2 (bridge_scan_loop v2 g m (Suc off) rest s2) t"
      using Cons.IH [of s2 "Suc off"] s2 Cons.prems by auto
    have step: "bridge_scan_loop v2 g m off (ins # rest) s = bridge_scan_loop v2 g m (Suc off) rest s2"
      using x87 by (simp add: s2_def s1_def Let_def)
    have "scan_result v2 g m off (ins # rest) s (bridge_scan_loop v2 g m (Suc off) rest s2) (Suc t)"
      using t x87 s2 Cons.prems
      by (cases t) (auto simp: scan_result_def x87_count_def)
    then show ?thesis unfolding step by blast
  next
    case gap
    let ?s = "s\<lparr>bs_gap := Suc (bs_gap s)\<rparr>"
    obtain t where t: "scan_result v2 g m (Suc off) rest ?s (bridge_scan_loop v2 g m (Suc off) rest ?s) t"
      using Cons.IH [of ?s "Suc off"] gap Cons.prems by auto
    have step: "bridge_scan_loop v2 g m off (ins # rest) s = bridge_scan_loop v2 g m (Suc off) rest ?s"
      using gap by (simp add: gap_instr_def)
    have "scan_result v2 g m off (ins # rest) s (bridge_scan_loop v2 g m (Suc off) rest ?s)
        (if t = 0 then 0 else Suc t)"
      using t gap by (auto simp: scan_result_def x87_count_def)
    then show ?thesis unfolding step by blast
  next
    case stop
    then have "bridge_scan_loop v2 g m off (ins # rest) s = s"
      by (auto simp: gap_instr_def)
    then show ?thesis using Cons.prems by (intro exI [of _ 0]) (simp add: scan_result_def)
  qed
qed

lemma to_i16_small: "0 \<le> x \<Longrightarrow> x < 2 ^ 15 \<Longrightarrow> to_i16 x = x"
  unfolding to_i16_def by (simp add: sint_sbintrunc' signed_take_bit_int_eq_self)


definition prog_bridged :: "irinstr list" where
  "prog_bridged =
     [insn kOpcodeName_fld [mem_opnd S64 8], insn kOpcodeName_mov [gpr_opnd 1, gpr_opnd 2],
      insn kOpcodeName_fld [mem_opnd S64 16], insn kOpcodeName_faddp [st_opnd 1, st_opnd 0],
      insn kOpcodeName_mov [gpr_opnd 1, gpr_opnd 2]]"


section \<open>The countdown of a run\<close>

definition released :: "x87_cache \<Rightarrow> bool" where
  "released c \<longleftrightarrow> \<not> cache_active c \<and> pinned_mask c = 0 \<and> \<not> top_dirty c \<and> \<not> tag_push_pending c \<and>
     deferred_pop_count c = 0"

lemma tick_pow:
  "run_remaining c = int n \<Longrightarrow> k < n \<Longrightarrow> (tick ^^ k) c = c\<lparr>run_remaining := int (n - k)\<rparr>"
proof (induction k)
  case 0
  then have "c\<lparr>run_remaining := int (n - 0)\<rparr> = c" by (metis diff_zero x87_cache.surjective x87_cache.update_convs(3))
  then show ?case by simp
next
  case (Suc k)
  then show ?case by (simp add: tick_def Let_def of_nat_diff)
qed

text \<open>C15: a run set up for \<open>n\<close> instructions stays active, with its registers pinned, for exactly
  \<open>n\<close> ticks and has then released every register and every deferred update; a run of one
  instruction is never opened.\<close>

theorem run_lasts_n_ticks:
  assumes "2 \<le> n" "n < 2 ^ 15" "k \<le> n"
  shows "if k < n then cache_active ((tick ^^ k) (set_run (int n) c)) \<and>
                       pinned_mask ((tick ^^ k) (set_run (int n) c)) = pinned_mask c
         else released ((tick ^^ k) (set_run (int n) c))"
proof -
  let ?c = "set_run (int n) c"
  have rr: "run_remaining ?c = int n"
    using assms(1,2) by (simp add: set_run_def to_i16_small)
  show ?thesis
  proof (cases "k < n")
    case True
    then show ?thesis
      using tick_pow [OF rr True] by (simp add: cache_active_def pinned_mask_def set_run_def)
  next
    case False
    then obtain k' where k: "k = Suc k'" "n = Suc k'" using assms by (cases k) auto
    have "(tick ^^ k') ?c = ?c\<lparr>run_remaining := 1\<rparr>"
      using tick_pow [OF rr, of k'] k by simp
    then show ?thesis
      using False by (simp add: k tick_def released_def cache_active_def pinned_mask_def)
  qed
qed

lemma run_lasts_n_ticks_witness:
  "cache_active ((tick ^^ 2) (set_run 3 cache_init)) \<and> released ((tick ^^ 3) (set_run 3 cache_init))"
  using run_lasts_n_ticks [of 3 2 cache_init] run_lasts_n_ticks [of 3 3 cache_init] by simp

text \<open>But the countdown is 16 bits wide: a run whose length does not fit opens with a negative
  count, is not active, and no tick ever releases what it pins.\<close>

theorem long_run_never_active:
  "\<not> cache_active ((tick ^^ k) (set_run 32768 c)) \<and>
   pinned_mask ((tick ^^ k) (set_run 32768 c)) = pinned_mask c"
proof -
  have "(tick ^^ k) (set_run 32768 c) = c\<lparr>run_remaining := -32768\<rparr>"
  proof (induction k)
    case 0
    have "to_i16 32768 = -32768" by code_simp
    then show ?case by (simp add: set_run_def)
  next
    case (Suc k)
    then show ?case by (simp add: tick_def)
  qed
  then show ?thesis by (simp add: cache_active_def pinned_mask_def)
qed

end
