(* ===== verification/X87_Slot_Table.thy ===== *)
theory X87_Slot_Table
  imports X87_Cache X87_Build_Correct X87_Examples
begin

text \<open>
  The table \<^verbatim>\<open>X87Cache::slot_effect\<close> against the builder.  The table promises to cover every
  stack register an instruction reads and to move TOP as the instruction does; the builder is the
  other place in the code that knows both.
\<close>

section \<open>What the builder reads\<close>

text \<open>
  \<open>has_read D c0 c\<close>: every register read that \<open>c\<close> has on top of \<open>c0\<close> is of a depth in \<open>D\<close>, as
  \<open>c0\<close> names it.  \<open>reading\<close> adds what holds until the instruction moves values: a position still
  unresolved is unresolved as it was in \<open>c0\<close>.
\<close>

definition has_read :: "int set \<Rightarrow> ctx \<Rightarrow> ctx \<Rightarrow> bool" where
  "has_read D c0 c \<longleftrightarrow> length (nodes c0) \<le> length (nodes c) \<and>
     (\<forall>i. length (nodes c0) \<le> i \<longrightarrow> i < length (nodes c) \<longrightarrow> nop (nodes c ! i) = ReadSt \<longrightarrow>
       (\<exists>d \<in> D. 0 \<le> d \<and> d < 8 \<and> npay (nodes c ! i) = PDepth (- (slot_val c0 ! nat d + 1))))"

definition reading :: "int set \<Rightarrow> ctx \<Rightarrow> ctx \<Rightarrow> bool" where
  "reading D c0 c \<longleftrightarrow> has_read D c0 c \<and> length (slot_val c) = 8 \<and> length (initial_read c) = 8 \<and>
     (\<forall>d < 8. slot_val c ! d < 0 \<longrightarrow> slot_val c ! d = slot_val c0 ! d)"

lemma has_read_nodes: "has_read D c0 c \<Longrightarrow> nodes c' = nodes c \<Longrightarrow> has_read D c0 c'"
  by (simp add: has_read_def)

lemma has_read_update:
  assumes "has_read D c0 c" "\<And>i. nop (ns ! i) = nop (nodes c ! i)"
    "\<And>i. nop (nodes c ! i) = ReadSt \<Longrightarrow> npay (ns ! i) = npay (nodes c ! i)"
    "length ns = length (nodes c)" "nodes c' = ns"
  shows "has_read D c0 c'"
  using assms by (simp add: has_read_def)

lemma has_read_append:
  assumes "has_read D c0 c" "nop n \<noteq> ReadSt \<or> (\<exists>d \<in> D. 0 \<le> d \<and> d < 8 \<and> npay n = PDepth (- (slot_val c0 ! nat d + 1)))"
    "nodes c' = nodes c @ [n]"
  shows "has_read D c0 c'"
  using assms by (auto simp: has_read_def nth_append less_Suc_eq)

lemma has_read_flag: "has_read D c0 c \<Longrightarrow> has_read D c0 (set_flag i f c)"
  by (erule has_read_update [where ns = "nodes (set_flag i f c)"])
    (auto simp: set_flag_def nth_list_update_if or_flag_def)

lemma has_read_inputs: "has_read D c0 c \<Longrightarrow> has_read D c0 (set_inputs i a b d c)"
  by (erule has_read_update [where ns = "nodes (set_inputs i a b d c)"])
    (auto simp: set_inputs_def nth_list_update_if)

lemma has_read_payload:
  "has_read D c0 c \<Longrightarrow> nop (nodes c ! nat i) \<noteq> ReadSt \<Longrightarrow> has_read D c0 (set_payload i p c)"
  by (erule has_read_update [where ns = "nodes (set_payload i p c)"])
    (auto simp: set_payload_def nth_list_update_if)

lemma has_read_moves:
  assumes "has_read D c0 c"
  shows "has_read D c0 (push v c)" "has_read D c0 (pop c)" "has_read D c0 (set_slot d v c)"
    "has_read D c0 (set_last_fcmp i c)" "has_read D c0 (set_last_fcomi i c)"
    "has_read D c0 (set_fail_opcode op c)" "has_read D c0 ((pop ^^ k) c)"
proof -
  have "nodes ((pop ^^ k) c) = nodes c" by (induction k) (simp_all add: pop_def)
  then show "has_read D c0 ((pop ^^ k) c)" by (rule has_read_nodes [OF assms])
qed (rule has_read_nodes [OF assms]; simp add: push_def pop_def set_slot_def set_last_fcmp_def
    set_last_fcomi_def set_fail_opcode_def)+

lemma reading_has_read: "reading D c0 c \<Longrightarrow> has_read D c0 c"
  by (simp add: reading_def)

lemma reading_same:
  "reading D c0 c \<Longrightarrow> has_read D c0 c' \<Longrightarrow> slot_val c' = slot_val c \<Longrightarrow>
   length (initial_read c') = length (initial_read c) \<Longrightarrow> reading D c0 c'"
  by (simp add: reading_def)

lemma reading_set_slot: "reading D c0 c \<Longrightarrow> 0 \<le> v \<Longrightarrow> reading D c0 (set_slot d v c)"
  by (auto simp: reading_def set_slot_sel nth_list_update_if has_read_def)

text \<open>\<open>0 \<le> d \<Longrightarrow> d < 8 \<Longrightarrow> d \<in> D\<close> is the one thing to know about a depth that is resolved.\<close>

lemma reading_resolve:
  assumes "reading D c0 c" "0 \<le> d \<Longrightarrow> d < 8 \<Longrightarrow> d \<in> D"
  shows "reading D c0 (snd (resolve d c))"
proof -
  have len: "length (slot_val c) = 8" "length (initial_read c) = 8"
    using assms(1) by (simp_all add: reading_def)
  have new: "reading D c0 (new_read (nat (- (slot_val c ! nat d + 1))) c)"
    if "0 \<le> d" "d < 8" "slot_val c ! nat d < 0" "0 \<le> - (slot_val c ! nat d + 1)"
  proof -
    have eq: "slot_val c ! nat d = slot_val c0 ! nat d"
      using assms(1) that by (simp add: reading_def)
    have "has_read D c0 (new_read (nat (- (slot_val c ! nat d + 1))) c)"
      by (rule has_read_append [OF reading_has_read [OF assms(1)], rotated])
        (use that assms(2) eq in \<open>auto simp: new_read_def append_node_sel intro!: bexI [of _ d]\<close>)
    then show ?thesis
      by (rule reading_same [OF assms(1)]) (simp_all add: new_read_def append_node_sel)
  qed
  show ?thesis
    using assms(1) new
    by (auto simp: resolve_eq [OF len] Let_def not_le not_less intro!: reading_set_slot)
qed

lemma reading_load:
  assumes "reading D c0 c"
  shows "reading D c0 (snd (build_fp_load p c))" "reading D c0 (snd (build_int_load p c))"
    "reading D c0 (snd (build_const w c))"
proof -
  have app: "reading D c0 (append_node n c)" if "nop n \<noteq> ReadSt" for n
    by (rule reading_same [OF assms], rule has_read_append [OF reading_has_read [OF assms], of n])
      (simp_all add: append_node_sel that)
  show "reading D c0 (snd (build_fp_load p c))" "reading D c0 (snd (build_int_load p c))"
    by (cases "opsize p"; simp add: build_fp_load_def build_int_load_def add_node_eq
        set_payload_append app assms)+
  show "reading D c0 (snd (build_const w c))"
    by (simp add: build_const_def add_node_eq set_payload_append app assms)
qed

lemma has_read_store:
  assumes "has_read D c0 c"
  shows "has_read D c0 (snd (build_fp_store p v c))" "has_read D c0 (snd (build_int_store p v tr c))"
proof -
  have app: "has_read D c0 (append_node n c)" if "nop n \<noteq> ReadSt" for n
    by (rule has_read_append [OF assms, of n]) (simp_all add: append_node_sel that)
  show "has_read D c0 (snd (build_fp_store p v c))" "has_read D c0 (snd (build_int_store p v tr c))"
    by (cases "opsize p"; simp add: build_fp_store_def build_int_store_def Let_def add_node_eq
        set_payload_append set_flag_append app assms)+
qed

lemma has_read_add_or_fail:
  assumes "has_read D c0 c" "op \<noteq> ReadSt"
    and "\<And>i c1. has_read D c0 c1 \<Longrightarrow> nop (nodes c1 ! nat i) = op \<Longrightarrow> has_read D c0 (k i c1)"
  shows "has_read D c0 (snd (add_or_fail op a b d k c))"
proof -
  have "has_read D c0 (append_node (mk_node op a b d) c)"
    by (rule has_read_append [OF assms(1), of "mk_node op a b d"]) (simp_all add: append_node_sel assms(2))
  then show ?thesis
    using assms by (auto simp: add_or_fail_def add_node_eq append_node_sel)
qed

lemma reading_bind:
  "reading D c0 (snd res) \<Longrightarrow> (\<And>v c1. reading D c0 c1 \<Longrightarrow> has_read D c0 (snd (G v c1))) \<Longrightarrow>
   has_read D c0 (snd (case res of (v, c1) \<Rightarrow> G v c1))"
  by (cases res) simp

lemma has_read_bind:
  "has_read D c0 (snd res) \<Longrightarrow> (\<And>v c1. has_read D c0 c1 \<Longrightarrow> has_read D c0 (snd (G v c1))) \<Longrightarrow>
   has_read D c0 (snd (case res of (v, c1) \<Rightarrow> G v c1))"
  by (cases res) simp

lemma has_read_if:
  "(b \<Longrightarrow> has_read D c0 (snd x)) \<Longrightarrow> (\<not> b \<Longrightarrow> has_read D c0 (snd y)) \<Longrightarrow> has_read D c0 (snd (if b then x else y))"
  "(b \<Longrightarrow> has_read D c0 c) \<Longrightarrow> (\<not> b \<Longrightarrow> has_read D c0 c') \<Longrightarrow> has_read D c0 (if b then c else c')"
  by simp_all

lemma reading_if:
  "(b \<Longrightarrow> reading D c0 (snd x)) \<Longrightarrow> (\<not> b \<Longrightarrow> reading D c0 (snd y)) \<Longrightarrow> reading D c0 (snd (if b then x else y))"
  by simp

lemma has_read_ret: "has_read D c0 c \<Longrightarrow> has_read D c0 (snd (v, c))"
  by simp

lemmas reads_rules = reading_bind has_read_if has_read_ret reading_if reading_load
  has_read_store has_read_add_or_fail has_read_moves has_read_flag has_read_inputs has_read_payload

section \<open>The arms\<close>

lemma reading_refl:
  "length (slot_val c) = 8 \<Longrightarrow> length (initial_read c) = 8 \<Longrightarrow> reading D c c"
  by (simp add: reading_def has_read_def)

definition covers :: "int set \<Rightarrow> ioperand \<Rightarrow> bool" where
  "covers D p \<longleftrightarrow> (op_reg_index p < 8 \<longrightarrow> op_reg_index p \<in> D)"

lemma reading_operand: "reading D c0 c \<Longrightarrow> covers D p \<Longrightarrow> reading D c0 (snd (resolve (op_reg_index p) c))"
  by (rule reading_resolve) (simp_all add: covers_def)

lemma reading_st0: "reading D c0 c \<Longrightarrow> 0 \<in> D \<Longrightarrow> reading D c0 (snd (resolve 0 c))"
  by (rule reading_resolve)

lemma reading_st1: "reading D c0 c \<Longrightarrow> 1 \<in> D \<Longrightarrow> reading D c0 (snd (resolve 1 c))"
  by (rule reading_resolve)

lemmas resolve_rules = reading_st0 reading_st1 reading_operand

lemma has_read_arith:
  assumes "reading D c0 c" "0 \<in> D" "op \<noteq> ReadSt"
  shows "kind (opnd0 ins) = Register \<longrightarrow> covers D (opnd0 ins) \<and> covers D (opnd1 ins) \<Longrightarrow>
      has_read D c0 (snd (build_arith ins op rv c))"
    "covers D (opnd0 ins) \<Longrightarrow> has_read D c0 (snd (build_arithp ins op rv c))"
    "has_read D c0 (snd (build_fiarith ins op rv c))"
    "has_read D c0 (snd (build_unary op c))"
    "1 \<in> D \<Longrightarrow> has_read D c0 (snd (build_st1_pop op c))"
    "1 \<in> D \<Longrightarrow> has_read D c0 (snd (build_fscale c))"
proof -
  show "kind (opnd0 ins) = Register \<longrightarrow> covers D (opnd0 ins) \<and> covers D (opnd1 ins) \<Longrightarrow>
      has_read D c0 (snd (build_arith ins op rv c))"
    unfolding build_arith_def Let_def
    by (intro reads_rules resolve_rules assms; (assumption | erule reading_has_read | simp add: assms))
  show "covers D (opnd0 ins) \<Longrightarrow> has_read D c0 (snd (build_arithp ins op rv c))"
    unfolding build_arithp_def Let_def
    by (intro reads_rules resolve_rules assms; (assumption | erule reading_has_read))
  show "has_read D c0 (snd (build_fiarith ins op rv c))"
    "has_read D c0 (snd (build_unary op c))"
    unfolding build_fiarith_def build_unary_def Let_def
    by (intro reads_rules resolve_rules assms; (assumption | erule reading_has_read))+
  show "1 \<in> D \<Longrightarrow> has_read D c0 (snd (build_st1_pop op c))"
    "1 \<in> D \<Longrightarrow> has_read D c0 (snd (build_fscale c))"
    unfolding build_st1_pop_def build_fscale_def Let_def
    by (intro reads_rules resolve_rules assms; (assumption | erule reading_has_read | simp))+
qed

lemma has_read_two_nodes:
  assumes "reading D c0 c" "0 \<in> D"
  shows "has_read D c0 (snd (build_fsincos c))" "has_read D c0 (snd (build_fptan c))"
proof -
  have add: "has_read D c0 (snd (add_node op a b d c1))" if "has_read D c0 c1" "op \<noteq> ReadSt" for op a b d c1
    using that by (auto simp: add_node_eq append_node_sel intro!: has_read_append [OF that(1), of "mk_node op a b d"])
  show "has_read D c0 (snd (build_fsincos c))"
    unfolding build_fsincos_def
    by (rule reading_bind [OF reading_st0 [OF assms]],
        intro has_read_bind [OF add] has_read_if has_read_ret has_read_add_or_fail has_read_moves;
        (assumption | erule reading_has_read | simp))
  show "has_read D c0 (snd (build_fptan c))"
    unfolding build_fptan_def
    by (rule reading_bind [OF reading_st0 [OF assms]],
        intro has_read_bind [OF add] has_read_if has_read_ret has_read_add_or_fail has_read_moves;
        (assumption | erule reading_has_read | simp))
qed

lemma has_read_compare:
  assumes "reading D c0 c" "0 \<in> D"
  shows "pp \<longrightarrow> 1 \<in> D \<Longrightarrow> \<not> pp \<longrightarrow> kind (opnd1 ins) = Register \<longrightarrow> covers D (opnd1 ins) \<Longrightarrow>
      has_read D c0 (snd (build_fcom ins k pp c))"
    "has_read D c0 (snd (build_ficom ins p c))"
    "covers D (opnd1 ins) \<Longrightarrow> has_read D c0 (snd (build_fcomi ins p c))"
    "covers D (opnd1 ins) \<Longrightarrow> has_read D c0 (snd (build_fcmov ins cond c))"
    "has_read D c0 (snd (build_ftst c))"
  unfolding build_fcom_def build_ficom_def build_fcomi_def build_fcmov_def build_ftst_def Let_def
  by (intro reads_rules resolve_rules assms;
      (assumption | erule reading_has_read | rule reading_has_read [OF assms(1)] | simp))+

lemma has_read_others:
  assumes "reading D c0 c"
  shows "has_read D c0 (snd (build_fstsw ins c))" "op \<noteq> ReadSt \<Longrightarrow> has_read D c0 (snd (build_cw op ins c))"
    "op \<noteq> ReadSt \<Longrightarrow> has_read D c0 (snd (build_fldz_fld1 op c))" "has_read D c0 (snd (build_fldconst w c))"
    "has_read D c0 (snd (build_fild ins c))"
    "(kind (opnd0 ins) = Register \<longrightarrow> covers D (opnd1 ins)) \<Longrightarrow> has_read D c0 (snd (build_fld ins c))"
  unfolding build_fstsw_def build_cw_def build_fldz_fld1_def build_fldconst_def build_fild_def build_fld_def
  by (intro reads_rules resolve_rules assms reading_has_read [OF assms];
      (assumption | erule reading_has_read | simp add: assms))+

lemma has_read_store_arms:
  assumes "reading D c0 c" "0 \<in> D"
  shows "has_read D c0 (snd (build_fst ins p c))" "has_read D c0 (snd (build_fist ins tr p c))"
  unfolding build_fst_def build_fist_def Let_def
  by (intro reading_bind [OF reading_st0 [OF assms]] has_read_bind has_read_if has_read_ret has_read_moves
      has_read_store; (assumption | erule reading_has_read))+

lemma has_read_fxch:
  assumes "reading D c0 c" "0 \<in> D" "covers D (opnd1 ins)"
  shows "has_read D c0 (snd (build_fxch ins c))"
  unfolding build_fxch_def Let_def
  by (intro has_read_if has_read_ret has_read_moves reading_has_read resolve_rules assms)

lemma has_read_bridge:
  assumes "reading D c0 c"
  shows "has_read D c0 (snd (build_bridge ins c))"
proof -
  have node: "has_read D c0 (snd (bridge_node op a b k fl pay c))" if "op \<noteq> ReadSt" for op a b k fl pay
    unfolding bridge_node_def Let_def
    by (cases pay; simp only: option.case;
        intro has_read_add_or_fail has_read_payload has_read_flag reading_has_read [OF assms] that;
        (assumption | simp add: set_flag_def nth_list_update_if or_flag_sel that))
  show ?thesis
    unfolding build_bridge_def build_bridge_mov_def build_bridge_alu_def Let_def
    by (intro has_read_if has_read_ret node reading_has_read [OF assms]; simp)
qed


section \<open>The table covers the reads\<close>

definition effect_reads :: "irinstr \<Rightarrow> int set" where
  "effect_reads ins = {d. bit (e_reads (slot_effect ins)) (nat d)}"

lemma bit_depth_bit: "0 \<le> d \<Longrightarrow> bit (depth_bit d) n \<longleftrightarrow> n = nat d \<and> n < 8"
  by (auto simp: depth_bit_def bit_exp_iff)

lemma bit_mask_fold:
  "bit m n \<or> (\<exists>k \<in> set ks. st_operand ins k \<ge> 0 \<and> bit (depth_bit (st_operand ins k)) n) \<Longrightarrow>
   bit (fold (\<lambda>k mask. let d = st_operand ins k in if d \<ge> 0 then mask OR depth_bit d else mask) ks m) n"
  by (induction ks arbitrary: m) (auto simp: Let_def bit_or_iff)

lemma st_operand_mask_bit:
  assumes "k < num_operands ins" "k < 4" "kind (opnd ins k) = Register" "op_reg_index (opnd ins k) < 8"
  shows "bit (st_operand_mask ins) (nat (op_reg_index (opnd ins k)))"
proof -
  have "st_operand ins k = op_reg_index (opnd ins k)"
    using assms by (simp add: st_operand_def)
  then have "st_operand ins k \<ge> 0 \<and> bit (depth_bit (st_operand ins k)) (nat (op_reg_index (opnd ins k)))"
    using assms(4) by (simp add: bit_depth_bit)
  moreover have "k \<in> set [0..<min 4 (num_operands ins)]" using assms by simp
  ultimately show ?thesis
    unfolding st_operand_mask_def by (intro bit_mask_fold) blast
qed

abbreviation "mask_ops \<equiv> {kOpcodeName_fadd, kOpcodeName_fsub, kOpcodeName_fsubr, kOpcodeName_fdiv,
  kOpcodeName_fdivr, kOpcodeName_fmul, kOpcodeName_fcom, kOpcodeName_fucom, kOpcodeName_fcomi,
  kOpcodeName_fucomi, kOpcodeName_fcmovb, kOpcodeName_fcmovbe, kOpcodeName_fcmove, kOpcodeName_fcmovnb,
  kOpcodeName_fcmovnbe, kOpcodeName_fcmovne, kOpcodeName_fcmovu, kOpcodeName_fcmovnu,
  kOpcodeName_faddp, kOpcodeName_fsubp, kOpcodeName_fsubrp, kOpcodeName_fdivp, kOpcodeName_fdivrp,
  kOpcodeName_fmulp, kOpcodeName_fcomp, kOpcodeName_fucomp, kOpcodeName_fcomip, kOpcodeName_fucomip}"

lemma e_reads_mask: "opcode ins \<in> mask_ops \<Longrightarrow> e_reads (slot_effect ins) = st_operand_mask ins OR 1"
  by (elim insertE emptyE) (simp_all add: slot_effect_def)

lemma effect_mask:
  assumes "opcode ins \<in> mask_ops"
  shows "0 \<in> effect_reads ins"
    "k < num_operands ins \<Longrightarrow> k < 4 \<Longrightarrow> kind (opnd ins k) = Register \<Longrightarrow> covers (effect_reads ins) (opnd ins k)"
  using st_operand_mask_bit [of k ins]
  by (auto simp: effect_reads_def e_reads_mask [OF assms] covers_def bit_or_iff)

lemma nat_reg_less [simp]: "nat (op_reg_index p) < 8 \<longleftrightarrow> op_reg_index p < 8"
  by (simp add: nat_less_iff)

lemma effect_fld:
  assumes "opcode ins = kOpcodeName_fld" "kind (opnd0 ins) = Register" "2 \<le> num_operands ins"
    "kind (opnd1 ins) = Register"
  shows "covers (effect_reads ins) (opnd1 ins)"
  using assms by (simp add: covers_def effect_reads_def slot_effect_def fld_effect_def st_operand_def Let_def bit_depth_bit)

lemma effect_fxch:
  assumes "opcode ins = kOpcodeName_fxch" "2 \<le> num_operands ins" "kind (opnd1 ins) = Register"
    "0 < op_reg_index (opnd1 ins)" "op_reg_index (opnd1 ins) < 8"
  shows "0 \<in> effect_reads ins" "covers (effect_reads ins) (opnd1 ins)"
  using assms
  by (simp_all add: covers_def effect_reads_def slot_effect_def fxch_effect_def st_operand_def Let_def
      bit_depth_bit bit_or_iff)

lemma effect_fst:
  assumes "opcode ins \<in> {kOpcodeName_fst, kOpcodeName_fst_stack, kOpcodeName_fstp, kOpcodeName_fstp_stack}"
    "kind (opnd0 ins) = Register \<or> opsize (opnd0 ins) \<noteq> S80"
  shows "0 \<in> effect_reads ins"
proof -
  have "slot_effect ins = fst_effect ins"
    using assms(1) by (elim insertE emptyE) (simp_all add: slot_effect_def)
  then show ?thesis
    using assms(2) by (auto simp: effect_reads_def fst_effect_def st_operand_def Let_def)
qed

text \<open>The opcodes that share an arm.\<close>

abbreviation arith_ops :: "u16 set" where "arith_ops \<equiv>
  {kOpcodeName_fadd, kOpcodeName_fsub, kOpcodeName_fsubr, kOpcodeName_fmul, kOpcodeName_fdiv, kOpcodeName_fdivr}"
abbreviation arithp_ops :: "u16 set" where "arithp_ops \<equiv>
  {kOpcodeName_faddp, kOpcodeName_fsubp, kOpcodeName_fsubrp, kOpcodeName_fmulp, kOpcodeName_fdivp, kOpcodeName_fdivrp}"
abbreviation fiarith_ops :: "u16 set" where "fiarith_ops \<equiv>
  {kOpcodeName_fiadd, kOpcodeName_fisub, kOpcodeName_fisubr, kOpcodeName_fimul, kOpcodeName_fidiv, kOpcodeName_fidivr}"
abbreviation unary_ops :: "u16 set" where "unary_ops \<equiv>
  {kOpcodeName_fchs, kOpcodeName_fabs, kOpcodeName_fsqrt, kOpcodeName_frndint, kOpcodeName_fsin, kOpcodeName_fcos}"
abbreviation st1_pop_ops :: "u16 set" where "st1_pop_ops \<equiv>
  {kOpcodeName_fpatan, kOpcodeName_fyl2x}"
abbreviation fcom_ops :: "u16 set" where "fcom_ops \<equiv>
  {kOpcodeName_fcom, kOpcodeName_fucom}"
abbreviation fcomp_ops :: "u16 set" where "fcomp_ops \<equiv>
  {kOpcodeName_fcomp, kOpcodeName_fucomp}"
abbreviation fcompp_ops :: "u16 set" where "fcompp_ops \<equiv>
  {kOpcodeName_fcompp, kOpcodeName_fucompp}"
abbreviation fcomi_ops :: "u16 set" where "fcomi_ops \<equiv>
  {kOpcodeName_fcomi, kOpcodeName_fucomi}"
abbreviation fcomip_ops :: "u16 set" where "fcomip_ops \<equiv>
  {kOpcodeName_fcomip, kOpcodeName_fucomip}"
abbreviation fcmov_ops :: "u16 set" where "fcmov_ops \<equiv>
  {kOpcodeName_fcmovb, kOpcodeName_fcmovbe, kOpcodeName_fcmove, kOpcodeName_fcmovnb, kOpcodeName_fcmovnbe,
  kOpcodeName_fcmovne, kOpcodeName_fcmovu, kOpcodeName_fcmovnu}"
abbreviation push_ops :: "u16 set" where "push_ops \<equiv>
  {kOpcodeName_fldz, kOpcodeName_fld1}"
abbreviation const_ops :: "u16 set" where "const_ops \<equiv>
  {kOpcodeName_fldl2e, kOpcodeName_fldl2t, kOpcodeName_fldlg2, kOpcodeName_fldln2, kOpcodeName_fldpi}"
abbreviation fst_ops :: "u16 set" where "fst_ops \<equiv>
  {kOpcodeName_fst, kOpcodeName_fst_stack}"
abbreviation fstp_ops :: "u16 set" where "fstp_ops \<equiv>
  {kOpcodeName_fstp, kOpcodeName_fstp_stack}"
abbreviation fistp_ops :: "u16 set" where "fistp_ops \<equiv>
  {kOpcodeName_fistp, kOpcodeName_fisttp}"
abbreviation cw_ops :: "u16 set" where "cw_ops \<equiv>
  {kOpcodeName_fldcw, kOpcodeName_fnstcw}"

text \<open>Which arm an opcode selects, one fact per group.\<close>

lemma step_arm:
  fixes P :: "ctx act \<Rightarrow> bool"
  shows
  "opcode ins \<in> arith_ops \<Longrightarrow> (\<And>op rv. op \<noteq> ReadSt \<Longrightarrow> P (build_arith ins op rv c)) \<Longrightarrow> P (build_step ab v2 ins c)"
  "opcode ins \<in> arithp_ops \<Longrightarrow> (\<And>op rv. op \<noteq> ReadSt \<Longrightarrow> P (build_arithp ins op rv c)) \<Longrightarrow> P (build_step ab v2 ins c)"
  "opcode ins \<in> fiarith_ops \<Longrightarrow> (\<And>op rv. op \<noteq> ReadSt \<Longrightarrow> P (build_fiarith ins op rv c)) \<Longrightarrow> P (build_step ab v2 ins c)"
  "opcode ins \<in> unary_ops \<Longrightarrow> (\<And>op. op \<noteq> ReadSt \<Longrightarrow> P (build_unary op c)) \<Longrightarrow> P (build_step ab v2 ins c)"
  "opcode ins \<in> st1_pop_ops \<Longrightarrow> (\<And>op. op \<noteq> ReadSt \<Longrightarrow> P (build_st1_pop op c)) \<Longrightarrow> P (build_step ab v2 ins c)"
  "opcode ins \<in> fcom_ops \<Longrightarrow> P (build_fcom ins 0 False c) \<Longrightarrow> P (build_step ab v2 ins c)"
  "opcode ins \<in> fcomp_ops \<Longrightarrow> P (build_fcom ins 1 False c) \<Longrightarrow> P (build_step ab v2 ins c)"
  "opcode ins \<in> fcompp_ops \<Longrightarrow> P (build_fcom ins 2 True c) \<Longrightarrow> P (build_step ab v2 ins c)"
  "opcode ins \<in> fcomi_ops \<Longrightarrow> P (build_fcomi ins False c) \<Longrightarrow> P (build_step ab v2 ins c)"
  "opcode ins \<in> fcomip_ops \<Longrightarrow> P (build_fcomi ins True c) \<Longrightarrow> P (build_step ab v2 ins c)"
  "opcode ins \<in> fcmov_ops \<Longrightarrow> (\<And>cond. P (build_fcmov ins cond c)) \<Longrightarrow> P (build_step ab v2 ins c)"
  "opcode ins \<in> push_ops \<Longrightarrow> (\<And>op. op \<noteq> ReadSt \<Longrightarrow> P (build_fldz_fld1 op c)) \<Longrightarrow> P (build_step ab v2 ins c)"
  "opcode ins \<in> const_ops \<Longrightarrow> (\<And>w. P (build_fldconst w c)) \<Longrightarrow> P (build_step ab v2 ins c)"
  "opcode ins \<in> fst_ops \<Longrightarrow> P (build_fst ins False c) \<Longrightarrow> P (build_step ab v2 ins c)"
  "opcode ins \<in> fstp_ops \<Longrightarrow> P (build_fst ins True c) \<Longrightarrow> P (build_step ab v2 ins c)"
  "opcode ins \<in> fistp_ops \<Longrightarrow> (\<And>tr. P (build_fist ins tr True c)) \<Longrightarrow> P (build_step ab v2 ins c)"
  "opcode ins \<in> cw_ops \<Longrightarrow> (\<And>op. op \<noteq> ReadSt \<Longrightarrow> P (build_cw op ins c)) \<Longrightarrow> P (build_step ab v2 ins c)"
  by (elim insertE emptyE; simp add: build_step_def)+

lemma step_single:
  fixes P :: "ctx act \<Rightarrow> bool"
  shows
  "opcode ins = kOpcodeName_fld \<Longrightarrow> P (build_fld ins c) \<Longrightarrow> P (build_step ab v2 ins c)"
  "opcode ins = kOpcodeName_fild \<Longrightarrow> P (build_fild ins c) \<Longrightarrow> P (build_step ab v2 ins c)"
  "opcode ins = kOpcodeName_fist \<Longrightarrow> P (build_fist ins False False c) \<Longrightarrow> P (build_step ab v2 ins c)"
  "opcode ins = kOpcodeName_fsincos \<Longrightarrow> P (build_fsincos c) \<Longrightarrow> P (build_step ab v2 ins c)"
  "opcode ins = kOpcodeName_fptan \<Longrightarrow> P (build_fptan c) \<Longrightarrow> P (build_step ab v2 ins c)"
  "opcode ins = kOpcodeName_fscale \<Longrightarrow> P (build_fscale c) \<Longrightarrow> P (build_step ab v2 ins c)"
  "opcode ins = kOpcodeName_fxch \<Longrightarrow> P (build_fxch ins c) \<Longrightarrow> P (build_step ab v2 ins c)"
  "opcode ins = kOpcodeName_ficom \<Longrightarrow> P (build_ficom ins False c) \<Longrightarrow> P (build_step ab v2 ins c)"
  "opcode ins = kOpcodeName_ficomp \<Longrightarrow> P (build_ficom ins True c) \<Longrightarrow> P (build_step ab v2 ins c)"
  "opcode ins = kOpcodeName_ftst \<Longrightarrow> P (build_ftst c) \<Longrightarrow> P (build_step ab v2 ins c)"
  "opcode ins = kOpcodeName_fstsw \<Longrightarrow> P (build_fstsw ins c) \<Longrightarrow> P (build_step ab v2 ins c)"
  "opcode ins = kOpcodeName_fnop \<Longrightarrow> P (True, c) \<Longrightarrow> P (build_step ab v2 ins c)"
  by (simp_all add: build_step_def)

abbreviation single_ops :: "u16 set" where "single_ops \<equiv>
  {kOpcodeName_ficom, kOpcodeName_ficomp, kOpcodeName_ftst, kOpcodeName_fld, kOpcodeName_fild, kOpcodeName_fist, kOpcodeName_fsincos, kOpcodeName_fptan, kOpcodeName_fscale, kOpcodeName_fxch, kOpcodeName_fstsw, kOpcodeName_fnop}"

text \<open>
  How Rosetta fills in the operands: the two-register forms name both stack registers, the
  popping arithmetic names its destination, the compares have two operands.
\<close>

definition st_operands_ok :: "irinstr \<Rightarrow> bool" where
  "st_operands_ok ins \<longleftrightarrow>
     (opcode ins \<in> arith_ops \<union> {kOpcodeName_fld} \<longrightarrow> kind (opnd0 ins) = Register \<longrightarrow>
        2 \<le> num_operands ins \<and> kind (opnd1 ins) = Register) \<and>
     (opcode ins \<in> arithp_ops \<longrightarrow> 1 \<le> num_operands ins \<and> kind (opnd0 ins) = Register) \<and>
     (opcode ins \<in> fcom_ops \<union> fcomp_ops \<longrightarrow> 2 \<le> num_operands ins) \<and>
     (opcode ins \<in> fcomi_ops \<union> fcomip_ops \<union> fcmov_ops \<union> {kOpcodeName_fxch} \<longrightarrow>
        2 \<le> num_operands ins \<and> kind (opnd1 ins) = Register)"

lemma st_operands_okD:
  assumes "st_operands_ok ins"
  shows "opcode ins \<in> arith_ops \<union> {kOpcodeName_fld} \<Longrightarrow> kind (opnd0 ins) = Register \<Longrightarrow>
      2 \<le> num_operands ins \<and> kind (opnd1 ins) = Register"
    "opcode ins \<in> arithp_ops \<Longrightarrow> 1 \<le> num_operands ins \<and> kind (opnd0 ins) = Register"
    "opcode ins \<in> fcom_ops \<union> fcomp_ops \<Longrightarrow> 2 \<le> num_operands ins"
    "opcode ins \<in> fcomi_ops \<union> fcomip_ops \<union> fcmov_ops \<union> {kOpcodeName_fxch} \<Longrightarrow>
        2 \<le> num_operands ins \<and> kind (opnd1 ins) = Register"
  using assms unfolding st_operands_ok_def by blast+

lemma step_other:
  assumes "opcode ins \<notin> single_ops" "opcode ins \<notin> arith_ops" "opcode ins \<notin> arithp_ops" "opcode ins \<notin> fiarith_ops"
    "opcode ins \<notin> unary_ops" "opcode ins \<notin> st1_pop_ops" "opcode ins \<notin> fcom_ops" "opcode ins \<notin> fcomp_ops"
    "opcode ins \<notin> fcompp_ops" "opcode ins \<notin> fcomi_ops" "opcode ins \<notin> fcomip_ops" "opcode ins \<notin> fcmov_ops"
    "opcode ins \<notin> push_ops" "opcode ins \<notin> const_ops" "opcode ins \<notin> fst_ops" "opcode ins \<notin> fstp_ops"
    "opcode ins \<notin> fistp_ops" "opcode ins \<notin> cw_ops"
  shows "build_step ab v2 ins c =
    (if ab \<and> (if v2 then is_bridge_v2_proven ins else is_bridge_v1 ins) then build_bridge ins c
     else (False, set_fail_opcode (opcode ins) c))"
  using assms unfolding build_step_def Let_def by (simp split del: if_split)

lemma bridge_no_effect:
  assumes "if v2 then is_bridge_v2_proven ins else is_bridge_v1 ins"
  shows "slot_effect ins = no_effect"
proof -
  have "is_bridge_v2 ins"
    using assms is_bridge_v2_proven_imp_v2 is_bridge_v1_imp_proven by (auto split: if_splits)
  from is_bridge_v2_opcode [OF this] show ?thesis
    by (elim insertE emptyE) (simp_all add: slot_effect_def)
qed

section \<open>Movements of TOP\<close>

definition moves :: "int \<Rightarrow> ctx \<Rightarrow> ctx act \<Rightarrow> bool" where
  "moves k c res \<longleftrightarrow> (fst res \<longrightarrow> top_delta (snd res) = top_delta c + k)"

lemma top_resolve: "resolve d c = (i, c') \<Longrightarrow> top_delta c' = top_delta c"
  by (auto simp: resolve_def Let_def add_node_def set_slot_def set_payload_def split: if_splits prod.splits)

lemma top_add_node: "add_node op a b d c = (i, c') \<Longrightarrow> top_delta c' = top_delta c"
  by (auto simp: add_node_def split: if_splits)

lemma top_prims:
  "top_delta (set_payload i p c) = top_delta c" "top_delta (set_flag i f c) = top_delta c"
  "top_delta (set_slot d v c) = top_delta c" "top_delta (set_last_fcmp i c) = top_delta c"
  "top_delta (set_last_fcomi i c) = top_delta c" "top_delta (set_inputs i a b e c) = top_delta c"
  "top_delta (push v c) = top_delta c - 1" "top_delta (pop c) = top_delta c + 1"
  "top_delta ((pop ^^ k) c) = top_delta c + int k"
  by (induction k) (simp_all add: set_payload_def set_flag_def set_slot_def set_last_fcmp_def set_last_fcomi_def
      set_inputs_def push_def pop_def)

lemma top_load:
  "build_fp_load p c = (i, c') \<Longrightarrow> top_delta c' = top_delta c"
  "build_int_load p c = (i, c') \<Longrightarrow> top_delta c' = top_delta c"
  "build_const w c = (i, c') \<Longrightarrow> top_delta c' = top_delta c"
  by (auto simp: build_fp_load_def build_int_load_def build_const_def Let_def top_prims
      split: osize.splits if_splits prod.splits dest: top_add_node)

lemma top_store:
  "build_fp_store p v c = (ok, c') \<Longrightarrow> top_delta c' = top_delta c"
  "build_int_store p v tr c = (ok, c') \<Longrightarrow> top_delta c' = top_delta c"
  by (auto simp: build_fp_store_def build_int_store_def Let_def top_prims
      split: osize.splits if_splits prod.splits dest: top_add_node)

lemmas top_dests = top_resolve top_add_node top_load top_store

lemma moves_arms:
  "moves 0 c (build_arith ins op rv c)" "moves 1 c (build_arithp ins op rv c)"
  "moves 0 c (build_fiarith ins op rv c)" "moves 0 c (build_unary op c)"
  "moves 1 c (build_st1_pop op c)" "moves 0 c (build_fscale c)"
  "moves (-1) c (build_fsincos c)" "moves (-1) c (build_fptan c)"
  "moves (int k) c (build_fcom ins k pp c)" "moves (of_bool p) c (build_ficom ins p c)"
  "moves (of_bool p) c (build_fcomi ins p c)" "moves 0 c (build_fcmov ins cond c)"
  "moves 0 c (build_ftst c)" "moves 0 c (build_fstsw ins c)" "moves 0 c (build_cw op ins c)"
  "moves (-1) c (build_fldz_fld1 op c)" "moves (-1) c (build_fldconst w c)"
  "moves (-1) c (build_fld ins c)" "moves (-1) c (build_fild ins c)"
  "moves (of_bool p) c (build_fst ins p c)" "moves (of_bool p) c (build_fist ins tr p c)"
  unfolding moves_def build_arith_def build_arithp_def build_fiarith_def build_unary_def build_st1_pop_def
    build_fscale_def build_fsincos_def build_fptan_def build_fcom_def build_ficom_def build_fcomi_def
    build_fcmov_def build_ftst_def build_fstsw_def build_cw_def build_fldz_fld1_def build_fldconst_def
    build_fld_def build_fild_def build_fst_def build_fist_def add_or_fail_def Let_def
  by (auto simp: top_prims dest!: top_dests split: prod.splits if_splits)

lemma moves_fxch: "moves 0 c (build_fxch ins c)"
proof -
  have "top_delta (snd (resolve d c)) = top_delta c" for d c
    by (cases "resolve d c") (simp add: top_resolve)
  then show ?thesis by (simp add: moves_def build_fxch_def Let_def top_prims)
qed

lemma moves_nop: "moves 0 c (True, c)"
  by (simp add: moves_def)

lemma moves_bridge: "moves 0 c (build_bridge ins c)"
proof -
  have "moves 0 c (bridge_node op a b k fl pay c)" for op a b k fl pay
    by (auto simp: moves_def bridge_node_def add_or_fail_def Let_def top_prims dest!: top_dests
        split: prod.splits if_splits option.splits)
  then show ?thesis
    by (simp add: build_bridge_def build_bridge_mov_def build_bridge_alu_def Let_def)
      (simp add: moves_def)
qed

text \<open>The table's pushes and pops, group by group.\<close>

lemma effect_moves:
  "opcode ins \<in> arith_ops \<union> fiarith_ops \<union> unary_ops \<union> fcom_ops \<union> fcomi_ops \<union> fcmov_ops \<union> fst_ops \<union> cw_ops \<union>
     {kOpcodeName_ficom, kOpcodeName_ftst, kOpcodeName_fist, kOpcodeName_fscale, kOpcodeName_fxch, kOpcodeName_fstsw,
      kOpcodeName_fnop} \<Longrightarrow>
   int (e_pops (slot_effect ins)) - int (e_pushes (slot_effect ins)) = 0"
  "opcode ins \<in> arithp_ops \<union> st1_pop_ops \<union> fcomp_ops \<union> fcomip_ops \<union> fstp_ops \<union> fistp_ops \<union> {kOpcodeName_ficomp} \<Longrightarrow>
   int (e_pops (slot_effect ins)) - int (e_pushes (slot_effect ins)) = 1"
  "opcode ins \<in> fcompp_ops \<Longrightarrow> int (e_pops (slot_effect ins)) - int (e_pushes (slot_effect ins)) = 2"
  "opcode ins \<in> push_ops \<union> const_ops \<union> {kOpcodeName_fld, kOpcodeName_fild, kOpcodeName_fsincos, kOpcodeName_fptan} \<Longrightarrow>
   int (e_pops (slot_effect ins)) - int (e_pushes (slot_effect ins)) = -1"
  by (elim UnE insertE emptyE; simp add: slot_effect_def no_effect_def fst_effect_def fld_effect_def fxch_effect_def Let_def)+

lemmas moves_flag_arms =
  moves_arms(9) [where k = 0, simplified] moves_arms(9) [where k = 1, simplified] moves_arms(9) [where k = 2, simplified]
  moves_arms(10) [where p = True, simplified] moves_arms(10) [where p = False, simplified]
  moves_arms(11) [where p = True, simplified] moves_arms(11) [where p = False, simplified]
  moves_arms(20) [where p = True, simplified] moves_arms(20) [where p = False, simplified]
  moves_arms(21) [where p = True, simplified] moves_arms(21) [where p = False, simplified]

lemmas moves_all = moves_arms(1-8) moves_arms(12-19) moves_flag_arms moves_fxch moves_bridge moves_nop

lemmas step_rules = step_arm [where P = "moves k c" and c = c] step_single [where P = "moves k c" and c = c] for k c

lemma moves_step:
  "moves (int (e_pops (slot_effect ins)) - int (e_pushes (slot_effect ins))) c (build_step ab v2 ins c)"
proof -
  consider (none) "opcode ins \<in> arith_ops \<union> fiarith_ops \<union> unary_ops \<union> fcom_ops \<union> fcomi_ops \<union> fcmov_ops \<union> fst_ops \<union> cw_ops \<union>
     {kOpcodeName_ficom, kOpcodeName_ftst, kOpcodeName_fist, kOpcodeName_fscale, kOpcodeName_fxch, kOpcodeName_fstsw,
      kOpcodeName_fnop}"
    | (pop) "opcode ins \<in> arithp_ops \<union> st1_pop_ops \<union> fcomp_ops \<union> fcomip_ops \<union> fstp_ops \<union> fistp_ops \<union> {kOpcodeName_ficomp}"
    | (pop2) "opcode ins \<in> fcompp_ops"
    | (push) "opcode ins \<in> push_ops \<union> const_ops \<union> {kOpcodeName_fld, kOpcodeName_fild, kOpcodeName_fsincos, kOpcodeName_fptan}"
    | (other) "opcode ins \<notin> single_ops" "opcode ins \<notin> arith_ops" "opcode ins \<notin> arithp_ops" "opcode ins \<notin> fiarith_ops"
    "opcode ins \<notin> unary_ops" "opcode ins \<notin> st1_pop_ops" "opcode ins \<notin> fcom_ops" "opcode ins \<notin> fcomp_ops"
    "opcode ins \<notin> fcompp_ops" "opcode ins \<notin> fcomi_ops" "opcode ins \<notin> fcomip_ops" "opcode ins \<notin> fcmov_ops"
    "opcode ins \<notin> push_ops" "opcode ins \<notin> const_ops" "opcode ins \<notin> fst_ops" "opcode ins \<notin> fstp_ops"
    "opcode ins \<notin> fistp_ops" "opcode ins \<notin> cw_ops"
    by auto
  then show ?thesis
  proof cases
    case none
    show ?thesis unfolding effect_moves(1) [OF none]
      by (insert none, elim UnE; (erule step_rules | (elim insertE emptyE; erule step_rules)); simp add: moves_all)
  next
    case pop
    show ?thesis unfolding effect_moves(2) [OF pop]
      by (insert pop, elim UnE; (erule step_rules | (elim insertE emptyE; erule step_rules)); simp add: moves_all)
  next
    case pop2
    show ?thesis unfolding effect_moves(3) [OF pop2]
      by (rule step_arm(8) [OF pop2]) (simp add: moves_all)
  next
    case push
    show ?thesis unfolding effect_moves(4) [OF push]
      by (insert push, elim UnE; (erule step_rules | (elim insertE emptyE; erule step_rules)); simp add: moves_all)
  next
    case other
    from step_other [OF this] show ?thesis
      using bridge_no_effect [of v2 ins] moves_bridge [of c ins] by (auto simp: moves_def no_effect_def)
  qed
qed


text \<open>C13: the table moves TOP as the builder does: an instruction the builder accepts changes the
  stack depth by exactly the table's pops minus its pushes.\<close>

theorem slot_effect_moves_top:
  assumes "build_step ab v2 ins c = (True, c')"
  shows "top_delta c' = top_delta c + int (e_pops (slot_effect ins)) - int (e_pushes (slot_effect ins))"
  using moves_step [of ins c ab v2] assms by (simp add: moves_def)

lemma slot_effect_moves_top_witness:
  "top_delta (snd (build_step False False (insn kOpcodeName_fptan []) ctx_init)) = -1"
proof -
  have "opcode (insn kOpcodeName_fptan []) = kOpcodeName_fptan" by (simp add: insn_def)
  then have "e_pops (slot_effect (insn kOpcodeName_fptan [])) = 0" "e_pushes (slot_effect (insn kOpcodeName_fptan [])) = 1"
    by (simp_all add: slot_effect_def no_effect_def)
  moreover have "fst (build_step False False (insn kOpcodeName_fptan []) ctx_init)" "top_delta ctx_init = 0"
    by code_simp+
  ultimately show ?thesis
    using slot_effect_moves_top [of False False "insn kOpcodeName_fptan []" ctx_init
        "snd (build_step False False (insn kOpcodeName_fptan []) ctx_init)"]
    by (simp add: prod_eq_iff)
qed

section \<open>Reads, step by step\<close>

lemma mask_groups:
  "opcode ins \<in> arith_ops \<union> arithp_ops \<union> fcom_ops \<union> fcomp_ops \<union> fcomi_ops \<union> fcomip_ops \<union> fcmov_ops \<Longrightarrow>
   opcode ins \<in> mask_ops"
  by (erule rev_subsetD) simp

lemma covers_operand:
  assumes "opcode ins \<in> arith_ops \<union> arithp_ops \<union> fcom_ops \<union> fcomp_ops \<union> fcomi_ops \<union> fcomip_ops \<union> fcmov_ops"
  shows "0 < num_operands ins \<Longrightarrow> kind (opnd0 ins) = Register \<Longrightarrow> covers (effect_reads ins) (opnd0 ins)"
    "1 < num_operands ins \<Longrightarrow> kind (opnd1 ins) = Register \<Longrightarrow> covers (effect_reads ins) (opnd1 ins)"
  using effect_mask(2) [OF mask_groups [OF assms], of 0] effect_mask(2) [OF mask_groups [OF assms], of 1] by simp_all

lemma operands_ok_covers:
  assumes "st_operands_ok ins"
  shows "opcode ins \<in> arith_ops \<Longrightarrow> kind (opnd0 ins) = Register \<Longrightarrow>
      covers (effect_reads ins) (opnd0 ins) \<and> covers (effect_reads ins) (opnd1 ins)"
    "opcode ins \<in> arithp_ops \<Longrightarrow> covers (effect_reads ins) (opnd0 ins)"
    "opcode ins \<in> fcom_ops \<union> fcomp_ops \<Longrightarrow> kind (opnd1 ins) = Register \<Longrightarrow> covers (effect_reads ins) (opnd1 ins)"
    "opcode ins \<in> fcomi_ops \<union> fcomip_ops \<union> fcmov_ops \<Longrightarrow> covers (effect_reads ins) (opnd1 ins)"
    "opcode ins = kOpcodeName_fld \<Longrightarrow> kind (opnd0 ins) = Register \<Longrightarrow> covers (effect_reads ins) (opnd1 ins)"
proof -
  note ok = st_operands_okD [OF assms]
  show "covers (effect_reads ins) (opnd0 ins) \<and> covers (effect_reads ins) (opnd1 ins)"
    if op: "opcode ins \<in> arith_ops" "kind (opnd0 ins) = Register"
    using ok(1) [OF UnI1 [OF op(1)] op(2)] op(2) by (intro conjI covers_operand) (use op(1) in blast | simp)+
  show "covers (effect_reads ins) (opnd0 ins)" if op: "opcode ins \<in> arithp_ops"
    using ok(2) [OF op] by (intro covers_operand) (use op in blast | simp)+
  show "covers (effect_reads ins) (opnd1 ins)" if op: "opcode ins \<in> fcom_ops \<union> fcomp_ops" "kind (opnd1 ins) = Register"
    using ok(3) [OF op(1)] op(2) by (intro covers_operand) (use op(1) in blast | simp)+
  show "covers (effect_reads ins) (opnd1 ins)" if op: "opcode ins \<in> fcomi_ops \<union> fcomip_ops \<union> fcmov_ops"
    using ok(4) [OF UnI1 [OF op]] by (intro covers_operand) (use op in blast | simp)+
  show "covers (effect_reads ins) (opnd1 ins)" if op: "opcode ins = kOpcodeName_fld" "kind (opnd0 ins) = Register"
    by (rule effect_fld) (use op ok(1) in simp_all)
qed

lemma effect_reads_st0:
  "opcode ins \<in> arith_ops \<union> arithp_ops \<union> fcom_ops \<union> fcomp_ops \<union> fcomi_ops \<union> fcomip_ops \<union> fcmov_ops \<Longrightarrow>
   0 \<in> effect_reads ins"
  "opcode ins \<in> fiarith_ops \<Longrightarrow> 0 \<in> effect_reads ins"
  "opcode ins \<in> unary_ops \<Longrightarrow> 0 \<in> effect_reads ins"
  "opcode ins \<in> fistp_ops \<Longrightarrow> 0 \<in> effect_reads ins"
  "opcode ins \<in> {kOpcodeName_fist, kOpcodeName_fsincos, kOpcodeName_fptan, kOpcodeName_ficom, kOpcodeName_ficomp,
     kOpcodeName_ftst} \<Longrightarrow> 0 \<in> effect_reads ins"
  "opcode ins \<in> st1_pop_ops \<Longrightarrow> 0 \<in> effect_reads ins \<and> 1 \<in> effect_reads ins"
  "opcode ins \<in> fcompp_ops \<Longrightarrow> 0 \<in> effect_reads ins \<and> 1 \<in> effect_reads ins"
  "opcode ins = kOpcodeName_fscale \<Longrightarrow> 0 \<in> effect_reads ins \<and> 1 \<in> effect_reads ins"
  by (erule effect_mask(1) [OF mask_groups])
    (elim insertE emptyE; simp add: effect_reads_def slot_effect_def | simp add: effect_reads_def slot_effect_def)+

lemma fst_success:
  "fst (build_fst ins p c) \<Longrightarrow> kind (opnd0 ins) = Register \<or> opsize (opnd0 ins) \<noteq> S80"
  by (auto simp: build_fst_def build_fp_store_def split: prod.splits if_splits)

lemma fxch_success:
  "fst (build_fxch ins c) \<Longrightarrow> 0 < op_reg_index (opnd1 ins) \<and> op_reg_index (opnd1 ins) < 8"
  by (auto simp: build_fxch_def Let_def split: if_splits)

lemma has_read_fst_fxch:
  assumes "reading (effect_reads ins) c c" "st_operands_ok ins" "fst (build_step ab v2 ins c)"
  shows "opcode ins \<in> fst_ops \<Longrightarrow> has_read (effect_reads ins) c (snd (build_step ab v2 ins c))"
    "opcode ins \<in> fstp_ops \<Longrightarrow> has_read (effect_reads ins) c (snd (build_step ab v2 ins c))"
    "opcode ins = kOpcodeName_fxch \<Longrightarrow> has_read (effect_reads ins) c (snd (build_step ab v2 ins c))"
proof -
  have eq: "opcode ins \<in> fst_ops \<Longrightarrow> build_step ab v2 ins c = build_fst ins False c"
    "opcode ins \<in> fstp_ops \<Longrightarrow> build_step ab v2 ins c = build_fst ins True c"
    "opcode ins = kOpcodeName_fxch \<Longrightarrow> build_step ab v2 ins c = build_fxch ins c"
    by (erule step_arm step_single, rule refl)+
  show "has_read (effect_reads ins) c (snd (build_step ab v2 ins c))" if "opcode ins \<in> fst_ops"
    using assms(3) has_read_store_arms(1) [OF assms(1) effect_fst] that fst_success [of ins False c]
    by (auto simp: eq)
  show "has_read (effect_reads ins) c (snd (build_step ab v2 ins c))" if "opcode ins \<in> fstp_ops"
    using assms(3) has_read_store_arms(1) [OF assms(1) effect_fst] that fst_success [of ins True c]
    by (auto simp: eq)
  show "has_read (effect_reads ins) c (snd (build_step ab v2 ins c))" if op: "opcode ins = kOpcodeName_fxch"
  proof -
    have "2 \<le> num_operands ins" "kind (opnd1 ins) = Register"
      using st_operands_okD(4) [OF assms(2)] op by simp_all
    moreover have "0 < op_reg_index (opnd1 ins)" "op_reg_index (opnd1 ins) < 8"
      using fxch_success [of ins c] assms(3) op by (simp_all add: eq)
    ultimately show ?thesis
      unfolding eq(3) [OF op] using op by (intro has_read_fxch assms(1) effect_fxch)
  qed
qed


lemma has_read_single:
  assumes start: "reading (effect_reads ins) c c" and wf: "st_operands_ok ins" and acc: "fst (build_step ab v2 ins c)"
    and op: "opcode ins \<in> single_ops"
  shows "has_read (effect_reads ins) c (snd (build_step ab v2 ins c))"
proof -
  note others = has_read_others [OF start] and st0 = effect_reads_st0 [of ins]
  consider "opcode ins \<in> {kOpcodeName_fist, kOpcodeName_fsincos, kOpcodeName_fptan, kOpcodeName_ficom, kOpcodeName_ficomp,
     kOpcodeName_ftst}" | "opcode ins = kOpcodeName_fscale" | "opcode ins = kOpcodeName_fxch" | "opcode ins = kOpcodeName_fld"
    | "opcode ins = kOpcodeName_fild" | "opcode ins = kOpcodeName_fstsw" | "opcode ins = kOpcodeName_fnop"
    using op by auto
  then show ?thesis
  proof cases
    case 1
    show ?thesis
      by (insert 1, elim insertE emptyE; erule step_single)
        (rule has_read_store_arms has_read_two_nodes has_read_compare, rule start, rule st0(5) [OF 1])+
  next
    case 2
    show ?thesis by (rule step_single(6) [OF 2]) (use st0(8) [OF 2] in \<open>simp add: has_read_arith(6) [OF start, where op = FAdd]\<close>)
  next
    case 3
    show ?thesis by (rule has_read_fst_fxch(3) [OF start wf acc 3])
  next
    case 4
    show ?thesis by (rule step_single(1) [OF 4]) (intro others(6) impI operands_ok_covers(5) [OF wf 4])
  next
    case 5
    show ?thesis by (rule step_single(2) [OF 5]) (rule others(5))
  next
    case 6
    show ?thesis by (rule step_single(11) [OF 6]) (rule others(1))
  next
    case 7
    show ?thesis by (rule step_single(12) [OF 7]) (use start in \<open>simp add: reading_has_read\<close>)
  qed
qed

lemma has_read_step:
  assumes "length (slot_val c) = 8" "length (initial_read c) = 8" "st_operands_ok ins"
    and acc: "fst (build_step ab v2 ins c)"
  shows "has_read (effect_reads ins) c (snd (build_step ab v2 ins c))"
proof -
  note start = reading_refl [OF assms(1,2), of "effect_reads ins"]
  note ok = operands_ok_covers [OF assms(3)] and st0 = effect_reads_st0 [of ins]
  note others = has_read_others [OF start] and stack = has_read_fst_fxch [OF start assms(3) acc]
  consider "opcode ins \<in> arith_ops" | "opcode ins \<in> arithp_ops" | "opcode ins \<in> fiarith_ops"
    | "opcode ins \<in> unary_ops" | "opcode ins \<in> st1_pop_ops" | "opcode ins \<in> fcom_ops" | "opcode ins \<in> fcomp_ops"
    | "opcode ins \<in> fcompp_ops" | "opcode ins \<in> fcomi_ops" | "opcode ins \<in> fcomip_ops" | "opcode ins \<in> fcmov_ops"
    | "opcode ins \<in> push_ops" | "opcode ins \<in> const_ops" | "opcode ins \<in> fst_ops" | "opcode ins \<in> fstp_ops"
    | "opcode ins \<in> fistp_ops" | "opcode ins \<in> cw_ops" | "opcode ins \<in> single_ops"
    | (other) "opcode ins \<notin> single_ops" "opcode ins \<notin> arith_ops" "opcode ins \<notin> arithp_ops" "opcode ins \<notin> fiarith_ops"
    "opcode ins \<notin> unary_ops" "opcode ins \<notin> st1_pop_ops" "opcode ins \<notin> fcom_ops" "opcode ins \<notin> fcomp_ops"
    "opcode ins \<notin> fcompp_ops" "opcode ins \<notin> fcomi_ops" "opcode ins \<notin> fcomip_ops" "opcode ins \<notin> fcmov_ops"
    "opcode ins \<notin> push_ops" "opcode ins \<notin> const_ops" "opcode ins \<notin> fst_ops" "opcode ins \<notin> fstp_ops"
    "opcode ins \<notin> fistp_ops" "opcode ins \<notin> cw_ops"
    by argo
  then show ?thesis
  proof cases
    case 1
    show ?thesis
      by (rule step_arm(1) [OF 1]) (intro has_read_arith(1) [OF start] impI ok(1) [OF 1] st0(1); use 1 in blast)
  next
    case 2
    show ?thesis
      by (rule step_arm(2) [OF 2]) (intro has_read_arith(2) [OF start] ok(2) [OF 2] st0(1); use 2 in blast)
  next
    case 3
    show ?thesis by (rule step_arm(3) [OF 3]) (rule has_read_arith(3) [OF start st0(2) [OF 3]])
  next
    case 4
    show ?thesis by (rule step_arm(4) [OF 4]) (rule has_read_arith(4) [OF start st0(3) [OF 4]])
  next
    case 5
    show ?thesis by (rule step_arm(5) [OF 5]) (use st0(6) [OF 5] in \<open>simp add: has_read_arith(5) [OF start]\<close>)
  next
    case 6
    show ?thesis
      by (rule step_arm(6) [OF 6]) (intro has_read_compare(1) [OF start] impI ok(3) st0(1); use 6 in blast)
  next
    case 7
    show ?thesis
      by (rule step_arm(7) [OF 7]) (intro has_read_compare(1) [OF start] impI ok(3) st0(1); use 7 in blast)
  next
    case 8
    show ?thesis by (rule step_arm(8) [OF 8]) (use st0(7) [OF 8] in \<open>simp add: has_read_compare(1) [OF start]\<close>)
  next
    case 9
    show ?thesis by (rule step_arm(9) [OF 9]) (intro has_read_compare(3) [OF start] ok(4) st0(1); use 9 in blast)
  next
    case 10
    show ?thesis by (rule step_arm(10) [OF 10]) (intro has_read_compare(3) [OF start] ok(4) st0(1); use 10 in blast)
  next
    case 11
    show ?thesis by (rule step_arm(11) [OF 11]) (intro has_read_compare(4) [OF start] ok(4) st0(1); use 11 in blast)
  next
    case 12
    show ?thesis by (rule step_arm(12) [OF 12]) (rule others(3))
  next
    case 13
    show ?thesis by (rule step_arm(13) [OF 13]) (rule others(4))
  next
    case 14
    show ?thesis by (rule stack(1) [OF 14])
  next
    case 15
    show ?thesis by (rule stack(2) [OF 15])
  next
    case 16
    show ?thesis by (rule step_arm(16) [OF 16]) (rule has_read_store_arms(2) [OF start st0(4) [OF 16]])
  next
    case 17
    show ?thesis by (rule step_arm(17) [OF 17]) (rule others(2))
  next
    case 18
    show ?thesis by (rule has_read_single [OF start assms(3) acc 18])
  next
    case other
    from step_other [OF this] show ?thesis
      using has_read_bridge [OF start] acc by (simp split: if_splits)
  qed
qed

text \<open>C14: the table covers the builder's reads: every stack register that an accepted instruction
  makes the builder read is one the table lists, so a slot that X87_NATIVE_SLOTS left in the
  80-bit format is converted before it is read as binary64.\<close>

theorem slot_effect_covers_reads:
  assumes "build_step ab v2 ins c = (True, c')" "st_operands_ok ins"
    and "length (slot_val c) = 8" "length (initial_read c) = 8"
    and "length (nodes c) \<le> i" "i < length (nodes c')" "nop (nodes c' ! i) = ReadSt"
  shows "\<exists>d < 8. bit (e_reads (slot_effect ins)) d \<and> npay (nodes c' ! i) = PDepth (- (slot_val c ! d + 1))"
proof -
  have "has_read (effect_reads ins) c c'"
    using has_read_step [OF assms(3,4,2), of ab v2] assms(1) by simp
  then obtain d where "d \<in> effect_reads ins" "0 \<le> d" "d < 8" "npay (nodes c' ! i) = PDepth (- (slot_val c ! nat d + 1))"
    using assms(5-7) by (auto simp: has_read_def)
  then show ?thesis
    by (intro exI [of _ "nat d"]) (simp add: effect_reads_def)
qed

lemma slot_effect_covers_reads_witness:
  "\<exists>d < 8. bit (e_reads (slot_effect (insn kOpcodeName_fadd [st_opnd 0, st_opnd 3]))) d \<and>
     npay (nodes (snd (build_step False False (insn kOpcodeName_fadd [st_opnd 0, st_opnd 3]) ctx_init)) ! 1) =
       PDepth (- (slot_val ctx_init ! d + 1))"
proof (rule slot_effect_covers_reads [where ab = False and ?v2.0 = False])
  let ?i = "insn kOpcodeName_fadd [st_opnd 0, st_opnd 3]"
  have "fst (build_step False False ?i ctx_init)" by code_simp
  then show "build_step False False ?i ctx_init = (True, snd (build_step False False ?i ctx_init))"
    by (simp add: prod_eq_iff)
  show "st_operands_ok ?i"
    by (simp add: st_operands_ok_def insn_def st_opnd_def)
  show "length (slot_val ctx_init) = 8" "length (initial_read ctx_init) = 8" "length (nodes ctx_init) \<le> 1"
    by (simp_all add: ctx_init_def)
  show "1 < length (nodes (snd (build_step False False ?i ctx_init)))"
    "nop (nodes (snd (build_step False False ?i ctx_init)) ! 1) = ReadSt"
    by code_simp+
qed

end
