(* ===== verification/Slot_Plan.thy ===== *)
theory Slot_Plan
  imports X87_Cache
begin

text \<open>
  The native-slot planner of \<^verbatim>\<open>Translator.cpp\<close>: what the next instructions of a reply need
  done to the register slots before they are emitted, and how many instructions one reply may take
  when every memory access has to be the first of its reply.  The planner is a simulation of the
  slot table on a copy of the tracker.
\<close>

section \<open>The plan\<close>

record slot_plan =
  convert :: u8
  soft_f80 :: bool
  push_read_hard :: bool

definition plan_init :: slot_plan where
  "plan_init = \<lparr>convert = 0, soft_f80 = False, push_read_hard = False\<rparr>"

text \<open>The locals of \<open>plan_slots\<close>.  \<open>s_pushed\<close> is \<open>None\<close> for the source's \<open>-1\<close>.\<close>

record plan_state =
  s_plan :: slot_plan
  s_top :: nat
  s_perm :: "nat list"
  s_fmt :: "slot_fmt list"
  s_pushed :: "nat option"

definition sim_start :: "x87_cache \<Rightarrow> plan_state" where
  "sim_start c = \<lparr>s_plan = plan_init, s_top = top_rel c, s_perm = perm c, s_fmt = fmts c, s_pushed = None\<rparr>"

definition plan_read :: "nat \<Rightarrow> bool \<Rightarrow> bool \<Rightarrow> plan_state \<Rightarrow> plan_state" where
  "plan_read phys soft to_f64 s =
     (let r = (s_top s + phys) mod 8 in
      if s_fmt s ! r \<noteq> SlotNative then s
      else
        let p = s_plan s;
            p1 = (if s_pushed s = Some r \<and> (\<not> soft \<or> to_f64) then p\<lparr>push_read_hard := True\<rparr> else p)
        in if soft then s\<lparr>s_plan := p1\<lparr>soft_f80 := True\<rparr>\<rparr>
           else s\<lparr>s_plan := p1\<lparr>convert := convert p1 OR push_bit r 1\<rparr>, s_fmt := (s_fmt s)[r := SlotF64]\<rparr>)"

definition plan_write :: "nat \<Rightarrow> plan_state \<Rightarrow> plan_state" where
  "plan_write phys s = s\<lparr>s_fmt := (s_fmt s)[(s_top s + phys) mod 8 := SlotF64]\<rparr>"

definition flush_formats :: "nat \<Rightarrow> nat list \<Rightarrow> slot_fmt list \<Rightarrow> slot_fmt list" where
  "flush_formats t p f = fold (\<lambda>i m. m[(t + i) mod 8 := f ! ((t + p ! i) mod 8)]) [0..<8] f"

definition plan_flush :: "plan_state \<Rightarrow> plan_state" where
  "plan_flush s =
     s\<lparr>s_fmt := flush_formats (s_top s) (s_perm s) (s_fmt s),
       s_pushed := (case s_pushed s of None \<Rightarrow> None
         | Some q \<Rightarrow> (case List.find (\<lambda>i. (s_top s + s_perm s ! i) mod 8 = q) [0..<8] of
              Some i \<Rightarrow> Some ((s_top s + i) mod 8) | None \<Rightarrow> Some q)),
       s_perm := [0..<8]\<rparr>"

definition stores_f64 :: "irinstr \<Rightarrow> bool" where
  "stores_f64 ins \<longleftrightarrow>
     opcode ins \<in> {kOpcodeName_fst, kOpcodeName_fstp} \<and> num_operands ins > 0 \<and>
     kind (opnd0 ins) \<noteq> Register \<and> opsize (opnd0 ins) \<in> {S32, S64}"

definition plan_access :: "slot_eff \<Rightarrow> bool \<Rightarrow> nat \<Rightarrow> plan_state \<Rightarrow> plan_state" where
  "plan_access e to_f64 d s =
     (let s1 = (if bit (e_reads e) d then plan_read (s_perm s ! d) (bit (e_soft e) d) to_f64 s else s)
      in if bit (e_writes e) d then plan_write (s_perm s1 ! d) s1 else s1)"

definition plan_accesses :: "slot_eff \<Rightarrow> bool \<Rightarrow> plan_state \<Rightarrow> plan_state" where
  "plan_accesses e to_f64 s = fold (plan_access e to_f64) [0..<8] s"

definition plan_kind :: "slot_eff \<Rightarrow> plan_state \<Rightarrow> plan_state" where
  "plan_kind e s =
     (let a = nat (e_arg e) in
      case e_kind e of
        EffFxch \<Rightarrow> s\<lparr>s_perm := (s_perm s)[0 := s_perm s ! a, a := s_perm s ! 0]\<rparr>
      | EffFree \<Rightarrow> (let r = (s_top s + s_perm s ! a) mod 8 in
                    s\<lparr>s_fmt := (s_fmt s)[r := slot_killed (s_fmt s ! r)]\<rparr>)
      | EffTopInc \<Rightarrow> (let s1 = plan_flush s in s1\<lparr>s_top := (s_top s1 + 1) mod 8\<rparr>)
      | EffTopDec \<Rightarrow> (let s1 = plan_flush s in s1\<lparr>s_top := (s_top s1 + 7) mod 8\<rparr>)
      | EffSave \<Rightarrow> s\<lparr>s_perm := [0..<8], s_fmt := replicate 8 SlotDead, s_top := 0, s_pushed := None\<rparr>
      | EffRestore \<Rightarrow> s\<lparr>s_perm := [0..<8], s_fmt := replicate 8 SlotNative, s_top := 0, s_pushed := None\<rparr>
      | EffPlain \<Rightarrow> s)"

definition plan_pop :: "plan_state \<Rightarrow> plan_state" where
  "plan_pop s =
     s\<lparr>s_fmt := (s_fmt s)[s_top s := slot_killed (s_fmt s ! s_top s)],
       s_pushed := (if s_pushed s = Some (s_top s) then None else s_pushed s),
       s_top := (s_top s + 1) mod 8\<rparr>"

definition plan_push :: "bool \<Rightarrow> plan_state \<Rightarrow> plan_state" where
  "plan_push native s =
     (let t = (s_top s + 7) mod 8 in
      if native then s\<lparr>s_top := t, s_fmt := (s_fmt s)[t := SlotNative], s_pushed := Some t\<rparr>
      else s\<lparr>s_top := t, s_fmt := (s_fmt s)[t := SlotF64]\<rparr>)"

definition plan_insn :: "bool \<Rightarrow> irinstr \<Rightarrow> plan_state \<Rightarrow> plan_state" where
  "plan_insn native ins s =
     (let e = slot_effect ins;
          s1 = plan_kind e (plan_accesses e (stores_f64 ins) s);
          s2 = (if e_pushes e \<noteq> 0 \<or> e_pops e \<noteq> 0 then plan_flush s1 else s1)
      in (plan_push native ^^ e_pushes e) ((plan_pop ^^ e_pops e) s2))"

definition plan_sim :: "bool \<Rightarrow> irinstr list \<Rightarrow> plan_state \<Rightarrow> plan_state" where
  "plan_sim first_push_native instrs s =
     (case instrs of [] \<Rightarrow> s
      | ins # rest \<Rightarrow> fold (plan_insn False) rest (plan_insn first_push_native ins s))"

definition plan_slots ::
  "x87_cache \<Rightarrow> irinstr list \<Rightarrow> nat \<Rightarrow> nat \<Rightarrow> bool \<Rightarrow> bool \<Rightarrow> slot_plan" where
  "plan_slots c instrs idx count to_run_end first_push_native =
     (let s = plan_sim first_push_native (take count (drop idx instrs)) (sim_start c)
      in s_plan (if to_run_end then plan_flush s else s))"

text \<open>What \<open>emit_slot_conversions\<close> leaves in the tracker for the mask of a plan.\<close>

definition convert_slots :: "u8 \<Rightarrow> x87_cache \<Rightarrow> x87_cache" where
  "convert_slots m c =
     c\<lparr>fmts := fold (\<lambda>r f. if bit m r then f[r := SlotF64] else f) [0..<8] (fmts c)\<rparr>"

section \<open>The tracker\<close>

text \<open>
  The tracker of \<^verbatim>\<open>TranslatorX87Helpers.cpp\<close>, as the emitters drive it when it is on.  A read of
  an 80-bit slot as binary64 is the failure that declines the request.
\<close>

definition resolve_depth :: "x87_cache \<Rightarrow> nat \<Rightarrow> nat" where
  "resolve_depth c d = (if \<not> perm_dirty c then d else perm c ! d)"

definition tracked_slot :: "x87_cache \<Rightarrow> nat \<Rightarrow> nat" where
  "tracked_slot c d = (top_rel c + d) mod 8"

definition slot_is_native :: "x87_cache \<Rightarrow> nat \<Rightarrow> bool" where
  "slot_is_native c d \<longleftrightarrow> fmts c ! tracked_slot c d = SlotNative"

definition slot_note_read :: "x87_cache \<Rightarrow> nat \<Rightarrow> string option" where
  "slot_note_read c d = (if slot_is_native c d then Some ''native_slot_read'' else None)"

definition slot_set :: "slot_fmt \<Rightarrow> x87_cache \<Rightarrow> nat \<Rightarrow> x87_cache" where
  "slot_set f c d = c\<lparr>fmts := (fmts c)[tracked_slot c d := f]\<rparr>"

definition slot_note_write :: "x87_cache \<Rightarrow> nat \<Rightarrow> x87_cache" where
  "slot_note_write = slot_set SlotF64"

definition slot_note_native :: "x87_cache \<Rightarrow> nat \<Rightarrow> x87_cache" where
  "slot_note_native = slot_set SlotNative"

definition slot_note_free :: "x87_cache \<Rightarrow> nat \<Rightarrow> x87_cache" where
  "slot_note_free c d = slot_set (slot_killed (fmts c ! tracked_slot c d)) c d"

definition slot_note_push :: "nat \<Rightarrow> x87_cache \<Rightarrow> x87_cache" where
  "slot_note_push n c =
     ((\<lambda>c. let t = (top_rel c + 7) mod 8 in c\<lparr>top_rel := t, fmts := (fmts c)[t := SlotF64]\<rparr>) ^^ n) c"

definition slot_note_pop :: "nat \<Rightarrow> x87_cache \<Rightarrow> x87_cache" where
  "slot_note_pop n c =
     ((\<lambda>c. c\<lparr>fmts := (fmts c)[top_rel c := slot_killed (fmts c ! top_rel c)],
             top_rel := (top_rel c + 1) mod 8\<rparr>) ^^ n) c"

definition slot_note_rotate :: "int \<Rightarrow> x87_cache \<Rightarrow> x87_cache" where
  "slot_note_rotate delta c = c\<lparr>top_rel := nat ((int (top_rel c) + delta) mod 8)\<rparr>"

definition slot_note_swap :: "nat \<Rightarrow> nat \<Rightarrow> x87_cache \<Rightarrow> x87_cache" where
  "slot_note_swap a b c =
     c\<lparr>fmts := (fmts c)[tracked_slot c a := fmts c ! tracked_slot c b,
                        tracked_slot c b := fmts c ! tracked_slot c a]\<rparr>"

definition slot_holds_f80_at :: "x87_cache \<Rightarrow> nat \<Rightarrow> bool" where
  "slot_holds_f80_at c d \<longleftrightarrow> slot_holds_f80 (fmts c ! tracked_slot c d)"

definition perm_moves_f80 :: "x87_cache \<Rightarrow> nat list \<Rightarrow> bool" where
  "perm_moves_f80 c p \<longleftrightarrow> list_ex (\<lambda>i. p ! i \<noteq> i \<and> slot_holds_f80_at c i) [0..<8]"

definition slot_note_reanchor :: "slot_fmt \<Rightarrow> x87_cache \<Rightarrow> x87_cache" where
  "slot_note_reanchor f c = c\<lparr>top_rel := 0, fmts := replicate 8 f\<rparr>"

section \<open>Memory accesses of a reply\<close>

definition x87_access_bytes :: "irinstr \<Rightarrow> ioperand \<Rightarrow> nat" where
  "x87_access_bytes ins p =
     (if opcode ins \<in> {kOpcodeName_fbld, kOpcodeName_fbstp} then 10
      else if opcode ins \<in> {kOpcodeName_fsave, kOpcodeName_frstor} then 108
      else case opsize p of S16 \<Rightarrow> 2 | S32 \<Rightarrow> 4 | S64 \<Rightarrow> 8 | S80 \<Rightarrow> 10 | _ \<Rightarrow> 1)"

definition x87_writes_memory :: "u16 \<Rightarrow> bool" where
  "x87_writes_memory op \<longleftrightarrow>
     op \<in> {kOpcodeName_fst, kOpcodeName_fstp, kOpcodeName_fist, kOpcodeName_fistp, kOpcodeName_fisttp,
           kOpcodeName_fbstp, kOpcodeName_fnstcw, kOpcodeName_fstsw, kOpcodeName_fsave}"

definition x87_accesses_memory :: "irinstr \<Rightarrow> bool" where
  "x87_accesses_memory ins \<longleftrightarrow>
     list_ex (\<lambda>i. kind (opnd ins i) = MemRef \<or> kind (opnd ins i) = AbsMem) [0..<min 4 (num_operands ins)]"

fun precise_loop :: "irinstr list \<Rightarrow> nat \<Rightarrow> nat \<Rightarrow> nat" where
  "precise_loop [] limit k = k"
| "precise_loop (ins # rest) limit k =
     (if k < limit \<and> \<not> x87_accesses_memory ins then precise_loop rest limit (Suc k) else k)"

definition precise_window :: "irinstr list \<Rightarrow> nat \<Rightarrow> nat \<Rightarrow> nat" where
  "precise_window instrs idx limit = precise_loop (drop (Suc idx) instrs) limit 1"

end
