(* ===== verification/Slot_Plan_Props.thy ===== *)
theory Slot_Plan_Props
  imports Slot_Plan X87_Examples
begin

text \<open>
  Why the planner's up-front conversion suffices.  Two runs of the simulation are compared, one from
  the tracker and one from the tracker after the conversions: the second finds an 80-bit value only
  where the first does and nothing was converted.
\<close>

section \<open>Flushing the identity\<close>

lemma flush_identity:
  assumes "t < 8" "length f = 8"
  shows "flush_formats t [0..<8] f = f"
proof -
  have "fold (\<lambda>i m. m[(t + i) mod 8 := f ! ((t + [0..<8] ! i) mod 8)]) xs f = f"
    if "set xs \<subseteq> {..<8}" for xs
    using that assms by (induction xs) (simp_all add: list_update_id)
  then show ?thesis by (simp add: flush_formats_def atLeast0LessThan)
qed

lemma flush_formats_length [simp]: "length (flush_formats t p f) = length f"
proof -
  have "length (fold (\<lambda>i m. m[(t + i) mod 8 := f ! ((t + p ! i) mod 8)]) xs m) = length m" for xs m
    by (induction xs arbitrary: m) simp_all
  then show ?thesis by (simp add: flush_formats_def)
qed

section \<open>The conversion mask only grows\<close>

definition wanted :: "plan_state \<Rightarrow> nat set" where
  "wanted s = {r. bit (convert (s_plan s)) r}"

lemma wanted_same: "s_plan t = s_plan s \<Longrightarrow> wanted t = wanted s"
  by (simp add: wanted_def)

lemma wanted_read: "wanted s \<subseteq> wanted (plan_read phys soft to64 s)"
  by (auto simp: wanted_def plan_read_def Let_def bit_or_iff)

lemma wanted_write [simp]: "wanted (plan_write phys s) = wanted s"
  by (simp add: plan_write_def wanted_def)

lemma wanted_access: "wanted s \<subseteq> wanted (plan_access e to64 d s)"
  using wanted_read by (simp add: plan_access_def Let_def)

lemma plan_of_moves [simp]:
  "s_plan (plan_flush s) = s_plan s"
  "s_plan (plan_kind e s) = s_plan s"
  "s_plan (plan_pop s) = s_plan s"
  "s_plan (plan_push native s) = s_plan s"
  by (simp_all add: plan_flush_def plan_kind_def plan_pop_def plan_push_def Let_def split: effect_kind.split)

lemma plan_of_pops [simp]:
  "s_plan ((plan_pop ^^ n) s) = s_plan s" "s_plan ((plan_push native ^^ n) s) = s_plan s"
  by (induction n) simp_all

lemma plan_insn_plan: "s_plan (plan_insn native ins s) = s_plan (plan_accesses (slot_effect ins) (stores_f64 ins) s)"
  by (simp add: plan_insn_def Let_def)

lemma wanted_fold:
  assumes "\<And>x s. wanted s \<subseteq> wanted (f x s)"
  shows "wanted s \<subseteq> wanted (fold f xs s)"
  proof (induction xs arbitrary: s)
  case (Cons x xs)
  show ?case using assms [of s x] Cons.IH [of "f x s"] by simp
qed simp

lemma wanted_accesses: "wanted s \<subseteq> wanted (plan_accesses e to64 s)"
  unfolding plan_accesses_def by (rule wanted_fold) (rule wanted_access)

lemma wanted_insn: "wanted s \<subseteq> wanted (plan_insn native ins s)"
  using wanted_accesses by (simp add: plan_insn_plan wanted_def)

section \<open>Running the plan again after the conversions\<close>

definition converted :: "nat set \<Rightarrow> plan_state \<Rightarrow> plan_state \<Rightarrow> bool" where
  "converted C s t \<longleftrightarrow> s_top t = s_top s \<and> s_top s < 8 \<and> s_perm t = s_perm s \<and>
     length (s_fmt s) = 8 \<and> length (s_fmt t) = 8 \<and> convert (s_plan t) = 0 \<and>
     (\<forall>r < 8. s_fmt t ! r = SlotNative \<longrightarrow> s_fmt s ! r = SlotNative \<and> r \<notin> C)"

lemma converted_read:
  assumes "converted C s t" "wanted (plan_read phys soft to64 s) \<subseteq> C"
  shows "converted C (plan_read phys soft to64' s) (plan_read phys soft to64'' t)"
proof -
  let ?r = "(s_top s + phys) mod 8"
  have "\<not> soft \<Longrightarrow> s_fmt s ! ?r = SlotNative \<Longrightarrow> ?r \<in> C"
    using assms(2) by (auto simp: wanted_def plan_read_def Let_def bit_or_iff bit_exp_iff)
  then have "\<not> soft \<Longrightarrow> s_fmt t ! ?r \<noteq> SlotNative"
    using assms(1) by (auto simp: converted_def)
  then show ?thesis
    using assms(1) by (auto simp: converted_def plan_read_def Let_def nth_list_update_if)
qed

lemma converted_write: "converted C s t \<Longrightarrow> converted C (plan_write phys s) (plan_write phys t)"
  by (auto simp: converted_def plan_write_def nth_list_update_if)

lemma converted_access:
  assumes "converted C s t" "wanted (plan_access e to64 d s) \<subseteq> C"
  shows "converted C (plan_access e to64 d s) (plan_access e to64' d t)"
proof -
  have perm: "s_perm t = s_perm s" using assms(1) by (simp add: converted_def)
  have kept: "s_perm (plan_read p q b u) = s_perm u" for p q b u
    by (simp add: plan_read_def Let_def)
  show ?thesis
    using assms converted_read [OF assms(1)]
    by (auto simp: plan_access_def Let_def perm kept intro!: converted_write)
qed

lemma converted_accesses:
  assumes "converted C s t" "wanted (plan_accesses e to64 s) \<subseteq> C"
  shows "converted C (plan_accesses e to64 s) (plan_accesses e to64' t)"
proof -
  have "converted C s t \<Longrightarrow> wanted (fold (plan_access e to64) ds s) \<subseteq> C \<Longrightarrow>
      converted C (fold (plan_access e to64) ds s) (fold (plan_access e to64') ds t)" for ds s t
  proof (induction ds arbitrary: s t)
    case (Cons d ds)
    have "wanted (plan_access e to64 d s) \<subseteq> C"
      using Cons.prems(2) wanted_fold [of "plan_access e to64" "plan_access e to64 d s" ds] wanted_access by auto
    then show ?case using Cons converted_access by simp
  qed simp
  then show ?thesis using assms by (simp only: plan_accesses_def)
qed

section \<open>Windows without an exchange\<close>

lemma converted_pop: "converted C s t \<Longrightarrow> converted C (plan_pop s) (plan_pop t)"
  by (auto simp: converted_def plan_pop_def nth_list_update_if slot_killed_def slot_holds_f80_def)

lemma converted_push: "converted C s t \<Longrightarrow> converted C (plan_push False s) (plan_push False t)"
  by (auto simp: converted_def plan_push_def Let_def nth_list_update_if)

lemma converted_pow:
  assumes "\<And>s t. converted C s t \<Longrightarrow> converted C (f s) (f t)" "converted C s t"
  shows "converted C ((f ^^ n) s) ((f ^^ n) t)"
  using assms by (induction n) simp_all

text \<open>The states whose slots are where their depths say.\<close>

definition unpermuted :: "plan_state \<Rightarrow> bool" where
  "unpermuted s \<longleftrightarrow> s_perm s = [0..<8] \<and> s_top s < 8 \<and> length (s_fmt s) = 8"

lemma flush_unpermuted: "unpermuted s \<Longrightarrow> s_fmt (plan_flush s) = s_fmt s"
  by (simp add: unpermuted_def plan_flush_def flush_identity del: upt_rec_numeral)

lemma converted_flush:
  assumes "converted C s t" "unpermuted s"
  shows "converted C (plan_flush s) (plan_flush t)"
proof -
  have t: "unpermuted t" using assms by (simp add: converted_def unpermuted_def)
  show ?thesis
    using assms flush_unpermuted [OF assms(2)] flush_unpermuted [OF t]
    by (simp add: converted_def) (simp add: plan_flush_def)
qed

lemma unpermuted_flush: "unpermuted s \<Longrightarrow> unpermuted (plan_flush s)"
  by (simp add: unpermuted_def plan_flush_def)

lemma unpermuted_accesses: "unpermuted s \<Longrightarrow> unpermuted (plan_accesses e to64 s)"
proof -
  have "unpermuted s \<Longrightarrow> unpermuted (fold (plan_access e to64) ds s)" for ds s
    by (induction ds arbitrary: s)
      (simp_all add: unpermuted_def plan_access_def plan_read_def plan_write_def Let_def)
  then show "unpermuted s \<Longrightarrow> unpermuted (plan_accesses e to64 s)" by (simp only: plan_accesses_def)
qed

lemma unpermuted_pow:
  assumes "\<And>s. unpermuted s \<Longrightarrow> unpermuted (f s)" "unpermuted s"
  shows "unpermuted ((f ^^ n) s)"
  using assms by (induction n) simp_all

lemma unpermuted_moves: "unpermuted s \<Longrightarrow> unpermuted (plan_pop s)" "unpermuted s \<Longrightarrow> unpermuted (plan_push native s)"
  by (simp_all add: unpermuted_def plan_pop_def plan_push_def Let_def)

definition exchange_free :: "irinstr \<Rightarrow> bool" where
  "exchange_free ins \<longleftrightarrow> e_kind (slot_effect ins) \<noteq> EffFxch \<and> e_kind (slot_effect ins) \<noteq> EffRestore"

lemma kind_unpermuted:
  assumes "e_kind e \<noteq> EffFxch" "unpermuted s"
  shows "unpermuted (plan_kind e s)"
  using assms unpermuted_flush [OF assms(2)]
  by (cases "e_kind e") (simp_all add: plan_kind_def Let_def unpermuted_def)

lemma kind_converted:
  assumes "converted C s t" "unpermuted s" "e_kind e \<noteq> EffFxch" "e_kind e \<noteq> EffRestore"
  shows "converted C (plan_kind e s) (plan_kind e t)"
  using assms(1,3,4) converted_flush [OF assms(1,2)]
  by (cases "e_kind e")
    (auto simp: plan_kind_def Let_def converted_def nth_list_update_if slot_killed_def slot_holds_f80_def)

lemma insn_converted:
  assumes "converted C s t" "unpermuted s" "exchange_free ins" "wanted (plan_insn False ins s) \<subseteq> C"
  shows "converted C (plan_insn False ins s) (plan_insn False ins t) \<and> unpermuted (plan_insn False ins s)"
proof -
  let ?e = "slot_effect ins"
  let ?s1 = "plan_accesses ?e (stores_f64 ins) s" and ?t1 = "plan_accesses ?e (stores_f64 ins) t"
  have w: "wanted ?s1 \<subseteq> C" using assms(4) by (simp add: wanted_def plan_insn_plan)
  have 1: "converted C ?s1 ?t1" "unpermuted ?s1"
    using converted_accesses [OF assms(1) w] unpermuted_accesses [OF assms(2)] by auto
  have 2: "converted C (plan_kind ?e ?s1) (plan_kind ?e ?t1)" "unpermuted (plan_kind ?e ?s1)"
    using kind_converted [OF 1] kind_unpermuted [OF _ 1(2)] assms(3) by (auto simp: exchange_free_def)
  show ?thesis
    using 2 converted_flush [OF 2] unpermuted_flush [OF 2(2)]
    by (auto simp: plan_insn_def Let_def intro!: converted_pow converted_pop converted_push
        unpermuted_pow unpermuted_moves)
qed

lemma window_converted:
  assumes "converted C s t" "unpermuted s" "list_all exchange_free xs" "wanted (fold (plan_insn False) xs s) \<subseteq> C"
  shows "converted C (fold (plan_insn False) xs s) (fold (plan_insn False) xs t)"
  using assms
proof (induction xs arbitrary: s t)
  case (Cons x xs)
  have "wanted (plan_insn False x s) \<subseteq> C"
    using Cons.prems(4) wanted_fold [of "plan_insn False" "plan_insn False x s" xs] wanted_insn by auto
  then show ?case using Cons insn_converted [of C s t x] by simp
qed simp

section \<open>The plan and its own conversions\<close>

definition tracker_ok :: "x87_cache \<Rightarrow> bool" where
  "tracker_ok c \<longleftrightarrow> top_rel c < 8 \<and> length (fmts c) = 8"

lemma convert_slots_fmts:
  assumes "length (fmts c) = 8" "r < 8"
  shows "length (fmts (convert_slots m c)) = 8"
    "fmts (convert_slots m c) ! r = (if bit m r then SlotF64 else fmts c ! r)"
proof -
  have "length (fold (\<lambda>r f. if bit m r then f[r := SlotF64] else f) rs f) = length f \<and>
      (r < length f \<longrightarrow> fold (\<lambda>r f. if bit m r then f[r := SlotF64] else f) rs f ! r =
         (if r \<in> set rs \<and> bit m r then SlotF64 else f ! r))" for rs f
    by (induction rs arbitrary: f) (auto simp: nth_list_update_if)
  from this [of "[0..<8]" "fmts c"] show "length (fmts (convert_slots m c)) = 8"
    "fmts (convert_slots m c) ! r = (if bit m r then SlotF64 else fmts c ! r)"
    using assms by (simp_all add: convert_slots_def del: upt_rec_numeral)
qed

lemma convert_slots_fields [simp]: "top_rel (convert_slots m c) = top_rel c" "perm (convert_slots m c) = perm c"
  by (simp_all add: convert_slots_def)

lemma plan_slots_plan:
  "plan_slots c instrs idx n tre fp = s_plan (plan_sim fp (take n (drop idx instrs)) (sim_start c))"
  by (simp add: plan_slots_def Let_def)

lemma sim_start_converted:
  assumes "tracker_ok c"
  shows "converted {r. bit m r} (sim_start c) (sim_start (convert_slots m c))"
  using assms convert_slots_fmts [of c _ m]
  by (auto simp: converted_def sim_start_def plan_init_def tracker_ok_def split: if_splits)

lemma plan_sim_fold: "plan_sim False xs s = fold (plan_insn False) xs s"
  by (cases xs) (simp_all add: plan_sim_def)




text \<open>The instruction a reply starts with never reads an 80-bit slot as binary64 once the
  slots its plan names are converted, whatever exchange is pending and however far the plan
  looks.\<close>

theorem planned_instruction_is_converted:
  assumes "top_rel c < 8" "length (fmts c) = 8" "0 < n" "idx < length instrs"
  shows "convert (plan_slots (convert_slots (convert (plan_slots c instrs idx n run_end native)) c)
           instrs idx 1 run_end' native') = 0"
proof -
  let ?m = "convert (plan_slots c instrs idx n run_end native)"
  let ?C = "{r. bit ?m r}"
  obtain ins rest where d: "drop idx instrs = ins # rest"
    using assms(4) by (cases "drop idx instrs") auto
  let ?e = "slot_effect ins" and ?f = "stores_f64 ins"
  have w: "wanted (plan_accesses ?e ?f (sim_start c)) \<subseteq> ?C"
    using wanted_fold [of "plan_insn False" "plan_insn native ins (sim_start c)" "take (n - 1) rest"]
      wanted_insn assms(3)
    by (simp add: plan_slots_plan d take_Cons' plan_sim_def wanted_def plan_insn_plan)
  have "tracker_ok c" using assms(1,2) by (simp add: tracker_ok_def)
  then have "converted ?C (plan_accesses ?e ?f (sim_start c)) (plan_accesses ?e ?f (sim_start (convert_slots ?m c)))"
    using converted_accesses sim_start_converted w by blast
  then show ?thesis
    by (simp add: plan_slots_plan d plan_sim_def plan_insn_plan converted_def)
qed

lemma planned_instruction_is_converted_witness:
  "convert (plan_slots (convert_slots 4 (cache_init\<lparr>perm := [2, 1, 0, 3, 4, 5, 6, 7], perm_dirty := True\<rparr>))
     [insn kOpcodeName_fchs []] 0 1 False False) = 0"
proof -
  let ?c = "cache_init\<lparr>perm := [2, 1, 0, 3, 4, 5, 6, 7], perm_dirty := True\<rparr>"
  have "convert (plan_slots ?c [insn kOpcodeName_fchs []] 0 1 True False) = 4" by code_simp
  then show ?thesis
    using planned_instruction_is_converted [of ?c 1 0 "[insn kOpcodeName_fchs []]" True False False False]
    by (simp add: cache_init_def)
qed


section \<open>Memory accesses\<close>

lemma precise_loop_bounds:
  assumes "k \<le> limit"
  shows "k \<le> precise_loop xs limit k" "precise_loop xs limit k \<le> limit"
    "precise_loop xs limit k \<le> k + length xs"
    "\<forall>j < precise_loop xs limit k - k. \<not> x87_accesses_memory (xs ! j)"
    "precise_loop xs limit k < limit \<and> precise_loop xs limit k - k < length xs \<longrightarrow>
       x87_accesses_memory (xs ! (precise_loop xs limit k - k))"
proof -
  have "k \<le> limit \<Longrightarrow> k \<le> precise_loop xs limit k \<and> precise_loop xs limit k \<le> limit \<and>
      precise_loop xs limit k \<le> k + length xs \<and>
      (\<forall>j < precise_loop xs limit k - k. \<not> x87_accesses_memory (xs ! j)) \<and>
      (precise_loop xs limit k < limit \<and> precise_loop xs limit k - k < length xs \<longrightarrow>
       x87_accesses_memory (xs ! (precise_loop xs limit k - k)))" for xs limit k
  proof (induction xs limit k rule: precise_loop.induct)
    case (2 ins rest limit k)
    show ?case
    proof (cases "k < limit \<and> \<not> x87_accesses_memory ins")
      case True
      let ?r = "precise_loop rest limit (Suc k)"
      from True 2 have r: "Suc k \<le> ?r" "?r \<le> limit" "?r \<le> Suc k + length rest"
        "\<forall>j < ?r - Suc k. \<not> x87_accesses_memory (rest ! j)"
        "?r < limit \<and> ?r - Suc k < length rest \<longrightarrow> x87_accesses_memory (rest ! (?r - Suc k))"
        by simp_all
      then obtain q where q: "?r = Suc k + q" using nat_le_iff_add by blast
      show ?thesis using r True by (auto simp: q less_Suc_eq_0_disj)
    next
      case False
      then show ?thesis using 2(2) by auto
    qed
  qed simp
  from this [OF assms] show "k \<le> precise_loop xs limit k" "precise_loop xs limit k \<le> limit"
    "precise_loop xs limit k \<le> k + length xs"
    "\<forall>j < precise_loop xs limit k - k. \<not> x87_accesses_memory (xs ! j)"
    "precise_loop xs limit k < limit \<and> precise_loop xs limit k - k < length xs \<longrightarrow>
       x87_accesses_memory (xs ! (precise_loop xs limit k - k))" by auto
qed

text \<open>C20: a precise window takes at least one and at most the given number of instructions, none
  after the first accesses memory, and it ends early only before one that does.\<close>

theorem precise_window_accesses_once:
  assumes "1 \<le> limit" "idx < length instrs"
  shows "let w = precise_window instrs idx limit in
     1 \<le> w \<and> w \<le> limit \<and> idx + w \<le> length instrs \<and>
     (\<forall>k. 0 < k \<and> k < w \<longrightarrow> \<not> x87_accesses_memory (instrs ! (idx + k))) \<and>
     (w < limit \<and> idx + w < length instrs \<longrightarrow> x87_accesses_memory (instrs ! (idx + w)))"
proof -
  let ?w = "precise_window instrs idx limit"
  note b = precise_loop_bounds [OF assms(1), of "drop (Suc idx) instrs", folded precise_window_def]
  obtain q where q: "?w = Suc q" using b(1) by (cases ?w) auto
  have at: "j < length instrs - Suc idx \<Longrightarrow> drop (Suc idx) instrs ! j = instrs ! (idx + Suc j)" for j
    by (simp add: less_diff_conv)
  have "\<not> x87_accesses_memory (instrs ! (idx + k))" if "0 < k" "k < ?w" for k
    using that b(3,4) at [of "k - 1"] assms(2) by (cases k) (auto simp: q)
  moreover have "x87_accesses_memory (instrs ! (idx + ?w))" if "?w < limit" "idx + ?w < length instrs"
    using that b(5) at [of q] by (auto simp: q)
  ultimately show ?thesis using b assms(2) by (auto simp: Let_def q)
qed

lemma precise_window_accesses_once_witness:
  "let instrs = [insn kOpcodeName_fld [mem_opnd S64 0], insn kOpcodeName_fchs [], insn kOpcodeName_fstp [mem_opnd S64 0]]
   in precise_window instrs 0 6 = 2 \<and> x87_accesses_memory (instrs ! (0 + 2))"
proof -
  let ?i = "[insn kOpcodeName_fld [mem_opnd S64 0], insn kOpcodeName_fchs [], insn kOpcodeName_fstp [mem_opnd S64 0]]"
  have "precise_window ?i 0 6 = 2" by code_simp
  then show ?thesis
    using precise_window_accesses_once [of 6 0 ?i] by (simp add: Let_def)
qed

end
