(* ===== verification/Dispatch.thy ===== *)
theory Dispatch
  imports Slot_Plan
begin

text \<open>
  The request protocol of \<^verbatim>\<open>Translator.cpp\<close>: stock asks for one instruction of a block, the
  dispatcher answers with the index to continue at or declines, and keeps the register cache in step
  with what was answered.  The emitters themselves are arguments; everything the dispatcher decides
  around them, and the cache transitions, is modelled.  The profiler's tallies and its block counter,
  the boundary conversion code, the traces and the bridged and whole-run IR attempts belong to the
  \<open>body\<close> argument.
\<close>

abbreviation kOpcodeName_fclex :: u16 where "kOpcodeName_fclex \<equiv> 0xC3"
abbreviation kOpcodeName_finit :: u16 where "kOpcodeName_finit \<equiv> 0xD8"
abbreviation kOpcodeName_fldenv :: u16 where "kOpcodeName_fldenv \<equiv> 0xE1"
abbreviation kOpcodeName_fstenv :: u16 where "kOpcodeName_fstenv \<equiv> 0xF9"
abbreviation kOpcodeName_fxrstor :: u16 where "kOpcodeName_fxrstor \<equiv> 0x107"
abbreviation kOpcodeName_fxsave :: u16 where "kOpcodeName_fxsave \<equiv> 0x108"
abbreviation kOpcodeName_arpl :: u16 where "kOpcodeName_arpl \<equiv> 0x29C"
abbreviation kGprScratchMask :: u32 where "kGprScratchMask \<equiv> 0x3FC00000"

section \<open>Which instructions are whose\<close>

definition is_x87_opcode :: "u16 \<Rightarrow> bool" where
  "is_x87_opcode op \<longleftrightarrow>
     (op \<ge> kOpcodeName_fcmovb \<and> op \<le> kOpcodeName_fucomip) \<or>
     (op \<ge> kOpcodeName_f2xm1 \<and> op \<le> kOpcodeName_fyl2xp1)"

definition native_boundary :: "u16 \<Rightarrow> bool" where
  "native_boundary op \<longleftrightarrow> is_x87_opcode op \<and> op \<noteq> kOpcodeName_fclex \<and> op \<noteq> kOpcodeName_finit \<and>
     op \<noteq> kOpcodeName_fldenv \<and> op \<noteq> kOpcodeName_fstenv \<and> op \<noteq> kOpcodeName_fxsave \<and>
     op \<noteq> kOpcodeName_fxrstor"

text \<open>The switch that sends an instruction to its emitter, in four stretches; \<open>None\<close> continues in
  the next one.\<close>

definition emit_case_1 :: "u16 \<Rightarrow> string option" where
  "emit_case_1 op =
     (if op = kOpcodeName_fldz then Some ''translate_fldz''
      else if op = kOpcodeName_fld1 then Some ''translate_fld1''
      else if op = kOpcodeName_fldl2e then Some ''translate_fldl2e''
      else if op = kOpcodeName_fldl2t then Some ''translate_fldl2t''
      else if op = kOpcodeName_fldlg2 then Some ''translate_fldlg2''
      else if op = kOpcodeName_fldln2 then Some ''translate_fldln2''
      else if op = kOpcodeName_fldpi then Some ''translate_fldpi''
      else if op = kOpcodeName_fld then Some ''translate_fld''
      else if op = kOpcodeName_fild then Some ''translate_fild''
      else if op = kOpcodeName_fbld then Some ''translate_fbld''
      else if op = kOpcodeName_fadd then Some ''translate_fadd''
      else if op = kOpcodeName_faddp then Some ''translate_faddp''
      else if op = kOpcodeName_fiadd then Some ''translate_fiadd''
      else if op \<in> {kOpcodeName_fsub, kOpcodeName_fsubr} then Some ''translate_fsub''
      else if op \<in> {kOpcodeName_fsubp, kOpcodeName_fsubrp} then Some ''translate_fsubp''
      else None)"

definition emit_case_2 :: "u16 \<Rightarrow> string option" where
  "emit_case_2 op =
     (if op \<in> {kOpcodeName_fdiv, kOpcodeName_fdivr} then Some ''translate_fdiv''
      else if op \<in> {kOpcodeName_fdivp, kOpcodeName_fdivrp} then Some ''translate_fdivp''
      else if op \<in> {kOpcodeName_fmul, kOpcodeName_fmulp} then Some ''translate_fmul''
      else if op \<in> {kOpcodeName_fst, kOpcodeName_fst_stack, kOpcodeName_fstp,
              kOpcodeName_fstp_stack} then Some ''translate_fst''
      else if op = kOpcodeName_fstsw then Some ''translate_fstsw''
      else if op = kOpcodeName_fxam then Some ''translate_fxam''
      else if op = kOpcodeName_fdecstp then Some ''translate_fdecstp''
      else if op = kOpcodeName_fincstp then Some ''translate_fincstp''
      else if op = kOpcodeName_ffree then Some ''translate_ffree''
      else if op = kOpcodeName_fxtract then Some ''translate_fxtract''
      else if op = kOpcodeName_fscale then Some ''translate_fscale''
      else if op = kOpcodeName_fbstp then Some ''translate_fbstp''
      else if op = kOpcodeName_frstor then Some ''translate_frstor''
      else if op = kOpcodeName_fsave then Some ''translate_fsave''
      else if op \<in> {kOpcodeName_fcom, kOpcodeName_fcomp, kOpcodeName_fcompp,
              kOpcodeName_fucom, kOpcodeName_fucomp, kOpcodeName_fucompp
            } then Some ''translate_fcom''
      else None)"

definition emit_case_3 :: "u16 \<Rightarrow> string option" where
  "emit_case_3 op =
     (if op = kOpcodeName_fxch then Some ''translate_fxch''
      else if op = kOpcodeName_fchs then Some ''translate_fchs''
      else if op = kOpcodeName_fabs then Some ''translate_fabs''
      else if op = kOpcodeName_fsqrt then Some ''translate_fsqrt''
      else if op = kOpcodeName_fistp then Some ''translate_fistp''
      else if op = kOpcodeName_fisttp then Some ''translate_fisttp''
      else if op = kOpcodeName_fidiv then Some ''translate_fidiv''
      else if op = kOpcodeName_fimul then Some ''translate_fimul''
      else if op = kOpcodeName_fisub then Some ''translate_fisub''
      else if op = kOpcodeName_fidivr then Some ''translate_fidivr''
      else if op = kOpcodeName_frndint then Some ''translate_frndint''
      else if op \<in> {kOpcodeName_fcomi, kOpcodeName_fcomip, kOpcodeName_fucomi,
              kOpcodeName_fucomip} then Some ''translate_fcomi''
      else if op = kOpcodeName_ftst then Some ''translate_ftst''
      else if op = kOpcodeName_fist then Some ''translate_fist''
      else if op = kOpcodeName_fisubr then Some ''translate_fisubr''
      else None)"

definition emit_case_4 :: "u16 \<Rightarrow> string option" where
  "emit_case_4 op =
     (if op \<in> {kOpcodeName_ficom, kOpcodeName_ficomp} then Some ''translate_ficom''
      else if op \<in> {kOpcodeName_fcmovb, kOpcodeName_fcmovbe, kOpcodeName_fcmove,
              kOpcodeName_fcmovnb, kOpcodeName_fcmovnbe, kOpcodeName_fcmovne,
              kOpcodeName_fcmovu, kOpcodeName_fcmovnu} then Some ''translate_fcmov''
      else if op = kOpcodeName_fldcw then Some ''translate_fldcw''
      else if op = kOpcodeName_fnstcw then Some ''translate_fnstcw''
      else if op \<in> {kOpcodeName_fnop, kOpcodeName_fdisi, kOpcodeName_feni
            } then Some ''translate_fnop''
      else if op = kOpcodeName_fsin then Some ''translate_fsin''
      else if op = kOpcodeName_fcos then Some ''translate_fcos''
      else if op = kOpcodeName_f2xm1 then Some ''translate_f2xm1''
      else if op = kOpcodeName_fpatan then Some ''translate_fpatan''
      else if op = kOpcodeName_fsincos then Some ''translate_fsincos''
      else if op = kOpcodeName_fptan then Some ''translate_fptan''
      else if op = kOpcodeName_fyl2x then Some ''translate_fyl2x''
      else if op = kOpcodeName_fyl2xp1 then Some ''translate_fyl2xp1''
      else if op = kOpcodeName_fprem then Some ''translate_fprem''
      else if op = kOpcodeName_fprem1 then Some ''translate_fprem1''
      else None)"

definition emitter_of :: "u16 \<Rightarrow> string option" where
  "emitter_of op =
     (case emit_case_1 op of Some e \<Rightarrow> Some e | None \<Rightarrow>
      case emit_case_2 op of Some e \<Rightarrow> Some e | None \<Rightarrow>
      case emit_case_3 op of Some e \<Rightarrow> Some e | None \<Rightarrow> emit_case_4 op)"

section \<open>The translation result\<close>

record config =
  cfg_native_transport :: bool
  cfg_native_slots :: bool
  precise_faults :: nat
  disable_x87_cache :: bool
  enable_bridge :: bool
  enable_bridge_v2 :: bool
  bridge_max_gap :: nat
  bridge_max_total :: nat
  bridge_hash_list :: "u64 list"
  no_bridge_hash_list :: "u64 list"

definition precise_faults_enabled :: "config option \<Rightarrow> bool" where
  "precise_faults_enabled g = (case g of None \<Rightarrow> False | Some cfg \<Rightarrow> precise_faults cfg \<noteq> 0)"

definition precise_split_enabled :: "config option \<Rightarrow> bool" where
  "precise_split_enabled g =
     (case g of None \<Rightarrow> False | Some cfg \<Rightarrow> precise_faults cfg \<ge> 2 \<and> cfg_native_slots cfg)"

record tresult =
  insn_end :: nat
  fixup_ends :: "nat list"
  free_gpr_mask :: u32
  free_fpr_mask :: u32
  unoccupied_fprs :: u32
  pinned_scalars :: u32
  alloc_failure :: "string option"
  tcache :: x87_cache

record request_entry =
  entry_buf_end :: nat
  entry_fixups :: "nat list"
  entry_free_gpr :: u32
  entry_free_fpr :: u32
  entry_pinned :: u32
  entry_cache :: x87_cache

definition capture_request_entry :: "tresult \<Rightarrow> request_entry" where
  "capture_request_entry tr =
     \<lparr>entry_buf_end = insn_end tr, entry_fixups = fixup_ends tr, entry_free_gpr = free_gpr_mask tr,
      entry_free_fpr = free_fpr_mask tr, entry_pinned = pinned_scalars tr, entry_cache = tcache tr\<rparr>"

definition to_i32 :: "int \<Rightarrow> int" where
  "to_i32 x = sint (word_of_int x :: 32 word)"

definition decline_after_alloc_failure ::
  "request_entry \<Rightarrow> nat \<Rightarrow> irinstr list \<Rightarrow> nat \<Rightarrow> tresult \<Rightarrow> tresult" where
  "decline_after_alloc_failure e block instrs idx tr =
     (let c1 = invalidate (entry_cache e);
          c2 = c1\<lparr>bridge_pending_total := 0, bridge_pending_idx := -1\<rparr>;
          c3 = (if prev_block c2 = Some block \<and> int idx \<le> last_insn_idx c2 then c2\<lparr>prev_block := None\<rparr> else c2);
          c4 = (if prev_block c3 = Some block then c3\<lparr>last_insn_idx := to_i32 (int idx)\<rparr> else c3);
          c5 = c4\<lparr>last_next_idx := -1, declined_block := Some block, declined_idx := to_i32 (int idx),
                  declined_num_instrs := to_i32 (int (length instrs)), declined_start_pc := pc (instrs ! 0)\<rparr>
      in tr\<lparr>insn_end := entry_buf_end e, fixup_ends := entry_fixups e, free_gpr_mask := entry_free_gpr e,
            free_fpr_mask := entry_free_fpr e, pinned_scalars := entry_pinned e, tcache := c5\<rparr>)"

section \<open>Entering a block\<close>

definition midspan_reask :: "nat \<Rightarrow> nat \<Rightarrow> x87_cache \<Rightarrow> bool" where
  "midspan_reask block idx c \<longleftrightarrow>
     prev_block c = Some block \<and> cache_active c \<and> last_next_idx c \<ge> 0 \<and> int idx \<noteq> last_next_idx c"

definition restart_same_block :: "nat \<Rightarrow> nat \<Rightarrow> x87_cache \<Rightarrow> bool" where
  "restart_same_block block idx c \<longleftrightarrow>
     (prev_block c = Some block \<and> int idx \<le> last_insn_idx c) \<or> midspan_reask block idx c"

definition enter_block :: "nat \<Rightarrow> nat \<Rightarrow> tresult \<Rightarrow> tresult" where
  "enter_block block idx tr =
     (let c = tcache tr in
      if prev_block c \<noteq> Some block \<or> restart_same_block block idx c then
        tr\<lparr>tcache := (invalidate c)\<lparr>prev_block := Some block, stock_free_gpr_mask := free_gpr_mask tr,
                     last_insn_idx := -1, last_next_idx := -1\<rparr>,
           free_gpr_mask := free_gpr_mask tr AND kGprScratchMask\<rparr>
      else
        tr\<lparr>tcache := (if \<not> cache_active c then c\<lparr>stock_free_gpr_mask := free_gpr_mask tr\<rparr> else c),
           free_gpr_mask := free_gpr_mask tr AND kGprScratchMask\<rparr>)"

section \<open>Starting a run\<close>

definition bridge_allowed :: "config option \<Rightarrow> u64 \<Rightarrow> bool" where
  "bridge_allowed g hash =
     (case g of None \<Rightarrow> False
      | Some cfg \<Rightarrow>
          if \<not> enable_bridge cfg then False
          else if no_bridge_hash_list cfg \<noteq> [] \<and> hash \<in> set (no_bridge_hash_list cfg) then False
          else if bridge_hash_list cfg \<noteq> [] \<and> hash \<notin> set (bridge_hash_list cfg) then False
          else True)"

definition run_length :: "config option \<Rightarrow> irinstr list \<Rightarrow> nat \<Rightarrow> x87_cache \<Rightarrow> nat" where
  "run_length g instrs idx c =
     (let run = (if native_transport c \<and> precise_faults_enabled g then 1 else lookahead instrs idx)
      in if native_slots c \<and> precise_split_enabled g then precise_window instrs idx run else run)"

definition run_only_cw :: "config option \<Rightarrow> irinstr list \<Rightarrow> nat \<Rightarrow> x87_cache \<Rightarrow> bool" where
  "run_only_cw g instrs idx c =
     (let run = (if native_transport c \<and> precise_faults_enabled g then 1 else lookahead instrs idx)
      in (case g of None \<Rightarrow> False | Some cfg \<Rightarrow> cfg_native_slots cfg) \<and>
         list_all (\<lambda>ins. opcode ins \<in> {kOpcodeName_fnstcw, kOpcodeName_fldcw}) (take run (drop idx instrs)))"

definition start_run :: "config option \<Rightarrow> u64 \<Rightarrow> irinstr list \<Rightarrow> nat \<Rightarrow> x87_cache \<Rightarrow> x87_cache" where
  "start_run g hash instrs idx c =
     (let run = run_length g instrs idx c;
          split = (native_slots c \<and> precise_split_enabled g);
          c1 = set_run (int run) (c\<lparr>top_unused := run_only_cw g instrs idx c\<rparr>);
          c2 = c1\<lparr>bridge_pending_total := 0, bridge_pending_idx := -1\<rparr>
      in case g of
           Some cfg \<Rightarrow>
             if bridge_allowed g hash \<and> run \<ge> 1 \<and> \<not> native_transport c \<and> \<not> split then
               (let br = lookahead_bridged instrs idx (bridge_max_gap cfg) (bridge_max_total cfg) (enable_bridge_v2 cfg)
                in if br_total br > int run
                   then c2\<lparr>bridge_pending_total := br_total br, bridge_pending_x87 := br_x87 br,
                           bridge_pending_plain := to_i16 (int run), bridge_pending_idx := to_i16 (int idx)\<rparr>
                   else c2)
             else c2
         | None \<Rightarrow> c2)"

definition enter_request ::
  "config option \<Rightarrow> u64 \<Rightarrow> nat \<Rightarrow> irinstr list \<Rightarrow> nat \<Rightarrow> tresult \<Rightarrow> tresult" where
  "enter_request g hash block instrs idx tr =
     (let tr1 = enter_block block idx tr;
          c1 = (tcache tr1)\<lparr>last_insn_idx := to_i32 (int idx)\<rparr>;
          disabled = (case g of None \<Rightarrow> False | Some cfg \<Rightarrow> disable_x87_cache cfg)
      in tr1\<lparr>tcache := (if \<not> cache_active c1 \<and> \<not> disabled then start_run g hash instrs idx c1 else c1)\<rparr>)"

section \<open>One request\<close>

text \<open>
  \<open>body idx tr\<close> is what \<^verbatim>\<open>translate_instruction_impl\<close> does after the prologue: it emits, ticks
  the cache for what it consumed and returns the next index, or declines.  \<open>flush\<close> is the
  \<^verbatim>\<open>x87_begin\<close> and \<^verbatim>\<open>x87_end\<close> pair that \<open>flush_run_and_release\<close> emits.
\<close>

definition flush_run_and_release :: "(tresult \<Rightarrow> tresult) \<Rightarrow> tresult \<Rightarrow> tresult" where
  "flush_run_and_release flush tr =
     (let tr1 = flush (tr\<lparr>tcache := (tcache tr)\<lparr>run_remaining := 1\<rparr>\<rparr>);
          c = tick (tcache tr1)
      in tr1\<lparr>tcache := c, free_gpr_mask := stock_free_gpr_mask c\<rparr>)"

type_synonym body = "nat \<Rightarrow> tresult \<Rightarrow> nat option \<times> tresult"

definition impl :: "config option \<Rightarrow> u64 \<Rightarrow> nat \<Rightarrow> irinstr list \<Rightarrow> body \<Rightarrow> body" where
  "impl g hash block instrs body idx tr = body idx (enter_request g hash block instrs idx tr)"

fun run_loop ::
  "nat \<Rightarrow> (tresult \<Rightarrow> tresult) \<Rightarrow> body \<Rightarrow> nat \<Rightarrow> nat \<Rightarrow> tresult \<Rightarrow> (nat \<times> tresult) option" where
  "run_loop fuel flush step num r tr =
     (if cache_active (tcache tr) \<and> r < num \<and> alloc_failure tr = None then
        (case fuel of 0 \<Rightarrow> None
         | Suc fuel' \<Rightarrow>
             (case step r (tr\<lparr>tcache := (tcache tr)\<lparr>last_next_idx := to_i32 (int r)\<rparr>\<rparr>) of
                (Some r', tr') \<Rightarrow> run_loop fuel' flush step num r' tr'
              | (None, tr') \<Rightarrow> Some (r, if alloc_failure tr' \<noteq> None then tr' else flush_run_and_release flush tr')))
      else Some (r, tr))"

definition still_declined :: "nat \<Rightarrow> irinstr list \<Rightarrow> nat \<Rightarrow> x87_cache \<Rightarrow> bool" where
  "still_declined block instrs idx c \<longleftrightarrow>
     declined_block c = Some block \<and> int idx > declined_idx c \<and>
     int (length instrs) = declined_num_instrs c \<and> pc (instrs ! 0) = declined_start_pc c"

definition transport_reply :: "config option \<Rightarrow> irinstr list \<Rightarrow> nat \<Rightarrow> bool" where
  "transport_reply g instrs idx \<longleftrightarrow> native_boundary (opcode (instrs ! idx)) \<and>
     (case g of None \<Rightarrow> True | Some cfg \<Rightarrow> cfg_native_transport cfg) \<and> is_native_transport_run instrs idx"

definition slots_reply :: "config option \<Rightarrow> irinstr list \<Rightarrow> nat \<Rightarrow> bool" where
  "slots_reply g instrs idx \<longleftrightarrow> native_boundary (opcode (instrs ! idx)) \<and>
     \<not> transport_reply g instrs idx \<and> (case g of None \<Rightarrow> False | Some cfg \<Rightarrow> cfg_native_slots cfg)"

text \<open>The outcome of a request: the process is aborted, or an answer with the result left behind.\<close>

datatype answer = Aborted | Declined tresult | Continue nat tresult

definition enter_layout :: "bool \<Rightarrow> bool \<Rightarrow> x87_cache \<Rightarrow> x87_cache" where
  "enter_layout transport slots c =
     (let c1 = c\<lparr>native_transport := transport, native_slots := slots\<rparr>
      in if slots then c1\<lparr>top_rel := 0, fmts := replicate 8 SlotNative\<rparr> else c1)"

definition finish_request ::
  "request_entry \<Rightarrow> bool \<Rightarrow> (bool \<Rightarrow> tresult \<Rightarrow> tresult) \<Rightarrow> u16 \<Rightarrow> nat \<Rightarrow> irinstr list \<Rightarrow> nat \<Rightarrow> nat option \<Rightarrow>
   tresult \<Rightarrow> answer" where
  "finish_request e boundary leave op block instrs idx ret tr =
     (let tr1 = tr\<lparr>tcache := (tcache tr)\<lparr>native_transport := False, native_slots := False\<rparr>\<rparr>;
          tr2 = (if boundary \<and> alloc_failure tr1 = None then
                   (case ret of Some r \<Rightarrow> leave (r = length instrs) tr1
                    | None \<Rightarrow> tr1\<lparr>insn_end := entry_buf_end e, fixup_ends := entry_fixups e\<rparr>)
                 else tr1)
      in if alloc_failure tr2 \<noteq> None then
           (if op = kOpcodeName_arpl then Aborted
            else Declined (decline_after_alloc_failure e block instrs idx tr2))
         else case ret of
           Some r \<Rightarrow> Continue r (tr2\<lparr>tcache := (tcache tr2)\<lparr>last_next_idx := to_i32 (int r)\<rparr>\<rparr>)
         | None \<Rightarrow> Declined (tr2\<lparr>tcache := (tcache tr2)\<lparr>last_next_idx := -1\<rparr>\<rparr>))"

text \<open>\<open>enter\<close> and \<open>leave\<close> are the code emitted at a native boundary, before and after.\<close>

definition attempt_request ::
  "nat \<Rightarrow> config option \<Rightarrow> u64 \<Rightarrow> (tresult \<Rightarrow> tresult) \<Rightarrow> (bool \<Rightarrow> tresult \<Rightarrow> tresult) \<Rightarrow> (tresult \<Rightarrow> tresult) \<Rightarrow> body \<Rightarrow>
   nat \<Rightarrow> irinstr list \<Rightarrow> nat \<Rightarrow> tresult \<Rightarrow> answer option" where
  "attempt_request fuel g hash enter leave flush body block instrs idx tr =
     (let op = opcode (instrs ! idx);
          e = capture_request_entry tr;
          tr1 = tr\<lparr>tcache := enter_layout (transport_reply g instrs idx) (slots_reply g instrs idx) (tcache tr)\<rparr>;
          tr2 = (if native_boundary op then enter tr1 else tr1);
          step = impl g hash block instrs body;
          first = (if alloc_failure tr2 \<noteq> None then (None, tr2) else step idx tr2);
          finish = finish_request e (native_boundary op) leave op block instrs idx
      in case fst first of
           None \<Rightarrow> Some (finish None (snd first))
         | Some r \<Rightarrow> map_option (\<lambda>(r', tr'). finish (Some r') tr')
                      (run_loop fuel flush step (length instrs) r (snd first)))"

definition translate_instruction ::
  "nat \<Rightarrow> config option \<Rightarrow> u64 \<Rightarrow> (tresult \<Rightarrow> tresult) \<Rightarrow> (bool \<Rightarrow> tresult \<Rightarrow> tresult) \<Rightarrow> (tresult \<Rightarrow> tresult) \<Rightarrow> body \<Rightarrow>
   nat \<Rightarrow> irinstr list \<Rightarrow> nat \<Rightarrow> tresult \<Rightarrow> answer option" where
  "translate_instruction fuel g hash enter leave flush body block instrs idx tr0 =
     (let tr = tr0\<lparr>alloc_failure := None\<rparr>;
          c = tcache tr;
          attempt = attempt_request fuel g hash enter leave flush body block instrs idx
      in if declined_block c = None then attempt tr
         else if \<not> still_declined block instrs idx c then attempt (tr\<lparr>tcache := c\<lparr>declined_block := None\<rparr>\<rparr>)
         else if opcode (instrs ! idx) \<noteq> kOpcodeName_arpl
         then Some (Declined (tr\<lparr>tcache := c\<lparr>last_next_idx := -1\<rparr>\<rparr>))
         else attempt tr)"

end
