(* ===== verification/Dispatch_Props.thy ===== *)
theory Dispatch_Props
  imports Dispatch X87_Examples
begin

text \<open>
  What the request protocol promises: which opcodes a run can hold, that a run is one reply, that a
  failed request leaves nothing behind and sends the rest of its block to stock, and that cached
  register state survives into a request only at the frontier the previous reply set.
\<close>

section \<open>Opcode classes\<close>

lemma word_range_list:
  fixes a b op :: u16
  shows "a \<le> op \<and> op \<le> b \<longleftrightarrow> op \<in> set (map (\<lambda>n. word_of_nat n) [unat a..<Suc (unat b)])"
proof
  assume "a \<le> op \<and> op \<le> b"
  then have "unat a \<le> unat op" "unat op < Suc (unat b)" by (simp_all add: word_le_nat_alt less_Suc_eq_le)
  then show "op \<in> set (map (\<lambda>n. word_of_nat n) [unat a..<Suc (unat b)])"
    by (auto intro!: image_eqI [of _ _ "unat op"] simp del: upt.simps)
next
  assume "op \<in> set (map (\<lambda>n. word_of_nat n) [unat a..<Suc (unat b)])"
  then obtain n where n: "op = word_of_nat n" "unat a \<le> n" "n \<le> unat b"
    by (auto simp del: upt.simps)
  have "unat b < 65536" using unsigned_less [of b] by simp
  then have "unat op = n"
    using n(3) unfolding n(1) by (simp add: unat_of_nat take_bit_nat_eq_self)
  then show "a \<le> op \<and> op \<le> b" using n by (simp add: word_le_nat_alt)
qed

lemma x87_opcode_list:
  "is_x87_opcode op \<longleftrightarrow> op \<in> set (map word_of_nat ([unat kOpcodeName_fcmovb..<Suc (unat kOpcodeName_fucomip)] @
     [unat kOpcodeName_f2xm1..<Suc (unat kOpcodeName_fyl2xp1)]))"
  using word_range_list [of kOpcodeName_fcmovb op kOpcodeName_fucomip]
    word_range_list [of kOpcodeName_f2xm1 op kOpcodeName_fyl2xp1]
  by (auto simp: is_x87_opcode_def simp del: upt.simps)

lemma x87_opcode_split:
  "is_x87_opcode op \<longleftrightarrow> is_handled_x87 op \<or>
     op \<in> {kOpcodeName_fclex, kOpcodeName_finit, kOpcodeName_fldenv, kOpcodeName_fstenv, kOpcodeName_fxsave,
       kOpcodeName_fxrstor}"
  unfolding x87_opcode_list is_handled_x87_def by (simp add: upt_conv_Cons) blast

lemma not_handled:
  "\<not> is_handled_x87 kOpcodeName_fclex" "\<not> is_handled_x87 kOpcodeName_finit" "\<not> is_handled_x87 kOpcodeName_fldenv"
  "\<not> is_handled_x87 kOpcodeName_fstenv" "\<not> is_handled_x87 kOpcodeName_fxsave" "\<not> is_handled_x87 kOpcodeName_fxrstor"
  by (simp_all add: is_handled_x87_def)

lemma emit_case_iff:
  "emit_case_1 op \<noteq> None \<longleftrightarrow> op \<in> {
    kOpcodeName_fldz, kOpcodeName_fld1, kOpcodeName_fldl2e, kOpcodeName_fldl2t,
    kOpcodeName_fldlg2, kOpcodeName_fldln2, kOpcodeName_fldpi, kOpcodeName_fld, kOpcodeName_fild,
    kOpcodeName_fbld, kOpcodeName_fadd, kOpcodeName_faddp, kOpcodeName_fiadd, kOpcodeName_fsub,
    kOpcodeName_fsubr, kOpcodeName_fsubp, kOpcodeName_fsubrp}"
  "emit_case_2 op \<noteq> None \<longleftrightarrow> op \<in> {
    kOpcodeName_fdiv, kOpcodeName_fdivr, kOpcodeName_fdivp, kOpcodeName_fdivrp, kOpcodeName_fmul,
    kOpcodeName_fmulp, kOpcodeName_fst, kOpcodeName_fst_stack, kOpcodeName_fstp,
    kOpcodeName_fstp_stack, kOpcodeName_fstsw, kOpcodeName_fxam, kOpcodeName_fdecstp,
    kOpcodeName_fincstp, kOpcodeName_ffree, kOpcodeName_fxtract, kOpcodeName_fscale,
    kOpcodeName_fbstp, kOpcodeName_frstor, kOpcodeName_fsave, kOpcodeName_fcom,
    kOpcodeName_fcomp, kOpcodeName_fcompp, kOpcodeName_fucom, kOpcodeName_fucomp,
    kOpcodeName_fucompp}"
  "emit_case_3 op \<noteq> None \<longleftrightarrow> op \<in> {
    kOpcodeName_fxch, kOpcodeName_fchs, kOpcodeName_fabs, kOpcodeName_fsqrt, kOpcodeName_fistp,
    kOpcodeName_fisttp, kOpcodeName_fidiv, kOpcodeName_fimul, kOpcodeName_fisub,
    kOpcodeName_fidivr, kOpcodeName_frndint, kOpcodeName_fcomi, kOpcodeName_fcomip,
    kOpcodeName_fucomi, kOpcodeName_fucomip, kOpcodeName_ftst, kOpcodeName_fist,
    kOpcodeName_fisubr}"
  "emit_case_4 op \<noteq> None \<longleftrightarrow> op \<in> {
    kOpcodeName_ficom, kOpcodeName_ficomp, kOpcodeName_fcmovb, kOpcodeName_fcmovbe,
    kOpcodeName_fcmove, kOpcodeName_fcmovnb, kOpcodeName_fcmovnbe, kOpcodeName_fcmovne,
    kOpcodeName_fcmovu, kOpcodeName_fcmovnu, kOpcodeName_fldcw, kOpcodeName_fnstcw,
    kOpcodeName_fnop, kOpcodeName_fdisi, kOpcodeName_feni, kOpcodeName_fsin, kOpcodeName_fcos,
    kOpcodeName_f2xm1, kOpcodeName_fpatan, kOpcodeName_fsincos, kOpcodeName_fptan,
    kOpcodeName_fyl2x, kOpcodeName_fyl2xp1, kOpcodeName_fprem, kOpcodeName_fprem1}"
  by (simp_all add: emit_case_1_def emit_case_2_def emit_case_3_def emit_case_4_def)

lemma emitter_of_iff:
  "emitter_of op \<noteq> None \<longleftrightarrow> emit_case_1 op \<noteq> None \<or> emit_case_2 op \<noteq> None \<or> emit_case_3 op \<noteq> None \<or>
     emit_case_4 op \<noteq> None"
  by (simp add: emitter_of_def split: option.splits)

text \<open>An instruction crosses the native boundary, is counted into a run, and has an emitter,
  for exactly the same opcodes: no instruction a run was opened for is declined for want of an
  emitter, and none is converted for in vain.\<close>

theorem handled_ops_are_boundary_ops:
  "native_boundary op = is_handled_x87 op \<and> (emitter_of op \<noteq> None) = is_handled_x87 op"
proof
  show "native_boundary op = is_handled_x87 op"
    using x87_opcode_split [of op] not_handled by (auto simp: native_boundary_def)
  show "(emitter_of op \<noteq> None) = is_handled_x87 op"
    unfolding emitter_of_iff emit_case_iff is_handled_x87_def
    by (simp only: insert_iff empty_iff simp_thms) blast
qed


section \<open>Cached state survives only at the frontier\<close>

lemma invalidate_idle: "run_remaining (invalidate c) = 0"
  by (simp add: invalidate_def reset_perm_def)

text \<open>A request finds the cached run still open exactly when it asks, in the same block and
  past the previous entry, for the index the previous reply ended at; every other request starts
  from memory state.\<close>

theorem run_survives_only_at_the_frontier:
  "cache_active (tcache (enter_block block idx tr)) \<longleftrightarrow>
     (let c = tcache tr in cache_active c \<and> prev_block c = Some block \<and> last_insn_idx c < int idx \<and>
        (last_next_idx c < 0 \<or> last_next_idx c = int idx))"
  using invalidate_idle [of "tcache tr"]
  by (auto simp: enter_block_def Let_def cache_active_def restart_same_block_def midspan_reask_def)

section \<open>Requests that ran out of registers\<close>

lemma to_i32_small: "0 \<le> x \<Longrightarrow> x < 2 ^ 31 \<Longrightarrow> to_i32 x = x"
  unfolding to_i32_def by (simp add: sint_sbintrunc' signed_take_bit_int_eq_self)

definition idle :: "x87_cache \<Rightarrow> bool" where
  "idle c \<longleftrightarrow> \<not> cache_active c \<and> \<not> gprs_valid c \<and> \<not> st_base_valid c \<and> \<not> top_dirty c \<and>
     \<not> tag_push_pending c \<and> deferred_pop_count c = 0 \<and> \<not> perm_dirty c \<and> perm c = [0..<8] \<and>
     bridge_pending_total c = 0"

lemma declined_cache_idle: "idle (tcache (decline_after_alloc_failure e block instrs idx tr))"
  by (simp add: decline_after_alloc_failure_def Let_def idle_def invalidate_def reset_perm_def
      cache_active_def)

lemma decline_restores:
  "insn_end (decline_after_alloc_failure e block instrs idx tr) = entry_buf_end e"
  "fixup_ends (decline_after_alloc_failure e block instrs idx tr) = entry_fixups e"
  "free_gpr_mask (decline_after_alloc_failure e block instrs idx tr) = entry_free_gpr e"
  "free_fpr_mask (decline_after_alloc_failure e block instrs idx tr) = entry_free_fpr e"
  "pinned_scalars (decline_after_alloc_failure e block instrs idx tr) = entry_pinned e"
  "alloc_failure (decline_after_alloc_failure e block instrs idx tr) = alloc_failure tr"
  by (simp_all add: decline_after_alloc_failure_def Let_def)

lemma declined_still:
  assumes "idx < idx'" "idx' < 2 ^ 31" "length instrs < 2 ^ 31"
  shows "still_declined block instrs idx' (tcache (decline_after_alloc_failure e block instrs idx tr))"
  using assms to_i32_small [of "int idx"] to_i32_small [of "int (length instrs)"]
  by (simp add: still_declined_def decline_after_alloc_failure_def Let_def invalidate_def reset_perm_def)

lemma finish_failed:
  assumes "finish_request e boundary leave op block instrs idx ret tr = Declined tr'" "alloc_failure tr' \<noteq> None"
  shows "\<exists>t. tr' = decline_after_alloc_failure e block instrs idx t"
  using assms by (auto simp: finish_request_def Let_def split: if_splits option.splits)

lemma failed_attempt:
  assumes "attempt_request fuel g hash enter leave flush body block instrs idx tr = Some (Declined tr')"
    and "alloc_failure tr' \<noteq> None"
  shows "\<exists>t. tr' = decline_after_alloc_failure (capture_request_entry tr) block instrs idx t"
  using assms(1) finish_failed [OF _ assms(2)]
  by (auto simp: attempt_request_def Let_def split: option.splits)

text \<open>The request's failure is recorded in the result it leaves.\<close>

lemma failed_request:
  assumes "translate_instruction fuel g hash enter leave flush body block instrs idx tr = Some (Declined tr')"
    and "alloc_failure tr' \<noteq> None"
  shows "\<exists>t c. tr' = decline_after_alloc_failure (capture_request_entry (tr\<lparr>alloc_failure := None, tcache := c\<rparr>))
     block instrs idx t"
proof -
  have same: "tr\<lparr>alloc_failure := None\<rparr> = tr\<lparr>alloc_failure := None, tcache := tcache tr\<rparr>" by simp
  have "\<exists>c. attempt_request fuel g hash enter leave flush body block instrs idx
      (tr\<lparr>alloc_failure := None, tcache := c\<rparr>) = Some (Declined tr')"
  proof (cases "declined_block (tcache tr) = None \<or> still_declined block instrs idx (tcache tr)")
    case True
    then have "attempt_request fuel g hash enter leave flush body block instrs idx
        (tr\<lparr>alloc_failure := None, tcache := tcache tr\<rparr>) = Some (Declined tr')"
      using assms same by (auto simp: translate_instruction_def Let_def split: if_splits)
    then show ?thesis by blast
  next
    case False
    then show ?thesis using assms by (auto simp: translate_instruction_def Let_def)
  qed
  then show ?thesis using failed_attempt [OF _ assms(2)] by blast
qed

definition sample_result :: "int \<Rightarrow> tresult" where
  "sample_result n = \<lparr>insn_end = 0, fixup_ends = [0, 0, 0, 0, 0, 0], free_gpr_mask = kGprScratchMask,
     free_fpr_mask = 0, unoccupied_fprs = 0, pinned_scalars = 0, alloc_failure = None,
     tcache = cache_init\<lparr>prev_block := Some 0, run_remaining := n\<rparr>\<rparr>"

definition no_cache_config :: config where
  "no_cache_config = \<lparr>cfg_native_transport = True, cfg_native_slots = False, precise_faults = 0,
     disable_x87_cache = True, enable_bridge = False, enable_bridge_v2 = False, bridge_max_gap = 0,
     bridge_max_total = 0, bridge_hash_list = [], no_bridge_hash_list = []\<rparr>"

abbreviation dry_body :: body where
  "dry_body \<equiv> \<lambda>i t. (None, t\<lparr>insn_end := 9, alloc_failure := Some ''gpr''\<rparr>)"

abbreviation failed_sample :: tresult where
  "failed_sample \<equiv> decline_after_alloc_failure (capture_request_entry (sample_result 0)) 0
     (replicate 3 (insn 0 [])) 1 ((sample_result 0)\<lparr>alloc_failure := Some ''gpr''\<rparr>)"

lemma failed_sample_request:
  "translate_instruction 3 (Some no_cache_config) 0 id (\<lambda>_. id) id dry_body 0 (replicate 3 (insn 0 [])) 1 (sample_result 0) =
     Some (Declined failed_sample)"
  by (simp add: translate_instruction_def sample_result_def cache_init_def attempt_request_def Let_def
      native_boundary_def is_x87_opcode_def insn_def nth_Cons' numeral_3_eq_3
      finish_request_def capture_request_entry_def decline_after_alloc_failure_def
      enter_layout_def transport_reply_def slots_reply_def no_cache_config_def impl_def enter_request_def
      enter_block_def restart_same_block_def midspan_reask_def cache_active_def invalidate_def reset_perm_def)

text \<open>C17: a request that runs out of registers puts the emitted code, the fixups and the register
  masks back to what it found, and leaves the cache released with nothing deferred.\<close>

theorem failed_request_leaves_nothing:
  assumes "translate_instruction fuel g hash enter leave flush body block instrs idx tr = Some (Declined tr')"
    and "alloc_failure tr' \<noteq> None"
  shows "insn_end tr' = insn_end tr \<and> fixup_ends tr' = fixup_ends tr \<and> free_gpr_mask tr' = free_gpr_mask tr \<and>
    free_fpr_mask tr' = free_fpr_mask tr \<and> pinned_scalars tr' = pinned_scalars tr \<and> idle (tcache tr')"
  using failed_request [OF assms] declined_cache_idle by (auto simp: decline_restores capture_request_entry_def)

lemma failed_request_leaves_nothing_witness:
  "insn_end failed_sample = 0 \<and> idle (tcache failed_sample)"
  using failed_request_leaves_nothing [OF failed_sample_request]
  by (simp add: decline_restores sample_result_def)

text \<open>After it, every later instruction of the block goes to stock, whatever the emitters would
  do, and asking leaves the result as it is.\<close>

theorem failed_block_goes_to_stock:
  assumes "translate_instruction fuel g hash enter leave flush body block instrs idx tr = Some (Declined tr')"
    and "alloc_failure tr' \<noteq> None"
    and "idx < idx'" "idx' < length instrs" "length instrs < 2 ^ 31" "opcode (instrs ! idx') \<noteq> kOpcodeName_arpl"
  shows "translate_instruction fuel' g' hash' enter' leave' flush' body' block instrs idx' tr' =
    Some (Declined (tr'\<lparr>alloc_failure := None\<rparr>))"
proof -
  obtain t e where tr': "tr' = decline_after_alloc_failure e block instrs idx t"
    using failed_request [OF assms(1,2)] by blast
  have s: "still_declined block instrs idx' (tcache tr')"
    unfolding tr' using declined_still assms(3-5) by simp
  moreover have "declined_block (tcache tr') \<noteq> None" using s by (simp add: still_declined_def)
  moreover have "(tcache tr')\<lparr>last_next_idx := -1\<rparr> = tcache tr'"
    by (simp add: tr' decline_after_alloc_failure_def Let_def)
  ultimately show ?thesis using assms(6) by (auto simp: translate_instruction_def Let_def)
qed

lemma failed_block_goes_to_stock_witness:
  "translate_instruction 3 None 0 id (\<lambda>_. id) id dry_body 0 (replicate 3 (insn 0 [])) 2 failed_sample =
    Some (Declined (failed_sample\<lparr>alloc_failure := None\<rparr>))"
  using failed_block_goes_to_stock [OF failed_sample_request, of 2]
  by (simp add: decline_restores insn_def nth_Cons' numeral_3_eq_3)

section \<open>A run is one reply\<close>

lemma tick_from_one: "run_remaining c = 1 \<Longrightarrow> \<not> cache_active (tick c)"
  by (simp add: tick_def Let_def cache_active_def)

lemma run_loop_ends:
  assumes "\<And>i t r t'. step i t = (Some r, t') \<Longrightarrow> i < r"
    and "\<And>t. run_remaining (tcache (flush t)) = run_remaining (tcache t)"
    and "num - r \<le> fuel"
  shows "\<exists>r' tr'. run_loop fuel flush step num r tr = Some (r', tr') \<and>
    (alloc_failure tr' = None \<longrightarrow> \<not> cache_active (tcache tr') \<or> num \<le> r')"
  using assms(3)
proof (induction fuel arbitrary: r tr)
  case 0
  then show ?case by simp
next
  case (Suc fuel)
  show ?case
  proof (cases "cache_active (tcache tr) \<and> r < num \<and> alloc_failure tr = None")
    case True
    obtain x t where st: "step r (tr\<lparr>tcache := (tcache tr)\<lparr>last_next_idx := to_i32 (int r)\<rparr>\<rparr>) = (x, t)"
      by (cases "step r (tr\<lparr>tcache := (tcache tr)\<lparr>last_next_idx := to_i32 (int r)\<rparr>\<rparr>)")
    show ?thesis
    proof (cases x)
      case (Some r')
      have "num - r' \<le> fuel" using assms(1) st Some Suc.prems by fastforce
      then show ?thesis using Suc.IH [of r' t] True st Some by simp
    next
      case None
      then show ?thesis
        using True st assms(2) by (auto simp: flush_run_and_release_def Let_def intro!: tick_from_one)
    qed
  next
    case False
    then show ?thesis by auto
  qed
qed



end
