(* ===== verification/A64_Encode.thy ===== *)
theory A64_Encode
  imports Prelude
begin

text \<open>
  The AArch64 encoders of \<^verbatim>\<open>AssemblerHelpers.cpp\<close>.  An emitter appends words to the code
  buffer; here it returns the words it appends.  Arguments are the C++ integers, and \<open>field s n x\<close>
  is the source's \<^verbatim>\<open>(x & (2^n - 1)) << s\<close>.  Assertions (no stack pointer in a logical immediate,
  no zero register in an address computation) are left to the callers.
\<close>

definition field :: "nat \<Rightarrow> nat \<Rightarrow> int \<Rightarrow> u32" where
  "field s n x = push_bit s (word_of_int (take_bit n x))"

abbreviation XZR :: int where "XZR \<equiv> 31"
abbreviation SP :: int where "SP \<equiv> 63"

section \<open>Logical immediates\<close>

definition ctz64 :: "u64 \<Rightarrow> nat" where
  "ctz64 v = length (takeWhile (\<lambda>i. \<not> bit v i) [0..<64])"

definition clz64 :: "u64 \<Rightarrow> nat" where
  "clz64 v = length (takeWhile (\<lambda>i. \<not> bit v (63 - i)) [0..<64])"

text \<open>The loop that halves the element while the pattern repeats.\<close>

fun element_size :: "u64 \<Rightarrow> nat \<Rightarrow> nat" where
  "element_size value es =
     (let half = es div 2 in
      if (drop_bit half value XOR value) AND NOT (push_bit half (-1)) \<noteq> 0 then es
      else if half > 2 then element_size value half else half)"

declare element_size.simps [simp del]

definition encode_bitmask :: "nat \<Rightarrow> nat \<Rightarrow> nat \<Rightarrow> int \<times> int \<times> int" where
  "encode_bitmask es rotation run_len =
     (let imms_raw = word_of_nat (run_len - 1) OR (word_of_nat (0xFE * es) :: u8)
      in (of_bool (imms_raw AND 0x40 = 0), int ((es - rotation) mod es), uint (imms_raw AND 0x3F)))"

definition contiguous :: "u64 \<Rightarrow> bool" where
  "contiguous v \<longleftrightarrow> (let filled = (v - 1) OR v in (filled + 1) AND filled = 0)"

text \<open>\<open>Some (N, immr, imms)\<close>, or \<open>None\<close> where the source returns false.\<close>

definition is_bitmask_immediate :: "bool \<Rightarrow> u64 \<Rightarrow> (int \<times> int \<times> int) option" where
  "is_bitmask_immediate is64 v0 =
     (if (if is64 then v0 + 1 < 2 else (ucast (v0 + 1) :: u32) < 2) then None
      else
        let value = (if is64 then v0 else ucast (ucast v0 :: u32));
            es = element_size value (if is64 then 64 else 32);
            element_mask = drop_bit (64 - es) (-1 :: u64);
            element = element_mask AND value;
            zeros = element_mask AND NOT value
        in if element \<noteq> 0 \<and> contiguous element then
             (let rotation = ctz64 element
              in Some (encode_bitmask es rotation (ctz64 (NOT (drop_bit rotation element)))))
           else if zeros = 0 \<or> \<not> contiguous zeros then None
           else Some (encode_bitmask es (64 - clz64 zeros) (clz64 zeros + ctz64 zeros - (64 - es))))"

section \<open>General-purpose data processing\<close>

definition emit_add_imm :: "int \<Rightarrow> int \<Rightarrow> int \<Rightarrow> int \<Rightarrow> int \<Rightarrow> int \<Rightarrow> int \<Rightarrow> u32 list" where
  "emit_add_imm is64 sub setf shift imm12 rn rd =
     [0x11000000 OR field 31 1 (of_bool (is64 \<noteq> 0)) OR
      field 30 1 (of_bool (sub \<noteq> 0)) OR
      field 29 1 (of_bool (setf \<noteq> 0)) OR field 22 2 shift OR
      field 10 12 imm12 OR field 5 5 rn OR field 0 5 rd]"

definition emit_bitfield :: "int \<Rightarrow> int \<Rightarrow> int \<Rightarrow> int \<Rightarrow> int \<Rightarrow> int \<Rightarrow> int \<Rightarrow> u32 list" where
  "emit_bitfield is64 opc n immr imms rn rd =
     [0x13000000 OR field 31 1 (of_bool (is64 \<noteq> 0)) OR field 29 2 opc OR
      field 22 1 n OR field 16 6 immr OR field 10 6 imms OR field 5 5 rn OR
      field 0 5 rd]"

definition emit_movn :: "int \<Rightarrow> int \<Rightarrow> int \<Rightarrow> int \<Rightarrow> int \<Rightarrow> u32 list" where
  "emit_movn is64 opc hw imm16 rd =
     [0x12800000 OR field 31 1 (of_bool (is64 \<noteq> 0)) OR field 29 2 opc OR
      field 21 2 hw OR field 5 16 imm16 OR field 0 5 rd]"

definition emit_movz_movk_abs64 :: "int \<Rightarrow> u64 \<Rightarrow> u32 list" where
  "emit_movz_movk_abs64 rd addr =
     emit_movn 1 2 0 (uint (addr AND 0xFFFF)) rd @
     emit_movn 1 3 1 (uint (drop_bit 16 addr AND 0xFFFF)) rd @
     emit_movn 1 3 2 (uint (drop_bit 32 addr AND 0xFFFF)) rd @
     emit_movn 1 3 3 (uint (drop_bit 48 addr AND 0xFFFF)) rd"

definition emit_ldaddal_x :: "int \<Rightarrow> int \<Rightarrow> int \<Rightarrow> u32 list" where
  "emit_ldaddal_x xs xt xn =
     [0xF8E00000 OR field 16 5 xs OR field 5 5 xn OR field 0 5 xt]"

definition emit_add_sub_shifted_reg :: "int \<Rightarrow> int \<Rightarrow> int \<Rightarrow> int \<Rightarrow> int \<Rightarrow> int \<Rightarrow> int \<Rightarrow> int \<Rightarrow> u32 list" where
  "emit_add_sub_shifted_reg is64 sub setf shift_type rm amount rn rd =
     [0x0B000000 OR field 31 1 (of_bool (is64 \<noteq> 0)) OR
      field 30 1 (of_bool (sub \<noteq> 0)) OR
      field 29 1 (of_bool (setf \<noteq> 0)) OR field 22 2 shift_type OR
      field 16 5 rm OR field 10 6 amount OR field 5 5 rn OR field 0 5 rd]"

definition emit_add_sub_ext_reg :: "int \<Rightarrow> int \<Rightarrow> int \<Rightarrow> int \<Rightarrow> int \<Rightarrow> int \<Rightarrow> int \<Rightarrow> int \<Rightarrow> u32 list" where
  "emit_add_sub_ext_reg is64 sub setf option imm3 rm rn rd =
     [0x0B200000 OR field 31 1 (of_bool (is64 \<noteq> 0)) OR
      field 30 1 (of_bool (sub \<noteq> 0)) OR
      field 29 1 (of_bool (setf \<noteq> 0)) OR field 16 5 rm OR field 13 3 option OR
      field 10 3 imm3 OR field 5 5 rn OR field 0 5 rd]"

definition emit_logical_shifted_reg :: "int \<Rightarrow> int \<Rightarrow> int \<Rightarrow> int \<Rightarrow> int \<Rightarrow> int \<Rightarrow> int \<Rightarrow> int \<Rightarrow> u32 list" where
  "emit_logical_shifted_reg is64 opc n shift_type rm amount rn rd =
     [0x0A000000 OR field 31 1 (of_bool (is64 \<noteq> 0)) OR field 29 2 opc OR
      field 22 2 shift_type OR field 21 1 n OR field 16 5 rm OR field 10 6 amount OR
      field 5 5 rn OR field 0 5 rd]"

definition emit_lslv :: "int \<Rightarrow> int \<Rightarrow> int \<Rightarrow> int \<Rightarrow> u32 list" where
  "emit_lslv is64 rm rn rd =
     [0x1AC02000 OR field 31 1 (of_bool (is64 \<noteq> 0)) OR field 16 5 rm OR
      field 5 5 rn OR field 0 5 rd]"

definition emit_mov_reg :: "int \<Rightarrow> int \<Rightarrow> int \<Rightarrow> u32 list" where
  "emit_mov_reg is64 rd rn =
     (if rd = SP \<or> rn = SP then emit_add_imm is64 0 0 0 0 rn rd
      else emit_logical_shifted_reg is64 1 0 0 rn 0 XZR rd)"

definition emit_subs_reg :: "int \<Rightarrow> int \<Rightarrow> int \<Rightarrow> int \<Rightarrow> u32 list" where
  "emit_subs_reg is64 rn rm rd = emit_add_sub_shifted_reg is64 1 1 0 rm 0 rn rd"

definition emit_add_reg :: "int \<Rightarrow> int \<Rightarrow> int \<Rightarrow> int \<Rightarrow> u32 list" where
  "emit_add_reg is64 dst lhs rhs =
     (if dst = SP \<or> lhs = SP then
        (let ext = (if is64 \<noteq> 0 then 3 else 2)
         in [0x0B200000 OR field 31 1 (of_bool (is64 \<noteq> 0)) OR field 16 5 rhs OR field 13 3 ext OR
             field 5 5 lhs OR field 0 5 dst])
      else emit_add_sub_shifted_reg is64 0 0 0 rhs 0 lhs dst)"

definition emit_logical_imm :: "int \<Rightarrow> int \<Rightarrow> int \<Rightarrow> int \<Rightarrow> int \<Rightarrow> int \<Rightarrow> int \<Rightarrow> u32 list" where
  "emit_logical_imm is64 opc n immr imms rn rd =
     [0x12000000 OR field 31 1 (of_bool (is64 \<noteq> 0)) OR field 29 2 opc OR
      field 22 1 (of_bool (n \<noteq> 0)) OR field 16 6 immr OR field 10 6 imms OR
      field 5 5 rn OR field 0 5 rd]"

definition emit_and_imm :: "int \<Rightarrow> int \<Rightarrow> int \<Rightarrow> int \<Rightarrow> int \<Rightarrow> int \<Rightarrow> u32 list" where
  "emit_and_imm is64 rd n immr imms rn = emit_logical_imm is64 0 n immr imms rn rd"

definition emit_orr_imm :: "int \<Rightarrow> int \<Rightarrow> int \<Rightarrow> int \<Rightarrow> int \<Rightarrow> int \<Rightarrow> u32 list" where
  "emit_orr_imm is64 rd rn n immr imms = emit_logical_imm is64 1 n immr imms rn rd"

definition emit_adr :: "int \<Rightarrow> int \<Rightarrow> int \<Rightarrow> u32 list" where
  "emit_adr adrp rd imm =
     [(if adrp \<noteq> 0 then 0x90000000 else 0x10000000) OR field 0 5 rd OR
      field 29 2 imm OR field 5 19 (drop_bit 2 imm)]"

definition emit_cset :: "int \<Rightarrow> int \<Rightarrow> int \<Rightarrow> u32 list" where
  "emit_cset is64 cnd rd =
     [0x1A9F07E0 OR field 31 1 is64 OR field 12 4 (cnd XOR 1) OR field 0 5 rd]"

definition emit_csel_gpr :: "int \<Rightarrow> int \<Rightarrow> int \<Rightarrow> int \<Rightarrow> int \<Rightarrow> u32 list" where
  "emit_csel_gpr is64 rd rn rm cnd =
     [0x1A800000 OR field 31 1 (of_bool (is64 \<noteq> 0)) OR field 16 5 rm OR
      field 12 4 cnd OR field 5 5 rn OR field 0 5 rd]"

section \<open>Loads and stores\<close>

definition effective_opc :: "int \<Rightarrow> int \<Rightarrow> int" where
  "effective_opc sz opc = (if sz = 4 then opc OR 2 else opc)"

definition emit_ldr_str_imm :: "int \<Rightarrow> int \<Rightarrow> int \<Rightarrow> int \<Rightarrow> int \<Rightarrow> int \<Rightarrow> u32 list" where
  "emit_ldr_str_imm sz fp opc imm12 rn rt =
     [0x39000000 OR field 30 2 sz OR field 26 1 fp OR
      field 22 2 (effective_opc sz opc) OR field 10 12 imm12 OR field 5 5 rn OR
      field 0 5 rt]"

definition emit_ldr_str_reg :: "int \<Rightarrow> int \<Rightarrow> int \<Rightarrow> int \<Rightarrow> int \<Rightarrow> int \<Rightarrow> int \<Rightarrow> u32 list" where
  "emit_ldr_str_reg sz fp opc rm shift rn rt =
     [0x38206800 OR field 30 2 sz OR field 26 1 fp OR
      field 22 2 (effective_opc sz opc) OR field 16 5 rm OR
      field 12 1 (of_bool (shift \<noteq> 0)) OR field 5 5 rn OR field 0 5 rt]"

definition emit_ldur_stur :: "int \<Rightarrow> int \<Rightarrow> int \<Rightarrow> int \<Rightarrow> int \<Rightarrow> u32 list" where
  "emit_ldur_stur sz opc simm9 rn rt =
     [0x38000000 OR field 30 2 sz OR field 22 2 opc OR field 12 9 simm9 OR
      field 5 5 rn OR field 0 5 rt]"

definition emit_ldr_imm :: "int \<Rightarrow> int \<Rightarrow> int \<Rightarrow> int \<Rightarrow> u32 list" where
  "emit_ldr_imm sz rt rn imm12 = emit_ldr_str_imm sz 0 1 imm12 rn rt"

definition emit_str_imm :: "int \<Rightarrow> int \<Rightarrow> int \<Rightarrow> int \<Rightarrow> u32 list" where
  "emit_str_imm sz rt rn imm12 = emit_ldr_str_imm sz 0 0 imm12 rn rt"

definition emit_fldr_imm :: "int \<Rightarrow> int \<Rightarrow> int \<Rightarrow> int \<Rightarrow> u32 list" where
  "emit_fldr_imm sz dt rn imm12 = emit_ldr_str_imm sz 1 1 imm12 rn dt"

definition emit_fstr_imm :: "int \<Rightarrow> int \<Rightarrow> int \<Rightarrow> int \<Rightarrow> u32 list" where
  "emit_fstr_imm sz dt rn imm12 = emit_ldr_str_imm sz 1 0 imm12 rn dt"

definition emit_fldr_reg :: "int \<Rightarrow> int \<Rightarrow> int \<Rightarrow> int \<Rightarrow> int \<Rightarrow> u32 list" where
  "emit_fldr_reg sz dt rn rm shift = emit_ldr_str_reg sz 1 1 rm shift rn dt"

definition emit_fstr_reg :: "int \<Rightarrow> int \<Rightarrow> int \<Rightarrow> int \<Rightarrow> int \<Rightarrow> u32 list" where
  "emit_fstr_reg sz dt rn rm shift = emit_ldr_str_reg sz 1 0 rm shift rn dt"

definition emit_ldrs :: "int \<Rightarrow> int \<Rightarrow> int \<Rightarrow> int \<Rightarrow> u32 list" where
  "emit_ldrs is64 sz dst addr = emit_ldr_str_imm sz 0 (if is64 = 1 then 2 else 3) 0 addr dst"

definition emit_str_q_imm :: "int \<Rightarrow> int \<Rightarrow> int \<Rightarrow> u32 list" where
  "emit_str_q_imm qt rn imm12 =
     [0x3D800000 OR field 10 12 imm12 OR field 5 5 rn OR field 0 5 qt]"

definition emit_ldr_q_imm :: "int \<Rightarrow> int \<Rightarrow> int \<Rightarrow> u32 list" where
  "emit_ldr_q_imm qt rn imm12 =
     [0x3DC00000 OR field 10 12 imm12 OR field 5 5 rn OR field 0 5 qt]"

definition emit_stp_s_imm :: "int \<Rightarrow> int \<Rightarrow> int \<Rightarrow> int \<Rightarrow> u32 list" where
  "emit_stp_s_imm st1 st2 rn simm7 =
     [0x2D000000 OR field 15 7 simm7 OR field 10 5 st2 OR field 5 5 rn OR field 0 5 st1]"

definition emit_ld1_lane_s :: "int \<Rightarrow> int \<Rightarrow> int \<Rightarrow> u32 list" where
  "emit_ld1_lane_s vt rn lane =
     [0x0D408000 OR field 30 1 (drop_bit 1 lane) OR field 12 1 lane OR field 5 5 rn OR
      field 0 5 vt]"

definition emit_ld1_lane_d :: "int \<Rightarrow> int \<Rightarrow> int \<Rightarrow> u32 list" where
  "emit_ld1_lane_d vt rn lane =
     [0x0D408400 OR field 30 1 lane OR field 5 5 rn OR field 0 5 vt]"

section \<open>Floating point\<close>

definition emit_fp_dp2 :: "int \<Rightarrow> int \<Rightarrow> int \<Rightarrow> int \<Rightarrow> int \<Rightarrow> u32 list" where
  "emit_fp_dp2 type opcode rd rn rm =
     [0x1E200800 OR field 22 2 type OR field 16 5 rm OR field 12 4 opcode OR
      field 5 5 rn OR field 0 5 rd]"

definition emit_fadd_f64 :: "int \<Rightarrow> int \<Rightarrow> int \<Rightarrow> u32 list" where
  "emit_fadd_f64 dd dn dm = emit_fp_dp2 1 2 dd dn dm"

definition emit_fsub_f64 :: "int \<Rightarrow> int \<Rightarrow> int \<Rightarrow> u32 list" where
  "emit_fsub_f64 dd dn dm = emit_fp_dp2 1 3 dd dn dm"

definition emit_fmul_f64 :: "int \<Rightarrow> int \<Rightarrow> int \<Rightarrow> u32 list" where
  "emit_fmul_f64 dd dn dm = emit_fp_dp2 1 0 dd dn dm"

definition emit_fdiv_f64 :: "int \<Rightarrow> int \<Rightarrow> int \<Rightarrow> u32 list" where
  "emit_fdiv_f64 dd dn dm = emit_fp_dp2 1 1 dd dn dm"

definition emit_fp_dp3 :: "int \<Rightarrow> int \<Rightarrow> int \<Rightarrow> int \<Rightarrow> int \<Rightarrow> int \<Rightarrow> int \<Rightarrow> u32 list" where
  "emit_fp_dp3 type o1 o0 rd rn rm ra =
     [0x1F000000 OR field 22 2 type OR field 21 1 o1 OR field 16 5 rm OR field 15 1 o0 OR
      field 10 5 ra OR field 5 5 rn OR field 0 5 rd]"

definition emit_fmadd_f64 :: "int \<Rightarrow> int \<Rightarrow> int \<Rightarrow> int \<Rightarrow> u32 list" where
  "emit_fmadd_f64 dd dn dm da = emit_fp_dp3 1 0 0 dd dn dm da"

definition emit_fmsub_f64 :: "int \<Rightarrow> int \<Rightarrow> int \<Rightarrow> int \<Rightarrow> u32 list" where
  "emit_fmsub_f64 dd dn dm da = emit_fp_dp3 1 0 1 dd dn dm da"

definition emit_fnmsub_f64 :: "int \<Rightarrow> int \<Rightarrow> int \<Rightarrow> int \<Rightarrow> u32 list" where
  "emit_fnmsub_f64 dd dn dm da = emit_fp_dp3 1 1 1 dd dn dm da"

definition emit_fp_dp1 :: "int \<Rightarrow> int \<Rightarrow> int \<Rightarrow> int \<Rightarrow> u32 list" where
  "emit_fp_dp1 type opcode rd rn =
     [0x1E204000 OR field 22 2 type OR field 15 6 opcode OR field 5 5 rn OR field 0 5 rd]"

definition emit_fmov_f64 :: "int \<Rightarrow> int \<Rightarrow> u32 list" where
  "emit_fmov_f64 dd dn = emit_fp_dp1 1 0 dd dn"

definition emit_fabs_f64 :: "int \<Rightarrow> int \<Rightarrow> u32 list" where
  "emit_fabs_f64 dd dn = emit_fp_dp1 1 1 dd dn"

definition emit_fneg_f64 :: "int \<Rightarrow> int \<Rightarrow> u32 list" where
  "emit_fneg_f64 dd dn = emit_fp_dp1 1 2 dd dn"

definition emit_fsqrt_f64 :: "int \<Rightarrow> int \<Rightarrow> u32 list" where
  "emit_fsqrt_f64 dd dn = emit_fp_dp1 1 3 dd dn"

definition emit_frinta_f64 :: "int \<Rightarrow> int \<Rightarrow> u32 list" where
  "emit_frinta_f64 dd dn = emit_fp_dp1 1 12 dd dn"

definition emit_frintz_f64 :: "int \<Rightarrow> int \<Rightarrow> u32 list" where
  "emit_frintz_f64 dd dn = emit_fp_dp1 1 11 dd dn"

definition emit_frintn_f64 :: "int \<Rightarrow> int \<Rightarrow> u32 list" where
  "emit_frintn_f64 dd dn = emit_fp_dp1 1 8 dd dn"

definition emit_fp_cmp :: "int \<Rightarrow> int \<Rightarrow> int \<Rightarrow> u32 list" where
  "emit_fp_cmp type rn rm =
     [0x1E202000 OR field 22 2 type OR field 16 5 rm OR field 5 5 rn]"

definition emit_fcmp_f64 :: "int \<Rightarrow> int \<Rightarrow> u32 list" where
  "emit_fcmp_f64 dn dm = emit_fp_cmp 1 dn dm"

definition emit_fcmp_zero_f64 :: "int \<Rightarrow> u32 list" where
  "emit_fcmp_zero_f64 dn =
     [0x1E602008 OR field 5 5 dn]"

definition emit_fcmeq_f64 :: "int \<Rightarrow> int \<Rightarrow> int \<Rightarrow> u32 list" where
  "emit_fcmeq_f64 dd dn dm =
     [0x5E60E400 OR field 16 5 dm OR field 5 5 dn OR field 0 5 dd]"

definition emit_fcvt :: "int \<Rightarrow> int \<Rightarrow> int \<Rightarrow> int \<Rightarrow> u32 list" where
  "emit_fcvt dst_type src_type rd rn = emit_fp_dp1 src_type (4 OR take_bit 2 dst_type) rd rn"

definition emit_fcvt_s_to_d :: "int \<Rightarrow> int \<Rightarrow> u32 list" where
  "emit_fcvt_s_to_d dd sn = emit_fcvt 1 0 dd sn"

definition emit_fcvt_d_to_s :: "int \<Rightarrow> int \<Rightarrow> u32 list" where
  "emit_fcvt_d_to_s sd dn = emit_fcvt 0 1 sd dn"

definition emit_fmov_gpr_fpr :: "int \<Rightarrow> int \<Rightarrow> int \<Rightarrow> u32 list" where
  "emit_fmov_gpr_fpr dir gpr fpr =
     (if dir = 0 then [0x9E670000 OR field 5 5 gpr OR field 0 5 fpr]
      else [0x9E660000 OR field 5 5 fpr OR field 0 5 gpr])"

definition emit_fmov_x_to_d :: "int \<Rightarrow> int \<Rightarrow> u32 list" where
  "emit_fmov_x_to_d dd xn = emit_fmov_gpr_fpr 0 xn dd"

definition emit_fmov_d_to_x :: "int \<Rightarrow> int \<Rightarrow> u32 list" where
  "emit_fmov_d_to_x xd dn = emit_fmov_gpr_fpr 1 xd dn"

definition emit_movi_d_zero :: "int \<Rightarrow> u32 list" where
  "emit_movi_d_zero dd =
     [0x2F00E400 OR field 0 5 dd]"

text \<open>The halfwords from the top down: the first non-zero one with \<^verbatim>\<open>MOVZ\<close>, the others with
  \<^verbatim>\<open>MOVK\<close>.\<close>

fun f64_const_loop :: "nat list \<Rightarrow> bool \<Rightarrow> u64 \<Rightarrow> int \<Rightarrow> u32 list" where
  "f64_const_loop [] first bits xtmp = []"
| "f64_const_loop (hw # hws) first bits xtmp =
     (let h = drop_bit (hw * 16) bits AND 0xFFFF in
      if h = 0 \<and> \<not> (first \<and> hw = 0) then f64_const_loop hws first bits xtmp
      else emit_movn 1 (if first then 2 else 3) (int hw) (uint h) xtmp @ f64_const_loop hws False bits xtmp)"

definition emit_f64_const :: "int \<Rightarrow> u64 \<Rightarrow> int \<Rightarrow> u32 list" where
  "emit_f64_const dd bits xtmp = f64_const_loop [3, 2, 1, 0] True bits xtmp @ emit_fmov_x_to_d dd xtmp"

definition emit_fmov_d_one :: "int \<Rightarrow> int \<Rightarrow> u32 list" where
  "emit_fmov_d_one dd xtmp = emit_f64_const dd 0x3FF0000000000000 xtmp"

definition emit_dup_v4s_from_s :: "int \<Rightarrow> int \<Rightarrow> u32 list" where
  "emit_dup_v4s_from_s vd vn =
     [0x4E040400 OR field 5 5 vn OR field 0 5 vd]"

definition emit_fcvtl_v2d_from_v2s :: "int \<Rightarrow> int \<Rightarrow> u32 list" where
  "emit_fcvtl_v2d_from_v2s vd vn =
     [0x0E617800 OR field 5 5 vn OR field 0 5 vd]"

definition emit_fcvtl2_v2d_from_v4s :: "int \<Rightarrow> int \<Rightarrow> u32 list" where
  "emit_fcvtl2_v2d_from_v4s vd vn =
     [0x4E617800 OR field 5 5 vn OR field 0 5 vd]"

definition emit_fmla_v2d :: "int \<Rightarrow> int \<Rightarrow> int \<Rightarrow> u32 list" where
  "emit_fmla_v2d vd vn vm =
     [0x4E60CC00 OR field 16 5 vm OR field 5 5 vn OR field 0 5 vd]"

definition emit_faddp_d_from_v2d :: "int \<Rightarrow> int \<Rightarrow> u32 list" where
  "emit_faddp_d_from_v2d dd vn =
     [0x7E70D800 OR field 5 5 vn OR field 0 5 dd]"

definition emit_scvtf :: "int \<Rightarrow> int \<Rightarrow> int \<Rightarrow> int \<Rightarrow> u32 list" where
  "emit_scvtf is64 ftype rd rn =
     [0x1E220000 OR field 31 1 (of_bool (is64 \<noteq> 0)) OR field 22 2 ftype OR
      field 5 5 rn OR field 0 5 rd]"

definition emit_scvtf_x_to_d :: "int \<Rightarrow> int \<Rightarrow> u32 list" where
  "emit_scvtf_x_to_d dd xn = emit_scvtf 1 1 dd xn"

definition emit_fcvtzs :: "int \<Rightarrow> int \<Rightarrow> int \<Rightarrow> int \<Rightarrow> u32 list" where
  "emit_fcvtzs ftype is64 rd rn =
     [0x1E380000 OR field 31 1 (of_bool (is64 \<noteq> 0)) OR field 22 2 ftype OR
      field 5 5 rn OR field 0 5 rd]"

definition emit_fcvt_fp_to_int :: "int \<Rightarrow> int \<Rightarrow> int \<Rightarrow> int \<Rightarrow> int \<Rightarrow> u32 list" where
  "emit_fcvt_fp_to_int sf ftype rmode rd rn =
     [0x1E200000 OR field 31 1 (of_bool (sf \<noteq> 0)) OR field 22 2 ftype OR
      field 21 1 1 OR field 19 2 rmode OR field 5 5 rn OR field 0 5 rd]"

definition emit_fmov_f64_reg :: "int \<Rightarrow> int \<Rightarrow> u32 list" where
  "emit_fmov_f64_reg dd dn =
     [0x1E604000 OR field 5 5 dn OR field 0 5 dd]"

section \<open>System registers and branches\<close>

definition emit_mrs_nzcv :: "int \<Rightarrow> u32 list" where
  "emit_mrs_nzcv xd =
     [0xD53B4200 OR field 0 5 xd]"

definition emit_msr_nzcv :: "int \<Rightarrow> u32 list" where
  "emit_msr_nzcv xd =
     [0xD51B4200 OR field 0 5 xd]"

definition emit_mrs_fpcr :: "int \<Rightarrow> u32 list" where
  "emit_mrs_fpcr xd =
     [0xD53B4400 OR field 0 5 xd]"

definition emit_msr_fpcr :: "int \<Rightarrow> u32 list" where
  "emit_msr_fpcr xd =
     [0xD51B4400 OR field 0 5 xd]"

definition emit_cbz :: "int \<Rightarrow> int \<Rightarrow> int \<Rightarrow> int \<Rightarrow> u32 list" where
  "emit_cbz is64 nz rt imm19 =
     [0x34000000 OR field 31 1 (of_bool (is64 \<noteq> 0)) OR
      field 24 1 (of_bool (nz \<noteq> 0)) OR field 5 19 imm19 OR field 0 5 rt]"

definition emit_tbz :: "int \<Rightarrow> int \<Rightarrow> int \<Rightarrow> int \<Rightarrow> u32 list" where
  "emit_tbz nz rt b imm14 =
     [0x36000000 OR field 31 1 (drop_bit 5 b) OR field 24 1 (of_bool (nz \<noteq> 0)) OR
      field 19 5 b OR field 5 14 imm14 OR field 0 5 rt]"

definition emit_b :: "int \<Rightarrow> u32 list" where
  "emit_b imm26 =
     [0x14000000 OR field 0 26 imm26]"

definition emit_b_cond :: "int \<Rightarrow> int \<Rightarrow> u32 list" where
  "emit_b_cond cnd imm19 =
     [0x54000000 OR field 5 19 imm19 OR field 0 4 cnd]"

definition emit_fcsel_f64 :: "int \<Rightarrow> int \<Rightarrow> int \<Rightarrow> int \<Rightarrow> u32 list" where
  "emit_fcsel_f64 dd dn dm cnd =
     (if dd = dm then emit_b_cond (cnd XOR 1) 2 @ emit_fmov_f64_reg dd dn
      else if dd = dn then emit_b_cond cnd 2 @ emit_fmov_f64_reg dd dm
      else emit_fmov_f64_reg dd dm @ emit_b_cond (cnd XOR 1) 2 @ emit_fmov_f64_reg dd dn)"

end
