(* ===== verification/Alloc.thy ===== *)
theory Alloc
  imports Dispatch A64_Encode
begin

text \<open>
  The scratch-register allocators of \<^verbatim>\<open>TranslatorHelpers.cpp\<close> and the two emitters built directly on
  them that every translation uses: loading an immediate and forming an address.  An allocator that
  cannot hand out a register records the failure and returns a placeholder.  Emitters return the words
  they append; \<^verbatim>\<open>strict_alloc\<close>, which turns a failure into an abort for the test harness, is off.
\<close>

section \<open>The pools\<close>

text \<open>The fault-injection globals beside the translation result: every \<open>fail_every\<close>-th allocation
  fails, none when it is 0.\<close>

record estate = tresult +
  fail_every :: u32
  alloc_count :: u64

abbreviation kPlaceholderGpr :: int where "kPlaceholderGpr \<equiv> 22"
abbreviation kPlaceholderFpr :: int where "kPlaceholderFpr \<equiv> 24"
abbreviation kFprScratchMaskExt :: u32 where "kFprScratchMaskExt \<equiv> 0xFFFF0000"

definition configure_alloc_fault_injection :: "u32 \<Rightarrow> estate \<Rightarrow> estate" where
  "configure_alloc_fault_injection every st = st\<lparr>fail_every := every, alloc_count := 0\<rparr>"

definition fast_mask :: "estate \<Rightarrow> u32" where
  "fast_mask st = (if fail_every st \<noteq> 0 then 0 else -1)"

definition alloc_fails :: "bool \<Rightarrow> string \<Rightarrow> estate \<Rightarrow> bool \<times> estate" where
  "alloc_fails exhausted name st =
     (let (skip, st1) =
        (if exhausted then (False, st)
         else if fail_every st = 0 then (True, st)
         else (let n = alloc_count st + 1
               in (n mod ucast (fail_every st) \<noteq> 0, st\<lparr>alloc_count := n\<rparr>)))
      in if skip then (False, st1)
         else (True, if alloc_failure st1 = None then st1\<lparr>alloc_failure := Some name\<rparr> else st1))"

definition ctz32 :: "u32 \<Rightarrow> nat" where
  "ctz32 w = length (takeWhile (\<lambda>i. \<not> bit w i) [0..<32])"

definition lowest_gpr :: "string \<Rightarrow> estate \<Rightarrow> int \<times> estate" where
  "lowest_gpr name st =
     (let fm = free_gpr_mask st;
          (failed, st1) = (if fm AND fast_mask st = 0 then alloc_fails (fm = 0) name st else (False, st))
      in if failed then (kPlaceholderGpr, st1)
         else (int (ctz32 fm), st1\<lparr>free_gpr_mask := fm AND NOT (push_bit (ctz32 fm) 1)\<rparr>))"

definition alloc_free_gpr :: "estate \<Rightarrow> int \<times> estate" where
  "alloc_free_gpr st = lowest_gpr ''alloc_free_gpr'' st"

definition alloc_scratch_gpr :: "estate \<Rightarrow> int \<times> estate" where
  "alloc_scratch_gpr st = lowest_gpr ''alloc_scratch_gpr'' st"

definition alloc_gpr :: "nat \<Rightarrow> estate \<Rightarrow> int \<times> estate" where
  "alloc_gpr pool_index st =
     (let r = 22 + pool_index; b = push_bit r 1 :: u32;
          (failed, st1) = (if free_gpr_mask st AND b AND fast_mask st = 0
             then alloc_fails (free_gpr_mask st AND b = 0) ''alloc_gpr'' st else (False, st))
      in (int r, if failed then st1 else st1\<lparr>free_gpr_mask := free_gpr_mask st1 AND NOT b\<rparr>))"

definition resolve_hint_gpr :: "int \<Rightarrow> estate \<Rightarrow> int \<times> estate" where
  "resolve_hint_gpr hint st = (if hint = XZR then alloc_free_gpr st else (hint, st))"

definition is_scratch_pool_reg :: "int \<Rightarrow> bool" where
  "is_scratch_pool_reg r \<longleftrightarrow> 0 \<le> r \<and> r < 32 \<and> bit kGprScratchMask (nat r)"

definition free_gpr :: "int \<Rightarrow> estate \<Rightarrow> estate" where
  "free_gpr r st =
     (if bit kGprScratchMask (nat r) then st\<lparr>free_gpr_mask := free_gpr_mask st OR push_bit (nat r) 1\<rparr> else st)"

definition alloc_free_fpr :: "estate \<Rightarrow> int \<times> estate" where
  "alloc_free_fpr st =
     (let fm = free_fpr_mask st;
          (failed, st1) = (if fm AND fast_mask st = 0 then alloc_fails (fm = 0) ''alloc_free_fpr'' st else (False, st))
      in if failed then (kPlaceholderFpr, st1)
         else (int (ctz32 fm), st1\<lparr>free_fpr_mask := fm AND NOT (push_bit (ctz32 fm) 1)\<rparr>))"

definition free_fpr :: "int \<Rightarrow> estate \<Rightarrow> estate" where
  "free_fpr r st =
     (if bit kFprScratchMaskExt (nat r) then st\<lparr>free_fpr_mask := free_fpr_mask st OR push_bit (nat r) 1\<rparr> else st)"

section \<open>Loading an immediate\<close>

definition chunk :: "u64 \<Rightarrow> nat \<Rightarrow> u64" where
  "chunk v i = drop_bit (16 * i) v AND 0xFFFF"

definition move_wide_sequence :: "bool \<Rightarrow> u64 \<Rightarrow> int \<Rightarrow> u32 list" where
  "move_wide_sequence is64 v r =
     (let chunks = (if is64 then [0..<4] else [0..<2]);
          use_movz = (length (filter (\<lambda>i. chunk v i = 0) chunks) \<ge> length (filter (\<lambda>i. chunk v i = 0xFFFF) chunks));
          working = (if use_movz then v else NOT v);
          nontrivial = filter (\<lambda>i. chunk working i \<noteq> 0) chunks;
          hi = (if nontrivial = [] then 0 else last nontrivial);
          lo = (if nontrivial = [] then 0 else hd nontrivial);
          trivial = (if use_movz then 0 else 0xFFFF)
      in emit_movn (of_bool is64) (if use_movz then 2 else 0) (int hi) (uint (chunk working hi)) r @
         concat (map (\<lambda>i. if chunk v i \<noteq> trivial then emit_movn (of_bool is64) 3 (int i) (uint (chunk v i)) r else [])
           (rev [lo..<hi])))"

definition emit_load_immediate :: "bool \<Rightarrow> u64 \<Rightarrow> int \<Rightarrow> estate \<Rightarrow> int \<times> u32 list \<times> estate" where
  "emit_load_immediate is64 v0 dst st =
     (if v0 = 0 then (XZR, [], st)
      else
        let (r, st1) = (if dst = XZR then alloc_free_gpr st else (dst, st));
            v = (if is64 then v0 else take_bit 32 v0)
        in if v = 0 then (r, emit_movn (of_bool is64) 2 0 0 r, st1)
           else (case is_bitmask_immediate is64 v of
               Some (n, immr, imms) \<Rightarrow> (r, emit_orr_imm (of_bool is64) r XZR n immr (imms AND 0x3F), st1)
             | None \<Rightarrow>
                 (case (if is64 \<and> drop_bit 32 v = 0 then is_bitmask_immediate False v else None) of
                    Some (n, immr, imms) \<Rightarrow> (r, emit_orr_imm 0 r XZR n immr (imms AND 0x3F), st1)
                  | None \<Rightarrow> (r, move_wide_sequence is64 v r, st1))))"

definition emit_load_immediate_no_xzr :: "bool \<Rightarrow> u64 \<Rightarrow> int \<Rightarrow> estate \<Rightarrow> u32 list \<times> estate" where
  "emit_load_immediate_no_xzr is64 v dst st =
     (let (r, ws, st1) = emit_load_immediate is64 v dst st
      in if r = XZR then (ws @ emit_movn (of_bool is64) 2 0 0 dst, st1) else (ws, st1))"

section \<open>Forming an address\<close>

text \<open>\<open>Some (sub, shift, imm)\<close> when one ADD or SUB immediate adds the displacement.\<close>

definition encode_disp :: "u64 \<Rightarrow> (bool \<times> int \<times> int) option" where
  "encode_disp d =
     (if d < 0x1000 then Some (False, 0, uint d)
      else if d AND 0xFFFFFFFFFF000FFF = 0 then Some (False, 1, uint (drop_bit 12 d))
      else (let neg = - d in
            if neg < 0x1000 then Some (True, 0, uint neg)
            else if neg AND 0xFFFFFFFFFF000FFF = 0 then Some (True, 1, uint (drop_bit 12 neg))
            else None))"

text \<open>The register a displacement is built in and the register the result goes to: the same scratch
  register where the caller's is one or gave none.\<close>

definition disp_reg :: "int \<Rightarrow> estate \<Rightarrow> int \<times> int \<times> estate" where
  "disp_reg dst st =
     (if is_scratch_pool_reg dst then (dst, dst, st)
      else (let (a, st1) = alloc_scratch_gpr st in (a, if dst = XZR then a else dst, st1)))"

definition dst_or_scratch :: "int \<Rightarrow> estate \<Rightarrow> int \<times> estate" where
  "dst_or_scratch dst st = (if dst = XZR then alloc_scratch_gpr st else (dst, st))"

definition release_temp :: "int \<Rightarrow> int \<Rightarrow> estate \<Rightarrow> estate" where
  "release_temp t r st = (if t \<noteq> r then free_gpr t st else st)"

definition compute_mem_operand_address ::
  "bool \<Rightarrow> ioperand \<Rightarrow> int \<Rightarrow> estate \<Rightarrow> (int \<times> u32 list \<times> estate) option" where
  "compute_mem_operand_address is64 op dst st =
     (let d = disp op; w = of_bool is64 :: int; k = uint (shift_amount op);
          base = uint (base_reg op AND 0xF); index = uint (index_reg op AND 0xF)
      in if bit (mem_flags op) 0 \<and> bit (mem_flags op) 1 then
           (if base_reg op \<ge> 0x50 \<or> index_reg op \<ge> 0x50 then None
            else if d \<noteq> 0 then
              (let (t, r, st1) = disp_reg dst st in
               case encode_disp d of
                 Some (sub, shift, imm) \<Rightarrow>
                   Some (r, emit_add_imm w (of_bool sub) 0 shift imm base t @
                            emit_add_sub_shifted_reg w 0 0 0 index k t r, release_temp t r st1)
               | None \<Rightarrow>
                   (let (ws, st2) = emit_load_immediate_no_xzr is64 d t st1
                    in Some (r, ws @ emit_add_sub_shifted_reg w 0 0 0 index k t t @ emit_add_reg w r base t,
                             release_temp t r st2)))
            else (let (r, st1) = dst_or_scratch dst st
                  in Some (r, emit_add_sub_shifted_reg w 0 0 0 index k base r, st1)))
         else if bit (mem_flags op) 0 then
           (if base_reg op \<ge> 0x50 then None
            else if d \<noteq> 0 then
              (case encode_disp d of
                 None \<Rightarrow>
                   (let (t, r, st1) = disp_reg dst st; (ws, st2) = emit_load_immediate_no_xzr is64 d t st1
                    in Some (r, ws @ emit_add_reg w r base t, release_temp t r st2))
               | Some (sub, shift, imm) \<Rightarrow>
                   (let (r, st1) = dst_or_scratch dst st
                    in Some (r, emit_add_imm w (of_bool sub) 0 shift imm base r, st1)))
            else if \<not> is64 then
              (let (r, st1) = dst_or_scratch dst st in Some (r, emit_mov_reg 0 r base, st1))
            else Some (base, [], st))
         else if bit (mem_flags op) 1 then
           (if index_reg op \<ge> 0x50 then None
            else if d \<noteq> 0 then
              (let (t, r, st1) = disp_reg dst st; (ws, st2) = emit_load_immediate_no_xzr is64 d t st1
               in Some (r, ws @ emit_add_sub_shifted_reg w 0 0 0 index k t r, release_temp t r st2))
            else if shift_amount op \<noteq> 0 then
              (let (r, st1) = dst_or_scratch dst st; width = (if is64 then 64 else 32)
               in Some (r, emit_bitfield w 2 w (width - k) (width - k - 1) index r, st1))
            else if is64 then Some (index, [], st)
            else (let (r, st1) = dst_or_scratch dst st in Some (r, emit_mov_reg 0 r index, st1)))
         else if d \<noteq> 0 then Some (emit_load_immediate is64 d dst st)
         else (let (r, st1) = dst_or_scratch dst st in Some (r, emit_movn 0 2 0 0 r, st1)))"

end
