(* ===== verification/X87_Emit.thy ===== *)
theory X87_Emit
  imports Alloc Slot_Plan
begin

text \<open>
  The code generators of \<^verbatim>\<open>TranslatorX87Helpers.cpp\<close> for the x87 state in memory: the status
  word with TOP in bits 11 to 13, the tag word with two bits per register, and the register file.
  \<open>native\<close> is \<^verbatim>\<open>g_x87_native_layout\<close>; what an emitter tells the slot tracker is a definition of
  its own.
\<close>

abbreviation kX87StatusWordImm12 :: int where "kX87StatusWordImm12 \<equiv> 1"
abbreviation kX87TagWordImm12 :: int where "kX87TagWordImm12 \<equiv> 2"
abbreviation kX87RegFileOff :: int where "kX87RegFileOff \<equiv> 8"
abbreviation kX87NativeSlotOff :: int where "kX87NativeSlotOff \<equiv> 6"
abbreviation kX87ThreadReg :: int where "kX87ThreadReg \<equiv> 18"
abbreviation kX87TopShift :: int where "kX87TopShift \<equiv> 11"

section \<open>Base and TOP\<close>

text \<open>\<open>offset\<close> is the thread context's \<^verbatim>\<open>x87_state_offset\<close>.\<close>

definition emit_x87_base :: "int \<Rightarrow> int \<Rightarrow> u32 list" where
  "emit_x87_base offset xd =
     (if offset \<le> 0xFFF then emit_add_imm 1 0 0 0 offset kX87ThreadReg xd
      else if take_bit 12 offset = 0 then emit_add_imm 1 0 0 1 (drop_bit 12 offset) kX87ThreadReg xd
      else emit_add_imm 1 0 0 1 (drop_bit 12 offset) kX87ThreadReg xd @
           emit_add_imm 1 0 0 0 (take_bit 12 offset) xd xd)"

definition emit_load_top :: "int \<Rightarrow> int \<Rightarrow> int \<Rightarrow> u32 list" where
  "emit_load_top offset xbase wd_top =
     (let sw_byte_off = offset + 2;
          direct = (sw_byte_off mod 2 = 0 \<and> sw_byte_off \<le> 0x1FFE);
          base_reg = (if direct then kX87ThreadReg else xbase);
          imm12 = (if direct then sw_byte_off div 2 else kX87StatusWordImm12)
      in emit_ldr_str_imm 1 0 1 imm12 base_reg wd_top @
         emit_bitfield 0 2 0 kX87TopShift (kX87TopShift + 2) wd_top wd_top)"

definition emit_store_top :: "int \<Rightarrow> int \<Rightarrow> int \<Rightarrow> u32 list" where
  "emit_store_top xbase wd_new_top wd_tmp =
     emit_ldr_str_imm 1 0 1 kX87StatusWordImm12 xbase wd_tmp @
     emit_bitfield 0 1 0 21 2 wd_new_top wd_tmp @
     emit_ldr_str_imm 1 0 0 kX87StatusWordImm12 xbase wd_tmp"

section \<open>Slots\<close>

definition emit_phys_index :: "int \<Rightarrow> int \<Rightarrow> int \<Rightarrow> u32 list" where
  "emit_phys_index wd_top stack_depth wd_out =
     (if stack_depth = 0 then (if wd_out \<noteq> wd_top then emit_mov_reg 0 wd_out wd_top else [])
      else emit_add_imm 0 0 0 0 stack_depth wd_top wd_out @ emit_and_imm 0 wd_out 0 0 2 wd_out)"

definition emit_native_slot_key :: "int \<Rightarrow> int \<Rightarrow> int \<Rightarrow> u32 list" where
  "emit_native_slot_key wd_top stack_depth wd_key =
     (let wsrc = (if stack_depth \<noteq> 0 then wd_key else wd_top) in
      (if stack_depth \<noteq> 0 then emit_add_imm 0 0 0 0 stack_depth wd_top wd_key else []) @
      emit_bitfield 0 2 0 31 2 wsrc wd_key @
      emit_add_sub_shifted_reg 0 0 0 0 wd_key 2 wd_key wd_key)"

definition emit_native_slot_offset :: "int \<Rightarrow> int \<Rightarrow> u32 list" where
  "emit_native_slot_offset wphys wd =
     emit_native_slot_key wphys 0 wd @ emit_add_imm 0 0 0 0 kX87NativeSlotOff wd wd"

definition emit_native_st_key :: "int \<Rightarrow> int \<Rightarrow> int \<Rightarrow> int \<Rightarrow> u32 list" where
  "emit_native_st_key wd_top stack_depth wd_tmp xbase_st =
     emit_native_slot_key wd_top stack_depth wd_tmp @
     (if xbase_st < 0 then emit_add_imm 0 0 0 0 kX87NativeSlotOff wd_tmp wd_tmp else [])"

definition emit_native_st_addr :: "int \<Rightarrow> int \<Rightarrow> int \<Rightarrow> int \<Rightarrow> int \<Rightarrow> u32 list" where
  "emit_native_st_addr xbase wd_top stack_depth xd xbase_st =
     emit_native_st_key wd_top stack_depth xd xbase_st @
     emit_add_sub_shifted_reg 1 0 0 0 xd 0 (if xbase_st \<ge> 0 then xbase_st else xbase) xd"

text \<open>A load of \<open>ST(depth)\<close> also returns the key register a later store can use.\<close>

definition emit_load_st :: "bool \<Rightarrow> int \<Rightarrow> int \<Rightarrow> int \<Rightarrow> int \<Rightarrow> int \<Rightarrow> int \<Rightarrow> u32 list \<times> int" where
  "emit_load_st native xbase wd_top stack_depth wd_tmp dd xbase_st =
     (if native then
        (emit_native_st_key wd_top stack_depth wd_tmp xbase_st @
         emit_ldr_str_reg 3 1 1 wd_tmp 0 (if xbase_st \<ge> 0 then xbase_st else xbase) dd, wd_tmp)
      else if xbase_st \<ge> 0 then
        (if stack_depth = 0 then (emit_ldr_str_reg 3 1 1 wd_top 1 xbase_st dd, wd_top)
         else (emit_phys_index wd_top stack_depth wd_tmp @ emit_ldr_str_reg 3 1 1 wd_tmp 1 xbase_st dd, wd_tmp))
      else
        (emit_phys_index wd_top stack_depth wd_tmp @ emit_bitfield 0 2 0 29 28 wd_tmp wd_tmp @
         emit_add_imm 0 0 0 0 kX87RegFileOff wd_tmp wd_tmp @ emit_ldr_str_reg 3 1 1 wd_tmp 0 xbase dd, wd_tmp))"

definition track_load_st :: "bool \<Rightarrow> nat \<Rightarrow> x87_cache \<Rightarrow> string option" where
  "track_load_st native stack_depth c = (if native then slot_note_read c stack_depth else None)"

definition emit_store_st :: "bool \<Rightarrow> int \<Rightarrow> int \<Rightarrow> int \<Rightarrow> int \<Rightarrow> int \<Rightarrow> int \<Rightarrow> u32 list" where
  "emit_store_st native xbase wd_top stack_depth wd_tmp dd xbase_st =
     (if native then
        emit_native_st_key wd_top stack_depth wd_tmp xbase_st @
        emit_ldr_str_reg 3 1 0 wd_tmp 0 (if xbase_st \<ge> 0 then xbase_st else xbase) dd
      else if xbase_st \<ge> 0 then
        (if stack_depth = 0 then emit_ldr_str_reg 3 1 0 wd_top 1 xbase_st dd
         else emit_phys_index wd_top stack_depth wd_tmp @ emit_ldr_str_reg 3 1 0 wd_tmp 1 xbase_st dd)
      else
        emit_phys_index wd_top stack_depth wd_tmp @ emit_bitfield 0 2 0 29 28 wd_tmp wd_tmp @
        emit_add_imm 0 0 0 0 kX87RegFileOff wd_tmp wd_tmp @ emit_ldr_str_reg 3 1 0 wd_tmp 0 xbase dd)"

definition track_store_st :: "bool \<Rightarrow> nat \<Rightarrow> x87_cache \<Rightarrow> x87_cache" where
  "track_store_st native stack_depth c = (if native then slot_note_write c stack_depth else c)"

definition emit_store_st_at_offset :: "bool \<Rightarrow> int \<Rightarrow> int \<Rightarrow> int \<Rightarrow> int \<Rightarrow> u32 list" where
  "emit_store_st_at_offset native xbase wd_key dd xbase_st =
     (if native then emit_ldr_str_reg 3 1 0 wd_key 0 (if xbase_st \<ge> 0 then xbase_st else xbase) dd
      else if xbase_st \<ge> 0 then emit_ldr_str_reg 3 1 0 wd_key 1 xbase_st dd
      else emit_ldr_str_reg 3 1 0 wd_key 0 xbase dd)"

section \<open>Tags\<close>

definition emit_x87_tag_clear :: "int \<Rightarrow> int \<Rightarrow> int \<Rightarrow> int \<Rightarrow> u32 list" where
  "emit_x87_tag_clear xbase wd_top wd_tmp wd_tmp2 =
     emit_bitfield 0 2 0 31 30 wd_top wd_tmp2 @
     emit_movn 0 2 0 3 wd_tmp @
     emit_lslv 0 wd_tmp2 wd_tmp wd_tmp @
     emit_ldr_str_imm 1 0 1 kX87TagWordImm12 xbase wd_tmp2 @
     emit_logical_shifted_reg 0 0 1 0 wd_tmp 0 wd_tmp2 wd_tmp2 @
     emit_ldr_str_imm 1 0 0 kX87TagWordImm12 xbase wd_tmp2"

fun tag_set_empty_loop :: "int list \<Rightarrow> int \<Rightarrow> int \<Rightarrow> int \<Rightarrow> int \<Rightarrow> int \<Rightarrow> u32 list" where
  "tag_set_empty_loop [] wd_top wd_tmp wd_tmp2 wd_tagw count = []"
| "tag_set_empty_loop (i # is) wd_top wd_tmp wd_tmp2 wd_tagw count =
     emit_add_imm 0 1 0 0 (count - i) wd_top wd_tmp @
     emit_and_imm 0 wd_tmp 0 0 2 wd_tmp @
     emit_bitfield 0 2 0 31 30 wd_tmp wd_tmp @
     emit_movn 0 2 0 3 wd_tmp2 @
     emit_lslv 0 wd_tmp wd_tmp2 wd_tmp2 @
     emit_logical_shifted_reg 0 1 0 0 wd_tmp2 0 wd_tagw wd_tagw @
     tag_set_empty_loop is wd_top wd_tmp wd_tmp2 wd_tagw count"

definition emit_x87_tag_set_empty_batch :: "int \<Rightarrow> int \<Rightarrow> int \<Rightarrow> int \<Rightarrow> int \<Rightarrow> int \<Rightarrow> u32 list" where
  "emit_x87_tag_set_empty_batch xbase wd_top wd_tmp wd_tmp2 wd_tagw count =
     emit_ldr_str_imm 1 0 1 kX87TagWordImm12 xbase wd_tagw @
     tag_set_empty_loop [0..count - 1] wd_top wd_tmp wd_tmp2 wd_tagw count @
     emit_ldr_str_imm 1 0 0 kX87TagWordImm12 xbase wd_tagw"

definition emit_x87_tag_set_valid_batch :: "int \<Rightarrow> int \<Rightarrow> int \<Rightarrow> int \<Rightarrow> int \<Rightarrow> int \<Rightarrow> u32 list" where
  "emit_x87_tag_set_valid_batch xbase wd_top wd_tmp wd_tmp2 wd_tagw count =
     emit_ldr_str_imm 1 0 1 kX87TagWordImm12 xbase wd_tagw @
     emit_bitfield 0 2 0 31 30 wd_top wd_tmp @
     emit_movn 0 2 0 (take_bit 16 (2 ^ nat (2 * count) - 1)) wd_tmp2 @
     emit_lslv 0 wd_tmp wd_tmp2 wd_tmp2 @
     emit_logical_shifted_reg 0 1 0 1 wd_tmp2 16 wd_tmp2 wd_tmp2 @
     emit_logical_shifted_reg 0 0 1 0 wd_tmp2 0 wd_tagw wd_tagw @
     emit_ldr_str_imm 1 0 0 kX87TagWordImm12 xbase wd_tagw"

section \<open>Pushing and popping\<close>

definition emit_x87_push_fully_deferred :: "int \<Rightarrow> u32 list" where
  "emit_x87_push_fully_deferred wd_top =
     emit_add_imm 0 1 0 0 1 wd_top wd_top @ emit_and_imm 0 wd_top 0 0 2 wd_top"

definition emit_x87_pop_top_only :: "int \<Rightarrow> u32 list" where
  "emit_x87_pop_top_only wd_top =
     emit_add_imm 0 0 0 0 1 wd_top wd_top @ emit_and_imm 0 wd_top 0 0 2 wd_top"

definition emit_x87_push :: "int \<Rightarrow> int \<Rightarrow> int \<Rightarrow> int \<Rightarrow> u32 list" where
  "emit_x87_push xbase wd_top wd_tmp wd_tmp2 =
     emit_add_imm 0 1 0 0 1 wd_top wd_top @
     emit_and_imm 0 wd_top 0 0 2 wd_top @
     emit_store_top xbase wd_top wd_tmp @
     emit_bitfield 0 2 0 31 30 wd_top wd_tmp2 @
     emit_movn 0 2 0 3 wd_tmp @
     emit_lslv 0 wd_tmp2 wd_tmp wd_tmp @
     emit_ldr_str_imm 1 0 1 kX87TagWordImm12 xbase wd_tmp2 @
     emit_logical_shifted_reg 0 0 1 0 wd_tmp 0 wd_tmp2 wd_tmp2 @
     emit_ldr_str_imm 1 0 0 kX87TagWordImm12 xbase wd_tmp2"

definition emit_x87_push_deferred :: "int \<Rightarrow> int \<Rightarrow> int \<Rightarrow> int \<Rightarrow> u32 list" where
  "emit_x87_push_deferred xbase wd_top wd_tmp wd_tmp2 =
     emit_add_imm 0 1 0 0 1 wd_top wd_top @
     emit_and_imm 0 wd_top 0 0 2 wd_top @
     emit_bitfield 0 2 0 31 30 wd_top wd_tmp2 @
     emit_movn 0 2 0 3 wd_tmp @
     emit_lslv 0 wd_tmp2 wd_tmp wd_tmp @
     emit_ldr_str_imm 1 0 1 kX87TagWordImm12 xbase wd_tmp2 @
     emit_logical_shifted_reg 0 0 1 0 wd_tmp 0 wd_tmp2 wd_tmp2 @
     emit_ldr_str_imm 1 0 0 kX87TagWordImm12 xbase wd_tmp2"

definition emit_x87_pop_deferred :: "int \<Rightarrow> int \<Rightarrow> int \<Rightarrow> int \<Rightarrow> u32 list" where
  "emit_x87_pop_deferred xbase wd_top wd_tmp wd_tmp2 =
     emit_bitfield 0 2 0 31 30 wd_top wd_tmp2 @
     emit_movn 0 2 0 3 wd_tmp @
     emit_lslv 0 wd_tmp2 wd_tmp wd_tmp @
     emit_ldr_str_imm 1 0 1 kX87TagWordImm12 xbase wd_tmp2 @
     emit_logical_shifted_reg 0 1 0 0 wd_tmp 0 wd_tmp2 wd_tmp2 @
     emit_ldr_str_imm 1 0 0 kX87TagWordImm12 xbase wd_tmp2 @
     emit_add_imm 0 0 0 0 1 wd_top wd_top @
     emit_and_imm 0 wd_top 0 0 2 wd_top"

definition emit_x87_pop :: "int \<Rightarrow> int \<Rightarrow> int \<Rightarrow> int \<Rightarrow> u32 list" where
  "emit_x87_pop xbase wd_top wd_tmp wd_tmp2 =
     emit_bitfield 0 2 0 31 30 wd_top wd_tmp2 @
     emit_movn 0 2 0 3 wd_tmp @
     emit_lslv 0 wd_tmp2 wd_tmp wd_tmp @
     emit_ldr_str_imm 1 0 1 kX87TagWordImm12 xbase wd_tmp2 @
     emit_logical_shifted_reg 0 1 0 0 wd_tmp 0 wd_tmp2 wd_tmp2 @
     emit_ldr_str_imm 1 0 0 kX87TagWordImm12 xbase wd_tmp2 @
     emit_add_imm 0 0 0 0 1 wd_top wd_top @
     emit_and_imm 0 wd_top 0 0 2 wd_top @
     emit_store_top xbase wd_top wd_tmp"

text \<open>The loop that marks \<open>n\<close> slots, one read-modify-write each.\<close>

fun pop_n_loop :: "int list \<Rightarrow> int \<Rightarrow> int \<Rightarrow> int \<Rightarrow> int \<Rightarrow> u32 list" where
  "pop_n_loop [] xbase wd_top wd_tmp wd_tmp2 = []"
| "pop_n_loop (i # is) xbase wd_top wd_tmp wd_tmp2 =
     (if i = 0 then emit_bitfield 0 2 0 31 30 wd_top wd_tmp2
      else emit_add_imm 0 0 0 0 i wd_top wd_tmp2 @ emit_and_imm 0 wd_tmp2 0 0 2 wd_tmp2 @
           emit_bitfield 0 2 0 31 30 wd_tmp2 wd_tmp2) @
     emit_movn 0 2 0 3 wd_tmp @
     emit_lslv 0 wd_tmp2 wd_tmp wd_tmp @
     emit_ldr_str_imm 1 0 1 kX87TagWordImm12 xbase wd_tmp2 @
     emit_logical_shifted_reg 0 1 0 0 wd_tmp 0 wd_tmp2 wd_tmp2 @
     emit_ldr_str_imm 1 0 0 kX87TagWordImm12 xbase wd_tmp2 @
     pop_n_loop is xbase wd_top wd_tmp wd_tmp2"

definition emit_x87_pop_n_deferred :: "int \<Rightarrow> int \<Rightarrow> int \<Rightarrow> int \<Rightarrow> int \<Rightarrow> u32 list" where
  "emit_x87_pop_n_deferred xbase wd_top wd_tmp wd_tmp2 n =
     pop_n_loop [0..n - 1] xbase wd_top wd_tmp wd_tmp2 @
     emit_add_imm 0 0 0 0 n wd_top wd_top @
     emit_and_imm 0 wd_top 0 0 2 wd_top"

definition emit_x87_pop_n :: "int \<Rightarrow> int \<Rightarrow> int \<Rightarrow> int \<Rightarrow> int \<Rightarrow> u32 list" where
  "emit_x87_pop_n xbase wd_top wd_tmp wd_tmp2 n =
     pop_n_loop [0..n - 1] xbase wd_top wd_tmp wd_tmp2 @
     emit_add_imm 0 0 0 0 n wd_top wd_top @
     emit_and_imm 0 wd_top 0 0 2 wd_top @
     emit_store_top xbase wd_top wd_tmp"

section \<open>Condition codes\<close>

definition emit_fcom_flags_to_sw :: "int \<Rightarrow> int \<Rightarrow> int \<Rightarrow> u32 list" where
  "emit_fcom_flags_to_sw xbase wd_tmp1 wd_tmp2 =
     emit_mrs_nzcv wd_tmp1 @
     emit_bitfield 0 2 0 21 31 wd_tmp1 wd_tmp2 @
     emit_and_imm 0 wd_tmp2 0 24 0 wd_tmp2 @
     emit_bitfield 0 2 0 16 31 wd_tmp1 wd_tmp1 @
     emit_bitfield 0 1 0 18 0 wd_tmp1 wd_tmp2 @
     emit_bitfield 0 2 0 12 12 wd_tmp1 wd_tmp1 @
     emit_bitfield 0 1 0 22 0 wd_tmp1 wd_tmp2 @
     emit_ldr_str_imm 1 0 1 kX87StatusWordImm12 xbase wd_tmp1 @
     emit_bitfield 0 1 0 24 2 XZR wd_tmp1 @
     emit_bitfield 0 1 0 18 0 XZR wd_tmp1 @
     emit_logical_shifted_reg 0 1 0 0 wd_tmp2 0 wd_tmp1 wd_tmp1 @
     emit_ldr_str_imm 1 0 0 kX87StatusWordImm12 xbase wd_tmp1"

text \<open>
  The packed condition codes of a compare.  The three reads of the flags come before \<^verbatim>\<open>MSR\<close> puts the
  saved flags back.
\<close>

definition emit_fcom_cc_pack :: "int \<Rightarrow> int \<Rightarrow> estate \<Rightarrow> u32 list \<times> estate" where
  "emit_fcom_cc_pack wd_result wd_save st =
     (let (wd_cc, st1) = alloc_free_gpr st; (wd_vs, st2) = alloc_free_gpr st1
      in (emit_cset 0 3 wd_cc @ emit_cset 0 6 wd_vs @ emit_cset 0 0 wd_result @
          emit_msr_nzcv wd_save @
          emit_logical_shifted_reg 0 1 0 0 wd_vs 0 wd_cc wd_cc @
          emit_logical_shifted_reg 0 1 0 0 wd_vs 0 wd_result wd_result @
          emit_bitfield 0 2 0 24 23 wd_cc wd_cc @
          emit_logical_shifted_reg 0 1 0 0 wd_vs 10 wd_cc wd_cc @
          emit_logical_shifted_reg 0 1 0 0 wd_result 14 wd_cc wd_result,
          free_gpr wd_cc (free_gpr wd_vs (free_gpr wd_save st2))))"

definition emit_fcom_cc_write_sw :: "int \<Rightarrow> int \<Rightarrow> estate \<Rightarrow> u32 list \<times> estate" where
  "emit_fcom_cc_write_sw xbase wd_packed st =
     (let (wd_sw, st1) = alloc_free_gpr st
      in (emit_ldr_str_imm 1 0 1 kX87StatusWordImm12 xbase wd_sw @
          emit_bitfield 0 1 0 24 2 XZR wd_sw @
          emit_bitfield 0 1 0 18 0 XZR wd_sw @
          emit_logical_shifted_reg 0 1 0 0 wd_packed 0 wd_sw wd_sw @
          emit_ldr_str_imm 1 0 0 kX87StatusWordImm12 xbase wd_sw,
          free_gpr wd_sw st1))"

definition emit_nzcv_park :: "int \<Rightarrow> int \<Rightarrow> u32 list" where
  "emit_nzcv_park dpark xtmp = emit_mrs_nzcv xtmp @ emit_fmov_x_to_d dpark xtmp"

definition emit_nzcv_unpark :: "int \<Rightarrow> int \<Rightarrow> u32 list" where
  "emit_nzcv_unpark dpark xtmp = emit_fmov_d_to_x xtmp dpark @ emit_msr_nzcv xtmp"

abbreviation kNzcvPfBit :: int where "kNzcvPfBit \<equiv> 26"
abbreviation kFcmovCondPF :: int where "kFcmovCondPF \<equiv> 16"
abbreviation kFcmovCondNPF :: int where "kFcmovCondNPF \<equiv> 17"

definition emit_fcomi_nzcv :: "estate \<Rightarrow> u32 list \<times> estate" where
  "emit_fcomi_nzcv st =
     (let (wd_z, st1) = alloc_free_gpr st; (wd_v, st2) = alloc_free_gpr st1; (wd_c, st3) = alloc_free_gpr st2
      in (emit_cset 0 0 wd_z @ emit_cset 0 6 wd_v @ emit_cset 0 2 wd_c @
          emit_logical_shifted_reg 0 1 0 0 wd_v 0 wd_z wd_z @
          emit_logical_shifted_reg 0 0 1 0 wd_v 0 wd_c wd_c @
          emit_bitfield 0 2 0 2 1 wd_z wd_z @
          emit_logical_shifted_reg 0 1 0 0 wd_c 29 wd_z wd_z @
          emit_logical_shifted_reg 0 1 0 0 wd_v kNzcvPfBit wd_z wd_z @
          emit_msr_nzcv wd_z,
          free_gpr wd_z (free_gpr wd_v (free_gpr wd_c st3))))"

definition emit_fcmov_select :: "int \<Rightarrow> int \<Rightarrow> int \<Rightarrow> int \<Rightarrow> estate \<Rightarrow> u32 list \<times> estate" where
  "emit_fcmov_select dd dtrue dfalse cnd st =
     (if cnd \<noteq> kFcmovCondPF \<and> cnd \<noteq> kFcmovCondNPF then (emit_fcsel_f64 dd dtrue dfalse cnd, st)
      else
        let want_pf = (cnd = kFcmovCondPF); (wd_flags, st1) = alloc_free_gpr st
        in (emit_mrs_nzcv wd_flags @
            (if dd = dfalse then
               emit_tbz (if want_pf then 0 else 1) wd_flags kNzcvPfBit 2 @ emit_fmov_f64_reg dd dtrue
             else if dd = dtrue then
               emit_tbz (if want_pf then 1 else 0) wd_flags kNzcvPfBit 2 @ emit_fmov_f64_reg dd dfalse
             else
               emit_fmov_f64_reg dd dfalse @
               emit_tbz (if want_pf then 0 else 1) wd_flags kNzcvPfBit 2 @ emit_fmov_f64_reg dd dtrue),
            free_gpr wd_flags st1))"

section \<open>Materialising a deferred exchange\<close>

text \<open>
  The positions one cycle of the permutation visits after \<open>i\<close>: the source's inner \<^verbatim>\<open>while\<close>.  Eight
  steps of fuel are enough for a permutation of eight.
\<close>

fun perm_cycle :: "nat \<Rightarrow> nat list \<Rightarrow> nat \<Rightarrow> nat \<Rightarrow> nat list" where
  "perm_cycle 0 p i j = []"
| "perm_cycle (Suc fuel) p i j = (let next = p ! j in if next = i then [] else next # perm_cycle fuel p i next)"

text \<open>
  One cycle, and all of them: \<open>ld_save\<close> and \<open>st_save\<close> move the slot at a depth to and from the register
  that holds the first value of a cycle, \<open>ld\<close> and \<open>st\<close> the one the others pass through.
\<close>

fun cycle_moves ::
  "(nat \<Rightarrow> u32 list) \<Rightarrow> (nat \<Rightarrow> u32 list) \<Rightarrow> (nat \<Rightarrow> u32 list) \<Rightarrow> nat \<Rightarrow> nat list \<Rightarrow> u32 list" where
  "cycle_moves st_save ld st j [] = st_save j"
| "cycle_moves st_save ld st j (next # rest) = ld next @ st j @ cycle_moves st_save ld st next rest"

fun perm_flush_loop ::
  "(nat \<Rightarrow> u32 list) \<Rightarrow> (nat \<Rightarrow> u32 list) \<Rightarrow> (nat \<Rightarrow> u32 list) \<Rightarrow> (nat \<Rightarrow> u32 list) \<Rightarrow>
   nat list \<Rightarrow> nat set \<Rightarrow> nat list \<Rightarrow> u32 list" where
  "perm_flush_loop ld_save st_save ld st p visited [] = []"
| "perm_flush_loop ld_save st_save ld st p visited (i # is) =
     (if i \<in> visited \<or> p ! i = i then perm_flush_loop ld_save st_save ld st p visited is
      else
        (let cyc = perm_cycle 8 p i i in
         ld_save i @ cycle_moves st_save ld st i cyc @
         perm_flush_loop ld_save st_save ld st p (visited \<union> insert i (set cyc)) is))"

text \<open>The ten bytes of a slot, to or from a pair of registers.\<close>

definition emit_native_slot_image ::
  "int \<Rightarrow> int \<Rightarrow> int \<Rightarrow> int \<Rightarrow> int \<Rightarrow> int \<Rightarrow> int \<Rightarrow> bool \<Rightarrow> u32 list" where
  "emit_native_slot_image xbase wd_top stack_depth wd_tmp dd hx xbase_st st =
     (let base = (if xbase_st \<ge> 0 then xbase_st else xbase); opc = (if st then 0 else 1)
      in emit_native_st_key wd_top stack_depth wd_tmp xbase_st @
         emit_ldr_str_reg 3 1 opc wd_tmp 0 base dd @
         emit_add_imm 0 0 0 0 8 wd_tmp wd_tmp @
         emit_ldr_str_reg 1 1 opc wd_tmp 0 base hx)"

definition emit_x87_perm_flush ::
  "bool \<Rightarrow> int \<Rightarrow> int \<Rightarrow> int \<Rightarrow> nat list \<Rightarrow> int \<Rightarrow> int \<Rightarrow> int \<Rightarrow> int \<Rightarrow> int \<Rightarrow> u32 list" where
  "emit_x87_perm_flush native xbase wd_top wd_tmp p xst dd_save dd_chain hd_save hd_chain =
     (if hd_save \<ge> 0 then
        perm_flush_loop
          (\<lambda>d. emit_native_slot_image xbase wd_top (int d) wd_tmp dd_save hd_save xst False)
          (\<lambda>d. emit_native_slot_image xbase wd_top (int d) wd_tmp dd_save hd_save xst True)
          (\<lambda>d. emit_native_slot_image xbase wd_top (int d) wd_tmp dd_chain hd_chain xst False)
          (\<lambda>d. emit_native_slot_image xbase wd_top (int d) wd_tmp dd_chain hd_chain xst True)
          p {} [0..<8]
      else
        perm_flush_loop
          (\<lambda>d. fst (emit_load_st native xbase wd_top (int d) wd_tmp dd_save xst))
          (\<lambda>d. emit_store_st native xbase wd_top (int d) wd_tmp dd_save xst)
          (\<lambda>d. fst (emit_load_st native xbase wd_top (int d) wd_tmp dd_chain xst))
          (\<lambda>d. emit_store_st native xbase wd_top (int d) wd_tmp dd_chain xst)
          p {} [0..<8])"

text \<open>With images each slot's format travels with it.\<close>

definition track_image_flush :: "x87_cache \<Rightarrow> x87_cache" where
  "track_image_flush c =
     c\<lparr>fmts := fold (\<lambda>d m. m[tracked_slot c d := fmts c ! tracked_slot c (perm c ! d)]) [0..<8] (replicate 8 SlotNative)\<rparr>"

end
