(* ===== verification/A64_Sem.thy ===== *)
theory A64_Sem
  imports A64_Encode
begin

text \<open>
  The part of the AArch64 architecture the emitted code uses: a decoder from words to instructions,
  written from the architecture's encoding tables and not from the encoders, and a machine that
  executes them.  Code is a list of words; every branch the translator emits is forward, so running
  is recursion on the words that remain.
\<close>

section \<open>Decoding\<close>

definition bits :: "nat \<Rightarrow> nat \<Rightarrow> u32 \<Rightarrow> int" where
  "bits s n w = uint (take_bit n (drop_bit s w))"

datatype a64 =
    AddSubImm (wide: bool) bool bool int int int
  | LogicImm bool int int int int int int
  | MovWide bool int int int int
  | Bitfield bool int int int int int
  | LogicReg bool int bool int int int int int
  | AddSubReg bool bool bool int int int int int
  | AddSubExt bool bool bool int int int int int
  | Lslv bool int int int
  | CondSel bool bool int int int int
  | LoadStore int bool int int int int
  | LoadStoreReg int bool int int bool int int int
  | LoadStoreUnscaled int int int int int
  | CompareBranch bool bool int int
  | TestBranch bool int int int
  | Branch int
  | BranchCond int int
  | ReadFlags int
  | WriteFlags int
  | FpMove int int
  | FpFromGpr int int
  | GprFromFp int int
  | FpZero int

definition decode_branch :: "u32 \<Rightarrow> a64 option" where
  "decode_branch w =
     (let rt = bits 0 5 w in
      if bits 29 2 w = 0 then Some (Branch (bits 0 26 w))
      else if bits 29 2 w = 1 then
        (if bits 25 1 w = 0 then Some (CompareBranch (bits 31 1 w = 1) (bits 24 1 w = 1) (bits 5 19 w) rt)
         else Some (TestBranch (bits 24 1 w = 1) (bits 31 1 w * 32 + bits 19 5 w) (bits 5 14 w) rt))
      else if bits 24 8 w = 0x54 \<and> bits 4 1 w = 0 then Some (BranchCond (bits 0 4 w) (bits 5 19 w))
      else if bits 5 27 w = 0x6A9DA10 then Some (ReadFlags rt)
      else if bits 5 27 w = 0x6A8DA10 then Some (WriteFlags rt)
      else None)"

definition decode_memory :: "u32 \<Rightarrow> a64 option" where
  "decode_memory w =
     (let sz = bits 30 2 w; fp = (bits 26 1 w = 1); opc = bits 22 2 w; rn = bits 5 5 w; rt = bits 0 5 w in
      if bits 28 2 w \<noteq> 3 then None
      else if bits 24 2 w = 1 then Some (LoadStore sz fp opc (bits 10 12 w) rn rt)
      else if bits 24 2 w = 0 \<and> bits 21 1 w = 1 \<and> bits 10 2 w = 2 then
        Some (LoadStoreReg sz fp opc (bits 13 3 w) (bits 12 1 w = 1) (bits 16 5 w) rn rt)
      else if bits 24 2 w = 0 \<and> bits 21 1 w = 0 \<and> bits 10 2 w = 0 \<and> \<not> fp then
        Some (LoadStoreUnscaled sz opc (bits 12 9 w) rn rt)
      else None)"

definition decode_data :: "u32 \<Rightarrow> a64 option" where
  "decode_data w =
     (let sf = (bits 31 1 w = 1); rd = bits 0 5 w; rn = bits 5 5 w; rm = bits 16 5 w; opc = bits 29 2 w;
          sub = (bits 30 1 w = 1); setf = (bits 29 1 w = 1); group = bits 24 5 w in
      if group = 0x11 \<and> bits 23 1 w = 0 then
        Some (AddSubImm sf sub setf (bits 10 12 w * (if bits 22 1 w = 1 then 4096 else 1)) rn rd)
      else if group = 0x12 \<and> bits 23 1 w = 0 then
        Some (LogicImm sf opc (bits 22 1 w) (bits 16 6 w) (bits 10 6 w) rn rd)
      else if group = 0x12 then Some (MovWide sf opc (bits 21 2 w) (bits 5 16 w) rd)
      else if group = 0x13 \<and> bits 23 1 w = 0 then Some (Bitfield sf opc (bits 16 6 w) (bits 10 6 w) rn rd)
      else if group = 0x0A then Some (LogicReg sf opc (bits 21 1 w = 1) (bits 22 2 w) rm (bits 10 6 w) rn rd)
      else if group = 0x0B \<and> bits 21 1 w = 0 then
        Some (AddSubReg sf sub setf (bits 22 2 w) rm (bits 10 6 w) rn rd)
      else if group = 0x0B \<and> bits 22 2 w = 0 then
        Some (AddSubExt sf sub setf (bits 13 3 w) (bits 10 3 w) rm rn rd)
      else if group = 0x1A \<and> opc = 0 \<and> bits 21 3 w = 6 \<and> bits 10 6 w = 8 then Some (Lslv sf rm rn rd)
      else if group = 0x1A \<and> opc = 0 \<and> bits 21 3 w = 4 \<and> bits 11 1 w = 0 then
        Some (CondSel sf (bits 10 1 w = 1) (bits 12 4 w) rm rn rd)
      else if bits 10 22 w = 0x79810 then Some (FpMove rn rd)
      else if bits 10 22 w = 0x2799C0 then Some (FpFromGpr rn rd)
      else if bits 10 22 w = 0x279980 then Some (GprFromFp rn rd)
      else if bits 5 27 w = 0x1780720 then Some (FpZero rd)
      else None)"

definition decode :: "u32 \<Rightarrow> a64 option" where
  "decode w =
     (if bits 26 3 w = 5 then decode_branch w
      else if bits 27 1 w = 1 \<and> bits 25 1 w = 0 then decode_memory w
      else decode_data w)"

section \<open>The machine\<close>

record mach =
  xr :: "int \<Rightarrow> u64"
  spr :: u64
  dr :: "int \<Rightarrow> u64"
  flag_n :: bool
  flag_z :: bool
  flag_c :: bool
  flag_v :: bool
  flag_a :: bool
  flag_p :: bool
  mem :: "u64 \<Rightarrow> u8"

definition width :: "bool \<Rightarrow> nat" where
  "width sf = (if sf then 64 else 32)"

text \<open>
  \<open>flag_a\<close> and \<open>flag_p\<close> are bits 27 and 26 of NZCV, which hold the x86 AF and PF flags on the machines
  the translator runs on; no instruction below but the two that transfer NZCV touches them.
\<close>

text \<open>Register 31 is the zero register, or the stack pointer where the architecture says so.\<close>

definition rx :: "bool \<Rightarrow> int \<Rightarrow> mach \<Rightarrow> u64" where
  "rx sf r m = take_bit (width sf) (if r = 31 then 0 else xr m r)"

definition rsp :: "bool \<Rightarrow> int \<Rightarrow> mach \<Rightarrow> u64" where
  "rsp sf r m = take_bit (width sf) (if r = 31 then spr m else xr m r)"

definition wx :: "bool \<Rightarrow> int \<Rightarrow> u64 \<Rightarrow> mach \<Rightarrow> mach" where
  "wx sf r v m = (if r = 31 then m else m\<lparr>xr := (xr m)(r := take_bit (width sf) v)\<rparr>)"

definition wsp :: "bool \<Rightarrow> int \<Rightarrow> u64 \<Rightarrow> mach \<Rightarrow> mach" where
  "wsp sf r v m = (if r = 31 then m\<lparr>spr := take_bit (width sf) v\<rparr> else wx sf r v m)"

primrec load :: "nat \<Rightarrow> u64 \<Rightarrow> (u64 \<Rightarrow> u8) \<Rightarrow> u64" where
  "load 0 a h = 0"
| "load (Suc n) a h = ucast (h a) OR push_bit 8 (load n (a + 1) h)"

primrec store :: "nat \<Rightarrow> u64 \<Rightarrow> u64 \<Rightarrow> (u64 \<Rightarrow> u8) \<Rightarrow> (u64 \<Rightarrow> u8)" where
  "store 0 a v h = h"
| "store (Suc n) a v h = store n (a + 1) (drop_bit 8 v) (h(a := ucast v))"

definition shifted :: "bool \<Rightarrow> int \<Rightarrow> nat \<Rightarrow> u64 \<Rightarrow> u64" where
  "shifted sf ty amount v =
     (if ty = 0 then take_bit (width sf) (push_bit amount v)
      else if ty = 1 then drop_bit amount v
      else take_bit (width sf) (signed_drop_bit amount (signed_take_bit (width sf - 1) v)))"

definition extended :: "int \<Rightarrow> u64 \<Rightarrow> u64" where
  "extended opt v =
     (if opt = 0 then take_bit 8 v else if opt = 1 then take_bit 16 v
      else if opt = 2 then take_bit 32 v else if opt = 4 then signed_take_bit 7 v
      else if opt = 5 then signed_take_bit 15 v else if opt = 6 then signed_take_bit 31 v else v)"

definition add_sub :: "bool \<Rightarrow> bool \<Rightarrow> u64 \<Rightarrow> u64 \<Rightarrow> u64" where
  "add_sub sf sub a b = take_bit (width sf) (if sub then a - b else a + b)"

definition with_flags :: "bool \<Rightarrow> bool \<Rightarrow> bool \<Rightarrow> u64 \<Rightarrow> u64 \<Rightarrow> mach \<Rightarrow> mach" where
  "with_flags setf sf sub a b m =
     (if setf then
        (let r = add_sub sf sub a b; n = width sf - 1 in
         m\<lparr>flag_n := bit r n, flag_z := (r = 0),
           flag_c := (if sub then b \<le> a else uint a + uint b \<ge> 2 ^ width sf),
           flag_v := (if sub then bit a n \<noteq> bit b n \<and> bit r n \<noteq> bit a n
                      else bit a n = bit b n \<and> bit r n \<noteq> bit a n)\<rparr>)
      else m)"

definition bitmask :: "bool \<Rightarrow> int \<Rightarrow> int \<Rightarrow> int \<Rightarrow> u64 option" where
  "bitmask sf n immr imms =
     (let es = (if n = 1 then 64 else if imms < 0x20 then 32 else if imms < 0x30 then 16
                else if imms < 0x38 then 8 else if imms < 0x3C then 4 else if imms < 0x3E then 2 else 0 :: nat);
          s = nat imms mod es; r = nat immr mod es
      in if es = 0 \<or> (n = 1 \<and> \<not> sf) \<or> s = es - 1 then None
         else Some (horner_sum of_bool 2 (map (\<lambda>i. (i + r) mod es \<le> s) [0..<width sf])))"

definition logic :: "int \<Rightarrow> u64 \<Rightarrow> u64 \<Rightarrow> u64" where
  "logic opc a b = (if opc = 0 \<or> opc = 3 then a AND b else if opc = 1 then a OR b else a XOR b)"

definition logic_flags :: "int \<Rightarrow> bool \<Rightarrow> u64 \<Rightarrow> mach \<Rightarrow> mach" where
  "logic_flags opc sf r m =
     (if opc = 3 then m\<lparr>flag_n := bit r (width sf - 1), flag_z := (r = 0), flag_c := False, flag_v := False\<rparr> else m)"

definition bitfield :: "bool \<Rightarrow> int \<Rightarrow> nat \<Rightarrow> nat \<Rightarrow> u64 \<Rightarrow> u64 \<Rightarrow> u64" where
  "bitfield sf opc r s src dst =
     (let (pos, len, v) = (if r \<le> s then (0, s - r + 1, drop_bit r src) else (width sf - r, s + 1, src));
          f = push_bit pos (take_bit len v)
      in take_bit (width sf)
           (if opc = 2 then f
            else if opc = 1 then (dst AND NOT (push_bit pos (take_bit len (-1)))) OR f
            else push_bit pos (signed_take_bit (len - 1) v)))"

definition holds :: "int \<Rightarrow> mach \<Rightarrow> bool" where
  "holds c m =
     (let base = (if c div 2 = 0 then flag_z m else if c div 2 = 1 then flag_c m else if c div 2 = 2 then flag_n m
                  else if c div 2 = 3 then flag_v m else if c div 2 = 4 then flag_c m \<and> \<not> flag_z m
                  else if c div 2 = 5 then flag_n m = flag_v m
                  else if c div 2 = 6 then flag_n m = flag_v m \<and> \<not> flag_z m else True)
      in if c mod 2 = 1 \<and> c \<noteq> 15 then \<not> base else base)"

definition flags_word :: "mach \<Rightarrow> u64" where
  "flags_word m = horner_sum of_bool 2 (replicate 26 False @ [flag_p m, flag_a m, flag_v m, flag_c m, flag_z m, flag_n m])"

text \<open>Loads and stores of \<open>2 ^ sz\<close> bytes; a signed load extends to the width that \<open>opc\<close> names.\<close>

definition access :: "int \<Rightarrow> bool \<Rightarrow> int \<Rightarrow> u64 \<Rightarrow> int \<Rightarrow> mach \<Rightarrow> mach option" where
  "access sz fp opc a rt m =
     (let n = 2 ^ nat sz in
      if fp then
        (if opc = 0 then Some (m\<lparr>mem := store n a (dr m rt) (mem m)\<rparr>)
         else if opc = 1 then Some (m\<lparr>dr := (dr m)(rt := load n a (mem m))\<rparr>) else None)
      else if opc = 0 then Some (m\<lparr>mem := store n a (rx True rt m) (mem m)\<rparr>)
      else if opc = 1 then Some (wx True rt (load n a (mem m)) m)
      else Some (wx (opc = 2) rt (signed_take_bit (8 * n - 1) (load n a (mem m))) m))"

fun exec :: "a64 \<Rightarrow> mach \<Rightarrow> mach option" where
  "exec (AddSubImm sf sub setf imm rn rd) m =
     (let a = rsp sf rn m; b = word_of_int imm; r = add_sub sf sub a b; m' = with_flags setf sf sub a b m
      in Some (if setf then wx sf rd r m' else wsp sf rd r m'))"
| "exec (LogicImm sf opc n immr imms rn rd) m =
     (case bitmask sf n immr imms of None \<Rightarrow> None
      | Some v \<Rightarrow> (let r = logic opc (rx sf rn m) v; m' = logic_flags opc sf r m
                  in Some (if opc = 3 then wx sf rd r m' else wsp sf rd r m')))"
| "exec (MovWide sf opc hw imm rd) m =
     (let k = nat (16 * hw); v = push_bit k (word_of_int imm) in
      if opc = 0 then Some (wx sf rd (NOT v) m)
      else if opc = 2 then Some (wx sf rd v m)
      else if opc = 3 then Some (wx sf rd ((rx sf rd m AND NOT (push_bit k 0xFFFF)) OR v) m)
      else None)"
| "exec (Bitfield sf opc immr imms rn rd) m =
     Some (wx sf rd (bitfield sf opc (nat immr) (nat imms) (rx sf rn m) (rx sf rd m)) m)"
| "exec (LogicReg sf opc neg ty rm amount rn rd) m =
     (let b = shifted sf ty (nat amount) (rx sf rm m);
          r = take_bit (width sf) (logic opc (rx sf rn m) (if neg then NOT b else b))
      in Some (wx sf rd r (logic_flags opc sf r m)))"
| "exec (AddSubReg sf sub setf ty rm amount rn rd) m =
     (let a = rx sf rn m; b = shifted sf ty (nat amount) (rx sf rm m)
      in Some (wx sf rd (add_sub sf sub a b) (with_flags setf sf sub a b m)))"
| "exec (AddSubExt sf sub setf opt imm3 rm rn rd) m =
     (let a = rsp sf rn m; b = take_bit (width sf) (push_bit (nat imm3) (extended opt (rx True rm m)));
          m' = with_flags setf sf sub a b m
      in Some (if setf then wx sf rd (add_sub sf sub a b) m' else wsp sf rd (add_sub sf sub a b) m'))"
| "exec (Lslv sf rm rn rd) m =
     Some (wx sf rd (push_bit (unat (rx sf rm m) mod width sf) (rx sf rn m)) m)"
| "exec (CondSel sf inc c rm rn rd) m =
     Some (wx sf rd (if holds c m then rx sf rn m else rx sf rm m + of_bool inc) m)"
| "exec (LoadStore sz fp opc imm rn rt) m =
     access sz fp opc (rsp True rn m + word_of_int (imm * 2 ^ nat sz)) rt m"
| "exec (LoadStoreReg sz fp opc opt s rm rn rt) m =
     access sz fp opc (rsp True rn m + push_bit (if s then nat sz else 0) (extended opt (rx True rm m))) rt m"
| "exec (LoadStoreUnscaled sz opc imm9 rn rt) m =
     access sz False opc (rsp True rn m + word_of_int (signed_take_bit 8 imm9)) rt m"
| "exec (ReadFlags rd) m = Some (wx True rd (flags_word m) m)"
| "exec (WriteFlags rd) m =
     (let v = rx True rd m in Some (m\<lparr>flag_n := bit v 31, flag_z := bit v 30, flag_c := bit v 29, flag_v := bit v 28,
                                       flag_a := bit v 27, flag_p := bit v 26\<rparr>))"
| "exec (FpMove rn rd) m = Some (m\<lparr>dr := (dr m)(rd := dr m rn)\<rparr>)"
| "exec (FpFromGpr rn rd) m = Some (m\<lparr>dr := (dr m)(rd := rx True rn m)\<rparr>)"
| "exec (GprFromFp rn rd) m = Some (wx True rd (dr m rn) m)"
| "exec (FpZero rd) m = Some (m\<lparr>dr := (dr m)(rd := 0)\<rparr>)"
| "exec _ m = None"

text \<open>A forward branch over \<open>n\<close> words, counted from the branch itself; anything else is outside
  the model.\<close>

definition taken :: "a64 \<Rightarrow> mach \<Rightarrow> int option" where
  "taken i m =
     (case i of Branch n \<Rightarrow> Some n
      | BranchCond c n \<Rightarrow> Some (if holds c m then n else 1)
      | CompareBranch sf nz n rt \<Rightarrow> Some (if (rx sf rt m = 0) \<noteq> nz then n else 1)
      | TestBranch nz b n rt \<Rightarrow> Some (if bit (rx True rt m) (nat b) = nz then n else 1)
      | _ \<Rightarrow> None)"

function (sequential) run :: "u32 list \<Rightarrow> mach \<Rightarrow> mach option" where
  "run [] m = Some m"
| "run (w # ws) m =
     (case decode w of None \<Rightarrow> None
      | Some i \<Rightarrow>
          (case taken i m of
             Some n \<Rightarrow> if 0 < n \<and> nat n \<le> Suc (length ws) then run (drop (nat n - 1) ws) m else None
           | None \<Rightarrow> (case exec i m of None \<Rightarrow> None | Some m' \<Rightarrow> run ws m')))"
  by pat_completeness auto
termination by (relation "measure (length \<circ> fst)") auto

end
