(* ===== verification/A64_Exec.thy ===== *)
theory A64_Exec
  imports A64_Sem
begin

text \<open>
  What each emitter's word does when it is executed: the word decodes to the instruction it was
  meant to be, for all register numbers and immediates in range, and running code that starts with it
  is running the rest from the state that instruction leaves.
\<close>

named_theorems run_simps \<open>running code that starts with an emitter's word\<close>

section \<open>Fields of encoded words\<close>

lemma bits_or: "bits s n (a OR b) = bits s n a OR bits s n b"
  by (simp add: bits_def take_bit_or drop_bit_or uint_or)

lemma bit_bits: "bit (bits s n w) i \<longleftrightarrow> i < n \<and> bit w (s + i)"
  by (auto simp: bits_def bit_uint_iff bit_simps dest: bit_imp_le_length)

lemma bit_field: "bit (field t m x) i \<longleftrightarrow> t \<le> i \<and> i < 32 \<and> i - t < m \<and> bit x (i - t)"
  by (auto simp: field_def bit_simps)

lemma bits_field:
  assumes "t + m \<le> 32"
  shows "bits s n (field t m x) =
    (if t + m \<le> s \<or> s + n \<le> t then 0
     else if s \<le> t then take_bit n (push_bit (t - s) (take_bit m x))
     else take_bit n (drop_bit (s - t) (take_bit m x)))"
  using assms by (intro bit_eqI) (auto simp: bit_bits bit_field bit_simps ac_simps)

lemma field_zero [simp]: "field t m 0 = 0"
  by (simp add: field_def)

text \<open>The operands an instruction can name.\<close>

definition reg :: "int \<Rightarrow> bool" where
  "reg r \<longleftrightarrow> 0 \<le> r \<and> r < 32"

definition fits :: "nat \<Rightarrow> int \<Rightarrow> bool" where
  "fits n x \<longleftrightarrow> 0 \<le> x \<and> x < 2 ^ n"

lemma reg_field: "reg r \<Longrightarrow> take_bit 5 r = r"
  by (simp add: reg_def take_bit_int_eq_self)

lemma fits_field: "fits n x \<Longrightarrow> take_bit n x = x"
  by (simp add: fits_def take_bit_int_eq_self)

lemma take_bit_flag: "of_bool b mod 2 = (of_bool b :: int)"
  by simp

lemma fits_bit: "fits (Suc 0) x \<Longrightarrow> x mod 2 = x"
  by (auto simp: fits_def)

lemma bits_field_low: "s + n \<le> t \<Longrightarrow> bits s n (field t m x) = 0"
  by (intro bit_eqI) (auto simp: bit_bits bit_field)

lemma bits_field_high: "t + m \<le> s \<Longrightarrow> bits s n (field t m x) = 0"
  by (intro bit_eqI) (auto simp: bit_bits bit_field)

lemma bits_field_same: "s + n \<le> 32 \<Longrightarrow> bits s n (field s n x) = take_bit n x"
  by (intro bit_eqI) (auto simp: bit_bits bit_field bit_simps ac_simps)

lemma bits_numeral: "bits s n (numeral k) = uint (take_bit n (drop_bit s (numeral k :: u32)))"
  by (simp add: bits_def)

lemma field_numeral:
  "field t m (numeral k) = push_bit t (word_of_int (take_bit m (numeral k)))"
  "field t m 1 = push_bit t (word_of_int (take_bit m 1))"
  by (simp_all add: field_def)

lemmas bits_fields = bits_or bits_field_same bits_field_low bits_field_high bits_numeral take_bit_flag
  reg_field fits_field fits_bit

lemma fits_less: "fits 2 sz \<Longrightarrow> sz \<noteq> 4"
  by (auto simp: fits_def)

lemma test_bit:
  assumes "fits 6 b"
  shows "drop_bit 5 b mod 2 * 32 + take_bit 5 b = b" "32 * (drop_bit 5 b mod 2) + take_bit 5 b = b"
proof -
  have "drop_bit 5 b = b div 32" "take_bit 5 b = b mod 32" "b div 32 < 2" "0 \<le> b div 32"
    using assms by (auto simp: drop_bit_eq_div take_bit_eq_mod fits_def)
  then show "drop_bit 5 b mod 2 * 32 + take_bit 5 b = b" "32 * (drop_bit 5 b mod 2) + take_bit 5 b = b"
    by (simp_all add: mod_pos_pos_trivial)
qed

section \<open>Classes of instructions\<close>

lemma dec_data:
  assumes "bits 26 3 w \<noteq> 5" "bits 27 1 w = 0 \<or> bits 25 1 w = 1"
  shows "bits 24 5 w = 0x11 \<Longrightarrow> bits 23 1 w = 0 \<Longrightarrow> decode w = Some (AddSubImm (bits 31 1 w = 1) (bits 30 1 w = 1)
      (bits 29 1 w = 1) (bits 10 12 w * (if bits 22 1 w = 1 then 4096 else 1)) (bits 5 5 w) (bits 0 5 w))"
    "bits 24 5 w = 0x12 \<Longrightarrow> bits 23 1 w = 0 \<Longrightarrow> decode w = Some (LogicImm (bits 31 1 w = 1) (bits 29 2 w) (bits 22 1 w)
      (bits 16 6 w) (bits 10 6 w) (bits 5 5 w) (bits 0 5 w))"
    "bits 24 5 w = 0x12 \<Longrightarrow> bits 23 1 w = 1 \<Longrightarrow> decode w = Some (MovWide (bits 31 1 w = 1) (bits 29 2 w) (bits 21 2 w)
      (bits 5 16 w) (bits 0 5 w))"
    "bits 24 5 w = 0x13 \<Longrightarrow> bits 23 1 w = 0 \<Longrightarrow> decode w = Some (Bitfield (bits 31 1 w = 1) (bits 29 2 w) (bits 16 6 w)
      (bits 10 6 w) (bits 5 5 w) (bits 0 5 w))"
    "bits 24 5 w = 0x0A \<Longrightarrow> decode w = Some (LogicReg (bits 31 1 w = 1) (bits 29 2 w) (bits 21 1 w = 1) (bits 22 2 w)
      (bits 16 5 w) (bits 10 6 w) (bits 5 5 w) (bits 0 5 w))"
    "bits 24 5 w = 0x0B \<Longrightarrow> bits 21 1 w = 0 \<Longrightarrow> decode w = Some (AddSubReg (bits 31 1 w = 1) (bits 30 1 w = 1)
      (bits 29 1 w = 1) (bits 22 2 w) (bits 16 5 w) (bits 10 6 w) (bits 5 5 w) (bits 0 5 w))"
    "bits 24 5 w = 0x0B \<Longrightarrow> bits 21 1 w = 1 \<Longrightarrow> bits 22 2 w = 0 \<Longrightarrow> decode w = Some (AddSubExt (bits 31 1 w = 1)
      (bits 30 1 w = 1) (bits 29 1 w = 1) (bits 13 3 w) (bits 10 3 w) (bits 16 5 w) (bits 5 5 w) (bits 0 5 w))"
    "bits 24 5 w = 0x1A \<Longrightarrow> bits 29 2 w = 0 \<Longrightarrow> bits 21 3 w = 6 \<Longrightarrow> bits 10 6 w = 8 \<Longrightarrow>
      decode w = Some (Lslv (bits 31 1 w = 1) (bits 16 5 w) (bits 5 5 w) (bits 0 5 w))"
    "bits 24 5 w = 0x1A \<Longrightarrow> bits 29 2 w = 0 \<Longrightarrow> bits 21 3 w = 4 \<Longrightarrow> bits 11 1 w = 0 \<Longrightarrow>
      decode w = Some (CondSel (bits 31 1 w = 1) (bits 10 1 w = 1) (bits 12 4 w) (bits 16 5 w) (bits 5 5 w) (bits 0 5 w))"
    "bits 24 5 w = 0x1E \<Longrightarrow> bits 10 22 w = 0x79810 \<Longrightarrow> decode w = Some (FpMove (bits 5 5 w) (bits 0 5 w))"
    "bits 24 5 w = 0x1E \<Longrightarrow> bits 10 22 w = 0x2799C0 \<Longrightarrow> decode w = Some (FpFromGpr (bits 5 5 w) (bits 0 5 w))"
    "bits 24 5 w = 0x1E \<Longrightarrow> bits 10 22 w = 0x279980 \<Longrightarrow> decode w = Some (GprFromFp (bits 5 5 w) (bits 0 5 w))"
  using assms by (auto simp: decode_def decode_data_def)

lemma dec_memory:
  assumes "bits 26 3 w \<noteq> 5" "bits 27 1 w = 1" "bits 25 1 w = 0" "bits 28 2 w = 3"
  shows "bits 24 2 w = 1 \<Longrightarrow> decode w = Some (LoadStore (bits 30 2 w) (bits 26 1 w = 1) (bits 22 2 w) (bits 10 12 w)
      (bits 5 5 w) (bits 0 5 w))"
    "bits 24 2 w = 0 \<Longrightarrow> bits 21 1 w = 1 \<Longrightarrow> bits 10 2 w = 2 \<Longrightarrow> decode w = Some (LoadStoreReg (bits 30 2 w)
      (bits 26 1 w = 1) (bits 22 2 w) (bits 13 3 w) (bits 12 1 w = 1) (bits 16 5 w) (bits 5 5 w) (bits 0 5 w))"
    "bits 24 2 w = 0 \<Longrightarrow> bits 21 1 w = 0 \<Longrightarrow> bits 10 2 w = 0 \<Longrightarrow> bits 26 1 w = 0 \<Longrightarrow>
      decode w = Some (LoadStoreUnscaled (bits 30 2 w) (bits 22 2 w) (bits 12 9 w) (bits 5 5 w) (bits 0 5 w))"
  using assms by (auto simp: decode_def decode_memory_def)

lemma dec_branch:
  assumes "bits 26 3 w = 5"
  shows "bits 29 2 w = 0 \<Longrightarrow> decode w = Some (Branch (bits 0 26 w))"
    "bits 29 2 w = 1 \<Longrightarrow> bits 25 1 w = 0 \<Longrightarrow> decode w = Some (CompareBranch (bits 31 1 w = 1) (bits 24 1 w = 1)
      (bits 5 19 w) (bits 0 5 w))"
    "bits 29 2 w = 1 \<Longrightarrow> bits 25 1 w = 1 \<Longrightarrow> decode w = Some (TestBranch (bits 24 1 w = 1)
      (bits 31 1 w * 32 + bits 19 5 w) (bits 5 14 w) (bits 0 5 w))"
    "bits 29 2 w = 2 \<Longrightarrow> bits 24 8 w = 0x54 \<Longrightarrow> bits 4 1 w = 0 \<Longrightarrow> decode w = Some (BranchCond (bits 0 4 w) (bits 5 19 w))"
    "bits 29 2 w = 2 \<Longrightarrow> bits 24 8 w = 0xD5 \<Longrightarrow> bits 5 27 w = 0x6A9DA10 \<Longrightarrow> decode w = Some (ReadFlags (bits 0 5 w))"
    "bits 29 2 w = 2 \<Longrightarrow> bits 24 8 w = 0xD5 \<Longrightarrow> bits 5 27 w = 0x6A8DA10 \<Longrightarrow> decode w = Some (WriteFlags (bits 0 5 w))"
  using assms by (auto simp: decode_def decode_branch_def)

section \<open>Encoders decode to what they name\<close>

lemma decode_add_imm:
  assumes "reg rn" "reg rd" "fits 12 imm"
  shows "decode (hd (emit_add_imm is64 sub setf 0 imm rn rd)) =
      Some (AddSubImm (is64 \<noteq> 0) (sub \<noteq> 0) (setf \<noteq> 0) imm rn rd)"
    "decode (hd (emit_add_imm is64 sub setf 1 imm rn rd)) =
      Some (AddSubImm (is64 \<noteq> 0) (sub \<noteq> 0) (setf \<noteq> 0) (imm * 4096) rn rd)"
  using assms by (simp_all add: dec_data(1) emit_add_imm_def bits_fields field_numeral split del: split_of_bool)

lemma decode_logical_imm:
  assumes "reg rn" "reg rd" "fits 6 immr" "fits 6 imms" "fits 2 opc"
  shows "decode (hd (emit_logical_imm is64 opc n immr imms rn rd)) =
      Some (LogicImm (is64 \<noteq> 0) opc (of_bool (n \<noteq> 0)) immr imms rn rd)"
  using assms by (simp_all add: dec_data(2) emit_logical_imm_def bits_fields field_numeral split del: split_of_bool)

lemma decode_movn:
  assumes "reg rd" "fits 16 imm" "fits 2 opc" "fits 2 hw"
  shows "decode (hd (emit_movn is64 opc hw imm rd)) =
      Some (MovWide (is64 \<noteq> 0) opc hw imm rd)"
  using assms by (simp_all add: dec_data(3) emit_movn_def bits_fields field_numeral split del: split_of_bool)

lemma decode_bitfield:
  assumes "reg rn" "reg rd" "fits 6 immr" "fits 6 imms" "fits 2 opc"
  shows "decode (hd (emit_bitfield is64 opc n immr imms rn rd)) =
      Some (Bitfield (is64 \<noteq> 0) opc immr imms rn rd)"
  using assms by (simp_all add: dec_data(4) emit_bitfield_def bits_fields field_numeral split del: split_of_bool)

lemma decode_logical_shifted_reg:
  assumes "reg rn" "reg rd" "reg rm" "fits 6 amount" "fits 2 opc" "fits 2 ty" "fits 1 n"
  shows "decode (hd (emit_logical_shifted_reg is64 opc n ty rm amount rn rd)) =
      Some (LogicReg (is64 \<noteq> 0) opc (n = 1) ty rm amount rn rd)"
  using assms by (simp_all add: dec_data(5) emit_logical_shifted_reg_def bits_fields field_numeral split del: split_of_bool)

lemma decode_add_sub_shifted_reg:
  assumes "reg rn" "reg rd" "reg rm" "fits 6 amount" "fits 2 ty"
  shows "decode (hd (emit_add_sub_shifted_reg is64 sub setf ty rm amount rn rd)) =
      Some (AddSubReg (is64 \<noteq> 0) (sub \<noteq> 0) (setf \<noteq> 0) ty rm amount rn rd)"
  using assms by (simp_all add: dec_data(6) emit_add_sub_shifted_reg_def bits_fields field_numeral split del: split_of_bool)

lemma decode_add_sub_ext_reg:
  assumes "reg rn" "reg rd" "reg rm" "fits 3 opt" "fits 3 imm3"
  shows "decode (hd (emit_add_sub_ext_reg is64 sub setf opt imm3 rm rn rd)) =
      Some (AddSubExt (is64 \<noteq> 0) (sub \<noteq> 0) (setf \<noteq> 0) opt imm3 rm rn rd)"
  using assms by (simp_all add: dec_data(7) emit_add_sub_ext_reg_def bits_fields field_numeral split del: split_of_bool)

lemma decode_lslv:
  assumes "reg rn" "reg rd" "reg rm"
  shows "decode (hd (emit_lslv is64 rm rn rd)) =
      Some (Lslv (is64 \<noteq> 0) rm rn rd)"
  using assms by (simp_all add: dec_data(8) emit_lslv_def bits_fields field_numeral split del: split_of_bool)

lemma decode_csel_gpr:
  assumes "reg rn" "reg rd" "reg rm" "fits 4 cnd"
  shows "decode (hd (emit_csel_gpr is64 rd rn rm cnd)) =
      Some (CondSel (is64 \<noteq> 0) False cnd rm rn rd)"
  using assms by (simp_all add: dec_data(9) emit_csel_gpr_def bits_fields field_numeral split del: split_of_bool)

lemma decode_cset:
  assumes "reg rd" "fits 1 is64" "fits 4 cnd"
  shows "decode (hd (emit_cset is64 cnd rd)) =
      Some (CondSel (is64 = 1) True (cnd XOR 1) 31 31 rd)"
  using assms by (simp_all add: dec_data(9) emit_cset_def bits_fields field_numeral split del: split_of_bool)

lemma decode_fmov_f64_reg:
  assumes "reg dd" "reg dn"
  shows "decode (hd (emit_fmov_f64_reg dd dn)) =
      Some (FpMove dn dd)"
  using assms by (simp_all add: dec_data(10) emit_fmov_f64_reg_def bits_fields field_numeral split del: split_of_bool)

lemma decode_fmov_gpr_fpr:
  assumes "reg gpr" "reg fpr"
  shows "decode (hd (emit_fmov_gpr_fpr 0 gpr fpr)) =
      Some (FpFromGpr gpr fpr)"
    "decode (hd (emit_fmov_gpr_fpr 1 gpr fpr)) =
      Some (GprFromFp fpr gpr)"
  using assms by (simp_all add: dec_data(11,12) emit_fmov_gpr_fpr_def bits_fields field_numeral split del: split_of_bool)

lemma decode_ldr_str_imm_gpr:
  assumes "reg rn" "reg rt" "fits 2 sz" "fits 2 opc" "fits 12 imm"
  shows "decode (hd (emit_ldr_str_imm sz 0 opc imm rn rt)) =
      Some (LoadStore sz False opc imm rn rt)"
  using assms by (simp_all add: dec_memory(1) emit_ldr_str_imm_def effective_opc_def bits_fields field_numeral fits_less split del: split_of_bool)

lemma decode_ldr_str_reg_gpr:
  assumes "reg rn" "reg rt" "reg rm" "fits 2 sz" "fits 2 opc"
  shows "decode (hd (emit_ldr_str_reg sz 0 opc rm shift rn rt)) =
      Some (LoadStoreReg sz False opc 3 (shift \<noteq> 0) rm rn rt)"
  using assms by (simp_all add: dec_memory(2) emit_ldr_str_reg_def effective_opc_def bits_fields field_numeral fits_less split del: split_of_bool)

lemma decode_ldr_str_imm_fp:
  assumes "reg rn" "reg rt" "fits 2 sz" "fits 2 opc" "fits 12 imm"
  shows "decode (hd (emit_ldr_str_imm sz 1 opc imm rn rt)) =
      Some (LoadStore sz True opc imm rn rt)"
  using assms by (simp_all add: dec_memory(1) emit_ldr_str_imm_def effective_opc_def bits_fields field_numeral fits_less split del: split_of_bool)

lemma decode_ldr_str_reg_fp:
  assumes "reg rn" "reg rt" "reg rm" "fits 2 sz" "fits 2 opc"
  shows "decode (hd (emit_ldr_str_reg sz 1 opc rm shift rn rt)) =
      Some (LoadStoreReg sz True opc 3 (shift \<noteq> 0) rm rn rt)"
  using assms by (simp_all add: dec_memory(2) emit_ldr_str_reg_def effective_opc_def bits_fields field_numeral fits_less split del: split_of_bool)

lemma decode_ldur_stur:
  assumes "reg rn" "reg rt" "fits 2 sz" "fits 2 opc"
  shows "decode (hd (emit_ldur_stur sz opc simm rn rt)) =
      Some (LoadStoreUnscaled sz opc (take_bit 9 simm) rn rt)"
  using assms by (simp_all add: dec_memory(3) emit_ldur_stur_def bits_fields field_numeral split del: split_of_bool)

lemma decode_cbz:
  assumes "reg rt" "fits 19 imm"
  shows "decode (hd (emit_cbz is64 nz rt imm)) =
      Some (CompareBranch (is64 \<noteq> 0) (nz \<noteq> 0) imm rt)"
  using assms by (simp_all add: dec_branch(2) emit_cbz_def bits_fields field_numeral split del: split_of_bool)

lemma decode_tbz:
  assumes "reg rt" "fits 14 imm" "fits 6 b"
  shows "decode (hd (emit_tbz nz rt b imm)) =
      Some (TestBranch (nz \<noteq> 0) b imm rt)"
  using assms by (simp_all add: dec_branch(3) emit_tbz_def bits_fields field_numeral test_bit split del: split_of_bool)

lemma decode_b:
  assumes "fits 26 imm"
  shows "decode (hd (emit_b imm)) =
      Some (Branch imm)"
  using assms by (simp_all add: dec_branch(1) emit_b_def bits_fields field_numeral split del: split_of_bool)

lemma decode_b_cond:
  assumes "fits 4 cnd" "fits 19 imm"
  shows "decode (hd (emit_b_cond cnd imm)) =
      Some (BranchCond cnd imm)"
  using assms by (simp_all add: dec_branch(4) emit_b_cond_def bits_fields field_numeral split del: split_of_bool)

lemma decode_mrs_nzcv:
  assumes "reg xd"
  shows "decode (hd (emit_mrs_nzcv xd)) =
      Some (ReadFlags xd)"
  using assms by (simp_all add: dec_branch(5) emit_mrs_nzcv_def bits_fields field_numeral split del: split_of_bool)

lemma decode_msr_nzcv:
  assumes "reg xd"
  shows "decode (hd (emit_msr_nzcv xd)) =
      Some (WriteFlags xd)"
  using assms by (simp_all add: dec_branch(6) emit_msr_nzcv_def bits_fields field_numeral split del: split_of_bool)

section \<open>Memory\<close>

lemma store_nth:
  "n \<le> 2 ^ 32 \<Longrightarrow> store n a v h c = (if unat (c - a) < n then ucast (drop_bit (8 * unat (c - a)) v) else h c)"
proof (induction n arbitrary: a v h)
  case (Suc n)
  have step: "store (Suc n) a v h c =
      (if unat (c - (a + 1)) < n then ucast (drop_bit (8 * unat (c - (a + 1))) (drop_bit 8 v))
       else (h(a := ucast v)) c)"
    unfolding store.simps by (rule Suc.IH) (use Suc.prems in simp)
  show ?case
  proof (cases "c = a")
    case True
    have "unat (a - (a + 1)) = 2 ^ 64 - 1" by (simp add: unsigned_minus_1_eq_mask mask_eq_exp_minus_1)
    then have "\<not> unat (c - (a + 1)) < n" using Suc.prems True by simp
    then show ?thesis unfolding step using True by simp
  next
    case False
    then have "c - a \<noteq> 0" by simp
    then have "unat (c - a) = Suc (unat (c - a - 1))"
      using unat_gt_0 [of "c - a"] by (simp add: unat_minus_one)
    moreover have "c - (a + 1) = c - a - 1" by simp
    ultimately show ?thesis unfolding step \<open>c - (a + 1) = c - a - 1\<close> using False by (simp add: ac_simps)
  qed
qed simp

lemma load_bit:
  "bit (load n a h) i \<longleftrightarrow> i < 8 * n \<and> i < 64 \<and> bit (h (a + word_of_nat (i div 8))) (i mod 8)"
proof (induction n arbitrary: a i)
  case (Suc n)
  show ?case
  proof (cases "i < 8")
    case True
    then show ?thesis using Suc.IH by (auto simp: bit_simps)
  next
    case False
    have i: "i div 8 = Suc ((i - 8) div 8)" "i mod 8 = (i - 8) mod 8"
      using False by (simp_all add: le_div_geq le_mod_geq)
    have "\<not> bit (ucast (h a) :: u64) i" using False bit_imp_le_length [of "h a" i] by (auto simp: bit_simps)
    then have "bit (load (Suc n) a h) i \<longleftrightarrow> i < 64 \<and> bit (load n (a + 1) h) (i - 8)"
      using False by (auto simp: bit_simps)
    also have "\<dots> \<longleftrightarrow> i < 8 * Suc n \<and> i < 64 \<and> bit (h (a + word_of_nat (i div 8))) (i mod 8)"
      using False by (auto simp: Suc.IH i ac_simps)
    finally show ?thesis .
  qed
qed simp

lemma load_store_same:
  assumes "n \<le> 8"
  shows "load n a (store n a v h) = take_bit (8 * n) v"
proof (rule bit_eqI)
  fix i assume "possible_bit TYPE(u64) i"
  then have "i < 64" by simp
  have "i div 8 < n" if "i < 8 * n" using that by (simp add: less_mult_imp_div_less mult.commute)
  moreover have "unat (word_of_nat (i div 8) :: u64) = i div 8"
    using \<open>i < 64\<close> by (simp add: unat_of_nat take_bit_nat_eq_self)
  ultimately show "bit (load n a (store n a v h)) i = bit (take_bit (8 * n) v) i"
    using assms \<open>i < 64\<close> by (auto simp: load_bit store_nth bit_simps)
qed

text \<open>Two accesses overlap only when one starts inside the other.\<close>

definition apart :: "u64 \<Rightarrow> nat \<Rightarrow> u64 \<Rightarrow> nat \<Rightarrow> bool" where
  "apart a n c k \<longleftrightarrow> k \<le> unat (a - c) \<and> n \<le> unat (c - a)"

lemma load_store_apart:
  assumes "apart a n c k" "n \<le> 8" "k \<le> 8"
  shows "load n a (store k c v h) = load n a h"
proof -
  have "store k c v h (a + word_of_nat j) = h (a + word_of_nat j)" if "j < n" for j
  proof -
    have j: "unat (word_of_nat j :: u64) = j"
      using that assms(2) by (simp add: unat_of_nat take_bit_nat_eq_self)
    have "\<not> unat (a + word_of_nat j - c) < k"
    proof
      assume l: "unat (a + word_of_nat j - c) < k"
      define d where "d = unat (a - c)"
      have "unat ((a - c) + word_of_nat j) = (unat (a - c) + unat (word_of_nat j :: u64)) mod 2 ^ LENGTH(64)"
        by (rule unat_word_ariths(1))
      moreover have "a + word_of_nat j - c = (a - c) + word_of_nat j" by simp
      ultimately have eq: "unat (a + word_of_nat j - c) = (d + j) mod 2 ^ 64"
        unfolding d_def j by (simp only: len_num0 len_bit0 len_num1) simp
      have "d < 2 ^ 64" unfolding d_def using unsigned_less [of "a - c"] by simp
      have "2 ^ 64 \<le> d + j"
      proof (rule ccontr)
        assume "\<not> 2 ^ 64 \<le> d + j"
        then have "(d + j) mod 2 ^ 64 = d + j" by simp
        then have "d < k" using l eq by linarith
        then show False using assms(1) by (simp add: apart_def d_def)
      qed
      have "unat ((c - a) + (a - c)) = (unat (c - a) + unat (a - c)) mod 2 ^ LENGTH(64)"
        by (rule unat_word_ariths(1))
      then have z: "(unat (c - a) + d) mod 2 ^ 64 = 0" by (simp add: d_def)
      have "unat (c - a) < 2 ^ 64" using unsigned_less [of "c - a"] by simp
      moreover have "2 ^ 64 < unat (c - a) + d" using \<open>2 ^ 64 \<le> d + j\<close> assms(1) that by (simp add: apart_def)
      ultimately show False using z \<open>d < 2 ^ 64\<close> by (simp add: le_mod_geq)
    qed
    then show ?thesis using assms(3) by (simp add: store_nth)
  qed
  then show ?thesis
    by (intro bit_eqI) (auto simp: load_bit less_mult_imp_div_less mult.commute)
qed

section \<open>Running code word by word\<close>

definition gpr :: "int \<Rightarrow> bool" where
  "gpr r \<longleftrightarrow> 0 \<le> r \<and> r < 31"

lemma gpr_reg: "gpr r \<Longrightarrow> reg r" "gpr r \<Longrightarrow> r \<noteq> 31"
  by (auto simp: gpr_def reg_def)

lemma reg_zero: "reg 31"
  by (simp add: reg_def)

definition set_x :: "int \<Rightarrow> u64 \<Rightarrow> mach \<Rightarrow> mach" where
  "set_x r v m = m\<lparr>xr := (xr m)(r := v)\<rparr>"

lemma set_x_sel [simp]:
  "xr (set_x r v m) = (xr m)(r := v)" "spr (set_x r v m) = spr m" "dr (set_x r v m) = dr m"
  "mem (set_x r v m) = mem m" "flag_n (set_x r v m) = flag_n m" "flag_z (set_x r v m) = flag_z m"
  "flag_c (set_x r v m) = flag_c m" "flag_v (set_x r v m) = flag_v m"
  "flag_a (set_x r v m) = flag_a m" "flag_p (set_x r v m) = flag_p m"
  by (simp_all add: set_x_def)

definition w32 :: "u64 \<Rightarrow> u64" where
  "w32 v = take_bit 32 v"

lemma w32_simps [simp]: "w32 (w32 x) = w32 x" "w32 (w32 x + y) = w32 (x + y)" "w32 (w32 x - y) = w32 (x - y)"
  unfolding w32_def
  subgoal by simp
  subgoal by transfer (simp add: take_bit_eq_mod mod_mod_cancel mod_simps)
  subgoal by transfer (simp add: take_bit_eq_mod mod_mod_cancel mod_simps)
  done

lemma reads: "gpr r \<Longrightarrow> rx False r m = w32 (xr m r)" "gpr r \<Longrightarrow> rx True r m = xr m r"
  "gpr r \<Longrightarrow> rsp False r m = w32 (xr m r)" "gpr r \<Longrightarrow> rsp True r m = xr m r"
  by (simp_all add: rx_def rsp_def gpr_def w32_def width_def take_bit_word_eq_self)

lemma writes: "gpr r \<Longrightarrow> wx False r v m = set_x r (w32 v) m" "gpr r \<Longrightarrow> wx True r v m = set_x r v m"
  "gpr r \<Longrightarrow> wsp False r v m = set_x r (w32 v) m" "gpr r \<Longrightarrow> wsp True r v m = set_x r v m"
  by (simp_all add: wx_def wsp_def gpr_def w32_def width_def take_bit_word_eq_self set_x_def)

lemma run_plain:
  assumes "decode (hd c) = Some i" "length c = 1" "taken i m = None" "exec i m = Some m'"
  shows "run (c @ ws) m = run ws m'"
proof -
  obtain w where "c = [w]" using assms(2) by (cases c) auto
  then show ?thesis using assms by simp
qed

lemmas exec_simps = taken_def reads writes add_sub_def with_flags_def width_def Let_def take_bit_word_eq_self
  gpr_reg access_def

lemma run_add_imm [run_simps]:
  assumes "gpr rn" "gpr rd" "fits 12 imm"
  shows "run (emit_add_imm 0 0 0 0 imm rn rd @ ws) m = run ws (set_x rd (w32 (xr m rn + word_of_int imm)) m)"
    "run (emit_add_imm 0 1 0 0 imm rn rd @ ws) m = run ws (set_x rd (w32 (xr m rn - word_of_int imm)) m)"
    "run (emit_add_imm 1 0 0 0 imm rn rd @ ws) m = run ws (set_x rd (xr m rn + word_of_int imm) m)"
    "run (emit_add_imm 1 1 0 0 imm rn rd @ ws) m = run ws (set_x rd (xr m rn - word_of_int imm) m)"
    "run (emit_add_imm 1 0 0 1 imm rn rd @ ws) m = run ws (set_x rd (xr m rn + word_of_int (imm * 4096)) m)"
  by (insert assms) (rule run_plain, rule decode_add_imm; simp add: emit_add_imm_def exec_simps flip: w32_def)+

lemma bitmask_low3: "bitmask False 0 0 2 = Some 7"
  by code_simp

lemma run_and_7 [run_simps]:
  assumes "gpr rn" "gpr rd"
  shows "run (emit_and_imm 0 rd 0 0 2 rn @ ws) m = run ws (set_x rd (xr m rn AND 7) m)"
proof -
  have "v AND 7 = take_bit 3 v" for v :: u64 by (simp add: take_bit_eq_mask mask_numeral)
  then have k: "w32 (w32 v AND 7) = v AND 7" for v by (simp add: w32_def)
  show ?thesis
    unfolding emit_and_imm_def
  by (insert assms) (rule run_plain, rule decode_logical_imm;
        simp add: emit_logical_imm_def exec_simps fits_def bitmask_low3 logic_def logic_flags_def k)+
qed

lemma run_movz [run_simps]:
  assumes "gpr rd" "fits 16 imm"
  shows "run (emit_movn 0 2 0 imm rd @ ws) m = run ws (set_x rd (word_of_int imm) m)"
proof -
  have k: "w32 (word_of_int imm) = word_of_int imm"
    using assms(2) unfolding w32_def fits_def
    by (intro word_uint_eqI) (simp add: unsigned_take_bit_eq unsigned_of_int take_bit_int_eq_self)
  show ?thesis
    by (insert assms) (rule run_plain, rule decode_movn; simp add: emit_movn_def exec_simps fits_def k)+
qed

lemma run_bitfield [run_simps]:
  assumes "gpr rn" "gpr rd" "fits 6 immr" "fits 6 imms" "fits 2 opc"
  shows "run (emit_bitfield 0 opc n immr imms rn rd @ ws) m =
    run ws (set_x rd (bitfield False opc (nat immr) (nat imms) (w32 (xr m rn)) (w32 (xr m rd))) m)"
proof -
  have k: "w32 (bitfield False opc r s a b) = bitfield False opc r s a b" for r s a b
    by (simp add: w32_def bitfield_def width_def Let_def)
  show ?thesis
    by (insert assms) (rule run_plain, rule decode_bitfield; simp add: emit_bitfield_def exec_simps k)+
qed

lemma run_lslv [run_simps]:
  assumes "gpr rm" "gpr rn" "gpr rd"
  shows "run (emit_lslv 0 rm rn rd @ ws) m =
    run ws (set_x rd (w32 (push_bit (unat (w32 (xr m rm)) mod 32) (w32 (xr m rn)))) m)"
  by (insert assms) (rule run_plain, rule decode_lslv; simp add: emit_lslv_def exec_simps)+

lemma run_logical [run_simps]:
  assumes "gpr rm" "gpr rn" "gpr rd"
  shows "run (emit_logical_shifted_reg 0 0 1 0 rm 0 rn rd @ ws) m =
      run ws (set_x rd (w32 (xr m rn) AND NOT (w32 (xr m rm))) m)"
    "run (emit_logical_shifted_reg 0 1 0 0 rm 0 rn rd @ ws) m =
      run ws (set_x rd (w32 (xr m rn) OR w32 (xr m rm)) m)"
proof -
  have t: "w32 (w32 a AND w32 (NOT (w32 b))) = w32 a AND NOT (w32 b)" "w32 (w32 a OR w32 b) = w32 a OR w32 b"
    "w32 (w32 a AND NOT (w32 b)) = w32 a AND NOT (w32 b)" for a b
    unfolding w32_def by (intro bit_word_eqI; auto simp: bit_simps)+
  show "run (emit_logical_shifted_reg 0 0 1 0 rm 0 rn rd @ ws) m =
      run ws (set_x rd (w32 (xr m rn) AND NOT (w32 (xr m rm))) m)"
    "run (emit_logical_shifted_reg 0 1 0 0 rm 0 rn rd @ ws) m =
      run ws (set_x rd (w32 (xr m rn) OR w32 (xr m rm)) m)"
    by (insert assms) (rule run_plain, rule decode_logical_shifted_reg;
        simp add: emit_logical_shifted_reg_def exec_simps shifted_def logic_def logic_flags_def fits_def t
          flip: w32_def)+
qed

text \<open>Half-word and double-word accesses at an immediate offset, and double-word FP accesses at a
  register offset.\<close>

lemma run_ldrh [run_simps]:
  assumes "gpr rn" "gpr rt" "fits 12 imm"
  shows "run (emit_ldr_str_imm 1 0 1 imm rn rt @ ws) m = run ws (set_x rt (load 2 (xr m rn + word_of_int (imm * 2)) (mem m)) m)"
    "run (emit_ldr_str_imm 1 0 0 imm rn rt @ ws) m =
      run ws (m\<lparr>mem := store 2 (xr m rn + word_of_int (imm * 2)) (xr m rt) (mem m)\<rparr>)"
  by (insert assms) (rule run_plain, rule decode_ldr_str_imm_gpr; simp add: emit_ldr_str_imm_def exec_simps fits_def)+

lemma run_fp_reg [run_simps]:
  assumes "gpr rn" "gpr rm" "reg rt"
  shows "run (emit_ldr_str_reg 3 1 1 rm shift rn rt @ ws) m =
      run ws (m\<lparr>dr := (dr m)(rt := load 8 (xr m rn + push_bit (if shift \<noteq> 0 then 3 else 0) (xr m rm)) (mem m))\<rparr>)"
    "run (emit_ldr_str_reg 3 1 0 rm shift rn rt @ ws) m =
      run ws (m\<lparr>mem := store 8 (xr m rn + push_bit (if shift \<noteq> 0 then 3 else 0) (xr m rm)) (dr m rt) (mem m)\<rparr>)"
  by (insert assms) (rule run_plain, rule decode_ldr_str_reg_fp;
      simp add: emit_ldr_str_reg_def exec_simps fits_def extended_def)+

lemma run_orr_shifted [run_simps]:
  assumes "gpr rm" "gpr rn" "gpr rd" "fits 6 k"
  shows "run (emit_logical_shifted_reg 0 1 0 1 rm k rn rd @ ws) m =
      run ws (set_x rd (w32 (xr m rn) OR drop_bit (nat k) (w32 (xr m rm))) m)"
    "run (emit_logical_shifted_reg 0 1 0 0 rm k rn rd @ ws) m =
      run ws (set_x rd (w32 (xr m rn) OR w32 (push_bit (nat k) (w32 (xr m rm)))) m)"
proof -
  have t: "w32 (w32 a OR w32 (drop_bit k (w32 b))) = w32 a OR drop_bit k (w32 b)" "w32 (drop_bit k (w32 b)) = drop_bit k (w32 b)"
    "w32 (w32 a OR drop_bit k (w32 b)) = w32 a OR drop_bit k (w32 b)" "w32 (w32 a OR w32 b) = w32 a OR w32 b" for a b k
    unfolding w32_def by (intro bit_word_eqI; auto simp: bit_simps)+
  show "run (emit_logical_shifted_reg 0 1 0 1 rm k rn rd @ ws) m =
      run ws (set_x rd (w32 (xr m rn) OR drop_bit (nat k) (w32 (xr m rm))) m)"
    "run (emit_logical_shifted_reg 0 1 0 0 rm k rn rd @ ws) m =
      run ws (set_x rd (w32 (xr m rn) OR w32 (push_bit (nat k) (w32 (xr m rm)))) m)"
    by (insert assms) (rule run_plain, rule decode_logical_shifted_reg;
        simp add: emit_logical_shifted_reg_def exec_simps shifted_def logic_def logic_flags_def fits_def t
          flip: w32_def)+
qed

lemma run_add_shifted [run_simps]:
  assumes "gpr rm" "gpr rn" "gpr rd" "fits 6 k"
  shows "run (emit_add_sub_shifted_reg 1 0 0 0 rm k rn rd @ ws) m =
      run ws (set_x rd (xr m rn + push_bit (nat k) (xr m rm)) m)"
    "run (emit_add_sub_shifted_reg 0 0 0 0 rm k rn rd @ ws) m =
      run ws (set_x rd (w32 (w32 (xr m rn) + w32 (push_bit (nat k) (w32 (xr m rm))))) m)"
  by (insert assms) (rule run_plain, rule decode_add_sub_shifted_reg;
      simp add: emit_add_sub_shifted_reg_def exec_simps shifted_def fits_def flip: w32_def)+

lemma run_mov [run_simps]:
  assumes "gpr rn" "gpr rd"
  shows "run (emit_mov_reg 0 rd rn @ ws) m = run ws (set_x rd (w32 (xr m rn)) m)"
    "run (emit_mov_reg 1 rd rn @ ws) m = run ws (set_x rd (xr m rn) m)"
proof -
  have "rd \<noteq> SP" "rn \<noteq> SP" using assms by (auto simp: gpr_def)
  then have e: "emit_mov_reg w rd rn = emit_logical_shifted_reg w 1 0 0 rn 0 XZR rd" for w
    by (simp add: emit_mov_reg_def)
  show "run (emit_mov_reg 0 rd rn @ ws) m = run ws (set_x rd (w32 (xr m rn)) m)"
    "run (emit_mov_reg 1 rd rn @ ws) m = run ws (set_x rd (xr m rn) m)"
    unfolding e
    by (insert assms) (rule run_plain, rule decode_logical_shifted_reg;
      simp add: emit_logical_shifted_reg_def exec_simps shifted_def logic_def logic_flags_def fits_def rx_def reg_zero
        flip: w32_def)+
qed

lemma run_clear_bits [run_simps]:
  assumes "gpr rd" "fits 6 immr" "fits 6 imms"
  shows "run (emit_bitfield 0 1 n immr imms XZR rd @ ws) m =
    run ws (set_x rd (bitfield False 1 (nat immr) (nat imms) 0 (w32 (xr m rd))) m)"
proof -
  have k: "w32 (bitfield False opc r s a b) = bitfield False opc r s a b" for opc r s a b
    by (simp add: w32_def bitfield_def width_def Let_def)
  have z: "rx False 31 m = 0" by (simp add: rx_def)
  show ?thesis
    by (insert assms) (rule run_plain, rule decode_bitfield; simp add: emit_bitfield_def exec_simps k z reg_zero fits_def)+
qed

lemma run_cset [run_simps]:
  assumes "gpr rd" "fits 4 cnd"
  shows "run (emit_cset 0 cnd rd @ ws) m = run ws (set_x rd (of_bool (\<not> holds (cnd XOR 1) m)) m)"
proof -
  have z: "rx False 31 m = 0" by (simp add: rx_def)
  have o: "w32 1 = 1" "w32 0 = 0" by (simp_all add: w32_def)
  show ?thesis
    by (insert assms) (rule run_plain, rule decode_cset; simp add: emit_cset_def exec_simps z o reg_zero fits_def of_bool_def)+
qed

lemma run_mrs [run_simps]:
  assumes "gpr rd"
  shows "run (emit_mrs_nzcv rd @ ws) m = run ws (set_x rd (flags_word m) m)"
  by (insert assms) (rule run_plain, rule decode_mrs_nzcv; simp add: emit_mrs_nzcv_def exec_simps)+

definition set_flags :: "u64 \<Rightarrow> mach \<Rightarrow> mach" where
  "set_flags v m = m\<lparr>flag_n := bit v 31, flag_z := bit v 30, flag_c := bit v 29, flag_v := bit v 28,
     flag_a := bit v 27, flag_p := bit v 26\<rparr>"

lemma run_msr [run_simps]:
  assumes "gpr rd"
  shows "run (emit_msr_nzcv rd @ ws) m = run ws (set_flags (xr m rd) m)"
  by (insert assms) (rule run_plain, rule decode_msr_nzcv; simp add: emit_msr_nzcv_def exec_simps set_flags_def)+

lemma run_fmov [run_simps]:
  assumes "reg dd" "reg dn"
  shows "run (emit_fmov_f64_reg dd dn @ ws) m = run ws (m\<lparr>dr := (dr m)(dd := dr m dn)\<rparr>)"
  by (insert assms) (rule run_plain, rule decode_fmov_f64_reg; simp add: emit_fmov_f64_reg_def exec_simps)+

lemma run_fmov_gpr [run_simps]:
  assumes "gpr r" "reg d"
  shows "run (emit_fmov_gpr_fpr 0 r d @ ws) m = run ws (m\<lparr>dr := (dr m)(d := xr m r)\<rparr>)"
    "run (emit_fmov_gpr_fpr 1 r d @ ws) m = run ws (set_x r (dr m d) m)"
  by (insert assms) (rule run_plain, rule decode_fmov_gpr_fpr; simp add: emit_fmov_gpr_fpr_def exec_simps)+

text \<open>Branches: the words skipped are those before the target.\<close>

lemma run_branch:
  assumes "decode (hd c) = Some i" "length c = 1" "taken i m = Some n" "0 < n" "nat n \<le> Suc (length ws)"
  shows "run (c @ ws) m = run (drop (nat n - 1) ws) m"
proof -
  obtain w where "c = [w]" using assms(2) by (cases c) auto
  then show ?thesis using assms by simp
qed

lemma run_skip_one:
  assumes "length c = 1"
  shows "fits 4 cnd \<Longrightarrow> run (emit_b_cond cnd 2 @ c @ ws) m = (if holds cnd m then run ws m else run (c @ ws) m)"
    "gpr rt \<Longrightarrow> fits 6 b \<Longrightarrow> run (emit_tbz nz rt b 2 @ c @ ws) m =
      (if bit (xr m rt) (nat b) = (nz \<noteq> 0) then run ws m else run (c @ ws) m)"
proof -
  obtain w where c: "c = [w]" using assms by (cases c) auto
  show "run (emit_b_cond cnd 2 @ c @ ws) m = (if holds cnd m then run ws m else run (c @ ws) m)" if "fits 4 cnd"
    using that by (subst run_branch [where n = "if holds cnd m then 2 else 1", OF decode_b_cond])
      (simp_all add: c fits_def emit_b_cond_def taken_def)
  show "run (emit_tbz nz rt b 2 @ c @ ws) m =
      (if bit (xr m rt) (nat b) = (nz \<noteq> 0) then run ws m else run (c @ ws) m)" if "gpr rt" "fits 6 b"
    using that by (subst run_branch [where n = "if bit (xr m rt) (nat b) = (nz \<noteq> 0) then 2 else 1", OF decode_tbz])
      (simp_all add: c fits_def emit_tbz_def taken_def reads gpr_reg)
qed

end
