(* ===== verification/X87_Emit_Exec.thy ===== *)
theory X87_Emit_Exec
  imports X87_Emit A64_Exec
begin

text \<open>
  Execution of the x87 code generators: what running each piece of code does to the status word, the
  tag word, the register file and the scratch registers, and that it does nothing else.
\<close>

section \<open>The state in memory\<close>

definition set_top :: "u64 \<Rightarrow> nat \<Rightarrow> u64" where
  "set_top sw t = (sw AND NOT (push_bit 11 (mask 3))) OR push_bit 11 (take_bit 3 (word_of_nat t))"

definition tag_valid :: "nat \<Rightarrow> u64 \<Rightarrow> u64" where
  "tag_valid t tw = tw AND NOT (push_bit (2 * t) 3)"

definition tag_empty :: "nat \<Rightarrow> u64 \<Rightarrow> u64" where
  "tag_empty t tw = tw OR push_bit (2 * t) 3"

text \<open>Memory after the status word, or the tag word, of the state at \<open>b\<close> is changed by \<open>f\<close>.\<close>

definition upd_status :: "u64 \<Rightarrow> (u64 \<Rightarrow> u64) \<Rightarrow> (u64 \<Rightarrow> u8) \<Rightarrow> (u64 \<Rightarrow> u8)" where
  "upd_status b f h = store 2 (b + 2) (f (load 2 (b + 2) h)) h"

definition upd_tags :: "u64 \<Rightarrow> (u64 \<Rightarrow> u64) \<Rightarrow> (u64 \<Rightarrow> u8) \<Rightarrow> (u64 \<Rightarrow> u8)" where
  "upd_tags b f h = store 2 (b + 4) (f (load 2 (b + 4) h)) h"

text \<open>Everything but memory and the registers of \<open>R\<close> is as it was.\<close>

definition keeps :: "int set \<Rightarrow> mach \<Rightarrow> mach \<Rightarrow> bool" where
  "keeps R m m' \<longleftrightarrow> (\<forall>r. r \<notin> R \<longrightarrow> xr m' r = xr m r) \<and> spr m' = spr m \<and> dr m' = dr m \<and>
     flag_n m' = flag_n m \<and> flag_z m' = flag_z m \<and> flag_c m' = flag_c m \<and> flag_v m' = flag_v m \<and>
     flag_a m' = flag_a m \<and> flag_p m' = flag_p m"

lemma keeps_refl: "keeps R m m"
  by (simp add: keeps_def)

lemma keeps_trans: "keeps R m m' \<Longrightarrow> keeps R m' m'' \<Longrightarrow> keeps R m m''"
  by (simp add: keeps_def)

lemma keeps_mono: "keeps R m m' \<Longrightarrow> R \<subseteq> S \<Longrightarrow> keeps S m m'"
  by (auto simp: keeps_def)

lemma keeps_set_x: "r \<in> R \<Longrightarrow> keeps R m m' \<Longrightarrow> keeps R m (set_x r v m')"
  by (auto simp: keeps_def)

lemma keeps_mem: "keeps R m m' \<Longrightarrow> keeps R m (m'\<lparr>mem := h\<rparr>)"
  by (simp add: keeps_def)

lemma keeps_xr: "keeps R m m' \<Longrightarrow> r \<notin> R \<Longrightarrow> xr m' r = xr m r"
  by (simp add: keeps_def)

lemmas keeps_intros = keeps_refl keeps_set_x keeps_mem

section \<open>Values below eight\<close>

lemma below_eight: "t < 8 \<Longrightarrow> t \<in> {0, 1, 2, 3, 4, 5, 6, 7 :: nat}"
  by auto

lemma and_7: "v AND 7 = take_bit 3 (v :: u64)"
  by (simp add: take_bit_eq_mask mask_numeral)

lemma w32_and_7: "w32 v AND 7 = v AND 7"
  by (simp add: and_7 w32_def)

lemma nat_and_7: "(word_of_nat n :: u64) AND 7 = word_of_nat (n mod 8)"
proof -
  have "unat (take_bit 3 (word_of_nat n :: u64)) = take_bit 3 (take_bit 64 n)"
    by (simp add: unsigned_take_bit_eq unsigned_of_nat)
  also have "\<dots> = unat (word_of_nat (n mod 8) :: u64)"
    by (simp add: unsigned_of_nat take_bit_eq_mod mod_mod_cancel)
  finally show ?thesis by (simp only: and_7 unsigned_word_eqI)
qed

lemma top_minus_one: "t < 8 \<Longrightarrow> (word_of_nat t - 1 :: u64) AND 7 = word_of_nat ((t + 7) mod 8)"
  by (drule below_eight) auto

lemma top_plus: "(word_of_nat t + word_of_nat i :: u64) AND 7 = word_of_nat ((t + i) mod 8)"
  using nat_and_7 [of "t + i"] by simp

lemma top_succ: "(word_of_nat t + 1 :: u64) AND 7 = word_of_nat (Suc t mod 8)"
  using nat_and_7 [of "Suc t"] by (simp add: add.commute)

lemma int_and_7: "(word_of_int x :: u64) AND 7 = word_of_int (x mod 8)"
proof -
  have "take_bit 3 (word_of_int x :: u64) = word_of_int (take_bit 3 x)"
    by (rule bit_word_eqI) (auto simp: bit_simps)
  then show ?thesis by (simp add: and_7 take_bit_eq_mod)
qed

lemma top_back: "(word_of_nat t - word_of_int k :: u64) AND 7 = word_of_nat (nat ((int t - k) mod 8))"
proof -
  have "(word_of_nat t - word_of_int k :: u64) = word_of_int (int t - k)" by simp
  then have "(word_of_nat t - word_of_int k :: u64) AND 7 = word_of_int ((int t - k) mod 8)"
    by (simp only: int_and_7)
  then show ?thesis by simp
qed

lemma top_forward: "0 \<le> k \<Longrightarrow> (word_of_nat t + word_of_int k :: u64) AND 7 = word_of_nat ((t + nat k) mod 8)"
  using nat_and_7 [of "t + nat k"] by simp

lemma twice: "t < 8 \<Longrightarrow> bitfield False 2 31 30 (w32 (word_of_nat t)) d = 2 * word_of_nat t"
  by (drule below_eight) (auto simp: bitfield_def w32_def width_def)

lemma three_at: "t < 8 \<Longrightarrow> w32 (push_bit (unat (w32 (2 * word_of_nat t)) mod 32) (w32 3)) = push_bit (2 * t) 3"
  by (drule below_eight) (auto simp: w32_def)

lemma load2_w32: "w32 (load 2 a h) = load 2 a h"
  unfolding w32_def by (rule bit_word_eqI) (auto simp: bit_simps load_bit)

lemma three_w32: "t < 8 \<Longrightarrow> w32 (push_bit (2 * t) 3) = push_bit (2 * t) 3"
  by (drule below_eight) (auto simp: w32_def)

lemma insert_top: "bitfield False 1 21 2 (w32 (word_of_nat t)) (load 2 a h) = set_top (load 2 a h) t"
  unfolding set_top_def bitfield_def width_def w32_def Let_def
  by (rule bit_word_eqI) (auto simp: bit_simps load_bit)

section \<open>Code as a state transformer\<close>

text \<open>Code that runs to its end, from \<open>m\<close>, in a state satisfying \<open>Q\<close>, whatever follows it.\<close>

definition runs :: "u32 list \<Rightarrow> mach \<Rightarrow> (mach \<Rightarrow> bool) \<Rightarrow> bool" where
  "runs c m Q \<longleftrightarrow> (\<exists>m'. (\<forall>ws. run (c @ ws) m = run ws m') \<and> Q m')"

lemma runsI: "(\<And>ws. run (c @ ws) m = run ws m') \<Longrightarrow> Q m' \<Longrightarrow> runs c m Q"
  by (auto simp: runs_def)

lemma runs_append:
  assumes "runs c m Q" "\<And>m'. Q m' \<Longrightarrow> runs d m' R"
  shows "runs (c @ d) m R"
proof -
  obtain m' where m': "\<And>ws. run (c @ ws) m = run ws m'" "Q m'" using assms(1) by (auto simp: runs_def)
  obtain m'' where "\<And>ws. run (d @ ws) m' = run ws m''" "R m''"
    using assms(2) [OF m'(2)] by (auto simp: runs_def)
  then show ?thesis by (intro runsI [where m' = m'']) (simp_all add: m'(1))
qed

lemma runs_mono: "runs c m Q \<Longrightarrow> (\<And>m'. Q m' \<Longrightarrow> R m') \<Longrightarrow> runs c m R"
  by (auto simp: runs_def)

lemma runs_Nil: "Q m \<Longrightarrow> runs [] m Q"
  by (rule runsI [where m' = m]) simp_all

lemma runs_run: "runs c m Q \<Longrightarrow> \<exists>m'. run c m = Some m' \<and> Q m'"
  by (auto simp: runs_def dest: spec [where x = "[]"])

section \<open>Straight-line pieces\<close>

definition scratch :: "int \<Rightarrow> int list \<Rightarrow> bool" where
  "scratch xbase rs \<longleftrightarrow> gpr xbase \<and> list_all gpr rs \<and> distinct (xbase # rs)"

lemmas run_code = run_simps fits_def w32_simps load2_w32 three_at three_w32 twice nat_and_7 top_plus
  top_minus_one w32_and_7 append_assoc append_Nil

lemma runs_store_top:
  assumes "scratch xbase [wd_top, wd_tmp]" "xr m wd_top = word_of_nat t" "t < 8"
  shows "runs (emit_store_top xbase wd_top wd_tmp) m (\<lambda>m'. keeps {wd_tmp} m m' \<and>
    mem m' = upd_status (xr m xbase) (\<lambda>w. set_top w t) (mem m))"
  by (insert assms, rule runsI, simp add: emit_store_top_def run_code scratch_def insert_top,
      simp add: keeps_intros upd_status_def scratch_def insert_top)

lemma runs_tag_clear:
  assumes "scratch xbase [wd_top, wd_tmp, wd_tmp2]" "xr m wd_top = word_of_nat t" "t < 8"
  shows "runs (emit_x87_tag_clear xbase wd_top wd_tmp wd_tmp2) m (\<lambda>m'. keeps {wd_tmp, wd_tmp2} m m' \<and>
    mem m' = upd_tags (xr m xbase) (tag_valid t) (mem m))"
  by (insert assms, rule runsI, simp add: emit_x87_tag_clear_def run_code scratch_def,
      simp add: keeps_intros upd_tags_def tag_valid_def scratch_def)

lemma runs_push_top:
  assumes "scratch xbase [wd_top]" "xr m wd_top = word_of_nat t" "t < 8"
  shows "runs (emit_x87_push_fully_deferred wd_top) m (\<lambda>m'. keeps {wd_top} m m' \<and> mem m' = mem m \<and>
    xr m' wd_top = word_of_nat ((t + 7) mod 8))"
  by (insert assms, rule runsI, simp add: emit_x87_push_fully_deferred_def run_code scratch_def,
      simp add: keeps_intros)

lemma runs_pop_top:
  assumes "scratch xbase [wd_top]" "xr m wd_top = word_of_nat t" "t < 8"
  shows "runs (emit_x87_pop_top_only wd_top) m (\<lambda>m'. keeps {wd_top} m m' \<and> mem m' = mem m \<and>
    xr m' wd_top = word_of_nat ((t + 1) mod 8))"
  by (insert assms, rule runsI, simp add: emit_x87_pop_top_only_def run_code scratch_def,
      simp add: keeps_intros top_succ)

text \<open>A push, by its parts.\<close>

lemma push_parts:
  "emit_x87_push xbase wd_top wd_tmp wd_tmp2 =
     emit_x87_push_fully_deferred wd_top @ emit_store_top xbase wd_top wd_tmp @
     emit_x87_tag_clear xbase wd_top wd_tmp wd_tmp2"
  "emit_x87_push_deferred xbase wd_top wd_tmp wd_tmp2 =
     emit_x87_push_fully_deferred wd_top @ emit_x87_tag_clear xbase wd_top wd_tmp wd_tmp2"
  by (simp_all add: emit_x87_push_def emit_x87_push_deferred_def emit_x87_push_fully_deferred_def emit_x87_tag_clear_def)

definition mark_empty :: "int \<Rightarrow> int \<Rightarrow> int \<Rightarrow> int \<Rightarrow> u32 list" where
  "mark_empty xbase wd_top wd_tmp wd_tmp2 =
     emit_bitfield 0 2 0 31 30 wd_top wd_tmp2 @ emit_movn 0 2 0 3 wd_tmp @ emit_lslv 0 wd_tmp2 wd_tmp wd_tmp @
     emit_ldr_str_imm 1 0 1 kX87TagWordImm12 xbase wd_tmp2 @
     emit_logical_shifted_reg 0 1 0 0 wd_tmp 0 wd_tmp2 wd_tmp2 @
     emit_ldr_str_imm 1 0 0 kX87TagWordImm12 xbase wd_tmp2"

lemma pop_parts:
  "emit_x87_pop_deferred xbase wd_top wd_tmp wd_tmp2 =
     mark_empty xbase wd_top wd_tmp wd_tmp2 @ emit_x87_pop_top_only wd_top"
  "emit_x87_pop xbase wd_top wd_tmp wd_tmp2 =
     mark_empty xbase wd_top wd_tmp wd_tmp2 @ emit_x87_pop_top_only wd_top @ emit_store_top xbase wd_top wd_tmp"
  by (simp_all add: emit_x87_pop_def emit_x87_pop_deferred_def emit_x87_pop_top_only_def mark_empty_def)

lemma runs_mark_from:
  assumes "scratch xbase [wd_tmp, wd_tmp2]" "gpr r" "r \<noteq> wd_tmp" "xr m r = word_of_nat t" "t < 8"
  shows "runs (mark_empty xbase r wd_tmp wd_tmp2) m (\<lambda>m'. keeps {wd_tmp, wd_tmp2} m m' \<and>
    mem m' = upd_tags (xr m xbase) (tag_empty t) (mem m))"
  by (insert assms, rule runsI, simp add: mark_empty_def run_code scratch_def,
      simp add: keeps_intros upd_tags_def tag_empty_def scratch_def)

lemma runs_mark_empty:
  assumes "scratch xbase [wd_top, wd_tmp, wd_tmp2]" "xr m wd_top = word_of_nat t" "t < 8"
  shows "runs (mark_empty xbase wd_top wd_tmp wd_tmp2) m (\<lambda>m'. keeps {wd_tmp, wd_tmp2} m m' \<and>
    mem m' = upd_tags (xr m xbase) (tag_empty t) (mem m))"
  by (rule runs_mark_from) (use assms in \<open>auto simp: scratch_def\<close>)

lemma scratch_sub: "scratch xbase (r # rs) \<Longrightarrow> scratch xbase [r]" "scratch xbase (r # s # rs) \<Longrightarrow> scratch xbase [r, s]"
  by (auto simp: scratch_def)

lemma scratch_ne: "scratch xbase rs \<Longrightarrow> xbase \<notin> set rs"
  by (auto simp: scratch_def)

lemma runs_push:
  assumes "scratch xbase [wd_top, wd_tmp, wd_tmp2]" "xr m wd_top = word_of_nat t" "t < 8"
  shows "runs (emit_x87_push xbase wd_top wd_tmp wd_tmp2) m (\<lambda>m'. keeps {wd_top, wd_tmp, wd_tmp2} m m' \<and>
    xr m' wd_top = word_of_nat ((t + 7) mod 8) \<and>
    mem m' = upd_tags (xr m xbase) (tag_valid ((t + 7) mod 8))
      (upd_status (xr m xbase) (\<lambda>w. set_top w ((t + 7) mod 8)) (mem m)))"
  unfolding push_parts
  apply (rule runs_append [OF runs_push_top [OF scratch_sub(1) [OF assms(1)] assms(2,3)]])
  apply (rule runs_append [OF runs_store_top [OF scratch_sub(2) [OF assms(1)], where t = "(t + 7) mod 8"]])
    apply simp_all
  apply (rule runs_mono [OF runs_tag_clear [OF assms(1), where t = "(t + 7) mod 8"]])
  using assms by (auto simp: keeps_def scratch_def)

lemma runs_pop_deferred:
  assumes "scratch xbase [wd_top, wd_tmp, wd_tmp2]" "xr m wd_top = word_of_nat t" "t < 8"
  shows "runs (emit_x87_pop_deferred xbase wd_top wd_tmp wd_tmp2) m (\<lambda>m'. keeps {wd_top, wd_tmp, wd_tmp2} m m' \<and>
    xr m' wd_top = word_of_nat ((t + 1) mod 8) \<and> mem m' = upd_tags (xr m xbase) (tag_empty t) (mem m))"
  unfolding pop_parts
  apply (rule runs_append [OF runs_mark_empty [OF assms]])
  apply (rule runs_mono [OF runs_pop_top [OF scratch_sub(1) [OF assms(1)], where t = t]])
  using assms by (auto simp: keeps_def scratch_def)

lemma runs_pop:
  assumes "scratch xbase [wd_top, wd_tmp, wd_tmp2]" "xr m wd_top = word_of_nat t" "t < 8"
  shows "runs (emit_x87_pop xbase wd_top wd_tmp wd_tmp2) m (\<lambda>m'. keeps {wd_top, wd_tmp, wd_tmp2} m m' \<and>
    xr m' wd_top = word_of_nat ((t + 1) mod 8) \<and>
    mem m' = upd_status (xr m xbase) (\<lambda>w. set_top w ((t + 1) mod 8)) (upd_tags (xr m xbase) (tag_empty t) (mem m)))"
proof -
  have "emit_x87_pop xbase wd_top wd_tmp wd_tmp2 =
      emit_x87_pop_deferred xbase wd_top wd_tmp wd_tmp2 @ emit_store_top xbase wd_top wd_tmp"
    by (simp add: pop_parts)
  then show ?thesis
    apply (simp only:)
    apply (rule runs_append [OF runs_pop_deferred [OF assms]])
    apply (rule runs_mono [OF runs_store_top [OF scratch_sub(2) [OF assms(1)], where t = "(t + 1) mod 8"]])
    using assms by (auto simp: keeps_def scratch_def)
qed

section \<open>Several pops\<close>

lemma upto_upt: "[0..int n - 1] = map int [0..<n]"
  by (rule nth_equalityI) simp_all

lemma mark_loop_step:
  "pop_n_loop (i # is) xbase wd_top wd_tmp wd_tmp2 =
     (if i = 0 then [] else emit_add_imm 0 0 0 0 i wd_top wd_tmp2 @ emit_and_imm 0 wd_tmp2 0 0 2 wd_tmp2) @
     mark_empty xbase (if i = 0 then wd_top else wd_tmp2) wd_tmp wd_tmp2 @ pop_n_loop is xbase wd_top wd_tmp wd_tmp2"
  by (simp add: mark_empty_def)

lemma runs_mark_indexed:
  assumes "scratch xbase [wd_top, wd_tmp, wd_tmp2]" "xr m wd_top = word_of_nat t" "fits 12 i"
  shows "runs (emit_add_imm 0 0 0 0 i wd_top wd_tmp2 @ emit_and_imm 0 wd_tmp2 0 0 2 wd_tmp2) m
    (\<lambda>m'. keeps {wd_tmp, wd_tmp2} m m' \<and> mem m' = mem m \<and> xr m' wd_tmp2 = word_of_nat ((t + nat i) mod 8))"
  by (insert assms, rule runsI, simp add: run_code scratch_def, simp add: keeps_intros top_forward fits_def)

lemma runs_pop_n_loop:
  assumes "scratch xbase [wd_top, wd_tmp, wd_tmp2]" "xr m wd_top = word_of_nat t" "t < 8" "\<forall>i\<in>set is. fits 12 i"
  shows "runs (pop_n_loop is xbase wd_top wd_tmp wd_tmp2) m (\<lambda>m'. keeps {wd_tmp, wd_tmp2} m m' \<and>
    mem m' = fold (\<lambda>i. upd_tags (xr m xbase) (tag_empty ((t + nat i) mod 8))) is (mem m))"
  using assms
proof (induction "is" arbitrary: m)
  case Nil
  then show ?case by (simp add: runs_Nil keeps_refl)
next
  case (Cons i "is")
  have hd: "runs ((if i = 0 then [] else emit_add_imm 0 0 0 0 i wd_top wd_tmp2 @ emit_and_imm 0 wd_tmp2 0 0 2 wd_tmp2) @
      mark_empty xbase (if i = 0 then wd_top else wd_tmp2) wd_tmp wd_tmp2) m (\<lambda>m'. keeps {wd_tmp, wd_tmp2} m m' \<and>
    mem m' = upd_tags (xr m xbase) (tag_empty ((t + nat i) mod 8)) (mem m))"
  proof (cases "i = 0")
    case True
    then show ?thesis using Cons.prems runs_mark_empty [OF Cons.prems(1-3)] by simp
  next
    case False
    have "runs ((emit_add_imm 0 0 0 0 i wd_top wd_tmp2 @ emit_and_imm 0 wd_tmp2 0 0 2 wd_tmp2) @
        mark_empty xbase wd_tmp2 wd_tmp wd_tmp2) m (\<lambda>m'. keeps {wd_tmp, wd_tmp2} m m' \<and>
      mem m' = upd_tags (xr m xbase) (tag_empty ((t + nat i) mod 8)) (mem m))"
      by (rule runs_append [OF runs_mark_indexed [OF Cons.prems(1,2)]], use Cons.prems in simp,
          rule runs_mono [OF runs_mark_from [where t = "(t + nat i) mod 8"]])
        (use Cons.prems in \<open>auto simp: keeps_def scratch_def\<close>)
    then show ?thesis using False by simp
  qed
  show ?case
    unfolding mark_loop_step append_assoc [symmetric]
    by (rule runs_append [OF hd [unfolded append_assoc [symmetric]]], rule runs_mono [OF Cons.IH])
      (use Cons.prems in \<open>auto simp: keeps_def scratch_def\<close>)
qed

lemma runs_advance:
  assumes "scratch xbase [wd_top]" "xr m wd_top = word_of_nat t" "n \<le> 8"
  shows "runs (emit_add_imm 0 0 0 0 (int n) wd_top wd_top @ emit_and_imm 0 wd_top 0 0 2 wd_top) m
    (\<lambda>m'. keeps {wd_top} m m' \<and> mem m' = mem m \<and> xr m' wd_top = word_of_nat ((t + n) mod 8))"
  by (insert assms, rule runsI, simp add: run_code scratch_def, simp add: keeps_intros top_plus)

lemma runs_pop_n_deferred:
  assumes "scratch xbase [wd_top, wd_tmp, wd_tmp2]" "xr m wd_top = word_of_nat t" "t < 8" "n \<le> 8"
  shows "runs (emit_x87_pop_n_deferred xbase wd_top wd_tmp wd_tmp2 (int n)) m (\<lambda>m'. keeps {wd_top, wd_tmp, wd_tmp2} m m' \<and>
    xr m' wd_top = word_of_nat ((t + n) mod 8) \<and>
    mem m' = fold (\<lambda>i. upd_tags (xr m xbase) (tag_empty ((t + i) mod 8))) [0..<n] (mem m))"
proof -
  have f: "fold (\<lambda>i. upd_tags b (tag_empty ((t + nat i) mod 8))) [0..int n - 1] h =
      fold (\<lambda>i. upd_tags b (tag_empty ((t + i) mod 8))) [0..<n] h" for b h
    unfolding upto_upt by (simp add: fold_map o_def)
  show ?thesis
    unfolding emit_x87_pop_n_deferred_def
    apply (rule runs_append [OF runs_pop_n_loop [OF assms(1-3)]])
     apply (use assms(4) in \<open>auto simp: fits_def\<close>)[1]
    apply (rule runs_mono [OF runs_advance [OF scratch_sub(1) [OF assms(1)] _ assms(4), where t = t]])
    using assms(1,2) by (auto simp: f keeps_def scratch_def)
qed

lemma runs_pop_n:
  assumes "scratch xbase [wd_top, wd_tmp, wd_tmp2]" "xr m wd_top = word_of_nat t" "t < 8" "n \<le> 8"
  shows "runs (emit_x87_pop_n xbase wd_top wd_tmp wd_tmp2 (int n)) m (\<lambda>m'. keeps {wd_top, wd_tmp, wd_tmp2} m m' \<and>
    xr m' wd_top = word_of_nat ((t + n) mod 8) \<and>
    mem m' = upd_status (xr m xbase) (\<lambda>w. set_top w ((t + n) mod 8))
      (fold (\<lambda>i. upd_tags (xr m xbase) (tag_empty ((t + i) mod 8))) [0..<n] (mem m)))"
proof -
  have "emit_x87_pop_n xbase wd_top wd_tmp wd_tmp2 (int n) =
      emit_x87_pop_n_deferred xbase wd_top wd_tmp wd_tmp2 (int n) @ emit_store_top xbase wd_top wd_tmp"
    by (simp add: emit_x87_pop_n_def emit_x87_pop_n_deferred_def)
  then show ?thesis
    apply (simp only:)
    apply (rule runs_append [OF runs_pop_n_deferred [OF assms]])
    apply (rule runs_mono [OF runs_store_top [OF scratch_sub(2) [OF assms(1)], where t = "(t + n) mod 8"]])
    using assms by (auto simp: keeps_def scratch_def)
qed

end
