(* ===== verification/X87_Emit_Batch.thy ===== *)
theory X87_Emit_Batch
  imports X87_Emit_Exec
begin

text \<open>
  The batched tag updates and the condition codes: one read-modify-write in place of several, and the
  compare results written from the flags.
\<close>

section \<open>Tag words\<close>

lemma bit_three: "bit (3 :: int) j \<longleftrightarrow> j < 2"
proof -
  have "bit (3 :: int) j \<longleftrightarrow> bit (mask 2 :: int) j" by (simp only: mask_numeral) simp
  then show ?thesis by (auto simp: bit_mask_iff)
qed

lemma tag_bit:
  "bit (tag_valid t w) i \<longleftrightarrow> bit w i \<and> i div 2 \<noteq> t"
  "i < 64 \<Longrightarrow> bit (tag_empty t w) i \<longleftrightarrow> bit w i \<or> i div 2 = t"
proof -
  have e: "2 * t \<le> i \<and> i - 2 * t < 2 \<longleftrightarrow> i div 2 = t" by auto
  show "bit (tag_valid t w) i \<longleftrightarrow> bit w i \<and> i div 2 \<noteq> t"
    unfolding e [symmetric] by (auto simp: tag_valid_def bit_simps bit_three dest: bit_imp_le_length)
  show "bit (tag_empty t w) i \<longleftrightarrow> bit w i \<or> i div 2 = t" if "i < 64"
    unfolding e [symmetric] using that by (auto simp: tag_empty_def bit_simps bit_three)
qed

lemma fold_tag_bit:
  "bit (fold (\<lambda>k. tag_valid (g k)) ks w) i \<longleftrightarrow> bit w i \<and> (\<forall>k\<in>set ks. i div 2 \<noteq> g k)"
  "i < 64 \<Longrightarrow> bit (fold (\<lambda>k. tag_empty (g k)) ks w) i \<longleftrightarrow> bit w i \<or> (\<exists>k\<in>set ks. i div 2 = g k)"
  by (induction ks arbitrary: w) (auto simp: tag_bit)

text \<open>Only the low sixteen bits reach memory.\<close>

lemma store2_cong:
  assumes e: "take_bit 16 v = take_bit 16 w"
  shows "store 2 a v h = store 2 a w h"
proof (rule ext)
  fix c
  have "ucast (drop_bit (8 * j) v) = (ucast (drop_bit (8 * j) w) :: u8)" if "j < 2" for j
  proof (rule bit_eqI)
    fix n assume "possible_bit TYPE(u8) n"
    then have "n < 8" by simp
    then have "bit (take_bit 16 v) (8 * j + n) = bit (take_bit 16 w) (8 * j + n)" using e by simp
    then show "bit (ucast (drop_bit (8 * j) v) :: u8) n = bit (ucast (drop_bit (8 * j) w) :: u8) n"
      using \<open>n < 8\<close> that by (auto simp: bit_simps less_2_cases_iff)
  qed
  then show "store 2 a v h c = store 2 a w h c" by (simp add: store_nth)
qed

lemma store2_again: "store 2 a v (store 2 a w h) = store 2 a v h"
  by (rule ext) (simp add: store_nth)

lemma load2_store2: "load 2 a (store 2 a v h) = take_bit 16 v"
  by (simp add: load_store_same)

lemma upd_tags_upd_tags:
  assumes "\<And>w. take_bit 16 (f (take_bit 16 w)) = take_bit 16 (f w)"
  shows "upd_tags b f (upd_tags b g h) = upd_tags b (f \<circ> g) h"
  unfolding upd_tags_def load2_store2 store2_again by (rule store2_cong) (simp add: assms)

lemma upd_status_upd_status:
  assumes "\<And>w. take_bit 16 (f (take_bit 16 w)) = take_bit 16 (f w)"
  shows "upd_status b f (upd_status b g h) = upd_status b (f \<circ> g) h"
  unfolding upd_status_def load2_store2 store2_again by (rule store2_cong) (simp add: assms)

lemma tag_take_bit:
  "take_bit 16 (tag_empty t (take_bit 16 w)) = take_bit 16 (tag_empty t w)"
  "take_bit 16 (tag_valid t (take_bit 16 w)) = take_bit 16 (tag_valid t w)"
  "take_bit 16 (set_top (take_bit 16 w) t) = take_bit 16 (set_top w t)"
  by (rule bit_word_eqI; auto simp: tag_bit bit_simps set_top_def)+

lemma upd_id:
  assumes "take_bit 16 (f (load 2 (b + 4) h)) = load 2 (b + 4) h"
  shows "upd_tags b f h = h"
proof (rule ext)
  fix c
  have "upd_tags b f h = store 2 (b + 4) (load 2 (b + 4) h) h"
    unfolding upd_tags_def using assms by (intro store2_cong) (metis take_bit_take_bit min.idem)
  moreover have "store 2 (b + 4) (load 2 (b + 4) h) h c = h c"
  proof (cases "unat (c - (b + 4)) < 2")
    case True
    define j where "j = unat (c - (b + 4))"
    have c: "c = b + 4 + word_of_nat j" by (simp add: j_def)
    have "8 * j + n < 16" if "n < 8" for n using True that by (simp add: j_def)
    then have "ucast (drop_bit (8 * j) (load 2 (b + 4) h)) = h c"
      using True unfolding c j_def [symmetric]
      by (intro bit_word_eqI) (force simp: bit_simps load_bit simp del: load.simps)
    then show ?thesis using True by (simp add: store_nth j_def)
  qed (simp add: store_nth)
  ultimately show "upd_tags b f h c = h c" by simp
qed

lemma fold_upd_tags:
  assumes "\<And>k w. take_bit 16 (f k (take_bit 16 w)) = take_bit 16 (f k w)"
  shows "fold (\<lambda>k. upd_tags b (f k)) ks (upd_tags b g h) = upd_tags b (fold f ks \<circ> g) h"
proof (induction ks arbitrary: g)
  case (Cons k ks)
  then show ?case by (simp add: upd_tags_upd_tags assms comp_assoc)
qed simp

lemma fold_upd_tags_all:
  assumes "\<And>k w. take_bit 16 (f k (take_bit 16 w)) = take_bit 16 (f k w)"
  shows "fold (\<lambda>k. upd_tags b (f k)) ks h = upd_tags b (fold f ks) h"
proof -
  have l: "load 2 (b + 4) h = take_bit 16 (load 2 (b + 4) h)"
    by (rule bit_word_eqI) (auto simp: bit_simps load_bit)
  have "upd_tags b id h = h" by (rule upd_id) (simp flip: l)
  then show ?thesis using fold_upd_tags [where f = f and g = id and b = b and h = h and ks = ks, OF assms] by simp
qed

lemma upd_apart: "upd_tags b f (upd_status b g h) = upd_status b g (upd_tags b f h)"
proof -
  have u: "unat (2 :: u64) = 2" "unat (-2 :: u64) = 2 ^ 64 - 2" by simp_all
  have a: "apart (b + 4) 2 (b + 2) 2" "apart (b + 2) 2 (b + 4) 2" by (simp_all add: apart_def)
  have "store 2 (b + 4) v (store 2 (b + 2) w h) = store 2 (b + 2) w (store 2 (b + 4) v h)" for v w h
  proof (rule ext)
    fix c
    have "\<not> (unat (c - (b + 4)) < 2 \<and> unat (c - (b + 2)) < 2)"
    proof
      assume l: "unat (c - (b + 4)) < 2 \<and> unat (c - (b + 2)) < 2"
      have "c - (b + 2) = c - (b + 4) + 2" by simp
      then have "unat (c - (b + 2)) = (unat (c - (b + 4)) + 2) mod 2 ^ 64"
        using unat_word_ariths(1) [of "c - (b + 4)" 2] by (simp add: diff_diff_eq)
      then show False using l by simp
    qed
    then show "store 2 (b + 4) v (store 2 (b + 2) w h) c = store 2 (b + 2) w (store 2 (b + 4) v h) c"
      by (auto simp: store_nth)
  qed
  then show ?thesis by (simp add: upd_tags_def upd_status_def load_store_apart a)
qed

section \<open>Batched tags\<close>

lemma scratch_both:
  "scratch xbase rs \<longleftrightarrow> gpr xbase \<and> list_all gpr rs \<and> distinct (xbase # rs) \<and> distinct (rev (xbase # rs))"
  by (auto simp: scratch_def)

lemma keeps_step: "keeps R m m' \<Longrightarrow> keeps S m' m'' \<Longrightarrow> R \<subseteq> T \<Longrightarrow> S \<subseteq> T \<Longrightarrow> keeps T m m''"
  by (meson keeps_mono keeps_trans)

lemma runs_slot_back:
  assumes "scratch xbase [wd_top, wd_tmp]" "xr m wd_top = word_of_nat t" "fits 12 k"
  shows "runs (emit_add_imm 0 1 0 0 k wd_top wd_tmp @ emit_and_imm 0 wd_tmp 0 0 2 wd_tmp) m
    (\<lambda>m'. keeps {wd_tmp} m m' \<and> mem m' = mem m \<and> xr m' wd_tmp = word_of_nat (nat ((int t - k) mod 8)))"
  by (insert assms, rule runsI, simp add: run_code scratch_def, simp add: keeps_intros top_back fits_def)

lemma runs_or_three:
  assumes "scratch xbase [wd_tmp, wd_tmp2, wd_tagw]" "xr m wd_tmp = word_of_nat t" "t < 8" "w32 (xr m wd_tagw) = xr m wd_tagw"
  shows "runs (emit_bitfield 0 2 0 31 30 wd_tmp wd_tmp @ emit_movn 0 2 0 3 wd_tmp2 @
      emit_lslv 0 wd_tmp wd_tmp2 wd_tmp2 @ emit_logical_shifted_reg 0 1 0 0 wd_tmp2 0 wd_tagw wd_tagw) m
    (\<lambda>m'. keeps {wd_tmp, wd_tmp2, wd_tagw} m m' \<and> mem m' = mem m \<and> xr m' wd_tagw = tag_empty t (xr m wd_tagw))"
  by (insert assms, rule runsI, simp add: run_code scratch_def, simp add: keeps_intros tag_empty_def)

lemma w32_tag_empty: "t < 8 \<Longrightarrow> w32 w = w \<Longrightarrow> w32 (tag_empty t w) = tag_empty t w"
  using three_w32 [of t] by (simp add: tag_empty_def w32_def take_bit_or)

lemma runs_set_empty_loop:
  assumes "scratch xbase [wd_top, wd_tmp, wd_tmp2, wd_tagw]" "xr m wd_top = word_of_nat t" "t < 8"
    "\<forall>i\<in>set is. fits 12 (c - i)" "w32 (xr m wd_tagw) = xr m wd_tagw"
  shows "runs (tag_set_empty_loop is wd_top wd_tmp wd_tmp2 wd_tagw c) m
    (\<lambda>m'. keeps {wd_tmp, wd_tmp2, wd_tagw} m m' \<and> mem m' = mem m \<and>
      xr m' wd_tagw = fold (\<lambda>i. tag_empty (nat ((int t - (c - i)) mod 8))) is (xr m wd_tagw))"
  using assms
proof (induction "is" arbitrary: m)
  case Nil
  then show ?case by (simp add: runs_Nil keeps_refl)
next
  case (Cons i "is")
  have sc: "scratch xbase [wd_top, wd_tmp]" "scratch xbase [wd_tmp, wd_tmp2, wd_tagw]"
    using Cons.prems(1) by (auto simp: scratch_def)
  have lt: "nat ((int t - (c - i)) mod 8) < 8" by simp
  have "runs ((emit_add_imm 0 1 0 0 (c - i) wd_top wd_tmp @ emit_and_imm 0 wd_tmp 0 0 2 wd_tmp) @
      (emit_bitfield 0 2 0 31 30 wd_tmp wd_tmp @ emit_movn 0 2 0 3 wd_tmp2 @
       emit_lslv 0 wd_tmp wd_tmp2 wd_tmp2 @ emit_logical_shifted_reg 0 1 0 0 wd_tmp2 0 wd_tagw wd_tagw) @
      tag_set_empty_loop is wd_top wd_tmp wd_tmp2 wd_tagw c) m
    (\<lambda>m'. keeps {wd_tmp, wd_tmp2, wd_tagw} m m' \<and> mem m' = mem m \<and>
      xr m' wd_tagw = fold (\<lambda>i. tag_empty (nat ((int t - (c - i)) mod 8))) (i # is) (xr m wd_tagw))"
  proof (rule runs_append [OF runs_slot_back [OF sc(1) Cons.prems(2)]], goal_cases)
    case 1
    show ?case using Cons.prems(4) by simp
  next
    case (2 m1)
    then have x1: "xr m1 r = xr m r" if "r \<noteq> wd_tmp" for r using that by (simp add: keeps_def)
    have tw: "xr m1 wd_tagw = xr m wd_tagw" using x1 [of wd_tagw] Cons.prems(1) by (auto simp: scratch_def)
    show ?case
    proof (rule runs_append [OF runs_or_three [OF sc(2) _ lt]], goal_cases)
      case 1
      show ?case using 2 by simp
    next
      case 2
      show ?case using tw Cons.prems(5) by simp
    next
      case (3 m2)
      have x2: "xr m2 wd_top = word_of_nat t"
        using 3 x1 [of wd_top] Cons.prems(1,2) by (simp add: keeps_def scratch_def)
      show ?case
        by (rule runs_mono [OF Cons.IH [OF Cons.prems(1) x2 Cons.prems(3)]])
          (use 2 3 tw Cons.prems(4,5) lt in \<open>auto intro: keeps_step simp: w32_tag_empty\<close>)
    qed
  qed
  then show ?case by simp
qed

lemma runs_load_tags:
  assumes "scratch xbase [r]"
  shows "runs (emit_ldr_str_imm 1 0 1 kX87TagWordImm12 xbase r) m
    (\<lambda>m'. keeps {r} m m' \<and> mem m' = mem m \<and> xr m' r = load 2 (xr m xbase + 4) (mem m))"
  by (insert assms, rule runsI, simp add: run_code scratch_def, simp add: keeps_intros)

lemma runs_store_tags:
  assumes "scratch xbase [r]"
  shows "runs (emit_ldr_str_imm 1 0 0 kX87TagWordImm12 xbase r) m
    (\<lambda>m'. keeps {} m m' \<and> mem m' = store 2 (xr m xbase + 4) (xr m r) (mem m))"
  by (insert assms, rule runsI, simp add: run_code scratch_def, simp add: keeps_intros)

lemma slots_back:
  "n \<le> 8 \<Longrightarrow> fold (\<lambda>i. tag_empty (nat ((int t - (int n - i)) mod 8))) [0..int n - 1] w =
    fold (\<lambda>i. tag_empty ((t + (8 - n) + i) mod 8)) [0..<n] w"
proof -
  assume n: "n \<le> 8"
  have "nat ((int t - (int n - int i)) mod 8) = (t + (8 - n) + i) mod 8" if "i < n" for i
  proof -
    have "int t - (int n - int i) + 8 = int (t + (8 - n) + i)" using n by simp
    then have "(int t - (int n - int i)) mod 8 = int ((t + (8 - n) + i) mod 8)"
      by (metis mod_add_self2 of_nat_mod of_nat_numeral)
    then show ?thesis by simp
  qed
  then show ?thesis unfolding upto_upt fold_map by (intro fold_cong) auto
qed

lemma runs_tag_set_empty_batch:
  assumes "scratch xbase [wd_top, wd_tmp, wd_tmp2, wd_tagw]" "xr m wd_top = word_of_nat t" "t < 8" "n \<le> 8"
  shows "runs (emit_x87_tag_set_empty_batch xbase wd_top wd_tmp wd_tmp2 wd_tagw (int n)) m
    (\<lambda>m'. keeps {wd_tmp, wd_tmp2, wd_tagw} m m' \<and>
      mem m' = upd_tags (xr m xbase) (fold (\<lambda>i. tag_empty ((t + (8 - n) + i) mod 8)) [0..<n]) (mem m))"
proof -
  have sc: "scratch xbase [wd_tagw]" using assms(1) by (auto simp: scratch_def)
  show ?thesis
    unfolding emit_x87_tag_set_empty_batch_def
    apply (rule runs_append [OF runs_load_tags [OF sc]])
    apply (rule runs_append [OF runs_set_empty_loop [OF assms(1) _ assms(3)]])
       apply (use assms in \<open>auto simp: keeps_def scratch_def fits_def load2_w32\<close>)[3]
    apply (rule runs_mono [OF runs_store_tags [OF sc]])
    using assms by (auto simp: keeps_def scratch_def upd_tags_def slots_back)
qed

text \<open>The mask of \<open>n\<close> adjacent pairs, shifted to the first slot, with what leaves the sixteen bits folded
  back to the bottom, covers the slots from \<open>t\<close> on, modulo eight.\<close>

definition pair_mask :: "nat \<Rightarrow> u64" where
  "pair_mask n = word_of_int (take_bit 16 (2 ^ nat (2 * int n) - 1))"

lemma bit_pair_mask: "n \<le> 8 \<Longrightarrow> bit (pair_mask n) i \<longleftrightarrow> i < 2 * n"
proof -
  assume n: "n \<le> 8"
  have "pair_mask n = word_of_int (mask (2 * n))"
    using n unfolding pair_mask_def
    by (simp only: nat_mult_distrib flip: mask_eq_exp_minus_1) (simp add: take_bit_of_mask nat_mult_distrib min_def)
  then show ?thesis using n by (auto simp: bit_simps)
qed

lemma shift_amount: "t < 8 \<Longrightarrow> unat (w32 (2 * word_of_nat t)) mod 32 = 2 * t"
  by (drule below_eight) (auto simp: w32_def)

lemma wrapped_slots:
  fixes t n i :: nat
  assumes "t < 8" "n \<le> 8" "i < 16"
  shows "2 * t \<le> i \<and> i < 2 * t + 2 * n \<or> i + 16 < 2 * t + 2 * n \<longleftrightarrow> (\<exists>k<n. i div 2 = (t + k) mod 8)"
proof
  assume "2 * t \<le> i \<and> i < 2 * t + 2 * n \<or> i + 16 < 2 * t + 2 * n"
  then show "\<exists>k<n. i div 2 = (t + k) mod 8"
  proof (elim disjE)
    assume "2 * t \<le> i \<and> i < 2 * t + 2 * n"
    then show ?thesis using assms by (intro exI [where x = "i div 2 - t"]) auto
  next
    assume "i + 16 < 2 * t + 2 * n"
    then show ?thesis using assms by (intro exI [where x = "i div 2 + 8 - t"]) auto
  qed
next
  assume "\<exists>k<n. i div 2 = (t + k) mod 8"
  then obtain k where k: "k < n" "i div 2 = (t + k) mod 8" by auto
  show "2 * t \<le> i \<and> i < 2 * t + 2 * n \<or> i + 16 < 2 * t + 2 * n"
  proof (cases "t + k < 8")
    case True
    then show ?thesis using k assms by auto
  next
    case False
    then have "(t + k) mod 8 = t + k - 8" using k assms by (simp add: le_mod_geq)
    then show ?thesis using k assms False by auto
  qed
qed

lemma valid_mask:
  assumes "t < 8" "n \<le> 8"
  defines "f \<equiv> w32 (push_bit (2 * t) (w32 (pair_mask n)))"
  shows "take_bit 16 (w AND NOT (w32 (f OR drop_bit 16 f))) =
    take_bit 16 (fold (\<lambda>k. tag_valid ((t + k) mod 8)) [0..<n] w)"
proof (rule bit_eqI)
  fix i assume "possible_bit TYPE(u64) i"
  have f: "bit f j \<longleftrightarrow> j < 32 \<and> 2 * t \<le> j \<and> j < 2 * t + 2 * n" for j
    using assms(1,2) by (auto simp: f_def w32_def bit_simps bit_pair_mask)
  show "bit (take_bit 16 (w AND NOT (w32 (f OR drop_bit 16 f)))) i =
      bit (take_bit 16 (fold (\<lambda>k. tag_valid ((t + k) mod 8)) [0..<n] w)) i"
  proof (cases "i < 16")
    case True
    have "bit (w32 (f OR drop_bit 16 f)) i \<longleftrightarrow> (\<exists>k<n. i div 2 = (t + k) mod 8)"
      unfolding wrapped_slots [OF assms(1,2) True, symmetric]
      using True assms(1,2) by (auto simp: w32_def bit_simps f ac_simps)
    then show ?thesis using True by (auto simp: bit_simps fold_tag_bit)
  qed (simp add: bit_simps)
qed

lemma runs_tag_set_valid_batch:
  assumes "scratch xbase [wd_top, wd_tmp, wd_tmp2, wd_tagw]" "xr m wd_top = word_of_nat t" "t < 8" "n \<le> 8"
  shows "runs (emit_x87_tag_set_valid_batch xbase wd_top wd_tmp wd_tmp2 wd_tagw (int n)) m
    (\<lambda>m'. keeps {wd_tmp, wd_tmp2, wd_tagw} m m' \<and>
      mem m' = upd_tags (xr m xbase) (fold (\<lambda>k. tag_valid ((t + k) mod 8)) [0..<n]) (mem m))"
proof -
  have fit: "fits 16 (take_bit 16 (2 ^ nat (2 * int n) - 1))"
    by (simp only: fits_def) (simp only: take_bit_nonnegative take_bit_int_less_exp simp_thms)
  show ?thesis
    apply (insert assms fit, rule runsI)
     apply (simp add: emit_x87_tag_set_valid_batch_def run_simps load2_w32 twice shift_amount scratch_def fits_def
        append_assoc flip: pair_mask_def)
    apply (simp add: keeps_intros upd_tags_def scratch_both load2_w32 store2_cong [OF valid_mask])
    done
qed

end
