(* ===== verification/X87_Emit_Flags.thy ===== *)
theory X87_Emit_Flags
  imports X87_Emit_Batch
begin

text \<open>
  Compares: the condition codes of the status word and the guest's flags from the machine's NZCV, and
  the register allocators these emitters rely on.
\<close>

section \<open>Allocated registers\<close>

lemma ctz32_bit:
  assumes "w \<noteq> 0"
  shows "ctz32 w < 32" "bit w (ctz32 w)"
proof -
  obtain i where i: "bit w i" using assms by (auto simp: bit_eq_iff)
  then have "i < 32" by (auto dest: bit_imp_le_length)
  define us where "us = takeWhile (\<lambda>i. \<not> bit w i) [0..<32]"
  have "length us \<noteq> 32"
  proof
    assume "length us = 32"
    then have "us = [0..<32]" unfolding us_def
      by (metis length_upt takeWhile_eq_take take_all_iff diff_zero order_refl)
    then have "\<forall>j\<in>set [0..<32]. \<not> bit w j" unfolding us_def by (simp only: takeWhile_eq_all_conv)
    then show False using i \<open>i < 32\<close> by simp
  qed
  moreover have "length us \<le> 32" unfolding us_def using length_takeWhile_le [of "\<lambda>i. \<not> bit w i" "[0..<32]"] by simp
  ultimately have l: "length us < length [0..<32]" by simp
  then show "ctz32 w < 32" by (simp add: ctz32_def us_def)
  have "bit w ([0..<32] ! length us)" using nth_length_takeWhile [of "\<lambda>i. \<not> bit w i" "[0..<32]"] l
    by (simp add: us_def)
  then show "bit w (ctz32 w)" using l by (simp add: ctz32_def us_def)
qed

lemma scratch_mask_bit: "bit kGprScratchMask i \<longleftrightarrow> 22 \<le> i \<and> i < 30"
proof (cases "i < 32")
  case True
  then have "i \<in> set [0..<32]" by simp
  then show ?thesis by (simp add: upt_rec) auto
qed (auto dest: bit_imp_le_length)

text \<open>The free mask names scratch registers only.\<close>

definition pool :: "estate \<Rightarrow> bool" where
  "pool st \<longleftrightarrow> list_all (\<lambda>i. bit (free_gpr_mask st) i \<longrightarrow> 22 \<le> i \<and> i < 30) [0..<32]"

lemma pool_bits: "pool st \<longleftrightarrow> (\<forall>i. bit (free_gpr_mask st) i \<longrightarrow> 22 \<le> i \<and> i < 30)"
  unfolding pool_def list_all_iff by (force dest: bit_imp_le_length)

definition is_free :: "estate \<Rightarrow> int \<Rightarrow> bool" where
  "is_free st r \<longleftrightarrow> 0 \<le> r \<and> bit (free_gpr_mask st) (nat r)"

lemma pool_free: "pool st \<Longrightarrow> is_free st r \<Longrightarrow> gpr r"
  by (auto simp: pool_bits is_free_def gpr_def)

lemma alloc_fails_None: "snd (alloc_fails e n st) = st' \<Longrightarrow> alloc_failure st' = None \<Longrightarrow>
    alloc_failure st = None \<and> \<not> fst (alloc_fails e n st) \<and> \<not> e \<and> free_gpr_mask st' = free_gpr_mask st"
  by (auto simp: alloc_fails_def Let_def split: if_splits)

lemma clear_bit: "bit (w AND NOT (push_bit n 1)) i \<longleftrightarrow> bit (w :: u32) i \<and> i \<noteq> n"
proof (cases "i < 32")
  case True
  have "bit (push_bit n 1 :: u32) i \<longleftrightarrow> i = n" using True by (auto simp: bit_exp_iff)
  then show ?thesis using True by (simp add: bit_and_iff bit_not_iff)
qed (auto dest: bit_imp_le_length)

lemma alloc_free_gpr_failure: "alloc_free_gpr st = (r, st') \<Longrightarrow> alloc_failure st' = None \<Longrightarrow> alloc_failure st = None"
  by (auto simp: alloc_free_gpr_def lowest_gpr_def Let_def alloc_fails_def split: if_splits prod.splits)

lemma alloc_free_gpr_ok:
  assumes "alloc_free_gpr st = (r, st')" "alloc_failure st' = None" "pool st"
  shows "is_free st r" "gpr r" "alloc_failure st = None" "pool st'" "is_free st' = (is_free st)(r := False)"
proof -
  define fm where "fm = free_gpr_mask st"
  obtain failed st1 where f1: "(if fm AND fast_mask st = 0 then alloc_fails (fm = 0) ''alloc_free_gpr'' st else (False, st)) =
      (failed, st1)" by fastforce
  have r: "(r, st') = (if failed then (kPlaceholderGpr, st1)
      else (int (ctz32 fm), st1\<lparr>free_gpr_mask := fm AND NOT (push_bit (ctz32 fm) 1)\<rparr>))"
    using assms(1) f1 unfolding alloc_free_gpr_def lowest_gpr_def Let_def fm_def [symmetric] by simp
  have n: "alloc_failure st1 = None" using r assms(2) by (auto split: if_splits)
  have ok: "\<not> failed" "fm \<noteq> 0" "alloc_failure st = None" "free_gpr_mask st1 = fm"
    using f1 n alloc_fails_None [of "fm = 0" "''alloc_free_gpr''" st st1]
    by (auto split: if_splits simp: fm_def)
  then have st': "r = int (ctz32 fm)" "free_gpr_mask st' = fm AND NOT (push_bit (ctz32 fm) 1)"
    using r by auto
  show "is_free st r" using ctz32_bit [OF ok(2)] by (simp add: is_free_def st' fm_def)
  then show "gpr r" by (rule pool_free [OF assms(3)])
  show "alloc_failure st = None" by (rule ok)
  show "is_free st' = (is_free st)(r := False)"
  proof
    fix x
    have "nat x = ctz32 fm \<longleftrightarrow> x = int (ctz32 fm)" if "0 \<le> x" using that by auto
    then show "is_free st' x = ((is_free st)(r := False)) x"
      unfolding is_free_def st' clear_bit fun_upd_def by (auto simp: fm_def)
  qed
  show "pool st'" using assms(3) unfolding pool_bits st' fm_def clear_bit by simp
qed

lemma free_gpr_failure: "alloc_failure (free_gpr r st) = alloc_failure st"
  by (simp add: free_gpr_def)

section \<open>Condition codes\<close>

text \<open>The outcomes of a compare, as FCMP reports them and as the x87 and the x86 flags do.\<close>

datatype outcome = Greater | Less | Equal | Unordered

definition fcmp_left :: "outcome \<Rightarrow> mach \<Rightarrow> bool" where
  "fcmp_left c m \<longleftrightarrow> flag_n m = (c = Less) \<and> flag_z m = (c = Equal) \<and> flag_c m = (c \<noteq> Less) \<and> flag_v m = (c = Unordered)"

definition x87_codes :: "outcome \<Rightarrow> u64" where
  "x87_codes c = (case c of Greater \<Rightarrow> 0 | Less \<Rightarrow> 0x0100 | Equal \<Rightarrow> 0x4000 | Unordered \<Rightarrow> 0x4500)"

lemma runs_cc_pack:
  assumes "fcmp_left c m" "scratch wd_save [wd_result, wd_cc, wd_vs]"
  shows "runs (emit_cset 0 3 wd_cc @ emit_cset 0 6 wd_vs @ emit_cset 0 0 wd_result @
          emit_msr_nzcv wd_save @
          emit_logical_shifted_reg 0 1 0 0 wd_vs 0 wd_cc wd_cc @
          emit_logical_shifted_reg 0 1 0 0 wd_vs 0 wd_result wd_result @
          emit_bitfield 0 2 0 24 23 wd_cc wd_cc @
          emit_logical_shifted_reg 0 1 0 0 wd_vs 10 wd_cc wd_cc @
          emit_logical_shifted_reg 0 1 0 0 wd_result 14 wd_cc wd_result) m
    (\<lambda>m'. xr m' wd_result = x87_codes c \<and> (\<forall>r. r \<notin> {wd_result, wd_cc, wd_vs} \<longrightarrow> xr m' r = xr m r) \<and>
       mem m' = mem m \<and> dr m' = dr m \<and> set_flags (xr m wd_save) m' = m')"
proof -
  have h: "holds 2 m = (c \<noteq> Less)" "holds 7 m = (c \<noteq> Unordered)" "holds 1 m = (c \<noteq> Equal)"
    using assms(1) by (auto simp: holds_def fcmp_left_def)
  have h': "holds 7 (set_x r v m) = holds 7 m" "holds 1 (set_x r v m) = holds 1 m" for r v m
    by (auto simp: holds_def)
  show ?thesis
    apply (insert assms(2), rule runsI)
     apply (simp add: run_simps scratch_both fits_def append_assoc h h')
    apply (cases c)
       apply (simp_all add: scratch_both set_flags_def w32_def bitfield_def width_def x87_codes_def)
    done
qed

definition cc_bits :: u64 where
  "cc_bits = push_bit 8 (mask 3) OR push_bit 14 (mask 1)"

definition with_codes :: "outcome \<Rightarrow> u64 \<Rightarrow> u64" where
  "with_codes c sw = (sw AND NOT cc_bits) OR x87_codes c"

lemma cleared_codes:
  "bitfield False 1 18 0 0 (w32 (bitfield False 1 24 2 0 (load 2 a h))) = load 2 a h AND NOT cc_bits"
proof (rule bit_word_eqI)
  fix n assume n: "n < LENGTH(64)"
  show "bit (bitfield False 1 18 0 0 (w32 (bitfield False 1 24 2 0 (load 2 a h)))) n = bit (load 2 a h AND NOT cc_bits) n"
  proof (cases "n < 16")
    case True
    then have "n \<in> set [0..<16]" by simp
    then show ?thesis
      unfolding bitfield_def width_def w32_def Let_def cc_bits_def
      by (simp add: upt_rec del: load.simps) (elim disjE; simp add: bit_and_iff bit_or_iff bit_not_iff bit_take_bit_iff del: load.simps)
  next
    case False
    then show ?thesis unfolding bitfield_def width_def w32_def Let_def by (simp add: bit_simps load_bit del: load.simps)
  qed
qed

lemma w32_codes: "w32 (x87_codes c) = x87_codes c" "w32 (load 2 a h AND NOT b) = load 2 a h AND NOT b"
  subgoal by (cases c) (simp_all add: x87_codes_def w32_def)
  subgoal unfolding w32_def by (rule bit_word_eqI) (auto simp: bit_simps load_bit)
  done

lemma runs_cc_write:
  assumes "scratch xbase [wd_packed, wd_sw]" "xr m wd_packed = x87_codes c"
  shows "runs (emit_ldr_str_imm 1 0 1 kX87StatusWordImm12 xbase wd_sw @
          emit_bitfield 0 1 0 24 2 XZR wd_sw @ emit_bitfield 0 1 0 18 0 XZR wd_sw @
          emit_logical_shifted_reg 0 1 0 0 wd_packed 0 wd_sw wd_sw @
          emit_ldr_str_imm 1 0 0 kX87StatusWordImm12 xbase wd_sw) m
    (\<lambda>m'. keeps {wd_sw} m m' \<and> mem m' = upd_status (xr m xbase) (with_codes c) (mem m))"
  by (insert assms, rule runsI,
      simp add: run_simps fits_def scratch_both append_assoc load2_w32 cleared_codes w32_codes,
      simp add: keeps_intros upd_status_def scratch_both with_codes_def)

lemma free_gpr_frees: "0 \<le> r \<Longrightarrow> is_free (free_gpr r st) x \<Longrightarrow> is_free st x \<or> x = r"
  by (auto simp: is_free_def free_gpr_def bit_simps bit_exp_iff split: if_splits)

lemma pool_free_gpr: "pool st \<Longrightarrow> pool (free_gpr r st)"
  using scratch_mask_bit [of "nat r"]
  by (auto simp: pool_bits free_gpr_def bit_or_iff bit_exp_iff)

section \<open>Compares\<close>

text \<open>Registers a caller holds: general registers that the allocator cannot hand out.\<close>

definition held :: "estate \<Rightarrow> int list \<Rightarrow> bool" where
  "held st rs \<longleftrightarrow> pool st \<and> list_all (\<lambda>r. gpr r \<and> \<not> is_free st r) rs \<and> distinct rs"

lemma set_flags_iff: "set_flags v m = m \<longleftrightarrow> flag_n m = bit v 31 \<and> flag_z m = bit v 30 \<and> flag_c m = bit v 29 \<and>
    flag_v m = bit v 28 \<and> flag_a m = bit v 27 \<and> flag_p m = bit v 26"
proof
  assume e: "set_flags v m = m"
  have "flag_n (set_flags v m) = bit v 31" "flag_z (set_flags v m) = bit v 30" "flag_c (set_flags v m) = bit v 29"
    "flag_v (set_flags v m) = bit v 28" "flag_a (set_flags v m) = bit v 27" "flag_p (set_flags v m) = bit v 26"
    by (simp_all add: set_flags_def)
  then show "flag_n m = bit v 31 \<and> flag_z m = bit v 30 \<and> flag_c m = bit v 29 \<and>
    flag_v m = bit v 28 \<and> flag_a m = bit v 27 \<and> flag_p m = bit v 26" by (simp add: e)
qed (simp add: set_flags_def)

lemma keeps_set_flags: "keeps R m m' \<Longrightarrow> set_flags v m = m \<Longrightarrow> set_flags v m' = m'"
  by (simp add: set_flags_iff keeps_def)

text \<open>C21: after a floating compare, the packing code followed by the status write leaves in the status word
  exactly the condition codes of the outcome, puts the parked flags back, and changes no register the
  caller holds other than the two it was given.\<close>

theorem compare_writes_codes:
  assumes "fcmp_left c m" "held st [xbase, wd_result, wd_save]"
    and "emit_fcom_cc_pack wd_result wd_save st = (code1, st1)"
    and "emit_fcom_cc_write_sw xbase wd_result st1 = (code2, st2)" and "alloc_failure st2 = None"
  shows "\<exists>m'. run (code1 @ code2) m = Some m' \<and>
    mem m' = upd_status (xr m xbase) (with_codes c) (mem m) \<and>
    set_flags (xr m wd_save) m' = m' \<and> dr m' = dr m \<and>
    (\<forall>r. \<not> is_free st r \<and> r \<noteq> wd_result \<and> r \<noteq> wd_save \<longrightarrow> xr m' r = xr m r)"
proof -
  obtain wd_cc sa where a: "alloc_free_gpr st = (wd_cc, sa)" by fastforce
  obtain wd_vs sb where b: "alloc_free_gpr sa = (wd_vs, sb)" by fastforce
  have st1: "st1 = free_gpr wd_cc (free_gpr wd_vs (free_gpr wd_save sb))"
    using assms(3) by (simp add: emit_fcom_cc_pack_def a b)
  obtain wd_sw sc where c: "alloc_free_gpr st1 = (wd_sw, sc)" by fastforce
  have st2: "st2 = free_gpr wd_sw sc" using assms(4) by (simp add: emit_fcom_cc_write_sw_def c)
  have h: "pool st" "gpr xbase" "gpr wd_result" "gpr wd_save" "\<not> is_free st xbase" "\<not> is_free st wd_result"
    "\<not> is_free st wd_save" "distinct [xbase, wd_result, wd_save]"
    using assms(2) by (auto simp: held_def)
  have f: "alloc_failure sc = None" using assms(5) by (simp add: st2 free_gpr_failure)
  then have f1: "alloc_failure st1 = None" by (rule alloc_free_gpr_failure [OF c])
  then have fb: "alloc_failure sb = None" by (simp add: st1 free_gpr_failure)
  then have fa: "alloc_failure sa = None" by (rule alloc_free_gpr_failure [OF b])
  note A = alloc_free_gpr_ok [OF a fa h(1)]
  note B = alloc_free_gpr_ok [OF b fb A(4)]
  have "pool st1" by (simp add: st1 pool_free_gpr B(4))
  note C = alloc_free_gpr_ok [OF c f this]
  have free1: "is_free st1 r \<Longrightarrow> is_free st r \<or> r = wd_save" for r
    using A(1,5) B(1,5) h(4) free_gpr_frees unfolding st1
    by (metis A(2) B(2) fun_upd_apply gpr_def)
  have s1: "scratch wd_save [wd_result, wd_cc, wd_vs]"
    using h A(1,2,5) B(1,2,5) by (auto simp: scratch_def split: if_splits)
  have s2: "scratch xbase [wd_result, wd_sw]"
    using h C(1,2) free1 [of wd_sw] by (auto simp: scratch_def)
  have code: "code1 = fst (emit_fcom_cc_pack wd_result wd_save st)" "code2 = fst (emit_fcom_cc_write_sw xbase wd_result st1)"
    using assms(3,4) by simp_all
  have "runs (code1 @ code2) m (\<lambda>m'. mem m' = upd_status (xr m xbase) (with_codes c) (mem m) \<and>
    set_flags (xr m wd_save) m' = m' \<and> dr m' = dr m \<and>
    (\<forall>r. \<not> is_free st r \<and> r \<noteq> wd_result \<and> r \<noteq> wd_save \<longrightarrow> xr m' r = xr m r))"
    unfolding code
    apply (simp only: emit_fcom_cc_pack_def emit_fcom_cc_write_sw_def a b c Let_def prod.case fst_conv)
    apply (rule runs_append [OF runs_cc_pack [OF assms(1) s1]])
  proof (rule runs_mono [OF runs_cc_write [OF s2, where c = c]], goal_cases)
    case (1 m1)
    then show ?case by simp
  next
    case (2 m1 m2)
    have k: "xr m1 r = xr m r" if "r \<notin> {wd_result, wd_cc, wd_vs}" for r using 2(1) that by blast
    have x: "xr m1 xbase = xr m xbase" using s1 s2 h A(1) B(1,5) A(5) by (intro k) (auto split: if_splits)
    have "xr m2 r = xr m r" if r: "\<not> is_free st r" "r \<noteq> wd_result" "r \<noteq> wd_save" for r
    proof -
      have "r \<noteq> wd_sw" using free1 [OF C(1)] r by auto
      moreover have "r \<notin> {wd_result, wd_cc, wd_vs}" using A(1,5) B(1) r by (auto split: if_splits)
      ultimately show ?thesis using keeps_xr [of "{wd_sw}" m1 m2 r] 2(2) k by simp
    qed
    moreover have "set_flags (xr m wd_save) m2 = m2" using 2 keeps_set_flags by blast
    moreover have "dr m2 = dr m" using 2 by (simp add: keeps_def)
    ultimately show ?case using 2 x by simp
  qed
  then show ?thesis by (rule runs_run)
qed

definition example_estate :: estate where
  "example_estate = \<lparr>insn_end = 0, fixup_ends = [], free_gpr_mask = 0x3FC00000, free_fpr_mask = 0xFF000000,
     unoccupied_fprs = 0, pinned_scalars = 0, alloc_failure = None, tcache = cache_init, fail_every = 0, alloc_count = 0\<rparr>"

definition example_mach :: "outcome \<Rightarrow> mach" where
  "example_mach c = \<lparr>xr = \<lambda>r. 0, spr = 0, dr = \<lambda>r. 0, flag_n = (c = Less), flag_z = (c = Equal), flag_c = (c \<noteq> Less),
     flag_v = (c = Unordered), flag_a = False, flag_p = True, mem = \<lambda>a. 0\<rparr>"

lemma fcmp_left_example: "fcmp_left c (example_mach c)"
  by (simp add: fcmp_left_def example_mach_def)

theorem compare_writes_codes_witness:
  "\<exists>m'. run (fst (emit_fcom_cc_pack 1 2 example_estate) @
      fst (emit_fcom_cc_write_sw 0 1 (snd (emit_fcom_cc_pack 1 2 example_estate)))) (example_mach Unordered) = Some m' \<and>
    mem m' = upd_status 0 (with_codes Unordered) (\<lambda>a. 0)"
proof -
  have h: "held example_estate [0, 1, 2]" by code_simp
  have f: "alloc_failure (snd (emit_fcom_cc_write_sw 0 1 (snd (emit_fcom_cc_pack 1 2 example_estate)))) = None" by code_simp
  have "xr (example_mach Unordered) 0 = 0" "mem (example_mach Unordered) = (\<lambda>a. 0)" by (simp_all add: example_mach_def)
  then show ?thesis
    using compare_writes_codes [OF fcmp_left_example h surjective_pairing surjective_pairing f, of Unordered] by auto
qed

text \<open>C22: after a floating compare, the code of FCOMI leaves the x86 flags of the outcome, with ZF, CF and
  PF told apart for the unordered case and SF, OF and AF clear, and changes no held register.\<close>

theorem fcomi_sets_flags:
  assumes "fcmp_left c m" "pool st" "emit_fcomi_nzcv st = (code, st')" "alloc_failure st' = None"
  shows "\<exists>m'. run code m = Some m' \<and> mem m' = mem m \<and> dr m' = dr m \<and>
    (\<forall>r. \<not> is_free st r \<longrightarrow> xr m' r = xr m r) \<and>
    flag_z m' = (c = Equal \<or> c = Unordered) \<and> (\<not> flag_c m') = (c = Less \<or> c = Unordered) \<and>
    flag_p m' = (c = Unordered) \<and> \<not> flag_n m' \<and> \<not> flag_v m' \<and> \<not> flag_a m'"
proof -
  obtain wd_z sa where a: "alloc_free_gpr st = (wd_z, sa)" by fastforce
  obtain wd_v sb where b: "alloc_free_gpr sa = (wd_v, sb)" by fastforce
  obtain wd_c sc where c: "alloc_free_gpr sb = (wd_c, sc)" by fastforce
  have e: "code = fst (emit_fcomi_nzcv st)" "st' = free_gpr wd_z (free_gpr wd_v (free_gpr wd_c sc))"
    using assms(3) by (simp_all add: emit_fcomi_nzcv_def a b c)
  have fc: "alloc_failure sc = None" using assms(4) by (simp add: e free_gpr_failure)
  note fb = alloc_free_gpr_failure [OF c fc]
  note fa = alloc_free_gpr_failure [OF b fb]
  note A = alloc_free_gpr_ok [OF a fa assms(2)]
  note B = alloc_free_gpr_ok [OF b fb A(4)]
  note C = alloc_free_gpr_ok [OF c fc B(4)]
  have s: "scratch wd_z [wd_v, wd_c]" "is_free st wd_v" "is_free st wd_c"
    using A(1,2,5) B(1,2,5) C(1,2) by (auto simp: scratch_def split: if_splits)
  have h: "holds 1 m = (c \<noteq> Equal)" "holds 7 m = (c \<noteq> Unordered)" "holds 3 m = (c = Less)"
    using assms(1) by (auto simp: holds_def fcmp_left_def)
  have h': "holds 7 (set_x r v m) = holds 7 m" "holds 3 (set_x r v m) = holds 3 m" for r v m
    by (auto simp: holds_def)
  have "runs code m (\<lambda>m'. mem m' = mem m \<and> dr m' = dr m \<and> (\<forall>r. r \<notin> {wd_z, wd_v, wd_c} \<longrightarrow> xr m' r = xr m r) \<and>
    flag_z m' = (c = Equal \<or> c = Unordered) \<and> (\<not> flag_c m') = (c = Less \<or> c = Unordered) \<and>
    flag_p m' = (c = Unordered) \<and> \<not> flag_n m' \<and> \<not> flag_v m' \<and> \<not> flag_a m')"
    unfolding e(1) emit_fcomi_nzcv_def a b c Let_def prod.case fst_conv
    apply (insert s(1), rule runsI)
     apply (simp add: run_simps scratch_both fits_def append_assoc h h')
    apply (cases c)
       apply (simp_all add: scratch_both set_flags_def w32_def bitfield_def width_def)
    done
  then show ?thesis
    by (rule runs_run [THEN ex_forward]) (use A(1) s in auto)
qed

theorem fcomi_sets_flags_witness:
  "\<exists>m'. run (fst (emit_fcomi_nzcv example_estate)) (example_mach Equal) = Some m' \<and> flag_z m' \<and> flag_c m' \<and> \<not> flag_p m'"
proof -
  have "pool example_estate" "alloc_failure (snd (emit_fcomi_nzcv example_estate)) = None" by code_simp+
  then show ?thesis
    using fcomi_sets_flags [OF fcmp_left_example [of Equal] _ surjective_pairing, of example_estate] by auto
qed

text \<open>The condition of a conditional move: one of the fourteen flag conditions, or the parity flag.\<close>

definition fcmov_taken :: "int \<Rightarrow> mach \<Rightarrow> bool" where
  "fcmov_taken cnd m = (if cnd = kFcmovCondPF then flag_p m else if cnd = kFcmovCondNPF then \<not> flag_p m else holds cnd m)"

lemma xor_one: "(c XOR 1 :: int) = (if even c then c + 1 else c - 1)"
  by (cases "even c") (auto elim!: evenE oddE simp: xor_one_eq)

lemma holds_inverse:
  assumes "0 \<le> c" "c < 14"
  shows "holds (c XOR 1) m \<longleftrightarrow> \<not> holds c m"
proof -
  have "c \<in> set [0..13]" using assms by simp
  then show ?thesis by (simp add: upto.simps) (elim disjE; simp add: holds_def)
qed

lemma runs_fmov:
  assumes "reg dd" "reg dn"
  shows "runs (emit_fmov_f64_reg dd dn) m (\<lambda>m'. m' = m\<lparr>dr := (dr m)(dd := dr m dn)\<rparr>)"
  by (rule runsI [OF run_fmov [OF assms]]) simp

lemma single_words: "length (emit_fmov_f64_reg dd dn) = 1" "length (emit_b_cond c n) = 1" "length (emit_tbz nz rt b n) = 1"
  by (simp_all add: emit_fmov_f64_reg_def emit_b_cond_def emit_tbz_def)

lemma runs_branch_over:
  assumes "fits 4 cnd" "reg dd" "reg dn"
  shows "runs (emit_b_cond cnd 2 @ emit_fmov_f64_reg dd dn) m
    (\<lambda>m'. m' = (if holds cnd m then m else m\<lparr>dr := (dr m)(dd := dr m dn)\<rparr>))"
  using assms by (intro runsI) (simp_all add: run_skip_one single_words run_fmov)

lemma runs_tbz_over:
  assumes "gpr rt" "reg dd" "reg dn"
  shows "runs (emit_tbz nz rt kNzcvPfBit 2 @ emit_fmov_f64_reg dd dn) m
    (\<lambda>m'. m' = (if bit (xr m rt) 26 = (nz \<noteq> 0) then m else m\<lparr>dr := (dr m)(dd := dr m dn)\<rparr>))"
  using assms by (intro runsI) (simp_all add: run_skip_one single_words run_fmov fits_def)

lemma mach_dr_same: "m\<lparr>dr := (dr m)(d := dr m d)\<rparr> = (m :: mach)"
  by simp

lemma runs_fcsel:
  assumes "0 \<le> cnd" "cnd < 14" "reg dd" "reg dn" "reg dm"
  shows "runs (emit_fcsel_f64 dd dn dm cnd) m
    (\<lambda>m'. m' = m\<lparr>dr := (dr m)(dd := if holds cnd m then dr m dn else dr m dm)\<rparr>)"
proof -
  have f: "fits 4 cnd" "fits 4 (cnd XOR 1)"
    using assms(1,2) by (auto simp: fits_def xor_one elim!: oddE)
  note inv = holds_inverse [OF assms(1,2)]
  have hd: "holds c (m\<lparr>dr := d\<rparr>) = holds c m" for c m d by (simp add: holds_def)
  show ?thesis
    unfolding emit_fcsel_f64_def
    by (auto intro!: runs_mono [OF runs_branch_over] runs_append [OF runs_fmov] simp: f assms inv hd)
qed

text \<open>C23: for every condition it is called with, the parity conditions that need a branch included, and for
  every aliasing of its registers, the code of a conditional move selects the source the condition
  names, and leaves memory and the flags alone.\<close>

theorem fcmov_selects:
  assumes "0 \<le> cnd" "cnd < 14 \<or> cnd = kFcmovCondPF \<or> cnd = kFcmovCondNPF" "reg dd" "reg dtrue" "reg dfalse"
    and "pool st" "emit_fcmov_select dd dtrue dfalse cnd st = (code, st')" "alloc_failure st' = None"
  shows "\<exists>m'. run code m = Some m' \<and> dr m' = (dr m)(dd := if fcmov_taken cnd m then dr m dtrue else dr m dfalse) \<and>
    mem m' = mem m \<and> (\<forall>r. \<not> is_free st r \<longrightarrow> xr m' r = xr m r) \<and> flags_word m' = flags_word m"
proof (cases "cnd < 14")
  case True
  then have "code = emit_fcsel_f64 dd dtrue dfalse cnd" "fcmov_taken cnd m = holds cnd m"
    using assms(7) by (auto simp: emit_fcmov_select_def fcmov_taken_def)
  then show ?thesis
    using runs_run [OF runs_fcsel [OF assms(1) True assms(3-5)]] by (auto simp: flags_word_def)
next
  case False
  then have cnd: "cnd = kFcmovCondPF \<or> cnd = kFcmovCondNPF" using assms(2) by simp
  obtain wd sa where a: "alloc_free_gpr st = (wd, sa)" by fastforce
  have fa: "alloc_failure sa = None" "code = fst (emit_fcmov_select dd dtrue dfalse cnd st)"
    using assms(7,8) cnd by (auto simp: emit_fcmov_select_def a free_gpr_failure)
  note A = alloc_free_gpr_ok [OF a fa(1) assms(6)]
  have pf: "bit (flags_word m) 26 = flag_p m"
    by (auto simp: flags_word_def bit_horner_sum_bit_word_iff nth_append)
  have "runs code m (\<lambda>m'. m' = (set_x wd (flags_word m) m)\<lparr>dr := (dr m)(dd := if fcmov_taken cnd m then dr m dtrue else dr m dfalse)\<rparr>)"
    using cnd unfolding fa(2) emit_fcmov_select_def a Let_def fcmov_taken_def
    by (auto intro!: runs_append [where c = "emit_mrs_nzcv wd" and Q = "\<lambda>m'. m' = set_x wd (flags_word m) m"]
        runsI [OF run_mrs [OF A(2)]] runs_mono [OF runs_tbz_over] runs_append [OF runs_fmov] simp: A(2) assms(3-5) pf)
  then have "\<exists>m'. run code m = Some m' \<and> m' = (set_x wd (flags_word m) m)\<lparr>dr := (dr m)(dd := if fcmov_taken cnd m then dr m dtrue else dr m dfalse)\<rparr>"
    by (rule runs_run)
  then show ?thesis using A(1) by (auto simp: flags_word_def)
qed

theorem fcmov_selects_witness:
  "\<exists>m'. run (fst (emit_fcmov_select 24 25 24 16 example_estate)) (example_mach Less) = Some m' \<and> dr m' 24 = 0"
proof -
  have p: "pool example_estate" and f: "alloc_failure (snd (emit_fcmov_select 24 25 24 16 example_estate)) = None" by code_simp+
  have r: "reg 24" "reg 25" by (simp_all add: reg_def)
  have "\<exists>m'. run (fst (emit_fcmov_select 24 25 24 16 example_estate)) (example_mach Less) = Some m' \<and>
      dr m' = (dr (example_mach Less))(24 := if fcmov_taken 16 (example_mach Less) then dr (example_mach Less) 25 else dr (example_mach Less) 24)"
    using fcmov_selects [of 16 24 25 24, OF _ _ r(1) r(2) r(1) p surjective_pairing f] by fastforce
  then show ?thesis by (auto simp: example_mach_def)
qed

end
