(* ===== verification/X87_Emit_Slots.thy ===== *)
theory X87_Emit_Slots
  imports X87_Emit_Batch
begin

text \<open>
  The register file in memory: every addressing form of the slot emitters reaches the same slot, and
  materialising a deferred exchange permutes the slots.  The permutation is proved once, over an
  interface that moving a slot satisfies, and both ways of moving one are instances.
\<close>

section \<open>Addresses\<close>

definition slot_addr :: "bool \<Rightarrow> u64 \<Rightarrow> nat \<Rightarrow> u64" where
  "slot_addr native b p = b + word_of_nat (if native then 6 + 10 * p else 8 + 8 * p)"

text \<open>A slot base register, when one is pinned, points at slot 0.\<close>

definition st_base :: "bool \<Rightarrow> int \<Rightarrow> int list \<Rightarrow> int \<Rightarrow> mach \<Rightarrow> bool" where
  "st_base native xbase rs xst m \<longleftrightarrow>
     (xst \<ge> 0 \<longrightarrow> gpr xst \<and> xst \<notin> set rs \<and> xr m xst = xr m xbase + (if native then 6 else 8))"

lemma key_bits: "bitfield False 2 31 2 v x = 2 * (v AND 7)"
proof -
  define p where "p = unat (take_bit 3 v)"
  have "p < 8" using take_bit_nat_less_exp [of 3 "unat v"] by (simp add: p_def unsigned_take_bit_eq)
  moreover have v: "take_bit 3 v = word_of_nat p" by (simp add: p_def)
  ultimately show ?thesis
    unfolding bitfield_def width_def Let_def and_7 v by (drule_tac below_eight) (auto simp: v)
qed

lemma times_eight: "p < 8 \<Longrightarrow> bitfield False 2 29 28 (word_of_nat p) x = 8 * word_of_nat p"
  by (drule below_eight) (auto simp: bitfield_def width_def)

lemma small_w32: "p < 8 \<Longrightarrow> w32 (word_of_nat p) = word_of_nat p" "p < 8 \<Longrightarrow> w32 (2 * word_of_nat p) = 2 * word_of_nat p"
  "p < 8 \<Longrightarrow> w32 (8 * word_of_nat p + 8) = 8 * word_of_nat p + 8"
  "p < 8 \<Longrightarrow> w32 (2 * word_of_nat p + w32 (push_bit 2 (2 * word_of_nat p))) = 10 * word_of_nat p"
  "p < 8 \<Longrightarrow> w32 (10 * word_of_nat p + 6) = 10 * word_of_nat p + 6"
  by (drule below_eight, auto simp: w32_def)+

lemma times_three: "push_bit 3 (word_of_nat p :: u64) = 8 * word_of_nat p"
  by (simp add: push_bit_eq_mult)

text \<open>What the index code leaves in the scratch register.\<close>

lemma runs_phys_index:
  assumes "scratch xbase [wd_top, wd_tmp]" "xr m wd_top = word_of_nat t" "t < 8" "d < 8"
  shows "runs (emit_phys_index wd_top (int d) wd_tmp) m (\<lambda>m'. m' = set_x wd_tmp (word_of_nat ((t + d) mod 8)) m)"
proof (cases "d = 0")
  case True
  then show ?thesis using assms
    by (intro runsI [where m' = "set_x wd_tmp (word_of_nat t) m"])
      (simp_all add: emit_phys_index_def run_simps scratch_both small_w32)
next
  case False
  then show ?thesis using assms
    by (intro runsI [where m' = "set_x wd_tmp (word_of_nat ((t + d) mod 8)) m"])
      (simp_all add: emit_phys_index_def run_simps scratch_both fits_def append_assoc w32_and_7 top_plus set_x_def)
qed

lemma runs_native_key:
  assumes "scratch xbase [wd_top, wd_tmp]" "xr m wd_top = word_of_nat t" "t < 8" "d < 8"
  shows "runs (emit_native_slot_key wd_top (int d) wd_tmp) m (\<lambda>m'. m' = set_x wd_tmp (10 * word_of_nat ((t + d) mod 8)) m)"
proof (cases "d = 0")
  case True
  then show ?thesis using assms
    by (intro runsI [where m' = "set_x wd_tmp (10 * word_of_nat t) m"])
      (simp_all add: emit_native_slot_key_def run_simps scratch_both fits_def append_assoc key_bits w32_and_7 nat_and_7
        small_w32 set_x_def)
next
  case False
  then show ?thesis using assms small_w32 [of "(t + d) mod 8"]
    by (intro runsI [where m' = "set_x wd_tmp (10 * word_of_nat ((t + d) mod 8)) m"])
      (simp_all add: emit_native_slot_key_def run_simps scratch_both fits_def append_assoc key_bits w32_and_7 top_plus set_x_def)
qed

lemma runs_native_st_key:
  assumes "scratch xbase [wd_top, wd_tmp]" "xr m wd_top = word_of_nat t" "t < 8" "d < 8"
  shows "runs (emit_native_st_key wd_top (int d) wd_tmp xst) m
    (\<lambda>m'. m' = set_x wd_tmp (10 * word_of_nat ((t + d) mod 8) + (if xst < 0 then 6 else 0)) m)"
proof -
  have six: "runs (emit_add_imm 0 0 0 0 kX87NativeSlotOff wd_tmp wd_tmp) (set_x wd_tmp (10 * word_of_nat p) m)
      (\<lambda>m'. m' = set_x wd_tmp (10 * word_of_nat p + 6) m)" if "p < 8" for p
    using assms(1) that
    by (intro runsI [where m' = "set_x wd_tmp (10 * word_of_nat p + 6) m"])
      (simp_all add: run_simps scratch_both fits_def small_w32 set_x_def)
  show ?thesis
    unfolding emit_native_st_key_def
    by (rule runs_append [OF runs_native_key [OF assms]]) (auto simp: runs_Nil six)
qed

lemma runs_byte_offset:
  assumes "scratch xbase [wd_top, wd_tmp]" "xr m wd_top = word_of_nat t" "t < 8" "d < 8"
  shows "runs (emit_phys_index wd_top (int d) wd_tmp @ emit_bitfield 0 2 0 29 28 wd_tmp wd_tmp @
      emit_add_imm 0 0 0 0 kX87RegFileOff wd_tmp wd_tmp) m
    (\<lambda>m'. m' = set_x wd_tmp (8 * word_of_nat ((t + d) mod 8) + 8) m)"
proof -
  have eight: "runs (emit_bitfield 0 2 0 29 28 wd_tmp wd_tmp @ emit_add_imm 0 0 0 0 kX87RegFileOff wd_tmp wd_tmp)
      (set_x wd_tmp (word_of_nat p) m) (\<lambda>m'. m' = set_x wd_tmp (8 * word_of_nat p + 8) m)" if "p < 8" for p
    using assms(1) that
    by (intro runsI [where m' = "set_x wd_tmp (8 * word_of_nat p + 8) m"])
      (simp_all add: run_simps scratch_both fits_def append_assoc times_eight small_w32 set_x_def)
  show ?thesis
    by (rule runs_append [OF runs_phys_index [OF assms]]) (simp add: eight)
qed

text \<open>A slot access through a key register: the two forms of \<open>emit_ldr_str_reg\<close> on double words.\<close>

lemma runs_load_key:
  assumes "gpr rn" "gpr rm" "reg dd"
  shows "runs (emit_ldr_str_reg 3 1 1 rm sh rn dd) m
    (\<lambda>m'. m' = m\<lparr>dr := (dr m)(dd := load 8 (xr m rn + push_bit (if sh \<noteq> 0 then 3 else 0) (xr m rm)) (mem m))\<rparr>)"
  by (rule runsI [OF run_fp_reg(1) [OF assms]]) simp

lemma runs_store_key:
  assumes "gpr rn" "gpr rm" "reg dd"
  shows "runs (emit_ldr_str_reg 3 1 0 rm sh rn dd) m
    (\<lambda>m'. m' = m\<lparr>mem := store 8 (xr m rn + push_bit (if sh \<noteq> 0 then 3 else 0) (xr m rm)) (dr m dd) (mem m)\<rparr>)"
  by (rule runsI [OF run_fp_reg(2) [OF assms]]) simp

lemma set_x_same: "set_x r (xr m r) m = m"
  by (simp add: set_x_def)

definition slot_regs :: "bool \<Rightarrow> int \<Rightarrow> int \<Rightarrow> int \<Rightarrow> int \<Rightarrow> nat \<Rightarrow> mach \<Rightarrow> bool" where
  "slot_regs native xbase wd_top wd_tmp xst t m \<longleftrightarrow>
     scratch xbase [wd_top, wd_tmp] \<and> xr m wd_top = word_of_nat t \<and> t < 8 \<and> st_base native xbase [wd_top, wd_tmp] xst m"

text \<open>The code that forms a slot's key, the key register, its scaling and the base register: loads,
  stores and the store that reuses a load's key all consist of these and one access.\<close>

definition slot_key :: "bool \<Rightarrow> int \<Rightarrow> int \<Rightarrow> int \<Rightarrow> int \<Rightarrow> int \<Rightarrow> u32 list \<times> int \<times> int \<times> int" where
  "slot_key native xbase wd_top d wd_tmp xst =
     (if native then (emit_native_st_key wd_top d wd_tmp xst, wd_tmp, 0, if xst \<ge> 0 then xst else xbase)
      else if xst \<ge> 0 then
        (if d = 0 then ([], wd_top, 1, xst) else (emit_phys_index wd_top d wd_tmp, wd_tmp, 1, xst))
      else (emit_phys_index wd_top d wd_tmp @ emit_bitfield 0 2 0 29 28 wd_tmp wd_tmp @
            emit_add_imm 0 0 0 0 kX87RegFileOff wd_tmp wd_tmp, wd_tmp, 0, xbase))"

lemma slot_key_parts:
  assumes "slot_key native xbase wd_top d wd_tmp xst = (code, key, sh, base)"
  shows "emit_load_st native xbase wd_top d wd_tmp dd xst = (code @ emit_ldr_str_reg 3 1 1 key sh base dd, key)"
    "emit_store_st native xbase wd_top d wd_tmp dd xst = code @ emit_ldr_str_reg 3 1 0 key sh base dd"
    "emit_store_st_at_offset native xbase key dd xst = emit_ldr_str_reg 3 1 0 key sh base dd"
  using assms
  by (auto simp: slot_key_def emit_load_st_def emit_store_st_def emit_store_st_at_offset_def split: if_splits)

lemma runs_slot_key:
  assumes s: "slot_regs native xbase wd_top wd_tmp xst t m" and d: "d < 8"
    and k: "slot_key native xbase wd_top (int d) wd_tmp xst = (code, key, sh, base)"
  shows "runs code m (\<lambda>m'. (\<exists>v. m' = set_x wd_tmp v m) \<and>
      xr m' base + push_bit (if sh \<noteq> 0 then 3 else 0) (xr m' key) = slot_addr native (xr m xbase) ((t + d) mod 8))"
    "gpr base" "gpr key"
proof -
  note r = s [unfolded slot_regs_def scratch_both st_base_def]
  have sc: "scratch xbase [wd_top, wd_tmp]" "xr m wd_top = word_of_nat t" "t < 8"
    using s by (auto simp: slot_regs_def)
  show "gpr base" "gpr key" using k r by (auto simp: slot_key_def split: if_splits)
  consider "native" | "\<not> native" "xst \<ge> 0" "d = 0" | "\<not> native" "xst \<ge> 0" "d \<noteq> 0" | "\<not> native" "xst < 0" by linarith
  then show "runs code m (\<lambda>m'. (\<exists>v. m' = set_x wd_tmp v m) \<and>
      xr m' base + push_bit (if sh \<noteq> 0 then 3 else 0) (xr m' key) = slot_addr native (xr m xbase) ((t + d) mod 8))"
  proof cases
    case 1
    then show ?thesis using k r
      by (auto simp: slot_key_def slot_addr_def add.assoc add.commute intro!: runs_mono [OF runs_native_st_key [OF sc d]])
  next
    case 2
    then show ?thesis using k r
      by (auto simp: slot_key_def slot_addr_def times_three add.assoc add.commute intro!: runs_Nil exI set_x_same [symmetric])
  next
    case 3
    then show ?thesis using k r
      by (auto simp: slot_key_def slot_addr_def times_three add.assoc add.commute intro!: runs_mono [OF runs_phys_index [OF sc d]])
  next
    case 4
    then show ?thesis using k r
      by (auto simp: slot_key_def slot_addr_def add.assoc add.commute intro!: runs_mono [OF runs_byte_offset [OF sc d]])
  qed
qed

lemma runs_load_st:
  assumes s: "slot_regs native xbase wd_top wd_tmp xst t m" and d: "d < 8" "reg dd"
  shows "runs (fst (emit_load_st native xbase wd_top (int d) wd_tmp dd xst)) m (\<lambda>m'. \<exists>v. m' =
    (set_x wd_tmp v m)\<lparr>dr := (dr m)(dd := load 8 (slot_addr native (xr m xbase) ((t + d) mod 8)) (mem m))\<rparr>)"
proof -
  obtain code key sh base where k: "slot_key native xbase wd_top (int d) wd_tmp xst = (code, key, sh, base)"
    by (metis prod_cases4)
  note key = runs_slot_key [OF s d(1) k]
  show ?thesis
    unfolding slot_key_parts(1) [OF k] fst_conv
    by (rule runs_append [OF key(1)], rule runs_mono [OF runs_load_key [OF key(2,3) d(2)]]) auto
qed

lemma runs_store_st:
  assumes s: "slot_regs native xbase wd_top wd_tmp xst t m" and d: "d < 8" "reg dd"
  shows "runs (emit_store_st native xbase wd_top (int d) wd_tmp dd xst) m (\<lambda>m'. \<exists>v. m' =
    (set_x wd_tmp v m)\<lparr>mem := store 8 (slot_addr native (xr m xbase) ((t + d) mod 8)) (dr m dd) (mem m)\<rparr>)"
proof -
  obtain code key sh base where k: "slot_key native xbase wd_top (int d) wd_tmp xst = (code, key, sh, base)"
    by (metis prod_cases4)
  note key = runs_slot_key [OF s d(1) k]
  show ?thesis
    unfolding slot_key_parts(2) [OF k]
    by (rule runs_append [OF key(1)], rule runs_mono [OF runs_store_key [OF key(2,3) d(2)]]) auto
qed

end
