(* ===== verification/X87_Perm_Flush.thy ===== *)
theory X87_Perm_Flush
  imports X87_Emit_Slots
begin

text \<open>
  Materialising a deferred exchange.  The emitted code moves the slots along the cycles of the
  permutation; here, that this permutes them, for every permutation and for both ways of moving a slot.
\<close>

section \<open>Cycles\<close>

definition perm8 :: "nat list \<Rightarrow> bool" where
  "perm8 p \<longleftrightarrow> length p = 8 \<and> distinct p \<and> list_all (\<lambda>x. x < 8) p"

definition apply_perm :: "nat list \<Rightarrow> nat \<Rightarrow> nat" where
  "apply_perm p x = (if x < 8 then p ! x else x)"

lemma apply_perm_less: "perm8 p \<Longrightarrow> x < 8 \<Longrightarrow> apply_perm p x < 8"
  by (auto simp: perm8_def apply_perm_def list_all_iff)

lemma apply_perm_inj: "perm8 p \<Longrightarrow> inj (apply_perm p)"
proof (rule injI)
  fix x y assume p: "perm8 p" and e: "apply_perm p x = apply_perm p y"
  then show "x = y"
    using apply_perm_less [OF p, of x] apply_perm_less [OF p, of y]
    by (auto simp: apply_perm_def perm8_def nth_eq_iff_index_eq split: if_splits)
qed

lemma iterate_less: "perm8 p \<Longrightarrow> i < 8 \<Longrightarrow> (apply_perm p ^^ k) i < 8"
  by (induction k) (auto intro: apply_perm_less)

text \<open>The first return to \<open>i\<close>.\<close>

definition period :: "nat list \<Rightarrow> nat \<Rightarrow> nat" where
  "period p i = (LEAST n. 0 < n \<and> (apply_perm p ^^ n) i = i)"

lemma period:
  assumes p: "perm8 p" and i: "i < 8"
  shows "0 < period p i" "(apply_perm p ^^ period p i) i = i"
    and "\<And>n. 0 < n \<Longrightarrow> n < period p i \<Longrightarrow> (apply_perm p ^^ n) i \<noteq> i"
proof -
  have "{y. \<exists>n. y = (apply_perm p ^^ n) i} \<subseteq> {..<8}" using iterate_less [OF p i] by auto
  then have "finite {y. \<exists>n. y = (apply_perm p ^^ n) i}" using finite_subset by blast
  then obtain n where "0 < n \<and> (apply_perm p ^^ n) i = i" using funpow_inj_finite [OF apply_perm_inj [OF p]] by metis
  then have "0 < period p i \<and> (apply_perm p ^^ period p i) i = i" unfolding period_def by (rule LeastI)
  then show "0 < period p i" "(apply_perm p ^^ period p i) i = i" by auto
  show "(apply_perm p ^^ n) i \<noteq> i" if "0 < n" "n < period p i" for n
    using not_less_Least [of n "\<lambda>n. 0 < n \<and> (apply_perm p ^^ n) i = i"] that by (auto simp: period_def)
qed

lemma iterates_distinct:
  assumes p: "perm8 p" and i: "i < 8"
  shows "inj_on (\<lambda>k. (apply_perm p ^^ k) i) {..<period p i}"
proof (rule linorder_inj_onI')
  fix k l assume k: "k \<in> {..<period p i}" "l \<in> {..<period p i}" "k < l"
  show "(apply_perm p ^^ k) i \<noteq> (apply_perm p ^^ l) i"
  proof
    assume e: "(apply_perm p ^^ k) i = (apply_perm p ^^ l) i"
    have "(apply_perm p ^^ l) i = (apply_perm p ^^ k) ((apply_perm p ^^ (l - k)) i)"
      using k(3) by (metis add_diff_inverse_nat comp_apply funpow_add less_imp_not_less)
    then have "(apply_perm p ^^ (l - k)) i = i"
      using e inj_fn [OF apply_perm_inj [OF p], of k] by (metis injD)
    then show False using period(3) [OF p i, of "l - k"] k by (simp add: less_imp_diff_less)
  qed
qed

lemma period_le: "perm8 p \<Longrightarrow> i < 8 \<Longrightarrow> period p i \<le> 8"
proof -
  assume p: "perm8 p" and i: "i < 8"
  have "card ((\<lambda>k. (apply_perm p ^^ k) i) ` {..<period p i}) \<le> card {..<8 :: nat}"
    by (rule card_mono) (auto intro: iterate_less [OF p i])
  then show ?thesis by (simp add: card_image [OF iterates_distinct [OF p i]])
qed

lemma perm_cycle_iterates:
  assumes p: "perm8 p" and i: "i < 8"
  shows "k < period p i \<Longrightarrow> period p i - k \<le> fuel \<Longrightarrow>
    perm_cycle fuel p i ((apply_perm p ^^ k) i) = map (\<lambda>k. (apply_perm p ^^ k) i) [Suc k..<period p i]"
proof (induction fuel arbitrary: k)
  case (Suc fuel)
  have step: "p ! ((apply_perm p ^^ k) i) = (apply_perm p ^^ Suc k) i"
    using iterate_less [OF p i, of k] by (simp add: apply_perm_def)
  show ?case
  proof (cases "Suc k = period p i")
    case True
    then show ?thesis using step period(2) [OF p i] by (simp add: Let_def)
  next
    case False
    then have l: "Suc k < period p i" using Suc.prems by simp
    then have "(apply_perm p ^^ Suc k) i \<noteq> i" using period(3) [OF p i] by blast
    then show ?thesis using step Suc.IH [OF l] Suc.prems l by (simp add: Let_def upt_conv_Cons)
  qed
qed simp

section \<open>What a cycle of moves does\<close>

fun moved :: "'v \<Rightarrow> (nat \<Rightarrow> 'v) \<Rightarrow> nat \<Rightarrow> nat list \<Rightarrow> (nat \<Rightarrow> 'v)" where
  "moved v s j [] = s(j := v)"
| "moved v s j (n # r) = moved v (s(j := s n)) n r"

fun path :: "(nat \<Rightarrow> nat) \<Rightarrow> nat \<Rightarrow> nat list \<Rightarrow> bool" where
  "path f j [] = True"
| "path f j (n # r) = (n = f j \<and> path f n r)"

lemma path_next: "path f j L \<Longrightarrow> d \<in> set (j # L) \<Longrightarrow> d \<noteq> last (j # L) \<Longrightarrow> f d \<in> set L"
  by (induction L arbitrary: j) (auto split: if_splits)

lemma moved_path:
  "path f j L \<Longrightarrow> distinct (j # L) \<Longrightarrow>
    moved v s j L d = (if d = last (j # L) then v else if d \<in> set (j # L) then s (f d) else s d)"
proof (induction L arbitrary: j s)
  case (Cons n r)
  then have "f d \<noteq> j" if "d \<in> set (n # r)" "d \<noteq> last (n # r)"
    using path_next [of f n r d] that by auto
  then show ?case using Cons by auto
qed simp

lemma path_iterates: "path f ((f ^^ k) i) (map (\<lambda>k. (f ^^ k) i) [Suc k..<n])"
proof (induction "n - k" arbitrary: k)
  case (Suc d)
  then have "n - Suc k = d" by simp
  then show ?case using Suc.hyps(1) [of "Suc k"] by (cases "Suc k < n") (auto simp: upt_conv_Cons)
qed simp

lemma cycle_facts:
  assumes p: "perm8 p" and i: "i < 8"
  defines "L \<equiv> perm_cycle 8 p i i"
  shows "set (i # L) = (\<lambda>k. (apply_perm p ^^ k) i) ` {..<period p i}"
    and "path (apply_perm p) i L" and "distinct (i # L)" and "apply_perm p (last (i # L)) = i"
proof -
  let ?it = "\<lambda>k. (apply_perm p ^^ k) i"
  have n: "0 < period p i" by (rule period(1) [OF p i])
  have L: "L = map ?it [Suc 0..<period p i]"
    using perm_cycle_iterates [OF p i n, of 8] period_le [OF p i] unfolding L_def by simp
  have iL: "i # L = map ?it [0..<period p i]" using n by (simp add: L upt_conv_Cons)
  show "set (i # L) = ?it ` {..<period p i}" unfolding iL by (simp add: atLeast0LessThan)
  show "path (apply_perm p) i L" using path_iterates [of "apply_perm p" 0 i "period p i"] by (simp add: L)
  show "distinct (i # L)" unfolding iL using iterates_distinct [OF p i] by (simp add: distinct_map atLeast0LessThan)
  have "last (i # L) = ?it (period p i - 1)" unfolding iL using n by (simp add: last_map)
  then show "apply_perm p (last (i # L)) = i"
    using n period(2) [OF p i] by (metis One_nat_def Suc_pred comp_apply funpow.simps(2))
qed

definition done_slots :: "nat list \<Rightarrow> nat set \<Rightarrow> (nat \<Rightarrow> 'v) \<Rightarrow> (nat \<Rightarrow> 'v)" where
  "done_slots p V s = (\<lambda>d. if d \<in> V then s (apply_perm p d) else s d)"

lemma moved_cycle:
  assumes p: "perm8 p" and i: "i < 8" "i \<notin> V" and V: "\<forall>x\<in>V. apply_perm p x \<in> V"
  defines "L \<equiv> perm_cycle 8 p i i"
  shows "moved (s i) (done_slots p V s) i L = done_slots p (V \<union> insert i (set L)) s"
    "\<forall>x \<in> V \<union> insert i (set L). apply_perm p x \<in> V \<union> insert i (set L)"
proof -
  note c = cycle_facts [OF p i(1), folded L_def]
  have Vk: "x \<in> V \<Longrightarrow> (apply_perm p ^^ k) x \<in> V" for x k by (induction k) (auto simp: V)
  have out: "x \<notin> V" if xin: "x \<in> set (i # L)" for x
  proof
    assume x: "x \<in> V"
    obtain k where k: "x = (apply_perm p ^^ k) i" "k < period p i" using xin [unfolded c(1)] by auto
    have "(apply_perm p ^^ (period p i - k)) x = i"
      unfolding k(1) using k(2) period(2) [OF p i(1)]
      by (metis comp_apply funpow_add le_add_diff_inverse2 less_imp_le)
    then show False using Vk [OF x, of "period p i - k"] i(2) by simp
  qed
  have nx: "apply_perm p x \<in> set (i # L)" if "x \<in> set (i # L)" for x
    using path_next [OF c(2) that] c(4) by (cases "x = last (i # L)") auto
  show "\<forall>x \<in> V \<union> insert i (set L). apply_perm p x \<in> V \<union> insert i (set L)"
    using V nx by auto
  show "moved (s i) (done_slots p V s) i L = done_slots p (V \<union> insert i (set L)) s"
  proof
    fix d
    show "moved (s i) (done_slots p V s) i L d = done_slots p (V \<union> insert i (set L)) s d"
      unfolding moved_path [OF c(2,3)]
      using c(4) out nx [of d] out [of "apply_perm p d"] last_in_set [of "i # L"] by (auto simp: done_slots_def simp del: last.simps)
  qed
qed

section \<open>The interface of a slot file\<close>

text \<open>
  Code that moves the slot at a depth to and from two holding places.  \<open>ok\<close> is what the code needs of
  the registers, \<open>slot\<close> the contents by depth, \<open>frame\<close> what none of it changes.
\<close>

locale slot_file =
  fixes ok :: "mach \<Rightarrow> bool"
    and frame :: "mach \<Rightarrow> mach \<Rightarrow> bool"
    and slot :: "mach \<Rightarrow> nat \<Rightarrow> 'v"
    and saved chained :: "mach \<Rightarrow> 'v"
    and ld_save st_save ld st :: "nat \<Rightarrow> u32 list"
  assumes frame_refl: "frame m m"
    and frame_trans: "frame m m' \<Longrightarrow> frame m' m'' \<Longrightarrow> frame m m''"
    and ld_save: "ok m \<Longrightarrow> d < 8 \<Longrightarrow>
      runs (ld_save d) m (\<lambda>m'. ok m' \<and> frame m m' \<and> slot m' = slot m \<and> saved m' = slot m d)"
    and st_save: "ok m \<Longrightarrow> d < 8 \<Longrightarrow>
      runs (st_save d) m (\<lambda>m'. ok m' \<and> frame m m' \<and> slot m' = (slot m)(d := saved m))"
    and ld: "ok m \<Longrightarrow> d < 8 \<Longrightarrow>
      runs (ld d) m (\<lambda>m'. ok m' \<and> frame m m' \<and> slot m' = slot m \<and> saved m' = saved m \<and> chained m' = slot m d)"
    and st: "ok m \<Longrightarrow> d < 8 \<Longrightarrow>
      runs (st d) m (\<lambda>m'. ok m' \<and> frame m m' \<and> slot m' = (slot m)(d := chained m) \<and> saved m' = saved m)"
begin

lemma runs_cycle_moves:
  "ok m \<Longrightarrow> \<forall>d\<in>set (j # L). d < 8 \<Longrightarrow>
    runs (cycle_moves st_save ld st j L) m (\<lambda>m'. ok m' \<and> frame m m' \<and> slot m' = moved (saved m) (slot m) j L)"
proof (induction L arbitrary: m j)
  case Nil
  then show ?case using st_save [of m j] by (simp add: fun_upd_def)
next
  case (Cons n r)
  have n: "n < 8" "j < 8" using Cons.prems(2) by auto
  show ?case
    unfolding cycle_moves.simps moved.simps
  proof (rule runs_append [OF ld [OF Cons.prems(1) n(1)]])
    fix m1 assume m1: "ok m1 \<and> frame m m1 \<and> slot m1 = slot m \<and> saved m1 = saved m \<and> chained m1 = slot m n"
    show "runs (st j @ cycle_moves st_save ld st n r) m1
      (\<lambda>m'. ok m' \<and> frame m m' \<and> slot m' = moved (saved m) ((slot m)(j := slot m n)) n r)"
    proof (rule runs_append [OF st [OF _ n(2)]])
      show "ok m1" using m1 by simp
      fix m2 assume m2: "ok m2 \<and> frame m1 m2 \<and> slot m2 = (slot m1)(j := chained m1) \<and> saved m2 = saved m1"
      show "runs (cycle_moves st_save ld st n r) m2
        (\<lambda>m'. ok m' \<and> frame m m' \<and> slot m' = moved (saved m) ((slot m)(j := slot m n)) n r)"
        by (rule runs_mono [OF Cons.IH]) (use m1 m2 Cons.prems(2) in \<open>auto intro: frame_trans simp: fun_upd_def\<close>)
    qed
  qed
qed

lemma runs_perm_loop:
  assumes p: "perm8 p"
  shows "ok m \<Longrightarrow> \<forall>i\<in>set is. i < 8 \<Longrightarrow> \<forall>x\<in>V. apply_perm p x \<in> V \<Longrightarrow> slot m = done_slots p V s \<Longrightarrow>
    runs (perm_flush_loop ld_save st_save ld st p V is) m
      (\<lambda>m'. ok m' \<and> frame m m' \<and> (\<exists>W. V \<subseteq> W \<and> (\<forall>i\<in>set is. i \<in> W \<or> p ! i = i) \<and> slot m' = done_slots p W s))"
proof (induction "is" arbitrary: m V)
  case Nil
  then show ?case by (auto intro!: runs_Nil frame_refl)
next
  case (Cons i "is")
  show ?case
  proof (cases "i \<in> V \<or> p ! i = i")
    case True
    have "runs (perm_flush_loop ld_save st_save ld st p V is) m
      (\<lambda>m'. ok m' \<and> frame m m' \<and> (\<exists>W. V \<subseteq> W \<and> (\<forall>i\<in>set is. i \<in> W \<or> p ! i = i) \<and> slot m' = done_slots p W s))"
      by (rule Cons.IH) (use Cons.prems in auto)
    then show ?thesis using True by (simp) (erule runs_mono, auto)
  next
    case False
    define L where "L = perm_cycle 8 p i i"
    have i: "i < 8" "i \<notin> V" using False Cons.prems(2) by auto
    note mc = moved_cycle [OF p i Cons.prems(3), folded L_def]
    have L8: "\<forall>d\<in>set (i # L). d < 8"
      using cycle_facts(1) [OF p i(1)] iterate_less [OF p i(1)] by (auto simp: L_def)
    have e: "perm_flush_loop ld_save st_save ld st p V (i # is) =
        ld_save i @ cycle_moves st_save ld st i L @ perm_flush_loop ld_save st_save ld st p (V \<union> insert i (set L)) is"
      using False by (simp add: L_def Let_def)
    show ?thesis
      unfolding e
    proof (rule runs_append [OF ld_save [OF Cons.prems(1) i(1)]])
      fix m1 assume m1: "ok m1 \<and> frame m m1 \<and> slot m1 = slot m \<and> saved m1 = slot m i"
      show "runs (cycle_moves st_save ld st i L @ perm_flush_loop ld_save st_save ld st p (V \<union> insert i (set L)) is) m1
        (\<lambda>m'. ok m' \<and> frame m m' \<and> (\<exists>W. V \<subseteq> W \<and> (\<forall>i\<in>set (i # is). i \<in> W \<or> p ! i = i) \<and> slot m' = done_slots p W s))"
      proof (rule runs_append [OF runs_cycle_moves [OF _ L8]])
        show "ok m1" using m1 by simp
        fix m2 assume m2: "ok m2 \<and> frame m1 m2 \<and> slot m2 = moved (saved m1) (slot m1) i L"
        have s2: "slot m2 = done_slots p (V \<union> insert i (set L)) s"
          using m1 m2 mc(1) [of s] i(2) Cons.prems(4) by (simp add: done_slots_def)
        show "runs (perm_flush_loop ld_save st_save ld st p (V \<union> insert i (set L)) is) m2
          (\<lambda>m'. ok m' \<and> frame m m' \<and> (\<exists>W. V \<subseteq> W \<and> (\<forall>i\<in>set (i # is). i \<in> W \<or> p ! i = i) \<and> slot m' = done_slots p W s))"
          by (rule runs_mono [OF Cons.IH [OF _ _ mc(2) s2]])
            (use m1 m2 Cons.prems(2) in \<open>auto intro: frame_trans\<close>)
      qed
    qed
  qed
qed

lemma runs_perm_flush:
  assumes p: "perm8 p" and m: "ok m"
  shows "runs (perm_flush_loop ld_save st_save ld st p {} [0..<8]) m
    (\<lambda>m'. ok m' \<and> frame m m' \<and> (\<forall>d<8. slot m' d = slot m (p ! d)))"
proof (rule runs_mono [OF runs_perm_loop [OF p m, where V = "{}" and s = "slot m"]])
  fix m' assume "ok m' \<and> frame m m' \<and> (\<exists>W. {} \<subseteq> W \<and> (\<forall>i\<in>set [0..<8]. i \<in> W \<or> p ! i = i) \<and> slot m' = done_slots p W (slot m))"
  then show "ok m' \<and> frame m m' \<and> (\<forall>d<8. slot m' d = slot m (p ! d))"
    by (auto simp: done_slots_def apply_perm_def)
qed (auto simp: done_slots_def)

end

section \<open>Slots in memory\<close>

definition outside :: "bool \<Rightarrow> nat \<Rightarrow> u64 \<Rightarrow> u64 \<Rightarrow> bool" where
  "outside native n b a \<longleftrightarrow> (\<forall>p<8. n \<le> unat (a - slot_addr native b p))"

lemma slots_apart:
  assumes "p < 8" "q < 8" "p \<noteq> q"
  shows "apart (slot_addr native b p) 8 (slot_addr native b q) 8"
    "apart (slot_addr True b p) 8 (slot_addr True b q) 10" "apart (slot_addr True b p + 8) 2 (slot_addr True b q) 10"
  using assms below_eight [OF assms(1)] below_eight [OF assms(2)]
  by (auto simp: apart_def slot_addr_def)

lemma same_slot:
  fixes d e t :: nat
  assumes "d < 8" "e < 8"
  shows "(t + d) mod 8 = (t + e) mod 8 \<longleftrightarrow> d = e"
proof -
  have m: "(t + k) mod 8 = (if t mod 8 + k < 8 then t mod 8 + k else t mod 8 + k - 8)" if "k < 8" for k
  proof -
    have "(t + k) mod 8 = (t mod 8 + k) mod 8" by (simp add: mod_add_left_eq)
    moreover have "t mod 8 < 8" by simp
    ultimately show ?thesis using that by (simp add: le_mod_geq)
  qed
  have "(if x + d < 8 then x + d else x + d - 8) = (if x + e < 8 then x + e else x + e - 8) \<longleftrightarrow> d = e" if "x < 8" for x
    using assms that by presburger
  then show ?thesis unfolding m [OF assms(1)] m [OF assms(2)] by simp
qed

text \<open>The registers the moves need, and what no move changes.\<close>

definition flush_ok :: "bool \<Rightarrow> int \<Rightarrow> int \<Rightarrow> int \<Rightarrow> int \<Rightarrow> nat \<Rightarrow> u64 \<Rightarrow> int list \<Rightarrow> mach \<Rightarrow> bool" where
  "flush_ok native xbase wd_top wd_tmp xst t b ds m \<longleftrightarrow>
     slot_regs native xbase wd_top wd_tmp xst t m \<and> xr m xbase = b \<and> list_all reg ds \<and> distinct ds"

definition flush_frame :: "bool \<Rightarrow> nat \<Rightarrow> int \<Rightarrow> u64 \<Rightarrow> int list \<Rightarrow> mach \<Rightarrow> mach \<Rightarrow> bool" where
  "flush_frame native n wd_tmp b ds m m' \<longleftrightarrow>
     (\<forall>r. r \<noteq> wd_tmp \<longrightarrow> xr m' r = xr m r) \<and> spr m' = spr m \<and> flags_word m' = flags_word m \<and>
     (\<forall>d. d \<notin> set ds \<longrightarrow> dr m' d = dr m d) \<and> (\<forall>a. outside native n b a \<longrightarrow> mem m' a = mem m a)"

lemma flush_ok_frame:
  "flush_ok native xbase wd_top wd_tmp xst t b ds m \<Longrightarrow> \<forall>r. r \<noteq> wd_tmp \<longrightarrow> xr m' r = xr m r \<Longrightarrow>
    flush_ok native xbase wd_top wd_tmp xst t b ds m'"
  by (auto simp: flush_ok_def slot_regs_def st_base_def scratch_def)

definition slot_value :: "bool \<Rightarrow> nat \<Rightarrow> u64 \<Rightarrow> mach \<Rightarrow> nat \<Rightarrow> u64" where
  "slot_value native t b m d = (if d < 8 then load 8 (slot_addr native b ((t + d) mod 8)) (mem m) else 0)"

lemma slot_value_store:
  assumes "d < 8"
  shows "slot_value native t b (m\<lparr>mem := store 8 (slot_addr native b ((t + d) mod 8)) v (mem m)\<rparr>) =
    (slot_value native t b m)(d := v)"
proof
  fix e
  show "slot_value native t b (m\<lparr>mem := store 8 (slot_addr native b ((t + d) mod 8)) v (mem m)\<rparr>) e =
      ((slot_value native t b m)(d := v)) e"
    using assms slots_apart(1) [of "(t + e) mod 8" "(t + d) mod 8" native b] same_slot [of e d t]
    by (cases "e = d")
      (auto simp: slot_value_def load_store_same load_store_apart take_bit_word_eq_self)
qed

lemma runs_load_slot:
  assumes "flush_ok native xbase wd_top wd_tmp xst t b ds m" "d < 8" "dd \<in> set ds"
  shows "runs (fst (emit_load_st native xbase wd_top (int d) wd_tmp dd xst)) m (\<lambda>m'.
    flush_ok native xbase wd_top wd_tmp xst t b ds m' \<and> flush_frame native 8 wd_tmp b ds m m' \<and>
    slot_value native t b m' = slot_value native t b m \<and> dr m' = (dr m)(dd := slot_value native t b m d))"
proof (rule runs_mono [OF runs_load_st])
  show "slot_regs native xbase wd_top wd_tmp xst t m" "d < 8" "reg dd"
    using assms by (auto simp: flush_ok_def list_all_iff)
  fix m'
  assume "\<exists>v. m' = (set_x wd_tmp v m)\<lparr>dr := (dr m)(dd := load 8 (slot_addr native (xr m xbase) ((t + d) mod 8)) (mem m))\<rparr>"
  then obtain v where m': "m' = (set_x wd_tmp v m)\<lparr>dr := (dr m)(dd := load 8 (slot_addr native b ((t + d) mod 8)) (mem m))\<rparr>"
    using assms(1) by (auto simp: flush_ok_def)
  show "flush_ok native xbase wd_top wd_tmp xst t b ds m' \<and> flush_frame native 8 wd_tmp b ds m m' \<and>
    slot_value native t b m' = slot_value native t b m \<and> dr m' = (dr m)(dd := slot_value native t b m d)"
    using flush_ok_frame [OF assms(1), of m'] assms(2,3)
    by (auto simp: m' flush_frame_def flags_word_def slot_value_def fun_eq_iff)
qed

lemma runs_store_slot:
  assumes "flush_ok native xbase wd_top wd_tmp xst t b ds m" "d < 8" "dd \<in> set ds"
  shows "runs (emit_store_st native xbase wd_top (int d) wd_tmp dd xst) m (\<lambda>m'.
    flush_ok native xbase wd_top wd_tmp xst t b ds m' \<and> flush_frame native 8 wd_tmp b ds m m' \<and>
    slot_value native t b m' = (slot_value native t b m)(d := dr m dd) \<and> dr m' = dr m)"
proof (rule runs_mono [OF runs_store_st])
  show "slot_regs native xbase wd_top wd_tmp xst t m" "d < 8" "reg dd"
    using assms by (auto simp: flush_ok_def list_all_iff)
  fix m'
  assume "\<exists>v. m' = (set_x wd_tmp v m)\<lparr>mem := store 8 (slot_addr native (xr m xbase) ((t + d) mod 8)) (dr m dd) (mem m)\<rparr>"
  then obtain v where m': "m' = (set_x wd_tmp v m)\<lparr>mem := store 8 (slot_addr native b ((t + d) mod 8)) (dr m dd) (mem m)\<rparr>"
    using assms(1) by (auto simp: flush_ok_def)
  have "mem m' a = mem m a" if "outside native 8 b a" for a
    using that [unfolded outside_def, rule_format, of "(t + d) mod 8"] by (simp add: m' store_nth)
  moreover have "slot_value native t b m' =
      slot_value native t b (m\<lparr>mem := store 8 (slot_addr native b ((t + d) mod 8)) (dr m dd) (mem m)\<rparr>)"
    by (rule ext) (simp add: m' slot_value_def)
  then have "slot_value native t b m' = (slot_value native t b m)(d := dr m dd)"
    by (simp only: slot_value_store [OF assms(2)])
  ultimately show "flush_ok native xbase wd_top wd_tmp xst t b ds m' \<and> flush_frame native 8 wd_tmp b ds m m' \<and>
    slot_value native t b m' = (slot_value native t b m)(d := dr m dd) \<and> dr m' = dr m"
    using flush_ok_frame [OF assms(1), of m']
    by (auto simp: flush_frame_def m' flags_word_def)
qed

interpretation f64_slots: slot_file
  "flush_ok native xbase wd_top wd_tmp xst t b [dd_save, dd_chain]"
  "flush_frame native 8 wd_tmp b [dd_save, dd_chain]"
  "slot_value native t b" "\<lambda>m. dr m dd_save" "\<lambda>m. dr m dd_chain"
  "\<lambda>d. fst (emit_load_st native xbase wd_top (int d) wd_tmp dd_save xst)"
  "\<lambda>d. emit_store_st native xbase wd_top (int d) wd_tmp dd_save xst"
  "\<lambda>d. fst (emit_load_st native xbase wd_top (int d) wd_tmp dd_chain xst)"
  "\<lambda>d. emit_store_st native xbase wd_top (int d) wd_tmp dd_chain xst"
  for native xbase wd_top wd_tmp xst t b dd_save dd_chain
proof
  fix m m' m'' :: mach and d :: nat
  let ?ok = "flush_ok native xbase wd_top wd_tmp xst t b [dd_save, dd_chain]"
  show "flush_frame native 8 wd_tmp b [dd_save, dd_chain] m m" by (simp add: flush_frame_def)
  show "flush_frame native 8 wd_tmp b [dd_save, dd_chain] m m''"
    if "flush_frame native 8 wd_tmp b [dd_save, dd_chain] m m'" "flush_frame native 8 wd_tmp b [dd_save, dd_chain] m' m''"
    using that by (simp add: flush_frame_def)
  assume ok: "?ok m" and d: "d < 8"
  then have ne: "dd_save \<noteq> dd_chain" by (simp add: flush_ok_def)
  show "runs (fst (emit_load_st native xbase wd_top (int d) wd_tmp dd_save xst)) m (\<lambda>m'. ?ok m' \<and>
      flush_frame native 8 wd_tmp b [dd_save, dd_chain] m m' \<and> slot_value native t b m' = slot_value native t b m \<and>
      dr m' dd_save = slot_value native t b m d)"
    by (rule runs_mono [OF runs_load_slot [OF ok d]]) auto
  show "runs (emit_store_st native xbase wd_top (int d) wd_tmp dd_save xst) m (\<lambda>m'. ?ok m' \<and>
      flush_frame native 8 wd_tmp b [dd_save, dd_chain] m m' \<and>
      slot_value native t b m' = (slot_value native t b m)(d := dr m dd_save))"
    by (rule runs_mono [OF runs_store_slot [OF ok d]]) auto
  show "runs (fst (emit_load_st native xbase wd_top (int d) wd_tmp dd_chain xst)) m (\<lambda>m'. ?ok m' \<and>
      flush_frame native 8 wd_tmp b [dd_save, dd_chain] m m' \<and> slot_value native t b m' = slot_value native t b m \<and>
      dr m' dd_save = dr m dd_save \<and> dr m' dd_chain = slot_value native t b m d)"
    by (rule runs_mono [OF runs_load_slot [OF ok d]]) (use ne in auto)
  show "runs (emit_store_st native xbase wd_top (int d) wd_tmp dd_chain xst) m (\<lambda>m'. ?ok m' \<and>
      flush_frame native 8 wd_tmp b [dd_save, dd_chain] m m' \<and>
      slot_value native t b m' = (slot_value native t b m)(d := dr m dd_chain) \<and> dr m' dd_save = dr m dd_save)"
    by (rule runs_mono [OF runs_store_slot [OF ok d]]) auto
qed

end
