(* ===== verification/X87_Image_Flush.thy ===== *)
theory X87_Image_Flush
  imports X87_Perm_Flush
begin

text \<open>
  The ten-byte form of the deferred exchange: a slot of the native layout moves as its eight mantissa
  bytes in one register and its two exponent bytes in another.
\<close>

lemma run_fp_half:
  assumes "gpr rn" "gpr rm" "reg rt"
  shows "run (emit_ldr_str_reg 1 1 1 rm 0 rn rt @ ws) m =
      run ws (m\<lparr>dr := (dr m)(rt := load 2 (xr m rn + xr m rm) (mem m))\<rparr>)"
    "run (emit_ldr_str_reg 1 1 0 rm 0 rn rt @ ws) m =
      run ws (m\<lparr>mem := store 2 (xr m rn + xr m rm) (dr m rt) (mem m)\<rparr>)"
  by (insert assms) (rule run_plain, rule decode_ldr_str_reg_fp;
      simp add: emit_ldr_str_reg_def exec_simps fits_def extended_def)+

definition image_addr :: "nat \<Rightarrow> u64 \<Rightarrow> nat \<Rightarrow> u64" where
  "image_addr t b d = slot_addr True b ((t + d) mod 8)"

definition image_of :: "nat \<Rightarrow> u64 \<Rightarrow> mach \<Rightarrow> nat \<Rightarrow> u64 \<times> u64" where
  "image_of t b m d = (if d < 8 then (load 8 (image_addr t b d) (mem m), load 2 (image_addr t b d + 8) (mem m)) else (0, 0))"

definition store_image :: "u64 \<Rightarrow> u64 \<Rightarrow> u64 \<Rightarrow> (u64 \<Rightarrow> u8) \<Rightarrow> (u64 \<Rightarrow> u8)" where
  "store_image a lo hi h = store 2 (a + 8) hi (store 8 a lo h)"

lemma key_plus_eight: "p < 8 \<Longrightarrow> w32 (10 * word_of_nat p + 8) = 10 * word_of_nat p + 8"
  "p < 8 \<Longrightarrow> w32 (10 * word_of_nat p + 14) = 10 * word_of_nat p + 14"
  by (drule below_eight, auto simp: w32_def)+

lemma runs_image:
  assumes s: "slot_regs True xbase wd_top wd_tmp xst t m" and d: "d < 8" "reg dd" "reg hx" "dd \<noteq> hx"
  defines "a \<equiv> image_addr t (xr m xbase) d"
  shows "runs (emit_native_slot_image xbase wd_top (int d) wd_tmp dd hx xst False) m (\<lambda>m'. \<exists>v. m' =
      (set_x wd_tmp v m)\<lparr>dr := (dr m)(dd := load 8 a (mem m), hx := load 2 (a + 8) (mem m))\<rparr>)"
    "runs (emit_native_slot_image xbase wd_top (int d) wd_tmp dd hx xst True) m (\<lambda>m'. \<exists>v. m' =
      (set_x wd_tmp v m)\<lparr>mem := store_image a (dr m dd) (dr m hx) (mem m)\<rparr>)"
proof -
  define p where "p = (t + d) mod 8"
  have p8: "p < 8" by (simp add: p_def)
  define key where "key = 10 * word_of_nat p + (if xst < 0 then 6 else 0 :: u64)"
  note r = s [unfolded slot_regs_def scratch_both st_base_def]
  have sc: "scratch xbase [wd_top, wd_tmp]" "xr m wd_top = word_of_nat t" "t < 8"
    using s by (auto simp: slot_regs_def)
  define base where "base = (if xst \<ge> 0 then xst else xbase)"
  have b: "gpr base" "base \<noteq> wd_tmp" "gpr wd_tmp" using r by (auto simp: base_def)
  have at: "xr m base + key = a" using r
    by (auto simp: base_def key_def a_def image_addr_def slot_addr_def p_def [symmetric])
  have at8: "xr m base + w32 (key + 8) = a + 8"
    using key_plus_eight [OF p8] by (auto simp: key_def at [symmetric] add.assoc)
  have k: "runs (emit_native_st_key wd_top (int d) wd_tmp xst) m (\<lambda>m'. m' = set_x wd_tmp key m)"
    using runs_native_st_key [OF sc d(1), of xst] by (simp add: key_def p_def)
  have ld: "runs (emit_ldr_str_reg 3 1 1 wd_tmp 0 base dd @ emit_add_imm 0 0 0 0 8 wd_tmp wd_tmp @
      emit_ldr_str_reg 1 1 1 wd_tmp 0 base hx) (set_x wd_tmp key m) (\<lambda>m'. m' =
      (set_x wd_tmp (w32 (key + 8)) m)\<lparr>dr := (dr m)(dd := load 8 a (mem m), hx := load 2 (a + 8) (mem m))\<rparr>)"
    using b d at at8
    by (intro runsI [where m' = "(set_x wd_tmp (w32 (key + 8)) m)\<lparr>dr := (dr m)(dd := load 8 a (mem m), hx := load 2 (a + 8) (mem m))\<rparr>"])
      (simp_all add: run_fp_reg run_fp_half run_add_imm append_assoc fits_def set_x_def)
  have st: "runs (emit_ldr_str_reg 3 1 0 wd_tmp 0 base dd @ emit_add_imm 0 0 0 0 8 wd_tmp wd_tmp @
      emit_ldr_str_reg 1 1 0 wd_tmp 0 base hx) (set_x wd_tmp key m) (\<lambda>m'. m' =
      (set_x wd_tmp (w32 (key + 8)) m)\<lparr>mem := store_image a (dr m dd) (dr m hx) (mem m)\<rparr>)"
    using b d at at8
    by (intro runsI [where m' = "(set_x wd_tmp (w32 (key + 8)) m)\<lparr>mem := store_image a (dr m dd) (dr m hx) (mem m)\<rparr>"])
      (simp_all add: run_fp_reg run_fp_half run_add_imm append_assoc fits_def set_x_def store_image_def)
  show "runs (emit_native_slot_image xbase wd_top (int d) wd_tmp dd hx xst False) m (\<lambda>m'. \<exists>v. m' =
      (set_x wd_tmp v m)\<lparr>dr := (dr m)(dd := load 8 a (mem m), hx := load 2 (a + 8) (mem m))\<rparr>)"
    unfolding emit_native_slot_image_def Let_def base_def [symmetric]
    by (rule runs_append [OF k]) (use ld in \<open>auto elim: runs_mono\<close>)
  show "runs (emit_native_slot_image xbase wd_top (int d) wd_tmp dd hx xst True) m (\<lambda>m'. \<exists>v. m' =
      (set_x wd_tmp v m)\<lparr>mem := store_image a (dr m dd) (dr m hx) (mem m)\<rparr>)"
    unfolding emit_native_slot_image_def Let_def base_def [symmetric]
    by (rule runs_append [OF k]) (use st in \<open>auto elim: runs_mono\<close>)
qed

lemma images_apart:
  assumes "p < 8" "q < 8" "p \<noteq> q"
  shows "apart (slot_addr True b p) 8 (slot_addr True b q + 8) 2"
    "apart (slot_addr True b p + 8) 2 (slot_addr True b q) 8"
    "apart (slot_addr True b p + 8) 2 (slot_addr True b q + 8) 2"
  using assms below_eight [OF assms(1)] below_eight [OF assms(2)]
  by (auto simp: apart_def slot_addr_def)

lemma parts_apart: "apart a 8 (a + 8) 2" "apart (a + 8) 2 a 8"
  by (simp_all add: apart_def)

lemma image_store:
  assumes "d < 8"
  shows "image_of t b (m\<lparr>mem := store_image (image_addr t b d) lo hi (mem m)\<rparr>) = (image_of t b m)(d := (lo, take_bit 16 hi))"
proof
  fix e
  have "(t + e) mod 8 \<noteq> (t + d) mod 8" if "e < 8" "e \<noteq> d" using same_slot [of e d t] assms that by simp
  then show "image_of t b (m\<lparr>mem := store_image (image_addr t b d) lo hi (mem m)\<rparr>) e =
      ((image_of t b m)(d := (lo, take_bit 16 hi))) e"
    using assms images_apart [of "(t + e) mod 8" "(t + d) mod 8" b] slots_apart(1) [of "(t + e) mod 8" "(t + d) mod 8" True b]
    by (cases "e = d")
      (auto simp: image_of_def store_image_def image_addr_def load_store_same load_store_apart parts_apart take_bit_word_eq_self)
qed

lemma store_image_outside:
  assumes "outside True 10 b a" "d < 8"
  shows "store_image (image_addr t b d) lo hi h a = h a"
proof -
  define c where "c = image_addr t b d"
  have ten: "10 \<le> unat (a - c)" using assms by (simp add: outside_def image_addr_def c_def)
  then have "8 \<le> a - c" by (simp add: word_le_nat_alt)
  have "unat (a - (c + 8)) = unat ((a - c) - 8)" by (simp add: diff_diff_eq)
  also have "\<dots> = unat (a - c) - 8" using unat_sub [OF \<open>8 \<le> a - c\<close>] by simp
  finally have "\<not> unat (a - (c + 8)) < 2" using ten by linarith
  then show ?thesis using ten unfolding c_def [symmetric] by (simp add: store_image_def store_nth)
qed

lemma runs_load_image:
  assumes "flush_ok True xbase wd_top wd_tmp xst t b ds m" "d < 8" "dd \<in> set ds" "hx \<in> set ds" "dd \<noteq> hx"
  shows "runs (emit_native_slot_image xbase wd_top (int d) wd_tmp dd hx xst False) m (\<lambda>m'.
    flush_ok True xbase wd_top wd_tmp xst t b ds m' \<and> flush_frame True 10 wd_tmp b ds m m' \<and>
    image_of t b m' = image_of t b m \<and> dr m' = (dr m)(dd := fst (image_of t b m d), hx := snd (image_of t b m d)))"
proof (rule runs_mono [OF runs_image(1)])
  show "slot_regs True xbase wd_top wd_tmp xst t m" "d < 8" "reg dd" "reg hx" "dd \<noteq> hx"
    using assms by (auto simp: flush_ok_def list_all_iff)
  have b: "xr m xbase = b" using assms(1) by (simp add: flush_ok_def)
  fix m'
  assume "\<exists>v. m' = (set_x wd_tmp v m)\<lparr>dr := (dr m)(dd := load 8 (image_addr t (xr m xbase) d) (mem m),
    hx := load 2 (image_addr t (xr m xbase) d + 8) (mem m))\<rparr>"
  then obtain v where m': "m' = (set_x wd_tmp v m)\<lparr>dr := (dr m)(dd := load 8 (image_addr t b d) (mem m),
      hx := load 2 (image_addr t b d + 8) (mem m))\<rparr>" unfolding b ..
  show "flush_ok True xbase wd_top wd_tmp xst t b ds m' \<and> flush_frame True 10 wd_tmp b ds m m' \<and>
    image_of t b m' = image_of t b m \<and> dr m' = (dr m)(dd := fst (image_of t b m d), hx := snd (image_of t b m d))"
    using flush_ok_frame [OF assms(1), of m'] assms(2-4)
    by (auto simp: m' flush_frame_def flags_word_def image_of_def fun_eq_iff)
qed

lemma runs_store_image:
  assumes "flush_ok True xbase wd_top wd_tmp xst t b ds m" "d < 8" "dd \<in> set ds" "hx \<in> set ds" "dd \<noteq> hx"
  shows "runs (emit_native_slot_image xbase wd_top (int d) wd_tmp dd hx xst True) m (\<lambda>m'.
    flush_ok True xbase wd_top wd_tmp xst t b ds m' \<and> flush_frame True 10 wd_tmp b ds m m' \<and>
    image_of t b m' = (image_of t b m)(d := (dr m dd, take_bit 16 (dr m hx))) \<and> dr m' = dr m)"
proof (rule runs_mono [OF runs_image(2)])
  show "slot_regs True xbase wd_top wd_tmp xst t m" "d < 8" "reg dd" "reg hx" "dd \<noteq> hx"
    using assms by (auto simp: flush_ok_def list_all_iff)
  have b: "xr m xbase = b" using assms(1) by (simp add: flush_ok_def)
  fix m'
  assume "\<exists>v. m' = (set_x wd_tmp v m)\<lparr>mem := store_image (image_addr t (xr m xbase) d) (dr m dd) (dr m hx) (mem m)\<rparr>"
  then obtain v where m': "m' = (set_x wd_tmp v m)\<lparr>mem := store_image (image_addr t b d) (dr m dd) (dr m hx) (mem m)\<rparr>"
    unfolding b ..
  have "image_of t b m' = image_of t b (m\<lparr>mem := store_image (image_addr t b d) (dr m dd) (dr m hx) (mem m)\<rparr>)"
    by (rule ext) (simp add: m' image_of_def)
  then have "image_of t b m' = (image_of t b m)(d := (dr m dd, take_bit 16 (dr m hx)))"
    by (simp only: image_store [OF assms(2)])
  moreover have "mem m' a = mem m a" if "outside True 10 b a" for a
    using store_image_outside [OF that assms(2)] by (simp add: m')
  ultimately show "flush_ok True xbase wd_top wd_tmp xst t b ds m' \<and> flush_frame True 10 wd_tmp b ds m m' \<and>
    image_of t b m' = (image_of t b m)(d := (dr m dd, take_bit 16 (dr m hx))) \<and> dr m' = dr m"
    using flush_ok_frame [OF assms(1), of m'] by (auto simp: flush_frame_def m' flags_word_def)
qed

lemma image_parts: "take_bit 16 (snd (image_of t b m d)) = snd (image_of t b m d)"
  unfolding image_of_def by (rule bit_word_eqI) (auto simp: bit_simps load_bit)

interpretation f80_slots: slot_file
  "flush_ok True xbase wd_top wd_tmp xst t b [dd_save, hd_save, dd_chain, hd_chain]"
  "flush_frame True 10 wd_tmp b [dd_save, hd_save, dd_chain, hd_chain]"
  "image_of t b" "\<lambda>m. (dr m dd_save, take_bit 16 (dr m hd_save))" "\<lambda>m. (dr m dd_chain, take_bit 16 (dr m hd_chain))"
  "\<lambda>d. emit_native_slot_image xbase wd_top (int d) wd_tmp dd_save hd_save xst False"
  "\<lambda>d. emit_native_slot_image xbase wd_top (int d) wd_tmp dd_save hd_save xst True"
  "\<lambda>d. emit_native_slot_image xbase wd_top (int d) wd_tmp dd_chain hd_chain xst False"
  "\<lambda>d. emit_native_slot_image xbase wd_top (int d) wd_tmp dd_chain hd_chain xst True"
  for xbase wd_top wd_tmp xst t b dd_save hd_save dd_chain hd_chain
proof
  fix m m' m'' :: mach and d :: nat
  let ?ds = "[dd_save, hd_save, dd_chain, hd_chain]"
  let ?ok = "flush_ok True xbase wd_top wd_tmp xst t b ?ds"
  let ?fr = "flush_frame True 10 wd_tmp b ?ds"
  show "?fr m m" by (simp add: flush_frame_def)
  show "?fr m m''" if "?fr m m'" "?fr m' m''" using that by (simp add: flush_frame_def)
  assume ok: "?ok m" and d: "d < 8"
  then have ne: "distinct ?ds" by (simp add: flush_ok_def)
  show "runs (emit_native_slot_image xbase wd_top (int d) wd_tmp dd_save hd_save xst False) m (\<lambda>m'. ?ok m' \<and> ?fr m m' \<and>
      image_of t b m' = image_of t b m \<and> (dr m' dd_save, take_bit 16 (dr m' hd_save)) = image_of t b m d)"
    by (rule runs_mono [OF runs_load_image [OF ok d]]) (use ne in \<open>auto simp: image_parts\<close>)
  show "runs (emit_native_slot_image xbase wd_top (int d) wd_tmp dd_save hd_save xst True) m (\<lambda>m'. ?ok m' \<and> ?fr m m' \<and>
      image_of t b m' = (image_of t b m)(d := (dr m dd_save, take_bit 16 (dr m hd_save))))"
    by (rule runs_mono [OF runs_store_image [OF ok d]]) (use ne in auto)
  show "runs (emit_native_slot_image xbase wd_top (int d) wd_tmp dd_chain hd_chain xst False) m (\<lambda>m'. ?ok m' \<and> ?fr m m' \<and>
      image_of t b m' = image_of t b m \<and> (dr m' dd_save, take_bit 16 (dr m' hd_save)) = (dr m dd_save, take_bit 16 (dr m hd_save)) \<and>
      (dr m' dd_chain, take_bit 16 (dr m' hd_chain)) = image_of t b m d)"
    by (rule runs_mono [OF runs_load_image [OF ok d]]) (use ne in \<open>auto simp: image_parts\<close>)
  show "runs (emit_native_slot_image xbase wd_top (int d) wd_tmp dd_chain hd_chain xst True) m (\<lambda>m'. ?ok m' \<and> ?fr m m' \<and>
      image_of t b m' = (image_of t b m)(d := (dr m dd_chain, take_bit 16 (dr m hd_chain))) \<and>
      (dr m' dd_save, take_bit 16 (dr m' hd_save)) = (dr m dd_save, take_bit 16 (dr m hd_save)))"
    by (rule runs_mono [OF runs_store_image [OF ok d]]) (use ne in auto)
qed

end
