(* ===== verification/X87_Emit_Props.thy ===== *)
theory X87_Emit_Props
  imports X87_Emit_Flags X87_Image_Flush
begin

text \<open>
  The properties of the x87 state code: what a push and a pop do to the state in memory, that the
  batched forms do what as many single ones do, that a stored register is read back whichever way it is
  addressed, and that materialising a deferred exchange permutes the registers.
\<close>

section \<open>The stack in memory\<close>

text \<open>A push and a pop of the x87, on TOP and on the status and tag words.\<close>

definition push_mem :: "u64 \<Rightarrow> nat \<times> (u64 \<Rightarrow> u8) \<Rightarrow> nat \<times> (u64 \<Rightarrow> u8)" where
  "push_mem b = (\<lambda>(t, h). let t' = (t + 7) mod 8 in
     (t', upd_tags b (tag_valid t') (upd_status b (\<lambda>w. set_top w t') h)))"

definition pop_mem :: "u64 \<Rightarrow> nat \<times> (u64 \<Rightarrow> u8) \<Rightarrow> nat \<times> (u64 \<Rightarrow> u8)" where
  "pop_mem b = (\<lambda>(t, h). let t' = (t + 1) mod 8 in
     (t', upd_status b (\<lambda>w. set_top w t') (upd_tags b (tag_empty t) h)))"

lemma set_top_set_top: "set_top (set_top w s) t = set_top w t"
  unfolding set_top_def by (rule bit_word_eqI) (auto simp: bit_simps)

lemma upd_status_top: "upd_status b (\<lambda>w. set_top w t) (upd_status b (\<lambda>w. set_top w s) h) = upd_status b (\<lambda>w. set_top w t) h"
  by (subst upd_status_upd_status) (simp_all add: tag_take_bit comp_def set_top_set_top)

lemma pops:
  assumes "t < 8"
  shows "(pop_mem b ^^ Suc n) (t, h) = ((t + Suc n) mod 8, upd_status b (\<lambda>w. set_top w ((t + Suc n) mod 8))
    (upd_tags b (fold (\<lambda>i. tag_empty ((t + i) mod 8)) [0..<Suc n]) h))"
proof (induction n)
  case 0
  then show ?case using assms by (simp add: pop_mem_def Let_def)
next
  case (Suc n)
  have f: "upd_tags b (fold (\<lambda>i. tag_empty ((t + i) mod 8)) [0..<Suc (Suc n)]) h =
      upd_tags b (tag_empty ((t + Suc n) mod 8)) (upd_tags b (fold (\<lambda>i. tag_empty ((t + i) mod 8)) [0..<Suc n]) h)"
    by (subst upd_tags_upd_tags) (simp_all add: tag_take_bit comp_def)
  show ?case
    unfolding funpow.simps(2) [of "Suc n"] comp_apply Suc.IH f
    by (simp add: pop_mem_def Let_def upd_apart upd_status_top mod_Suc_eq)
qed

lemma pushes:
  "(push_mem b ^^ Suc n) (t, h) = ((t + 7 * Suc n) mod 8,
    upd_tags b (fold (\<lambda>i. tag_valid ((t + 7 * Suc i) mod 8)) [0..<Suc n]) (upd_status b (\<lambda>w. set_top w ((t + 7 * Suc n) mod 8)) h))"
proof (induction n)
  case 0
  then show ?case by (simp add: push_mem_def Let_def)
next
  case (Suc n)
  have s: "((t + 7 * Suc n) mod 8 + 7) mod 8 = (t + 7 * Suc (Suc n)) mod 8"
  proof -
    have "t + 7 * Suc (Suc n) = t + 7 * Suc n + 7" by simp
    then show ?thesis by (simp only: mod_add_left_eq)
  qed
  show ?case
    unfolding funpow.simps(2) [of "Suc n"] comp_apply Suc.IH
    unfolding push_mem_def prod.case Let_def s
    unfolding upd_apart [symmetric] upd_status_top
    by (subst upd_tags_upd_tags) (simp_all add: tag_take_bit comp_def)
qed

lemma fold_valid_cong: "g ` set ks = g' ` set ls \<Longrightarrow> fold (\<lambda>k. tag_valid (g k)) ks = fold (\<lambda>k. tag_valid (g' k)) ls"
  by (rule ext, rule bit_word_eqI) (auto simp: fold_tag_bit image_iff dest: equalityD1 equalityD2)

lemma pushed_slots:
  "(\<lambda>i. ((s + n) mod 8 + 7 * Suc i) mod 8) ` set [0..<n] = (\<lambda>k. (s + k) mod 8) ` set [0..<n]"
proof -
  have e: "((s + n) mod 8 + 7 * Suc i) mod 8 = (s + (n - Suc i)) mod 8" if "i < n" for i
  proof -
    have "((s + n) mod 8 + 7 * Suc i) mod 8 = (s + n + 7 * Suc i) mod 8" by (simp add: mod_add_left_eq)
    also have "s + n + 7 * Suc i = (s + (n - Suc i)) + 8 * Suc i" using that by simp
    finally show ?thesis by (simp only: mod_mult_self2)
  qed
  have "(\<lambda>i. ((s + n) mod 8 + 7 * Suc i) mod 8) ` {0..<n} = (\<lambda>i. (s + (n - Suc i)) mod 8) ` {0..<n}"
    by (rule image_cong) (simp_all only: e atLeastLessThan_iff simp_thms)
  also have "\<dots> = (\<lambda>k. (s + k) mod 8) ` ((\<lambda>i. n - Suc i) ` {0..<n})" by (simp add: image_image)
  also have "(\<lambda>i. n - Suc i) ` {0..<n} = {0..<n}"
  proof
    show "{0..<n} \<subseteq> (\<lambda>i. n - Suc i) ` {0..<n}"
    proof
      fix x assume "x \<in> {0..<n}"
      then show "x \<in> (\<lambda>i. n - Suc i) ` {0..<n}" by (intro image_eqI [where x = "n - Suc x"]) auto
    qed
  qed auto
  finally show ?thesis by simp
qed

text \<open>C25: the code of a push, and of a pop, changes TOP, the status word and the tag word as the x87 does,
  and nothing outside its scratch registers.\<close>

theorem push_and_pop_code:
  assumes "scratch xbase [wd_top, wd_tmp, wd_tmp2]" "xr m wd_top = word_of_nat t" "t < 8"
  shows "(\<exists>m'. run (emit_x87_push xbase wd_top wd_tmp wd_tmp2) m = Some m' \<and> keeps {wd_top, wd_tmp, wd_tmp2} m m' \<and>
      xr m' wd_top = word_of_nat (fst (push_mem (xr m xbase) (t, mem m))) \<and>
      mem m' = snd (push_mem (xr m xbase) (t, mem m))) \<and>
    (\<exists>m'. run (emit_x87_pop xbase wd_top wd_tmp wd_tmp2) m = Some m' \<and> keeps {wd_top, wd_tmp, wd_tmp2} m m' \<and>
      xr m' wd_top = word_of_nat (fst (pop_mem (xr m xbase) (t, mem m))) \<and>
      mem m' = snd (pop_mem (xr m xbase) (t, mem m)))"
  using runs_run [OF runs_push [OF assms]] runs_run [OF runs_pop [OF assms]]
  by (simp_all add: push_mem_def pop_mem_def Let_def)

text \<open>Popping n registers at once leaves TOP and memory as n pops one after another do.\<close>

theorem pop_n_is_n_pops:
  assumes "scratch xbase [wd_top, wd_tmp, wd_tmp2]" "xr m wd_top = word_of_nat t" "t < 8" "0 < n" "n \<le> 8"
  shows "\<exists>m'. run (emit_x87_pop_n xbase wd_top wd_tmp wd_tmp2 (int n)) m = Some m' \<and>
    keeps {wd_top, wd_tmp, wd_tmp2} m m' \<and>
    (\<exists>t'. xr m' wd_top = word_of_nat t' \<and> (t', mem m') = (pop_mem (xr m xbase) ^^ n) (t, mem m))"
proof -
  obtain k where n: "n = Suc k" using assms(4) by (cases n) auto
  have f: "fold (\<lambda>i. upd_tags b (tag_empty ((t + i) mod 8))) ks h = upd_tags b (fold (\<lambda>i. tag_empty ((t + i) mod 8)) ks) h" for b ks h
    by (rule fold_upd_tags_all) (rule tag_take_bit)
  then show ?thesis
    using runs_run [OF runs_pop_n [OF assms(1-3,5)], unfolded f] unfolding n pops [OF assms(3)]
    by (auto simp del: upt_Suc)
qed

text \<open>One batched tag update, wrapping past register 7 included, leaves the tag word as n single pushes
  or n single pops do.\<close>

theorem batched_tags_are_single_ones:
  assumes "scratch xbase [wd_top, wd_tmp, wd_tmp2, wd_tagw]" "xr m wd_top = word_of_nat t" "t < 8" "0 < n" "n \<le> 8"
  shows "(\<exists>m'. run (emit_x87_tag_set_valid_batch xbase wd_top wd_tmp wd_tmp2 wd_tagw (int n)) m = Some m' \<and>
      keeps {wd_tmp, wd_tmp2, wd_tagw} m m' \<and>
      (t, upd_status (xr m xbase) (\<lambda>w. set_top w t) (mem m')) = (push_mem (xr m xbase) ^^ n) ((t + n) mod 8, mem m)) \<and>
    (\<exists>m'. run (emit_x87_tag_set_empty_batch xbase wd_top wd_tmp wd_tmp2 wd_tagw (int n)) m = Some m' \<and>
      keeps {wd_tmp, wd_tmp2, wd_tagw} m m' \<and>
      (t, upd_status (xr m xbase) (\<lambda>w. set_top w t) (mem m')) = (pop_mem (xr m xbase) ^^ n) ((t + (8 - n)) mod 8, mem m))"
proof -
  obtain k where n: "n = Suc k" using assms(4) by (cases n) auto
  have top: "((t + n) mod 8 + 7 * n) mod 8 = t"
  proof -
    have "((t + n) mod 8 + 7 * n) mod 8 = (t + 8 * n) mod 8" by (simp add: mod_add_left_eq)
    then show ?thesis using assms(3) by simp
  qed
  have bottom: "((t + (8 - n)) mod 8 + n) mod 8 = t"
    using assms(3,5) by (simp add: mod_add_left_eq)
  have low: "(t + (8 - n)) mod 8 < 8" by simp
  have start: "((t + (8 - n)) mod 8 + i) mod 8 = (t + (8 - n) + i) mod 8" for i
    by (simp add: mod_add_left_eq)
  have "\<exists>m'. run (emit_x87_tag_set_valid_batch xbase wd_top wd_tmp wd_tmp2 wd_tagw (int n)) m = Some m' \<and>
      keeps {wd_tmp, wd_tmp2, wd_tagw} m m' \<and>
      (t, upd_status (xr m xbase) (\<lambda>w. set_top w t) (mem m')) = (push_mem (xr m xbase) ^^ n) ((t + n) mod 8, mem m)"
    using runs_run [OF runs_tag_set_valid_batch [OF assms(1-3,5)]]
    unfolding n pushes [of "k"] top [unfolded n] upd_apart fold_valid_cong [OF pushed_slots [of t "Suc k"]]
    by (auto simp del: upt_Suc)
  moreover have "\<exists>m'. run (emit_x87_tag_set_empty_batch xbase wd_top wd_tmp wd_tmp2 wd_tagw (int n)) m = Some m' \<and>
      keeps {wd_tmp, wd_tmp2, wd_tagw} m m' \<and>
      (t, upd_status (xr m xbase) (\<lambda>w. set_top w t) (mem m')) = (pop_mem (xr m xbase) ^^ n) ((t + (8 - n)) mod 8, mem m)"
    using runs_run [OF runs_tag_set_empty_batch [OF assms(1-3,5)]]
    unfolding n pops [OF low [unfolded n]] bottom [unfolded n]
    unfolding start [unfolded n]
    by (auto simp del: upt_Suc)
  ultimately show ?thesis ..
qed

text \<open>A register is read back as it was stored, whichever way the store and the load are addressed.\<close>

text \<open>C26: what is stored to ST(d) is what a load of ST(d) gives, whether either of them goes through a
  pinned slot base or computes the address, in both layouts; no other register changes.\<close>

theorem stored_register_is_loaded:
  assumes "slot_regs native xbase wd_top wd_tmp xst t m" "slot_regs native xbase wd_top wd_tmp xst2 t m"
    and "d < 8" "reg dd" "reg dn"
  shows "\<exists>m'. run (emit_store_st native xbase wd_top (int d) wd_tmp dd xst @
      fst (emit_load_st native xbase wd_top (int d) wd_tmp dn xst2)) m = Some m' \<and> dr m' = (dr m)(dn := dr m dd) \<and>
    (\<forall>e. e < 8 \<and> e \<noteq> d \<longrightarrow> slot_value native t (xr m xbase) m' e = slot_value native t (xr m xbase) m e)"
proof -
  let ?a = "slot_addr native (xr m xbase) ((t + d) mod 8)"
  have sv: "slot_value native t (xr m xbase) (m\<lparr>mem := store 8 ?a (dr m dd) (mem m)\<rparr>) =
      (slot_value native t (xr m xbase) m)(d := dr m dd)" by (rule slot_value_store [OF assms(3)])
  have "runs (emit_store_st native xbase wd_top (int d) wd_tmp dd xst @
      fst (emit_load_st native xbase wd_top (int d) wd_tmp dn xst2)) m (\<lambda>m'. dr m' = (dr m)(dn := dr m dd) \<and>
      slot_value native t (xr m xbase) m' = (slot_value native t (xr m xbase) m)(d := dr m dd))"
  proof (rule runs_append [OF runs_store_st [OF assms(1,3,4)]])
    fix m1
    assume "\<exists>v. m1 = (set_x wd_tmp v m)\<lparr>mem := store 8 ?a (dr m dd) (mem m)\<rparr>"
    then obtain v where m1: "m1 = (set_x wd_tmp v m)\<lparr>mem := store 8 ?a (dr m dd) (mem m)\<rparr>" by blast
    have r: "slot_regs native xbase wd_top wd_tmp xst2 t m1" "xr m1 xbase = xr m xbase"
      using assms(2) by (auto simp: m1 slot_regs_def st_base_def scratch_def)
    show "runs (fst (emit_load_st native xbase wd_top (int d) wd_tmp dn xst2)) m1 (\<lambda>m'. dr m' = (dr m)(dn := dr m dd) \<and>
        slot_value native t (xr m xbase) m' = (slot_value native t (xr m xbase) m)(d := dr m dd))"
    proof (rule runs_mono [OF runs_load_st [OF r(1) assms(3,5)]])
      fix m2
      assume "\<exists>v. m2 = (set_x wd_tmp v m1)\<lparr>dr := (dr m1)(dn := load 8 (slot_addr native (xr m1 xbase) ((t + d) mod 8)) (mem m1))\<rparr>"
      then obtain w where m2: "m2 = (set_x wd_tmp w m1)\<lparr>dr := (dr m1)(dn := load 8 ?a (mem m1))\<rparr>" unfolding r(2) by blast
      have "slot_value native t (xr m xbase) m2 =
          slot_value native t (xr m xbase) (m\<lparr>mem := store 8 ?a (dr m dd) (mem m)\<rparr>)"
        by (rule ext) (simp add: m2 m1 slot_value_def)
      then show "dr m2 = (dr m)(dn := dr m dd) \<and>
          slot_value native t (xr m xbase) m2 = (slot_value native t (xr m xbase) m)(d := dr m dd)"
        unfolding sv by (simp add: m2 m1 load_store_same take_bit_word_eq_self)
    qed
  qed
  then show ?thesis by (rule runs_run [THEN ex_forward]) auto
qed

text \<open>C27: for every permutation of the eight registers and both layouts, the code that materialises a deferred
  exchange leaves in each ST(d) what the permutation says, and changes nothing else in memory.\<close>

theorem perm_flush_permutes:
  assumes "perm8 p" "flush_ok native xbase wd_top wd_tmp xst t b [dd_save, dd_chain] m" "hd_save < 0"
  shows "\<exists>m'. run (emit_x87_perm_flush native xbase wd_top wd_tmp p xst dd_save dd_chain hd_save hd_chain) m = Some m' \<and>
    flush_frame native 8 wd_tmp b [dd_save, dd_chain] m m' \<and>
    (\<forall>d<8. slot_value native t b m' d = slot_value native t b m (p ! d))"
  using runs_run [OF f64_slots.runs_perm_flush [OF assms(1,2)]] assms(3)
  by (auto simp: emit_x87_perm_flush_def)

text \<open>In the native layout, with registers at hand for the upper halves, it moves the whole ten-byte
  images likewise.\<close>

theorem image_flush_permutes:
  assumes "perm8 p" "flush_ok True xbase wd_top wd_tmp xst t b [dd_save, hd_save, dd_chain, hd_chain] m" "0 \<le> hd_save"
  shows "\<exists>m'. run (emit_x87_perm_flush True xbase wd_top wd_tmp p xst dd_save dd_chain hd_save hd_chain) m = Some m' \<and>
    flush_frame True 10 wd_tmp b [dd_save, hd_save, dd_chain, hd_chain] m m' \<and>
    (\<forall>d<8. image_of t b m' d = image_of t b m (p ! d))"
  using runs_run [OF f80_slots.runs_perm_flush [OF assms(1,2)]] assms(3)
  by (auto simp: emit_x87_perm_flush_def)

section \<open>At concrete inputs\<close>

text \<open>TOP is 3 in register 1, the state is at address 0, and register 6 is a pinned slot base.\<close>

definition example_top :: mach where
  "example_top = (example_mach Less)\<lparr>xr := (\<lambda>r. 0)(1 := 3, 6 := 8)\<rparr>"

lemma example_top_regs: "xr example_top 1 = word_of_nat 3" "xr example_top 0 = 0" "mem example_top = (\<lambda>a. 0)"
  "scratch 0 [1, 2, 4]" "scratch 0 [1, 2, 4, 5]" "scratch 0 [1, 2]"
  by (simp_all add: example_top_def example_mach_def scratch_def gpr_def)

lemma example_slots: "slot_regs False 0 1 2 (-1) 3 example_top" "slot_regs False 0 1 2 6 3 example_top"
  "slot_regs True 0 1 2 (-1) 3 example_top"
  by (simp_all add: slot_regs_def example_top_regs st_base_def) (simp_all add: example_top_def gpr_def)

theorem push_and_pop_code_witness:
  "(\<exists>m'. run (emit_x87_push 0 1 2 4) example_top = Some m' \<and> xr m' 1 = 2) \<and>
   (\<exists>m'. run (emit_x87_pop 0 1 2 4) example_top = Some m' \<and> xr m' 1 = 4)"
  using push_and_pop_code [OF example_top_regs(4,1)] by (auto simp: push_mem_def pop_mem_def Let_def)

theorem pop_n_is_n_pops_witness:
  "\<exists>m'. run (emit_x87_pop_n 0 1 2 4 (int 2)) example_top = Some m' \<and> keeps {1, 2, 4} example_top m' \<and>
    (\<exists>t'. xr m' 1 = word_of_nat t' \<and> (t', mem m') = (pop_mem 0 ^^ 2) (3, \<lambda>a. 0))"
  using pop_n_is_n_pops [OF example_top_regs(4,1), of 2] unfolding example_top_regs(2,3) by simp

theorem batched_tags_are_single_ones_witness:
  "\<exists>m'. run (emit_x87_tag_set_valid_batch 0 1 2 4 5 (int 6)) example_top = Some m' \<and>
    (3, upd_status 0 (\<lambda>w. set_top w 3) (mem m')) = (push_mem 0 ^^ 6) (1, \<lambda>a. 0)"
proof -
  have "\<exists>m'. run (emit_x87_tag_set_valid_batch 0 1 2 4 5 (int 6)) example_top = Some m' \<and> keeps {2, 4, 5} example_top m' \<and>
    (3, upd_status (xr example_top 0) (\<lambda>w. set_top w 3) (mem m')) = (push_mem (xr example_top 0) ^^ 6) ((3 + 6) mod 8, mem example_top)"
    by (rule conjunct1 [OF batched_tags_are_single_ones [OF example_top_regs(5,1)]]) simp_all
  then show ?thesis unfolding example_top_regs(2,3) by (auto simp del: funpow.simps)
qed

theorem stored_register_is_loaded_witness:
  "\<exists>m'. run (emit_store_st False 0 1 (int 2) 2 24 (-1) @ fst (emit_load_st False 0 1 (int 2) 2 25 6)) example_top = Some m' \<and>
    dr m' 25 = dr example_top 24"
proof -
  have r: "reg 24" "reg 25" by (simp_all add: reg_def)
  show ?thesis using stored_register_is_loaded [OF example_slots(1,2) _ r, of 2] by auto
qed

theorem perm_flush_permutes_witness:
  "\<exists>m'. run (emit_x87_perm_flush False 0 1 2 [1, 0, 2, 3, 4, 5, 6, 7] 6 24 25 (-1) (-1)) example_top = Some m' \<and>
    slot_value False 3 0 m' 0 = slot_value False 3 0 example_top 1"
proof -
  have "perm8 [1, 0, 2, 3, 4, 5, 6, 7]" by (simp add: perm8_def)
  moreover have "flush_ok False 0 1 2 6 3 0 [24, 25] example_top"
    using example_slots(2) by (simp add: flush_ok_def example_top_regs reg_def)
  ultimately have "\<exists>m'. run (emit_x87_perm_flush False 0 1 2 [1, 0, 2, 3, 4, 5, 6, 7] 6 24 25 (-1) (-1)) example_top = Some m' \<and>
    flush_frame False 8 2 0 [24, 25] example_top m' \<and>
    (\<forall>d<8. slot_value False 3 0 m' d = slot_value False 3 0 example_top ([1, 0, 2, 3, 4, 5, 6, 7] ! d))"
    by (rule perm_flush_permutes) simp
  then show ?thesis by (force dest: spec [where x = 0])
qed

theorem image_flush_permutes_witness:
  "\<exists>m'. run (emit_x87_perm_flush True 0 1 2 [2, 0, 1, 3, 4, 5, 6, 7] (-1) 24 25 26 27) example_top = Some m' \<and>
    image_of 3 0 m' 1 = image_of 3 0 example_top 0"
proof -
  have "perm8 [2, 0, 1, 3, 4, 5, 6, 7]" by (simp add: perm8_def)
  moreover have "flush_ok True 0 1 2 (-1) 3 0 [24, 26, 25, 27] example_top"
    using example_slots(3) by (simp add: flush_ok_def example_top_regs reg_def)
  ultimately have "\<exists>m'. run (emit_x87_perm_flush True 0 1 2 [2, 0, 1, 3, 4, 5, 6, 7] (-1) 24 25 26 27) example_top = Some m' \<and>
    flush_frame True 10 2 0 [24, 26, 25, 27] example_top m' \<and>
    (\<forall>d<8. image_of 3 0 m' d = image_of 3 0 example_top ([2, 0, 1, 3, 4, 5, 6, 7] ! d))"
    by (rule image_flush_permutes) simp
  then show ?thesis by (force dest: spec [where x = 1])
qed

end
