(* ===== verification/X87_Defer.thy ===== *)
theory X87_Defer
  imports X87_Emit
begin

text \<open>
  The deferred stack state of \<^verbatim>\<open>TranslatorX87Internal.hpp\<close>: within a run, a push and a pop only move TOP in
  its register, and what they owe to the status word, the tag word and the register file is noted in the
  cache and paid at a flush point or at the end of the run.  Each operation returns the words it emits and
  the translation result it leaves; \<open>native\<close> is whether the slot tracker is on.
\<close>

section \<open>The cache of the translation result\<close>

definition upd_cache :: "(x87_cache \<Rightarrow> x87_cache) \<Rightarrow> estate \<Rightarrow> estate" where
  "upd_cache f st = st\<lparr>tcache := f (tcache st)\<rparr>"

text \<open>Emitting one piece of code after another.\<close>

definition then_emit :: "u32 list \<times> estate \<Rightarrow> (estate \<Rightarrow> u32 list \<times> estate) \<Rightarrow> u32 list \<times> estate" where
  "then_emit p f = (case p of (ws, st) \<Rightarrow> (case f st of (ws', st') \<Rightarrow> (ws @ ws', st')))"

section \<open>Preamble\<close>

definition x87_st_base_off :: "x87_cache \<Rightarrow> int" where
  "x87_st_base_off c = (if native_slots c then kX87NativeSlotOff else kX87RegFileOff)"

text \<open>Pinning the base of the slots.\<close>

definition pin_st_base :: "int \<Rightarrow> estate \<Rightarrow> u32 list \<times> estate" where
  "pin_st_base xbase st =
     (let (xst_base, st1) = alloc_gpr 6 st
      in (emit_add_imm 1 0 0 0 (x87_st_base_off (tcache st1)) xbase xst_base,
          upd_cache (\<lambda>c. c\<lparr>st_base_gpr := nat xst_base, st_base_valid := True\<rparr>) st1))"

text \<open>\<open>offset\<close> is the thread context's \<^verbatim>\<open>x87_state_offset\<close>; the result is the base and the TOP register.\<close>

definition x87_begin :: "int \<Rightarrow> estate \<Rightarrow> (int \<times> int) \<times> u32 list \<times> estate" where
  "x87_begin offset st =
     (let c = tcache st in
      if run_remaining c > 0 \<and> gprs_valid c then
        ((int (base_gpr c), int (top_gpr c)),
         (if \<not> st_base_valid c \<and> \<not> native_transport c then pin_st_base (int (base_gpr c)) st else ([], st)))
      else
        (let (xbase, st1) = alloc_gpr 0 st;
             (wd_top, st2) = alloc_gpr 1 st1;
             code = emit_x87_base offset xbase @
               (if \<not> (top_unused (tcache st2) \<and> run_remaining (tcache st2) > 0) then emit_load_top offset xbase wd_top else [])
         in ((xbase, wd_top),
             (if run_remaining (tcache st2) > 0 then
                then_emit (code, upd_cache (\<lambda>c. c\<lparr>base_gpr := nat xbase, top_gpr := nat wd_top, gprs_valid := True\<rparr>) st2)
                  (\<lambda>st3. if \<not> native_transport (tcache st3) then pin_st_base xbase st3 else ([], st3))
              else (code, st2)))))"

definition x87_begin_gpr_need :: "estate \<Rightarrow> nat" where
  "x87_begin_gpr_need st =
     (let c = tcache st in
      if run_remaining c > 0 \<and> gprs_valid c then (if \<not> st_base_valid c \<and> \<not> native_transport c then 1 else 0)
      else 2 + (if run_remaining c > 0 \<and> \<not> native_transport c then 1 else 0))"

definition x87_get_st_base :: "estate \<Rightarrow> int" where
  "x87_get_st_base st =
     (if gprs_valid (tcache st) \<and> st_base_valid (tcache st) then int (st_base_gpr (tcache st)) else -1)"

definition writable_addr_reg :: "int \<Rightarrow> estate \<Rightarrow> int \<times> estate" where
  "writable_addr_reg addr_reg st =
     (if 0 \<le> addr_reg \<and> addr_reg < 32 \<and> drop_bit (nat addr_reg) kGprScratchMask AND 1 \<noteq> 0 then (addr_reg, st)
      else alloc_free_gpr st)"

section \<open>Materialising the exchange\<close>

text \<open>What a flush of binary64 values tells the tracker: every slot that moves is written.\<close>

definition track_value_flush :: "x87_cache \<Rightarrow> x87_cache" where
  "track_value_flush c = fold (\<lambda>d c. if perm c ! d \<noteq> d then slot_note_write c d else c) [0..<8] c"

definition x87_emit_perm_flush :: "bool \<Rightarrow> int \<Rightarrow> int \<Rightarrow> int \<Rightarrow> estate \<Rightarrow> u32 list \<times> estate" where
  "x87_emit_perm_flush native xbase wd_top wd_tmp st =
     (let xst_base = x87_get_st_base st;
          images = native \<and> perm_moves_f80 (tcache st) (perm (tcache st));
          (dd_save, st1) = alloc_free_fpr st;
          (dd_chain, st2) = alloc_free_fpr st1;
          (hd_save, st3) = (if images then alloc_free_fpr st2 else (-1, st2));
          (hd_chain, st4) = (if images then alloc_free_fpr st3 else (-1, st3));
          code = emit_x87_perm_flush native xbase wd_top wd_tmp (perm (tcache st4)) xst_base dd_save dd_chain hd_save hd_chain;
          st5 = upd_cache (if images then track_image_flush else if native then track_value_flush else id) st4;
          st6 = (if images then free_fpr hd_save (free_fpr hd_chain st5) else st5)
      in (code, upd_cache reset_perm (free_fpr dd_save (free_fpr dd_chain st6))))"

definition perm_flush_before_stack_change :: "bool \<Rightarrow> int \<Rightarrow> int \<Rightarrow> int \<Rightarrow> estate \<Rightarrow> u32 list \<times> estate" where
  "perm_flush_before_stack_change native xbase wd_top wd_tmp st =
     (if perm_dirty (tcache st) then x87_emit_perm_flush native xbase wd_top wd_tmp st else ([], st))"

section \<open>Flush points\<close>

definition x87_flush_top :: "int \<Rightarrow> int \<Rightarrow> int \<Rightarrow> estate \<Rightarrow> u32 list \<times> estate" where
  "x87_flush_top xbase wd_top wd_tmp st =
     (if top_dirty (tcache st)
      then (emit_store_top xbase wd_top wd_tmp, upd_cache (\<lambda>c. c\<lparr>top_dirty := False\<rparr>) st) else ([], st))"

definition x87_flush_deferred_pops :: "int \<Rightarrow> int \<Rightarrow> int \<Rightarrow> estate \<Rightarrow> u32 list \<times> estate" where
  "x87_flush_deferred_pops xbase wd_top wd_tmp st =
     (if deferred_pop_count (tcache st) > 0 then
        (let (wd_tmp2, st1) = alloc_free_gpr st; (wd_tagw, st2) = alloc_free_gpr st1
         in (emit_x87_tag_set_empty_batch xbase wd_top wd_tmp wd_tmp2 wd_tagw (deferred_pop_count (tcache st2)),
             upd_cache (\<lambda>c. c\<lparr>deferred_pop_count := 0\<rparr>) (free_gpr wd_tmp2 (free_gpr wd_tagw st2))))
      else ([], st))"

text \<open>The deferred tag of a push.\<close>

definition flush_pending_tag :: "int \<Rightarrow> int \<Rightarrow> int \<Rightarrow> int \<Rightarrow> estate \<Rightarrow> u32 list \<times> estate" where
  "flush_pending_tag xbase wd_top wd_tmp wd_tmp2 st =
     (if tag_push_pending (tcache st)
      then (emit_x87_tag_clear xbase wd_top wd_tmp wd_tmp2, upd_cache (\<lambda>c. c\<lparr>tag_push_pending := False\<rparr>) st) else ([], st))"

definition x87_flush_tags :: "int \<Rightarrow> int \<Rightarrow> int \<Rightarrow> int \<Rightarrow> estate \<Rightarrow> u32 list \<times> estate" where
  "x87_flush_tags xbase wd_top wd_tmp wd_tmp2 st =
     then_emit (x87_flush_deferred_pops xbase wd_top wd_tmp st) (flush_pending_tag xbase wd_top wd_tmp wd_tmp2)"

section \<open>Pushes and pops\<close>

definition note_push :: "bool \<Rightarrow> nat \<Rightarrow> estate \<Rightarrow> estate" where
  "note_push native n = upd_cache (if native then slot_note_push n else id)"

definition note_pop :: "bool \<Rightarrow> nat \<Rightarrow> estate \<Rightarrow> estate" where
  "note_pop native n = upd_cache (if native then slot_note_pop n else id)"

definition x87_push :: "bool \<Rightarrow> int \<Rightarrow> int \<Rightarrow> int \<Rightarrow> int \<Rightarrow> estate \<Rightarrow> u32 list \<times> estate" where
  "x87_push native xbase wd_top wd_tmp wd_tmp2 st =
     (let (ws, st1) =
        (if run_remaining (tcache st) > 0 then
           then_emit (then_emit (then_emit (then_emit
             (flush_pending_tag xbase wd_top wd_tmp wd_tmp2 st)
             (x87_flush_deferred_pops xbase wd_top wd_tmp))
             (x87_flush_top xbase wd_top wd_tmp))
             (perm_flush_before_stack_change native xbase wd_top wd_tmp))
             (\<lambda>st. (emit_x87_push_fully_deferred wd_top, upd_cache (\<lambda>c. c\<lparr>top_dirty := True, tag_push_pending := True\<rparr>) st))
         else (emit_x87_push xbase wd_top wd_tmp wd_tmp2, st))
      in (ws, note_push native 1 st1))"

definition to_i8 :: "int \<Rightarrow> int" where
  "to_i8 n = signed_take_bit 7 n"

definition x87_pop :: "bool \<Rightarrow> int \<Rightarrow> int \<Rightarrow> int \<Rightarrow> estate \<Rightarrow> u32 list \<times> estate" where
  "x87_pop native xbase wd_top wd_tmp st =
     (let (ws, st1) =
        (if run_remaining (tcache st) > 0 then
           then_emit (perm_flush_before_stack_change native xbase wd_top wd_tmp st)
             (\<lambda>st. if tag_push_pending (tcache st) \<and> top_dirty (tcache st) then
                (emit_x87_pop_top_only wd_top, upd_cache (\<lambda>c. c\<lparr>tag_push_pending := False, top_dirty := False\<rparr>) st)
              else if tag_push_pending (tcache st) then
                (emit_x87_pop_top_only wd_top @ emit_store_top xbase wd_top wd_tmp,
                 upd_cache (\<lambda>c. c\<lparr>tag_push_pending := False, top_dirty := False\<rparr>) st)
              else
                (emit_x87_pop_top_only wd_top,
                 upd_cache (\<lambda>c. c\<lparr>deferred_pop_count := to_i8 (deferred_pop_count c + 1), top_dirty := True\<rparr>) st))
         else
           (let (wd_tmp2, st2) = alloc_free_gpr st
            in (emit_x87_pop xbase wd_top wd_tmp wd_tmp2,
                upd_cache (\<lambda>c. c\<lparr>top_dirty := False\<rparr>) (free_gpr wd_tmp2 st2))))
      in (ws, note_pop native 1 st1))"

definition x87_pop_n :: "bool \<Rightarrow> int \<Rightarrow> int \<Rightarrow> int \<Rightarrow> nat \<Rightarrow> estate \<Rightarrow> u32 list \<times> estate" where
  "x87_pop_n native xbase wd_top wd_tmp n st =
     (case x87_flush_deferred_pops xbase wd_top wd_tmp st of (ws, st1) \<Rightarrow>
       let (wd_tmp2, st2) = alloc_free_gpr st1;
           (ws', st3) = then_emit (x87_flush_tags xbase wd_top wd_tmp wd_tmp2 st2)
             (\<lambda>st. if run_remaining (tcache st) > 0 then
                then_emit (perm_flush_before_stack_change native xbase wd_top wd_tmp st)
                  (\<lambda>st. (emit_x87_pop_n_deferred xbase wd_top wd_tmp wd_tmp2 (int n),
                         upd_cache (\<lambda>c. c\<lparr>top_dirty := True\<rparr>) st))
              else (emit_x87_pop_n xbase wd_top wd_tmp wd_tmp2 (int n), upd_cache (\<lambda>c. c\<lparr>top_dirty := False\<rparr>) st))
       in (ws @ ws', note_pop native n (free_gpr wd_tmp2 st3)))"

section \<open>Epilogue\<close>

text \<open>The flushes of a run's end, for \<open>consumed\<close> instructions.\<close>

definition end_flush :: "bool \<Rightarrow> int \<Rightarrow> int \<Rightarrow> int \<Rightarrow> int \<Rightarrow> estate \<Rightarrow> u32 list \<times> estate" where
  "end_flush native xbase wd_top wd_tmp consumed st =
     (if run_remaining (tcache st) \<le> consumed then
        then_emit (then_emit (then_emit
          (perm_flush_before_stack_change native xbase wd_top wd_tmp st)
          (x87_flush_deferred_pops xbase wd_top wd_tmp))
          (\<lambda>st. if tag_push_pending (tcache st) then
             (let (wd_tmp2, st1) = alloc_free_gpr st; (ws, st2) = flush_pending_tag xbase wd_top wd_tmp wd_tmp2 st1
              in (ws, free_gpr wd_tmp2 st2)) else ([], st)))
          (x87_flush_top xbase wd_top wd_tmp)
      else ([], st))"

definition x87_end :: "bool \<Rightarrow> int \<Rightarrow> int \<Rightarrow> int \<Rightarrow> int \<Rightarrow> estate \<Rightarrow> u32 list \<times> estate" where
  "x87_end native xbase wd_top wd_tmp consumed st =
     then_emit (end_flush native xbase wd_top wd_tmp consumed st)
       (\<lambda>st. ([], if run_remaining (tcache st) > 0 then st else free_gpr xbase (free_gpr wd_top st)))"

end
