(* ===== verification/X87_Deferred_Mem.thy ===== *)
theory X87_Deferred_Mem
  imports X87_Defer X87_Emit_Props
begin

text \<open>
  What the cache's deferred state owes to memory.  \<open>owed b c t h\<close> is the memory the x87 would show when the
  cache is \<open>c\<close>, TOP is \<open>t\<close> and memory holds \<open>h\<close>: the tags of the deferred pops emptied, the tag of the
  deferred push made valid, and TOP stored.  Paying a debt at a flush point leaves it unchanged.
\<close>

section \<open>Readers of the state\<close>

definition mem_top :: "u64 \<Rightarrow> (u64 \<Rightarrow> u8) \<Rightarrow> u64" where
  "mem_top b h = take_bit 3 (drop_bit 11 (load 2 (b + 2) h))"

definition slot_empty :: "u64 \<Rightarrow> nat \<Rightarrow> (u64 \<Rightarrow> u8) \<Rightarrow> bool" where
  "slot_empty b t h \<longleftrightarrow> take_bit 2 (drop_bit (2 * t) (load 2 (b + 4) h)) = 3"

lemma slot_empty_bits:
  assumes "t < 8"
  shows "slot_empty b t h \<longleftrightarrow> (\<forall>i < 16. i div 2 = t \<longrightarrow> bit (load 2 (b + 4) h) i)"
proof -
  have "(3 :: u64) = mask 2" by (simp add: mask_eq_exp_minus_1)
  then have "slot_empty b t h \<longleftrightarrow> (\<forall>j < 64. bit (take_bit 2 (drop_bit (2 * t) (load 2 (b + 4) h))) j = bit (mask 2 :: u64) j)"
    unfolding slot_empty_def by (simp add: bit_eq_iff)
  also have "\<dots> \<longleftrightarrow> (\<forall>j < 64. j < 2 \<longrightarrow> bit (load 2 (b + 4) h) (2 * t + j))"
    by (auto simp: bit_take_bit_iff bit_drop_bit_eq bit_mask_iff)
  also have "\<dots> \<longleftrightarrow> (\<forall>j < 2. bit (load 2 (b + 4) h) (2 * t + j))"
  proof -
    have "j < 64 \<and> j < 2 \<longleftrightarrow> j < 2" for j :: nat by linarith
    then show ?thesis by blast
  qed
  also have "\<dots> \<longleftrightarrow> (\<forall>i < 16. i div 2 = t \<longrightarrow> bit (load 2 (b + 4) h) i)"
  proof (intro iffI allI impI)
    fix i assume a: "\<forall>j < 2. bit (load 2 (b + 4) h) (2 * t + j)" "i < 16" "i div 2 = t"
    have "i = 2 * t + i mod 2" "i mod 2 < 2" using a(3) by auto
    then show "bit (load 2 (b + 4) h) i" using a(1) by metis
  next
    fix j :: nat assume a: "\<forall>i < 16. i div 2 = t \<longrightarrow> bit (load 2 (b + 4) h) i" "j < 2"
    have "2 * t + j < 16" "(2 * t + j) div 2 = t" using a(2) assms by auto
    then show "bit (load 2 (b + 4) h) (2 * t + j)" using a(1) by blast
  qed
  finally show ?thesis .
qed

lemma load2_bound: "take_bit 16 (load 2 a h) = load 2 a h"
  by (rule bit_word_eqI) (auto simp: bit_simps load_bit)

lemma bit_load2: "bit (load 2 a h) i \<Longrightarrow> i < 16"
  using load2_bound [of a h] by (metis bit_take_bit_iff)

section \<open>Updates that change nothing\<close>

lemma store2_load2: "store 2 a (load 2 a h) h = h"
  using upd_id [of id "a - 4" h] by (simp add: upd_tags_def load2_bound)

lemma upd_status_id:
  assumes "take_bit 16 (f (load 2 (b + 2) h)) = load 2 (b + 2) h"
  shows "upd_status b f h = h"
proof -
  have "upd_status b f h = store 2 (b + 2) (load 2 (b + 2) h) h"
    unfolding upd_status_def using assms by (intro store2_cong) (simp add: load2_bound)
  then show ?thesis by (simp add: store2_load2)
qed

lemma top_stored:
  assumes "mem_top b h = word_of_nat t" "t < 8"
  shows "upd_status b (\<lambda>w. set_top w t) h = h"
proof (rule upd_status_id, rule bit_word_eqI)
  fix i assume "i < LENGTH(64)"
  have "bit (take_bit 3 (drop_bit 11 (load 2 (b + 2) h))) (i - 11) = bit (word_of_nat t :: u64) (i - 11)"
    using assms(1) by (simp add: mem_top_def)
  then show "bit (take_bit 16 (set_top (load 2 (b + 2) h) t)) i = bit (load 2 (b + 2) h) i"
    using \<open>i < LENGTH(64)\<close> by (auto simp: set_top_def bit_simps dest: bit_load2)
qed

lemma emptied_already: "t < 8 \<Longrightarrow> slot_empty b t h \<Longrightarrow> upd_tags b (tag_empty t) h = h"
proof (rule upd_id, rule bit_word_eqI)
  fix i assume a: "t < 8" "slot_empty b t h" "i < LENGTH(64)"
  then show "bit (take_bit 16 (tag_empty t (load 2 (b + 4) h))) i = bit (load 2 (b + 4) h) i"
    by (auto simp: bit_take_bit_iff tag_bit slot_empty_bits dest: bit_load2)
qed

lemma upd_tags_nothing: "upd_tags b (\<lambda>w. w) h = h"
  by (rule upd_id) (simp add: load2_bound)

section \<open>Readers after updates\<close>

lemma load_other:
  "load 2 (b + 2) (store 2 (b + 4) v h) = load 2 (b + 2) h"
  "load 2 (b + 4) (store 2 (b + 2) v h) = load 2 (b + 4) h"
proof -
  have "apart (b + 2) 2 (b + 4) 2" "apart (b + 4) 2 (b + 2) 2" by (simp_all add: apart_def)
  then show "load 2 (b + 2) (store 2 (b + 4) v h) = load 2 (b + 2) h"
    "load 2 (b + 4) (store 2 (b + 2) v h) = load 2 (b + 4) h"
    by (simp_all add: load_store_apart)
qed

lemma mem_top_upd:
  "mem_top b (upd_tags b f h) = mem_top b h"
  "t < 8 \<Longrightarrow> mem_top b (upd_status b (\<lambda>w. set_top w t) h) = word_of_nat t"
proof -
  show "mem_top b (upd_tags b f h) = mem_top b h" by (simp add: mem_top_def upd_tags_def load_other)
  assume t: "t < 8"
  have "take_bit 3 (word_of_nat t :: u64) = word_of_nat t"
    using below_eight [OF t] by auto
  moreover have "take_bit 3 (drop_bit 11 (take_bit 16 (set_top w t))) = take_bit 3 (word_of_nat t)" for w
    by (rule bit_word_eqI) (auto simp: set_top_def bit_simps)
  ultimately show "mem_top b (upd_status b (\<lambda>w. set_top w t) h) = word_of_nat t"
    by (simp add: mem_top_def upd_status_def load2_store2)
qed

lemma slot_empty_upd:
  "slot_empty b s (upd_status b f h) \<longleftrightarrow> slot_empty b s h"
  "s < 8 \<Longrightarrow> slot_empty b s (upd_tags b (fold (\<lambda>k. tag_empty (g k)) ks) h) \<longleftrightarrow> slot_empty b s h \<or> (\<exists>k\<in>set ks. g k = s)"
proof -
  show "slot_empty b s (upd_status b f h) \<longleftrightarrow> slot_empty b s h"
    by (simp add: slot_empty_def upd_status_def load_other)
  assume s: "s < 8"
  have "slot_empty b s (upd_tags b (fold (\<lambda>k. tag_empty (g k)) ks) h) \<longleftrightarrow>
      (\<forall>i < 16. i div 2 = s \<longrightarrow> bit (load 2 (b + 4) h) i \<or> (\<exists>k\<in>set ks. i div 2 = g k))"
    unfolding slot_empty_bits [OF s] by (simp add: upd_tags_def load2_store2 bit_take_bit_iff fold_tag_bit)
  also have "\<dots> \<longleftrightarrow> slot_empty b s h \<or> (\<exists>k\<in>set ks. g k = s)"
    unfolding slot_empty_bits [OF s] by (cases "\<exists>k\<in>set ks. g k = s"; fastforce)
  finally show "slot_empty b s (upd_tags b (fold (\<lambda>k. tag_empty (g k)) ks) h) \<longleftrightarrow> slot_empty b s h \<or> (\<exists>k\<in>set ks. g k = s)" .
qed

section \<open>What is owed\<close>

definition popped_tags :: "nat \<Rightarrow> nat \<Rightarrow> u64 \<Rightarrow> u64" where
  "popped_tags n t = fold (\<lambda>i. tag_empty ((t + (8 - n) + i) mod 8)) [0..<n]"

definition owed :: "u64 \<Rightarrow> x87_cache \<Rightarrow> nat \<Rightarrow> (u64 \<Rightarrow> u8) \<Rightarrow> (u64 \<Rightarrow> u8)" where
  "owed b c t h =
     (let h1 = upd_tags b (popped_tags (nat (deferred_pop_count c)) t) h;
          h2 = (if tag_push_pending c then upd_tags b (tag_valid t) h1 else h1)
      in if top_dirty c then upd_status b (\<lambda>w. set_top w t) h2 else h2)"

text \<open>The debts that the operations of a run can leave.\<close>

definition debts_ok :: "u64 \<Rightarrow> x87_cache \<Rightarrow> nat \<Rightarrow> (u64 \<Rightarrow> u8) \<Rightarrow> bool" where
  "debts_ok b c t h \<longleftrightarrow> t < 8 \<and> 0 \<le> deferred_pop_count c \<and> deferred_pop_count c \<le> 8 \<and>
     (tag_push_pending c \<longrightarrow> deferred_pop_count c = 0 \<and> slot_empty b t h) \<and>
     mem_top b h = (if top_dirty c then mem_top b h else word_of_nat t) \<and>
     (tag_push_pending c \<and> top_dirty c \<longrightarrow> mem_top b h = word_of_nat ((t + 1) mod 8))"

lemma popped_tags_0: "popped_tags 0 t = (\<lambda>w. w)"
  by (simp add: popped_tags_def fun_eq_iff)

lemma popped_tags_Suc:
  assumes "n < 8" "t < 8"
  shows "popped_tags (Suc n) ((t + 1) mod 8) = tag_empty t \<circ> popped_tags n t"
proof -
  have e: "((t + 1) mod 8 + (8 - Suc n) + i) mod 8 = (t + (8 - n) + i) mod 8" for i
  proof -
    have "(t + 1) + (8 - Suc n) + i = t + (8 - n) + i" using assms(1) by simp
    then show ?thesis by (metis mod_add_left_eq)
  qed
  have "t + (8 - n) + n = t + 8" using assms(1) by simp
  then have "(t + (8 - n) + n) mod 8 = t" using assms(2) by simp
  then show ?thesis unfolding popped_tags_def e by (simp add: comp_def fun_eq_iff)
qed

lemma popped_tags_take_bit: "take_bit 16 (popped_tags n t (take_bit 16 w)) = take_bit 16 (popped_tags n t w)"
  by (rule bit_word_eqI) (auto simp: popped_tags_def bit_take_bit_iff fold_tag_bit)

text \<open>Paying.\<close>

lemma pay_top:
  assumes "debts_ok b c t h" "top_dirty c"
  shows "debts_ok b (c\<lparr>top_dirty := False\<rparr>) t (upd_status b (\<lambda>w. set_top w t) h)"
    "owed b (c\<lparr>top_dirty := False\<rparr>) t (upd_status b (\<lambda>w. set_top w t) h) = owed b c t h"
  using assms by (auto simp: debts_ok_def mem_top_upd slot_empty_upd owed_def Let_def upd_apart)

lemma pay_pops:
  assumes "debts_ok b c t h" "deferred_pop_count c > 0"
  shows "debts_ok b (c\<lparr>deferred_pop_count := 0\<rparr>) t (upd_tags b (popped_tags (nat (deferred_pop_count c)) t) h)"
    "owed b (c\<lparr>deferred_pop_count := 0\<rparr>) t (upd_tags b (popped_tags (nat (deferred_pop_count c)) t) h) = owed b c t h"
  using assms by (auto simp: debts_ok_def mem_top_upd owed_def Let_def popped_tags_0 upd_tags_nothing)

lemma pay_push:
  assumes "debts_ok b c t h" "tag_push_pending c"
  shows "debts_ok b (c\<lparr>tag_push_pending := False\<rparr>) t (upd_tags b (tag_valid t) h)"
    "owed b (c\<lparr>tag_push_pending := False\<rparr>) t (upd_tags b (tag_valid t) h) = owed b c t h"
  using assms by (auto simp: debts_ok_def mem_top_upd owed_def Let_def popped_tags_0 upd_tags_nothing)

lemma nothing_owed:
  "deferred_pop_count c = 0 \<Longrightarrow> \<not> tag_push_pending c \<Longrightarrow> \<not> top_dirty c \<Longrightarrow> owed b c t h = h"
  by (simp add: owed_def popped_tags_0 upd_tags_nothing)

section \<open>Pushes and pops\<close>

lemma defer_push:
  assumes "debts_ok b c t h" "deferred_pop_count c = 0" "\<not> tag_push_pending c" "\<not> top_dirty c"
    "slot_empty b ((t + 7) mod 8) h"
  defines "c' \<equiv> c\<lparr>top_dirty := True, tag_push_pending := True\<rparr>"
  shows "debts_ok b c' ((t + 7) mod 8) h" "((t + 7) mod 8, owed b c' ((t + 7) mod 8) h) = push_mem b (t, h)"
proof -
  have "((t + 7) mod 8 + 1) mod 8 = (t + 7 + 1) mod 8" by (rule mod_add_left_eq)
  also have "\<dots> = t" using assms(1) by (simp add: debts_ok_def)
  finally show "debts_ok b c' ((t + 7) mod 8) h" using assms(1-5) by (simp add: debts_ok_def c'_def)
  show "((t + 7) mod 8, owed b c' ((t + 7) mod 8) h) = push_mem b (t, h)"
    using assms(2) by (simp add: owed_def c'_def push_mem_def Let_def popped_tags_0 upd_tags_nothing upd_apart)
qed

lemma tag_empty_valid: "tag_empty t (tag_valid t w) = tag_empty t w"
  by (rule bit_word_eqI) (auto simp: tag_bit)

lemma empty_after_valid: "upd_tags b (tag_empty t) (upd_tags b (tag_valid t) h) = upd_tags b (tag_empty t) h"
  by (subst upd_tags_upd_tags) (simp_all add: tag_take_bit comp_def tag_empty_valid)

text \<open>A pop that cancels a push whose TOP is still owed, and one whose TOP was stored.\<close>

lemma cancel_push:
  assumes "debts_ok b c t h" "tag_push_pending c" "top_dirty c"
  defines "c' \<equiv> c\<lparr>tag_push_pending := False, top_dirty := False\<rparr>"
  shows "debts_ok b c' ((t + 1) mod 8) h" "((t + 1) mod 8, owed b c' ((t + 1) mod 8) h) = pop_mem b (t, owed b c t h)"
proof -
  show "debts_ok b c' ((t + 1) mod 8) h" using assms(1-3) by (simp add: debts_ok_def c'_def)
  have "upd_status b (\<lambda>w. set_top w ((t + 1) mod 8)) h = h" using assms(1-3) by (intro top_stored) (simp_all add: debts_ok_def)
  moreover have "upd_tags b (tag_empty t) h = h" using assms(1,2) by (intro emptied_already) (simp_all add: debts_ok_def)
  ultimately show "((t + 1) mod 8, owed b c' ((t + 1) mod 8) h) = pop_mem b (t, owed b c t h)"
    using assms(1-3)
    by (simp add: owed_def c'_def pop_mem_def Let_def popped_tags_0 upd_tags_nothing debts_ok_def upd_apart
        empty_after_valid upd_status_top)
qed

lemma cancel_stored_push:
  assumes "debts_ok b c t h" "tag_push_pending c" "\<not> top_dirty c"
  defines "c' \<equiv> c\<lparr>tag_push_pending := False, top_dirty := False\<rparr>"
  defines "h' \<equiv> upd_status b (\<lambda>w. set_top w ((t + 1) mod 8)) h"
  shows "debts_ok b c' ((t + 1) mod 8) h'" "((t + 1) mod 8, owed b c' ((t + 1) mod 8) h') = pop_mem b (t, owed b c t h)"
proof -
  show "debts_ok b c' ((t + 1) mod 8) h'" using assms(1-3) by (simp add: debts_ok_def c'_def h'_def mem_top_upd)
  have "upd_tags b (tag_empty t) h = h" using assms(1,2) by (intro emptied_already) (simp_all add: debts_ok_def)
  then show "((t + 1) mod 8, owed b c' ((t + 1) mod 8) h') = pop_mem b (t, owed b c t h)"
    using assms(1-3)
    by (simp add: owed_def c'_def h'_def pop_mem_def Let_def popped_tags_0 upd_tags_nothing debts_ok_def empty_after_valid)
qed

lemma to_i8_small: "0 \<le> n \<Longrightarrow> n \<le> 8 \<Longrightarrow> to_i8 n = n"
  by (simp add: to_i8_def signed_take_bit_int_eq_self)

lemma defer_pop:
  assumes "debts_ok b c t h" "\<not> tag_push_pending c" "\<not> slot_empty b t (owed b c t h)"
  defines "c' \<equiv> c\<lparr>deferred_pop_count := to_i8 (deferred_pop_count c + 1), top_dirty := True\<rparr>"
  shows "debts_ok b c' ((t + 1) mod 8) h" "((t + 1) mod 8, owed b c' ((t + 1) mod 8) h) = pop_mem b (t, owed b c t h)"
proof -
  obtain n where n: "deferred_pop_count c = int n" "n \<le> 8" using assms(1) by (metis debts_ok_def nat_0_le nat_le_iff of_nat_numeral nat_numeral)
  have t: "t < 8" using assms(1) by (simp add: debts_ok_def)
  have "n \<noteq> 8"
  proof
    assume "n = 8"
    then have "slot_empty b t (upd_tags b (popped_tags n t) h)"
      using t by (auto simp: popped_tags_def slot_empty_upd intro!: bexI [where x = 0])
    then show False using assms(2,3) n by (simp add: owed_def Let_def slot_empty_upd split: if_splits)
  qed
  then have l: "n < 8" "nat (to_i8 (int n + 1)) = Suc n" "to_i8 (int n + 1) = int (Suc n)" using n(2) by (simp_all add: to_i8_small)
  show "debts_ok b c' ((t + 1) mod 8) h" using assms(1,2) l by (simp add: debts_ok_def c'_def n)
  have "upd_tags b (popped_tags (Suc n) ((t + 1) mod 8)) h = upd_tags b (tag_empty t) (upd_tags b (popped_tags n t) h)"
    unfolding popped_tags_Suc [OF l(1) t] by (subst upd_tags_upd_tags) (simp_all add: tag_take_bit)
  then show "((t + 1) mod 8, owed b c' ((t + 1) mod 8) h) = pop_mem b (t, owed b c t h)"
    using assms(2) l by (simp add: owed_def c'_def n pop_mem_def Let_def upd_apart upd_status_top)
qed

end
