(* ===== verification/X87_Defer_Props.thy ===== *)
theory X87_Defer_Props
  imports X87_Deferred_Mem
begin

text \<open>
  The deferred stack state refines the stack in memory: within a run, any legal sequence of pushes, pops and
  flush points, once the run's end has paid what is owed, leaves TOP and memory as the pushes and pops of
  the x87 do.
\<close>

section \<open>Code that carries the stack\<close>

text \<open>The machine holds TOP in its register and what the cache does not owe in memory; \<open>e\<close> is the x87's
  view, TOP and memory.\<close>

definition carries :: "int \<Rightarrow> int \<Rightarrow> x87_cache \<Rightarrow> nat \<times> (u64 \<Rightarrow> u8) \<Rightarrow> mach \<Rightarrow> bool" where
  "carries xbase wd_top c e m \<longleftrightarrow> xr m wd_top = word_of_nat (fst e) \<and>
     debts_ok (xr m xbase) c (fst e) (mem m) \<and> snd e = owed (xr m xbase) c (fst e) (mem m)"

text \<open>Some memory with the debts of \<open>c\<close> shows \<open>e\<close>.\<close>

definition viewed :: "u64 \<Rightarrow> x87_cache \<Rightarrow> nat \<times> (u64 \<Rightarrow> u8) \<Rightarrow> bool" where
  "viewed b c e \<longleftrightarrow> (\<exists>h. debts_ok b c (fst e) h \<and> snd e = owed b c (fst e) h)"

lemma viewedD: "viewed b c e \<Longrightarrow> fst e < 8 \<and> 0 \<le> deferred_pop_count c"
  by (auto simp: viewed_def debts_ok_def)

text \<open>From a cache \<open>c\<close> and a view \<open>e\<close>, the emitter \<open>f\<close> leaves \<open>c'\<close> and \<open>e'\<close>, and changes only registers of
  \<open>rs\<close> and of the pool.\<close>

definition emits :: "int \<Rightarrow> int \<Rightarrow> int list \<Rightarrow> u64 \<Rightarrow> x87_cache \<Rightarrow> nat \<times> (u64 \<Rightarrow> u8) \<Rightarrow> (estate \<Rightarrow> u32 list \<times> estate) \<Rightarrow>
    x87_cache \<Rightarrow> nat \<times> (u64 \<Rightarrow> u8) \<Rightarrow> bool" where
  "emits xbase wd_top rs b c e f c' e' \<longleftrightarrow>
     (viewed b c e \<longrightarrow> viewed b c' e' \<and> (\<forall>st ws st'. tcache st = c \<and> f st = (ws, st') \<longrightarrow>
        tcache st' = c' \<and> (alloc_failure st' = None \<longrightarrow> alloc_failure st = None) \<and>
        (\<forall>m. held st (xbase # wd_top # rs) \<and> xr m xbase = b \<and> carries xbase wd_top c e m \<and> alloc_failure st' = None \<longrightarrow>
          pool st' \<and> (\<forall>r. is_free st' r \<longrightarrow> is_free st r) \<and>
          runs ws m (\<lambda>m'. carries xbase wd_top c' e' m' \<and> keeps (set (wd_top # rs) \<union> {r. is_free st r}) m m'))))"

lemma emitsI:
  assumes "viewed b c e \<Longrightarrow> viewed b c' e'"
    and "\<And>st ws st'. viewed b c e \<Longrightarrow> tcache st = c \<Longrightarrow> f st = (ws, st') \<Longrightarrow> tcache st' = c' \<and> (alloc_failure st' = None \<longrightarrow> alloc_failure st = None)"
    and "\<And>st ws st' m. viewed b c e \<Longrightarrow> tcache st = c \<Longrightarrow> f st = (ws, st') \<Longrightarrow> held st (xbase # wd_top # rs) \<Longrightarrow> xr m xbase = b \<Longrightarrow>
      carries xbase wd_top c e m \<Longrightarrow> alloc_failure st' = None \<Longrightarrow>
      pool st' \<and> (\<forall>r. is_free st' r \<longrightarrow> is_free st r) \<and>
      runs ws m (\<lambda>m'. carries xbase wd_top c' e' m' \<and> keeps (set (wd_top # rs) \<union> {r. is_free st r}) m m')"
  shows "emits xbase wd_top rs b c e f c' e'"
  unfolding emits_def by (intro impI conjI allI; (elim conjE)?) (use assms in \<open>blast+\<close>)

lemma emitsD:
  assumes "emits xbase wd_top rs b c e f c' e'" "viewed b c e" "tcache st = c" "f st = (ws, st')"
  shows "tcache st' = c'" "alloc_failure st' = None \<Longrightarrow> alloc_failure st = None"
    "\<lbrakk>held st (xbase # wd_top # rs); xr m xbase = b; carries xbase wd_top c e m; alloc_failure st' = None\<rbrakk> \<Longrightarrow>
      pool st' \<and> (\<forall>r. is_free st' r \<longrightarrow> is_free st r) \<and>
      runs ws m (\<lambda>m'. carries xbase wd_top c' e' m' \<and> keeps (set (wd_top # rs) \<union> {r. is_free st r}) m m')"
  using assms unfolding emits_def by blast+

lemma emits_viewed: "emits xbase wd_top rs b c e f c' e' \<Longrightarrow> viewed b c e \<Longrightarrow> viewed b c' e'"
  by (simp add: emits_def)

lemma emits_if_viewed: "(viewed b c e \<Longrightarrow> emits xbase wd_top rs b c e f c' e') \<Longrightarrow> emits xbase wd_top rs b c e f c' e'"
  unfolding emits_def by blast

lemma emits_cong:
  assumes "\<And>st. tcache st = c \<Longrightarrow> g st = f st" "emits xbase wd_top rs b c e f c' e'"
  shows "emits xbase wd_top rs b c e g c' e'"
proof -
  have "tcache st = c \<and> g st = p \<longleftrightarrow> tcache st = c \<and> f st = p" for st p using assms(1) by auto
  then show ?thesis using assms(2) unfolding emits_def by (simp only:)
qed

lemma held_stays:
  assumes "held st rs" "pool st'" "\<forall>r. is_free st' r \<longrightarrow> is_free st r"
  shows "held st' rs"
  using assms by (auto simp: held_def list_all_iff)

lemma base_kept:
  assumes "held st (xbase # wd_top # rs)" "keeps (set (wd_top # rs) \<union> {r. is_free st r}) m m'"
  shows "xr m' xbase = xr m xbase"
  using assms by (intro keeps_xr [OF assms(2)]) (auto simp: held_def)

lemma emits_then:
  assumes "emits xbase wd_top rs b c e f c1 e1" "emits xbase wd_top rs b c1 e1 g c2 e2"
  shows "emits xbase wd_top rs b c e (\<lambda>st. then_emit (f st) g) c2 e2"
proof (rule emitsI)
  fix st ws st' assume v: "viewed b c e" and s: "tcache st = c" "then_emit (f st) g = (ws, st')"
  obtain ws1 st1 where f: "f st = (ws1, st1)" by fastforce
  obtain ws2 st2 where g: "g st1 = (ws2, st2)" by fastforce
  have code: "ws = ws1 @ ws2" "st' = st2" using s(2) by (simp_all add: then_emit_def f g)
  note F = emitsD [OF assms(1) v s(1) f]
  note G = emitsD [OF assms(2) emits_viewed [OF assms(1) v] F(1) g]
  show "tcache st' = c2 \<and> (alloc_failure st' = None \<longrightarrow> alloc_failure st = None)" using F(2) G(1,2) by (simp add: code)
  fix m assume m: "held st (xbase # wd_top # rs)" "xr m xbase = b" "carries xbase wd_top c e m" "alloc_failure st' = None"
  have n: "alloc_failure st2 = None" "alloc_failure st1 = None" using m(4) G(2) by (simp_all add: code)
  note R = F(3) [OF m(1-3) n(2)]
  have h: "held st1 (xbase # wd_top # rs)" using R by (intro held_stays [OF m(1)]) auto
  have S: "pool st2 \<and> (\<forall>r. is_free st2 r \<longrightarrow> is_free st1 r) \<and>
      runs ws2 m1 (\<lambda>m'. carries xbase wd_top c2 e2 m' \<and> keeps (set (wd_top # rs) \<union> {r. is_free st1 r}) m1 m')"
    if "carries xbase wd_top c1 e1 m1 \<and> keeps (set (wd_top # rs) \<union> {r. is_free st r}) m m1" for m1
    using G(3) [OF h _ _ n(1), of m1] base_kept [OF m(1), of m m1] m(2) that by simp
  have "runs (ws1 @ ws2) m (\<lambda>m'. carries xbase wd_top c2 e2 m' \<and> keeps (set (wd_top # rs) \<union> {r. is_free st r}) m m')"
  proof (rule runs_append [OF R [THEN conjunct2, THEN conjunct2]])
    fix m1 assume q: "carries xbase wd_top c1 e1 m1 \<and> keeps (set (wd_top # rs) \<union> {r. is_free st r}) m m1"
    show "runs ws2 m1 (\<lambda>m'. carries xbase wd_top c2 e2 m' \<and> keeps (set (wd_top # rs) \<union> {r. is_free st r}) m m')"
      by (rule runs_mono [OF S [OF q, THEN conjunct2, THEN conjunct2]]) (use R q in \<open>auto elim: keeps_step\<close>)
  qed
  moreover obtain m1 where "carries xbase wd_top c1 e1 m1 \<and> keeps (set (wd_top # rs) \<union> {r. is_free st r}) m m1"
    using runs_run [OF R [THEN conjunct2, THEN conjunct2]] by blast
  ultimately show "pool st' \<and> (\<forall>r. is_free st' r \<longrightarrow> is_free st r) \<and>
    runs ws m (\<lambda>m'. carries xbase wd_top c2 e2 m' \<and> keeps (set (wd_top # rs) \<union> {r. is_free st r}) m m')"
    using S R unfolding code by blast
qed (use assms emits_viewed in blast)

text \<open>Code that leaves the free registers alone.\<close>

lemma emits_plain:
  assumes "\<And>st. tcache st = c \<Longrightarrow> f st = (code, upd_cache u st)" "u c = c'" "viewed b c e \<Longrightarrow> viewed b c' e'"
    and "\<And>st m. held st (xbase # wd_top # rs) \<Longrightarrow> xr m xbase = b \<Longrightarrow> carries xbase wd_top c e m \<Longrightarrow>
      runs code m (\<lambda>m'. carries xbase wd_top c' e' m' \<and> keeps (set (wd_top # rs)) m m')"
  shows "emits xbase wd_top rs b c e f c' e'"
proof (rule emitsI)
  fix st ws st' assume "viewed b c e" and s: "tcache st = c" "f st = (ws, st')"
  then have e: "ws = code" "st' = upd_cache u st" using assms(1) by auto
  show "tcache st' = c' \<and> (alloc_failure st' = None \<longrightarrow> alloc_failure st = None)"
    using s assms(2) by (simp add: e upd_cache_def)
  fix m assume m: "held st (xbase # wd_top # rs)" "xr m xbase = b" "carries xbase wd_top c e m"
  have "pool st'" "\<forall>r. is_free st' r \<longrightarrow> is_free st r" using m(1) by (simp_all add: e upd_cache_def held_def pool_def is_free_def)
  moreover have "runs ws m (\<lambda>m'. carries xbase wd_top c' e' m' \<and> keeps (set (wd_top # rs) \<union> {r. is_free st r}) m m')"
    unfolding e by (rule runs_mono [OF assms(4) [OF m]]) (auto elim: keeps_mono)
  ultimately show "pool st' \<and> (\<forall>r. is_free st' r \<longrightarrow> is_free st r) \<and>
    runs ws m (\<lambda>m'. carries xbase wd_top c' e' m' \<and> keeps (set (wd_top # rs) \<union> {r. is_free st r}) m m')" by blast
qed (rule assms(3))

lemma emits_nothing: "(\<And>st. tcache st = c \<Longrightarrow> f st = ([], st)) \<Longrightarrow> emits xbase wd_top rs b c e f c e"
  by (rule emits_plain [where u = id and code = "[]"]) (simp_all add: upd_cache_def runs_Nil keeps_refl)

lemma held_scratch:
  assumes "held st (xbase # wd_top # rs)" "set ts \<subseteq> set rs" "distinct ts"
  shows "scratch xbase (wd_top # ts)"
  using assms by (auto simp: held_def scratch_def list_all_iff)

lemma carriesD:
  assumes "carries xbase wd_top c e m" "xr m xbase = b"
  shows "debts_ok b c (fst e) (mem m)" "xr m wd_top = word_of_nat (fst e)" "snd e = owed b c (fst e) (mem m)" "fst e < 8"
  using assms by (simp_all add: carries_def debts_ok_def)

text \<open>Code that writes memory and moves TOP, from \<open>t\<close> to \<open>t'\<close>.\<close>

lemma emits_code:
  assumes f: "\<And>st. tcache st = c \<Longrightarrow> f st = (code, upd_cache u st)" "u c = c'"
    and r: "\<And>st m. held st (xbase # wd_top # rs) \<Longrightarrow> xr m xbase = b \<Longrightarrow> xr m wd_top = word_of_nat t \<Longrightarrow> t < 8 \<Longrightarrow>
      debts_ok b c t (mem m) \<Longrightarrow> runs code m (\<lambda>m'. keeps K m m' \<and> xr m' wd_top = word_of_nat t' \<and> mem m' = g (mem m))"
    and k: "K \<subseteq> set (wd_top # rs)"
    and g: "\<And>h. debts_ok b c t h \<Longrightarrow> eh = owed b c t h \<Longrightarrow> debts_ok b c' t' (g h) \<and> e' = (t', owed b c' t' (g h))"
  shows "emits xbase wd_top rs b c (t, eh) f c' e'"
proof (rule emits_plain [OF f])
  fix st m assume s: "held st (xbase # wd_top # rs)" "xr m xbase = b" "carries xbase wd_top c (t, eh) m"
  note o = carriesD [OF s(3,2), unfolded fst_conv snd_conv]
  show "runs code m (\<lambda>m'. carries xbase wd_top c' e' m' \<and> keeps (set (wd_top # rs)) m m')"
  proof (rule runs_mono [OF r [OF s(1,2) o(2,4,1)]])
    fix m' assume m': "keeps K m m' \<and> xr m' wd_top = word_of_nat t' \<and> mem m' = g (mem m)"
    then have kk: "keeps (set (wd_top # rs)) m m'" using k by (auto elim: keeps_mono)
    have "xbase \<notin> set (wd_top # rs)" using s(1) by (auto simp: held_def)
    then have "xr m' xbase = b" using keeps_xr [OF kk] s(2) by auto
    then show "carries xbase wd_top c' e' m' \<and> keeps (set (wd_top # rs)) m m'"
      using kk m' g [OF o(1,3)] by (simp add: carries_def)
  qed
next
  assume "viewed b c (t, eh)"
  then obtain h where "debts_ok b c t h" "eh = owed b c t h" by (auto simp: viewed_def)
  from g [OF this] show "viewed b c' e'" by (auto simp: viewed_def)
qed

text \<open>Code with a register of its own from the pool.\<close>

lemma alloc_free_gpr_cache: "tcache (snd (alloc_free_gpr st)) = tcache st"
  by (simp add: alloc_free_gpr_def lowest_gpr_def Let_def alloc_fails_def split: prod.splits)

lemma upd_cache_free_gpr: "free_gpr r (upd_cache u st) = upd_cache u (free_gpr r st)" "tcache (free_gpr r st) = tcache st"
  by (simp_all add: upd_cache_def free_gpr_def)

definition with_gpr :: "(int \<Rightarrow> estate \<Rightarrow> u32 list \<times> estate) \<Rightarrow> estate \<Rightarrow> u32 list \<times> estate" where
  "with_gpr f st = (let (r, st1) = alloc_free_gpr st; (ws, st2) = f r st1 in (ws, free_gpr r st2))"

lemma emits_with_gpr:
  assumes "\<And>r. emits xbase wd_top (r # rs) b c e (f r) c' e'"
  shows "emits xbase wd_top rs b c e (with_gpr f) c' e'"
proof (rule emitsI)
  fix st ws st' assume v: "viewed b c e" and s: "tcache st = c" "with_gpr f st = (ws, st')"
  obtain r st1 where a: "alloc_free_gpr st = (r, st1)" by fastforce
  obtain ws2 st2 where f: "f r st1 = (ws2, st2)" by fastforce
  have code: "ws = ws2" "st' = free_gpr r st2" using s(2) by (simp_all add: with_gpr_def a f)
  have c1: "tcache st1 = c" using alloc_free_gpr_cache [of st] s(1) by (simp add: a)
  note F = emitsD [OF assms v c1 f]
  show "tcache st' = c' \<and> (alloc_failure st' = None \<longrightarrow> alloc_failure st = None)"
    using F(1,2) alloc_free_gpr_failure [OF a] by (simp add: code free_gpr_failure) (simp add: free_gpr_def)
  fix m assume m: "held st (xbase # wd_top # rs)" "xr m xbase = b" "carries xbase wd_top c e m" "alloc_failure st' = None"
  have n: "alloc_failure st2 = None" "alloc_failure st1 = None" using m(4) F(2) by (simp_all add: code free_gpr_failure)
  have "pool st" using m(1) by (simp add: held_def)
  note A = alloc_free_gpr_ok [OF a n(2) this]
  have h: "held st1 (xbase # wd_top # r # rs)" using m(1) A by (auto simp: held_def list_all_iff)
  note R = F(3) [OF h m(2,3) n(1)]
  have "0 \<le> r" using A(2) by (simp add: gpr_def)
  then have "\<forall>x. is_free st' x \<longrightarrow> is_free st x"
    using R A(1,5) free_gpr_frees [of r st2] unfolding code by (metis fun_upd_other fun_upd_same)
  moreover have "pool st'" using R by (simp add: code pool_free_gpr)
  moreover have "runs ws m (\<lambda>m'. carries xbase wd_top c' e' m' \<and> keeps (set (wd_top # rs) \<union> {x. is_free st x}) m m')"
    unfolding code by (rule runs_mono [OF R [THEN conjunct2, THEN conjunct2]]) (use A(1,5) in \<open>auto elim: keeps_mono split: if_splits\<close>)
  ultimately show "pool st' \<and> (\<forall>r. is_free st' r \<longrightarrow> is_free st r) \<and>
    runs ws m (\<lambda>m'. carries xbase wd_top c' e' m' \<and> keeps (set (wd_top # rs) \<union> {r. is_free st r}) m m')" by blast
qed (use assms emits_viewed in blast)

section \<open>Flush points\<close>

lemma emits_flush_top:
  assumes "wd_tmp \<in> set rs"
  shows "emits xbase wd_top rs b c e (x87_flush_top xbase wd_top wd_tmp) (c\<lparr>top_dirty := False\<rparr>) e"
proof (cases "top_dirty c")
  case True
  obtain t eh where e: "e = (t, eh)" by fastforce
  show ?thesis unfolding e
  proof (rule emits_code [where u = "\<lambda>c. c\<lparr>top_dirty := False\<rparr>" and code = "emit_store_top xbase wd_top wd_tmp" and K = "{wd_tmp}"])
    fix st and m :: mach assume s: "held st (xbase # wd_top # rs)" "xr m xbase = b" "xr m wd_top = word_of_nat t" "t < 8" "debts_ok b c t (mem m)"
    have sc: "scratch xbase [wd_top, wd_tmp]" using assms by (intro held_scratch [OF s(1)]) auto
    show "runs (emit_store_top xbase wd_top wd_tmp) m (\<lambda>m'. keeps {wd_tmp} m m' \<and> xr m' wd_top = word_of_nat t \<and>
        mem m' = upd_status b (\<lambda>w. set_top w t) (mem m))"
      by (rule runs_mono [OF runs_store_top [OF sc s(3,4)]]) (use sc s in \<open>auto simp: keeps_def scratch_def\<close>)
  qed (use assms True in \<open>auto simp: x87_flush_top_def pay_top\<close>)
next
  case False
  then have "c\<lparr>top_dirty := False\<rparr> = c" by simp
  then show ?thesis using False by (simp only:) (rule emits_nothing, simp add: x87_flush_top_def)
qed

lemma emits_flush_pending:
  assumes "wd_tmp \<in> set rs" "wd_tmp2 \<in> set rs" "distinct rs \<Longrightarrow> wd_tmp \<noteq> wd_tmp2"
  shows "emits xbase wd_top rs b c e (flush_pending_tag xbase wd_top wd_tmp wd_tmp2) (c\<lparr>tag_push_pending := False\<rparr>) e"
proof (cases "tag_push_pending c")
  case True
  obtain t eh where e: "e = (t, eh)" by fastforce
  show ?thesis unfolding e
  proof (rule emits_code [where u = "\<lambda>c. c\<lparr>tag_push_pending := False\<rparr>" and code = "emit_x87_tag_clear xbase wd_top wd_tmp wd_tmp2"
        and K = "{wd_tmp, wd_tmp2}"])
    fix st and m :: mach assume s: "held st (xbase # wd_top # rs)" "xr m xbase = b" "xr m wd_top = word_of_nat t" "t < 8" "debts_ok b c t (mem m)"
    have "distinct rs" using s(1) by (simp add: held_def)
    then have sc: "scratch xbase [wd_top, wd_tmp, wd_tmp2]" using assms by (intro held_scratch [OF s(1)]) auto
    show "runs (emit_x87_tag_clear xbase wd_top wd_tmp wd_tmp2) m (\<lambda>m'. keeps {wd_tmp, wd_tmp2} m m' \<and>
        xr m' wd_top = word_of_nat t \<and> mem m' = upd_tags b (tag_valid t) (mem m))"
      by (rule runs_mono [OF runs_tag_clear [OF sc s(3,4)]]) (use sc s in \<open>auto simp: keeps_def scratch_def\<close>)
  qed (use assms True in \<open>auto simp: flush_pending_tag_def pay_push\<close>)
next
  case False
  then have "c\<lparr>tag_push_pending := False\<rparr> = c" by simp
  then show ?thesis using False by (simp only:) (rule emits_nothing, simp add: flush_pending_tag_def)
qed

lemma emits_flush_pops:
  assumes "wd_tmp \<in> set rs"
  shows "emits xbase wd_top rs b c e (x87_flush_deferred_pops xbase wd_top wd_tmp) (c\<lparr>deferred_pop_count := 0\<rparr>) e"
proof (rule emits_if_viewed, cases "deferred_pop_count c > 0")
  case True
  obtain t eh where e: "e = (t, eh)" by fastforce
  define n where "n = nat (deferred_pop_count c)"
  define f where "f r r' st = (emit_x87_tag_set_empty_batch xbase wd_top wd_tmp r r' (deferred_pop_count (tcache st)),
    upd_cache (\<lambda>c. c\<lparr>deferred_pop_count := 0\<rparr>) st)" for r r' st
  have emits_f: "emits xbase wd_top (r' # r # rs) b c (t, eh) (f r r') (c\<lparr>deferred_pop_count := 0\<rparr>) (t, eh)" for r r'
  proof (rule emits_code [where u = "\<lambda>c. c\<lparr>deferred_pop_count := 0\<rparr>" and K = "{wd_tmp, r, r'}"
        and code = "emit_x87_tag_set_empty_batch xbase wd_top wd_tmp r r' (int n)"])
    fix st and m :: mach assume s: "held st (xbase # wd_top # r' # r # rs)" "xr m xbase = b" "xr m wd_top = word_of_nat t" "t < 8" "debts_ok b c t (mem m)"
    have sc: "scratch xbase [wd_top, wd_tmp, r, r']" using assms(1) s(1) by (intro held_scratch [OF s(1)]) (auto simp: held_def)
    show "runs (emit_x87_tag_set_empty_batch xbase wd_top wd_tmp r r' (int n)) m (\<lambda>m'. keeps {wd_tmp, r, r'} m m' \<and>
        xr m' wd_top = word_of_nat t \<and> mem m' = upd_tags b (popped_tags n t) (mem m))"
      by (rule runs_mono [OF runs_tag_set_empty_batch [OF sc s(3,4), of n]])
        (use sc s in \<open>auto simp: keeps_def scratch_def popped_tags_def n_def debts_ok_def\<close>)
  qed (use assms True in \<open>auto simp: f_def pay_pops n_def\<close>)
  have "emits xbase wd_top rs b c (t, eh) (with_gpr (\<lambda>r. with_gpr (f r))) (c\<lparr>deferred_pop_count := 0\<rparr>) (t, eh)"
    by (intro emits_with_gpr emits_f)
  moreover have "x87_flush_deferred_pops xbase wd_top wd_tmp st = with_gpr (\<lambda>r. with_gpr (f r)) st" if "tcache st = c" for st
  proof -
    obtain r st1 r' st2 where a: "alloc_free_gpr st = (r, st1)" "alloc_free_gpr st1 = (r', st2)" by (metis surj_pair)
    show ?thesis by (simp add: x87_flush_deferred_pops_def with_gpr_def f_def Let_def a upd_cache_free_gpr that True)
  qed
  ultimately show ?thesis unfolding e by (rule emits_cong [rotated])
next
  case False
  assume "viewed b c e"
  then have "c\<lparr>deferred_pop_count := 0\<rparr> = c" using False viewedD by fastforce
  then show ?thesis using False by (simp only:) (rule emits_nothing, simp add: x87_flush_deferred_pops_def)
qed

lemma emits_flush_tags:
  assumes "wd_tmp \<in> set rs" "wd_tmp2 \<in> set rs" "distinct rs \<Longrightarrow> wd_tmp \<noteq> wd_tmp2"
  shows "emits xbase wd_top rs b c e (x87_flush_tags xbase wd_top wd_tmp wd_tmp2)
    (c\<lparr>deferred_pop_count := 0, tag_push_pending := False\<rparr>) e"
  unfolding x87_flush_tags_def
  using emits_then [OF emits_flush_pops emits_flush_pending] assms by simp

section \<open>Pushes and pops\<close>

lemma emits_perm_clean:
  "\<not> perm_dirty c \<Longrightarrow> emits xbase wd_top rs b c e (perm_flush_before_stack_change native xbase wd_top wd_tmp) c e"
  by (rule emits_nothing) (simp add: perm_flush_before_stack_change_def)

text \<open>The slot tracker's note of a push or a pop leaves the debts alone.\<close>

definition same_debts :: "x87_cache \<Rightarrow> x87_cache \<Rightarrow> bool" where
  "same_debts c c' \<longleftrightarrow> deferred_pop_count c' = deferred_pop_count c \<and> tag_push_pending c' = tag_push_pending c \<and>
     top_dirty c' = top_dirty c \<and> run_remaining c' = run_remaining c \<and> perm_dirty c' = perm_dirty c"

lemma funpow_inv: "(\<And>c. f (g c) = f c) \<Longrightarrow> f ((g ^^ n) c) = f c"
  by (induction n) simp_all

lemma noted:
  "same_debts c (slot_note_push n c)" "same_debts c (slot_note_pop n c)"
  by (simp_all add: same_debts_def slot_note_push_def slot_note_pop_def Let_def
      funpow_inv [where f = deferred_pop_count] funpow_inv [where f = tag_push_pending] funpow_inv [where f = top_dirty]
      funpow_inv [where f = run_remaining] funpow_inv [where f = perm_dirty])

lemma emits_note:
  assumes "\<And>c. same_debts c (u c)"
  shows "emits xbase wd_top rs b c e (\<lambda>st. ([], upd_cache u st)) (u c) e"
proof (rule emits_plain)
  fix st m assume "carries xbase wd_top c e m"
  then have "carries xbase wd_top (u c) e m"
    using assms [of c] by (simp add: carries_def debts_ok_def owed_def same_debts_def Let_def)
  then show "runs [] m (\<lambda>m'. carries xbase wd_top (u c) e m' \<and> keeps (set (wd_top # rs)) m m')"
    by (simp add: runs_Nil keeps_refl)
next
  assume "viewed b c e"
  then show "viewed b (u c) e" using assms [of c] by (simp add: viewed_def debts_ok_def owed_def same_debts_def Let_def)
qed simp_all

definition noting :: "(x87_cache \<Rightarrow> x87_cache) \<Rightarrow> (estate \<Rightarrow> u32 list \<times> estate) \<Rightarrow> estate \<Rightarrow> u32 list \<times> estate" where
  "noting u f st = then_emit (f st) (\<lambda>st. ([], upd_cache u st))"

lemma noted_emits:
  assumes "emits xbase wd_top rs b c e f c' e'" "\<And>c. same_debts c (u c)" "run_remaining c' = k" "\<not> perm_dirty c'"
    and "\<And>st. tcache st = c \<Longrightarrow> g st = (case f st of (ws, st') \<Rightarrow> (ws, upd_cache u st'))"
  shows "\<exists>c'. run_remaining c' = k \<and> \<not> perm_dirty c' \<and> emits xbase wd_top rs b c e g c' e'"
proof -
  have "emits xbase wd_top rs b c e g (u c') e'"
    by (rule emits_cong [OF _ emits_then [OF assms(1) emits_note [OF assms(2)]]])
      (simp add: assms(5) then_emit_def split: prod.split)
  then show ?thesis using assms(2) [of c'] assms(3,4) by (intro exI [of _ "u c'"]) (simp add: same_debts_def)
qed

definition tracker_note :: "bool \<Rightarrow> (x87_cache \<Rightarrow> x87_cache) \<Rightarrow> x87_cache \<Rightarrow> x87_cache" where
  "tracker_note native f = (if native then f else id)"

lemma same_debts_note: "(\<And>c. same_debts c (f c)) \<Longrightarrow> same_debts c (tracker_note native f c)"
  by (simp add: tracker_note_def same_debts_def)

lemma noted_push: "same_debts c (tracker_note native (slot_note_push n) c)"
  and noted_pop: "same_debts c (tracker_note native (slot_note_pop n) c)"
  by (simp_all add: same_debts_note noted)

lemma emits_push:
  assumes "wd_tmp \<in> set rs" "wd_tmp2 \<in> set rs" "wd_tmp \<noteq> wd_tmp2" "run_remaining c > 0" "\<not> perm_dirty c"
    and "slot_empty b ((fst e + 7) mod 8) (snd e)"
  shows "\<exists>c'. run_remaining c' = run_remaining c \<and> \<not> perm_dirty c' \<and>
    emits xbase wd_top rs b c e (x87_push native xbase wd_top wd_tmp wd_tmp2) c' (push_mem b e)"
proof -
  obtain t eh where e: "e = (t, eh)" by fastforce
  define c1 where "c1 = c\<lparr>tag_push_pending := False, deferred_pop_count := 0, top_dirty := False\<rparr>"
  define c2 where "c2 = c1\<lparr>top_dirty := True, tag_push_pending := True\<rparr>"
  have flushes: "emits xbase wd_top rs b c e (\<lambda>st. then_emit (then_emit (then_emit
      (flush_pending_tag xbase wd_top wd_tmp wd_tmp2 st) (x87_flush_deferred_pops xbase wd_top wd_tmp))
      (x87_flush_top xbase wd_top wd_tmp)) (perm_flush_before_stack_change native xbase wd_top wd_tmp)) c1 e"
    unfolding c1_def
    by (rule emits_then emits_flush_pending emits_flush_pops emits_flush_top emits_perm_clean | (use assms in simp; fail))+
  have "emits xbase wd_top rs b c1 (t, eh) (\<lambda>st. (emit_x87_push_fully_deferred wd_top,
      upd_cache (\<lambda>c. c\<lparr>top_dirty := True, tag_push_pending := True\<rparr>) st)) c2 (push_mem b e)"
  proof (rule emits_code [where K = "{wd_top}" and g = id and t' = "(t + 7) mod 8"])
    fix st and m :: mach assume s: "held st (xbase # wd_top # rs)" "xr m wd_top = word_of_nat t" "t < 8"
    have sc: "scratch xbase [wd_top]" by (rule held_scratch [OF s(1)]) auto
    show "runs (emit_x87_push_fully_deferred wd_top) m (\<lambda>m'. keeps {wd_top} m m' \<and>
        xr m' wd_top = word_of_nat ((t + 7) mod 8) \<and> mem m' = id (mem m))"
      by (rule runs_mono [OF runs_push_top [OF sc s(2,3)]]) simp
  next
    fix h assume h: "debts_ok b c1 t h" "eh = owed b c1 t h"
    then have "eh = h" by (simp add: nothing_owed c1_def)
    then show "debts_ok b c2 ((t + 7) mod 8) (id h) \<and> push_mem b e = ((t + 7) mod 8, owed b c2 ((t + 7) mod 8) (id h))"
      using defer_push [OF h(1)] assms(6) by (simp add: e c1_def c2_def)
  qed (simp_all add: c2_def)
  then have "emits xbase wd_top rs b c e (\<lambda>st. then_emit (then_emit (then_emit (then_emit
      (flush_pending_tag xbase wd_top wd_tmp wd_tmp2 st) (x87_flush_deferred_pops xbase wd_top wd_tmp))
      (x87_flush_top xbase wd_top wd_tmp)) (perm_flush_before_stack_change native xbase wd_top wd_tmp))
      (\<lambda>st. (emit_x87_push_fully_deferred wd_top, upd_cache (\<lambda>c. c\<lparr>top_dirty := True, tag_push_pending := True\<rparr>) st)))
      c2 (push_mem b e)"
    unfolding e [symmetric] by (rule emits_then [OF flushes])
  then show ?thesis
    by (rule noted_emits [where u = "tracker_note native (slot_note_push 1)"])
      (use assms(4,5) in \<open>simp_all add: noted_push c2_def c1_def x87_push_def note_push_def tracker_note_def [symmetric] Let_def\<close>)
qed

lemma emits_pop:
  assumes "wd_tmp \<in> set rs" "run_remaining c > 0" "\<not> perm_dirty c" "\<not> slot_empty b (fst e) (snd e)"
  shows "\<exists>c'. run_remaining c' = run_remaining c \<and> \<not> perm_dirty c' \<and>
    emits xbase wd_top rs b c e (x87_pop native xbase wd_top wd_tmp) c' (pop_mem b e)"
proof -
  obtain t eh where e: "e = (t, eh)" by fastforce
  have runs_top: "runs (emit_x87_pop_top_only wd_top) m (\<lambda>m'. keeps {wd_top} m m' \<and>
      xr m' wd_top = word_of_nat ((t + 1) mod 8) \<and> mem m' = mem m)"
    if "held st (xbase # wd_top # rs)" "xr m wd_top = word_of_nat t" "t < 8" for st and m :: mach
    by (rule runs_mono [OF runs_pop_top [OF held_scratch [OF that(1), of "[]"] that(2,3)]]) auto
  define f where "f st = (if tag_push_pending (tcache st) \<and> top_dirty (tcache st) then
       (emit_x87_pop_top_only wd_top, upd_cache (\<lambda>c. c\<lparr>tag_push_pending := False, top_dirty := False\<rparr>) st)
     else if tag_push_pending (tcache st) then
       (emit_x87_pop_top_only wd_top @ emit_store_top xbase wd_top wd_tmp,
        upd_cache (\<lambda>c. c\<lparr>tag_push_pending := False, top_dirty := False\<rparr>) st)
     else
       (emit_x87_pop_top_only wd_top,
        upd_cache (\<lambda>c. c\<lparr>deferred_pop_count := to_i8 (deferred_pop_count c + 1), top_dirty := True\<rparr>) st))" for st
  define c2 where "c2 = (if tag_push_pending c then c\<lparr>tag_push_pending := False, top_dirty := False\<rparr>
     else c\<lparr>deferred_pop_count := to_i8 (deferred_pop_count c + 1), top_dirty := True\<rparr>)"
  have "emits xbase wd_top rs b c (t, eh) f c2 (pop_mem b e)"
  proof (cases "tag_push_pending c \<and> \<not> top_dirty c")
    case True
    show ?thesis
    proof (rule emits_code [where K = "{wd_top, wd_tmp}" and g = "upd_status b (\<lambda>w. set_top w ((t + 1) mod 8))"
          and t' = "(t + 1) mod 8" and u = "\<lambda>c. c\<lparr>tag_push_pending := False, top_dirty := False\<rparr>"
          and code = "emit_x87_pop_top_only wd_top @ emit_store_top xbase wd_top wd_tmp"])
      fix st and m :: mach
      assume s: "held st (xbase # wd_top # rs)" "xr m xbase = b" "xr m wd_top = word_of_nat t" "t < 8"
      have sc: "scratch xbase [wd_top, wd_tmp]" using assms(1) by (intro held_scratch [OF s(1)]) auto
      show "runs (emit_x87_pop_top_only wd_top @ emit_store_top xbase wd_top wd_tmp) m (\<lambda>m'. keeps {wd_top, wd_tmp} m m' \<and>
          xr m' wd_top = word_of_nat ((t + 1) mod 8) \<and> mem m' = upd_status b (\<lambda>w. set_top w ((t + 1) mod 8)) (mem m))"
        apply (rule runs_append [OF runs_top [OF s(1,3,4)]])
        apply (rule runs_mono [OF runs_store_top [OF sc, where t = "(t + 1) mod 8"]])
        using sc s by (auto simp: keeps_def scratch_def)
    next
      fix h assume h: "debts_ok b c t h" "eh = owed b c t h"
      show "debts_ok b c2 ((t + 1) mod 8) (upd_status b (\<lambda>w. set_top w ((t + 1) mod 8)) h) \<and>
          pop_mem b e = ((t + 1) mod 8, owed b c2 ((t + 1) mod 8) (upd_status b (\<lambda>w. set_top w ((t + 1) mod 8)) h))"
        using cancel_stored_push [OF h(1)] True h(2) by (simp add: e c2_def)
    qed (use True assms(1) in \<open>auto simp: c2_def f_def\<close>)
  next
    case False
    show ?thesis
    proof (rule emits_code [where K = "{wd_top}" and g = id and t' = "(t + 1) mod 8"
          and u = "\<lambda>c. if tag_push_pending c then c\<lparr>tag_push_pending := False, top_dirty := False\<rparr>
            else c\<lparr>deferred_pop_count := to_i8 (deferred_pop_count c + 1), top_dirty := True\<rparr>"
          and code = "emit_x87_pop_top_only wd_top"])
      fix h assume h: "debts_ok b c t h" "eh = owed b c t h"
      show "debts_ok b c2 ((t + 1) mod 8) (id h) \<and> pop_mem b e = ((t + 1) mod 8, owed b c2 ((t + 1) mod 8) (id h))"
        using cancel_push [OF h(1)] defer_pop [OF h(1)] assms(4) False h(2) by (simp add: e c2_def)
    qed (use False runs_top in \<open>simp_all add: c2_def f_def upd_cache_def\<close>)
  qed
  then have "emits xbase wd_top rs b c e (\<lambda>st. then_emit (perm_flush_before_stack_change native xbase wd_top wd_tmp st) f) c2 (pop_mem b e)"
    unfolding e [symmetric] by (rule emits_then [OF emits_perm_clean [OF assms(3)]])
  then show ?thesis
    by (rule noted_emits [where u = "tracker_note native (slot_note_pop 1)"])
      (use assms(2,3) in \<open>simp_all add: noted_pop c2_def x87_pop_def f_def [abs_def] note_pop_def tracker_note_def [symmetric] Let_def\<close>)
qed

lemma pop_n_mem:
  assumes "0 < n" "t < 8"
  shows "(pop_mem b ^^ n) (t, h) = ((t + n) mod 8, upd_status b (\<lambda>w. set_top w ((t + n) mod 8))
    (fold (\<lambda>i. upd_tags b (tag_empty ((t + i) mod 8))) [0..<n] h))"
proof -
  obtain k where n: "n = Suc k" using assms(1) by (cases n) auto
  show ?thesis unfolding n pops [OF assms(2)] by (simp only: fold_upd_tags_all tag_take_bit)
qed

lemma mem_top_popped: "mem_top b (fold (\<lambda>i. upd_tags b (f i)) ks h) = mem_top b h"
  by (induction ks arbitrary: h) (simp_all add: mem_top_upd)

lemma emits_pop_n:
  assumes "wd_tmp \<in> set rs" "run_remaining c > 0" "\<not> perm_dirty c" "0 < n" "n \<le> 8"
  shows "\<exists>c'. run_remaining c' = run_remaining c \<and> \<not> perm_dirty c' \<and>
    emits xbase wd_top rs b c e (x87_pop_n native xbase wd_top wd_tmp n) c' ((pop_mem b ^^ n) e)"
proof -
  obtain t eh where e: "e = (t, eh)" by fastforce
  define c0 where "c0 = c\<lparr>deferred_pop_count := 0\<rparr>"
  define c1 where "c1 = c\<lparr>deferred_pop_count := 0, tag_push_pending := False\<rparr>"
  define c2 where "c2 = c1\<lparr>top_dirty := True\<rparr>"
  define dirty where "dirty = upd_cache (\<lambda>c. c\<lparr>top_dirty := True\<rparr>)"
  define f where "f r st = then_emit (x87_flush_tags xbase wd_top wd_tmp r st)
    (\<lambda>st. if run_remaining (tcache st) > 0 then
        then_emit (perm_flush_before_stack_change native xbase wd_top wd_tmp st)
          (\<lambda>st. (emit_x87_pop_n_deferred xbase wd_top wd_tmp r (int n), dirty st))
      else (emit_x87_pop_n xbase wd_top wd_tmp r (int n), upd_cache (\<lambda>c. c\<lparr>top_dirty := False\<rparr>) st))" for r st
  have emits_f: "emits xbase wd_top (r # rs) b c0 e (f r) c2 ((pop_mem b ^^ n) e)" for r
  proof -
    have "emits xbase wd_top (r # rs) b c1 (t, eh) (\<lambda>st. (emit_x87_pop_n_deferred xbase wd_top wd_tmp r (int n), dirty st)) c2 ((pop_mem b ^^ n) e)"
    proof (rule emits_code [where K = "{wd_top, wd_tmp, r}" and t' = "(t + n) mod 8"
          and g = "fold (\<lambda>i. upd_tags b (tag_empty ((t + i) mod 8))) [0..<n]"])
      fix st and m :: mach
      assume s: "held st (xbase # wd_top # r # rs)" "xr m xbase = b" "xr m wd_top = word_of_nat t" "t < 8"
      have "r \<notin> set rs" using s(1) by (simp add: held_def)
      then have sc: "scratch xbase [wd_top, wd_tmp, r]" using assms(1) by (intro held_scratch [OF s(1)]) auto
      show "runs (emit_x87_pop_n_deferred xbase wd_top wd_tmp r (int n)) m (\<lambda>m'. keeps {wd_top, wd_tmp, r} m m' \<and>
          xr m' wd_top = word_of_nat ((t + n) mod 8) \<and> mem m' = fold (\<lambda>i. upd_tags b (tag_empty ((t + i) mod 8))) [0..<n] (mem m))"
        by (rule runs_mono [OF runs_pop_n_deferred [OF sc s(3,4) assms(5)]]) (use s(2) in auto)
    next
      fix h assume h: "debts_ok b c1 t h" "eh = owed b c1 t h"
      have t: "t < 8" using h(1) by (simp add: debts_ok_def)
      let ?h = "fold (\<lambda>i. upd_tags b (tag_empty ((t + i) mod 8))) [0..<n] h"
      have "eh = (if top_dirty c then upd_status b (\<lambda>w. set_top w t) h else h)"
        using h(2) by (simp add: owed_def c1_def Let_def popped_tags_0 upd_tags_nothing)
      moreover have "fold (\<lambda>i. upd_tags b (tag_empty ((t + i) mod 8))) [0..<n] (upd_status b (\<lambda>w. set_top w t) h) =
          upd_status b (\<lambda>w. set_top w t) ?h"
        by (simp only: fold_upd_tags_all tag_take_bit upd_apart)
      ultimately have "(pop_mem b ^^ n) e = ((t + n) mod 8, upd_status b (\<lambda>w. set_top w ((t + n) mod 8)) ?h)"
        unfolding e pop_n_mem [OF assms(4) t] by (simp add: upd_status_top)
      then show "debts_ok b c2 ((t + n) mod 8) ?h \<and> (pop_mem b ^^ n) e = ((t + n) mod 8, owed b c2 ((t + n) mod 8) ?h)"
        by (simp add: owed_def debts_ok_def c2_def c1_def Let_def popped_tags_0 upd_tags_nothing)
    qed (use assms(1) in \<open>auto simp: c2_def dirty_def\<close>)
    then have dirtied: "emits xbase wd_top (r # rs) b c1 e (\<lambda>st. (emit_x87_pop_n_deferred xbase wd_top wd_tmp r (int n), dirty st))
      c2 ((pop_mem b ^^ n) e)" unfolding e .
    have "emits xbase wd_top (r # rs) b c1 e (\<lambda>st. if run_remaining (tcache st) > 0 then
        then_emit (perm_flush_before_stack_change native xbase wd_top wd_tmp st)
          (\<lambda>st. (emit_x87_pop_n_deferred xbase wd_top wd_tmp r (int n), dirty st))
      else (emit_x87_pop_n xbase wd_top wd_tmp r (int n), upd_cache (\<lambda>c. c\<lparr>top_dirty := False\<rparr>) st)) c2 ((pop_mem b ^^ n) e)"
      by (rule emits_cong [OF _ emits_then [OF emits_perm_clean dirtied]]) (use assms(2,3) in \<open>simp_all add: c1_def\<close>)
    then show ?thesis unfolding f_def
      by (rule emits_then [rotated]) (use emits_flush_tags [of wd_tmp "r # rs" r xbase wd_top b c0 e] assms(1) in \<open>auto simp: c0_def c1_def\<close>)
  qed
  have "emits xbase wd_top rs b c e (\<lambda>st. then_emit (x87_flush_deferred_pops xbase wd_top wd_tmp st) (with_gpr f)) c2 ((pop_mem b ^^ n) e)"
    by (rule emits_then [OF emits_flush_pops [OF assms(1)] emits_with_gpr [OF emits_f [unfolded c0_def]]])
  then show ?thesis
    by (rule noted_emits [where u = "tracker_note native (slot_note_pop n)"])
      (use assms(2,3) in \<open>simp_all add: noted_pop c2_def c1_def x87_pop_n_def f_def with_gpr_def dirty_def note_pop_def
        tracker_note_def [symmetric] Let_def then_emit_def split: prod.split\<close>)
qed

section \<open>Sequences\<close>

text \<open>What the instructions of a run ask of the stack: a push, a pop, \<open>n\<close> pops, and the flush points before
  code that reads TOP or the tags.\<close>

datatype stack_op = Push | Pop | PopN nat | FlushTop | FlushTags

fun defer_op :: "bool \<Rightarrow> int \<Rightarrow> int \<Rightarrow> int \<Rightarrow> int \<Rightarrow> stack_op \<Rightarrow> estate \<Rightarrow> u32 list \<times> estate" where
  "defer_op native xbase wd_top wd_tmp wd_tmp2 Push = x87_push native xbase wd_top wd_tmp wd_tmp2"
| "defer_op native xbase wd_top wd_tmp wd_tmp2 Pop = x87_pop native xbase wd_top wd_tmp"
| "defer_op native xbase wd_top wd_tmp wd_tmp2 (PopN n) = x87_pop_n native xbase wd_top wd_tmp n"
| "defer_op native xbase wd_top wd_tmp wd_tmp2 FlushTop = x87_flush_top xbase wd_top wd_tmp"
| "defer_op native xbase wd_top wd_tmp wd_tmp2 FlushTags = x87_flush_tags xbase wd_top wd_tmp wd_tmp2"

fun eager_op :: "u64 \<Rightarrow> stack_op \<Rightarrow> nat \<times> (u64 \<Rightarrow> u8) \<Rightarrow> nat \<times> (u64 \<Rightarrow> u8)" where
  "eager_op b Push = push_mem b"
| "eager_op b Pop = pop_mem b"
| "eager_op b (PopN n) = pop_mem b ^^ n"
| "eager_op b FlushTop = id"
| "eager_op b FlushTags = id"

text \<open>No push over a register in use and no pop of an empty one.\<close>

fun legal_op :: "u64 \<Rightarrow> stack_op \<Rightarrow> nat \<times> (u64 \<Rightarrow> u8) \<Rightarrow> bool" where
  "legal_op b Push (t, h) = slot_empty b ((t + 7) mod 8) h"
| "legal_op b Pop (t, h) = (\<not> slot_empty b t h)"
| "legal_op b (PopN n) (t, h) = (0 < n \<and> n \<le> 8)"
| "legal_op b FlushTop (t, h) = True"
| "legal_op b FlushTags (t, h) = True"

fun defer_ops :: "bool \<Rightarrow> int \<Rightarrow> int \<Rightarrow> int \<Rightarrow> int \<Rightarrow> stack_op list \<Rightarrow> estate \<Rightarrow> u32 list \<times> estate" where
  "defer_ops native xbase wd_top wd_tmp wd_tmp2 [] st = ([], st)"
| "defer_ops native xbase wd_top wd_tmp wd_tmp2 (x # xs) st =
     then_emit (defer_op native xbase wd_top wd_tmp wd_tmp2 x st) (defer_ops native xbase wd_top wd_tmp wd_tmp2 xs)"

fun legal_ops :: "u64 \<Rightarrow> stack_op list \<Rightarrow> nat \<times> (u64 \<Rightarrow> u8) \<Rightarrow> bool" where
  "legal_ops b [] e = True"
| "legal_ops b (x # xs) e = (legal_op b x e \<and> legal_ops b xs (eager_op b x e))"

lemma emits_op:
  assumes "wd_tmp \<in> set rs" "wd_tmp2 \<in> set rs" "wd_tmp \<noteq> wd_tmp2" "run_remaining c > 0" "\<not> perm_dirty c" "legal_op b x e"
  shows "\<exists>c'. run_remaining c' = run_remaining c \<and> \<not> perm_dirty c' \<and>
    emits xbase wd_top rs b c e (defer_op native xbase wd_top wd_tmp wd_tmp2 x) c' (eager_op b x e)"
proof (cases x)
  case Push
  then show ?thesis using emits_push [OF assms(1-5)] assms(6) by (cases e) simp
next
  case Pop
  then show ?thesis using emits_pop [OF assms(1,4,5)] assms(6) by (cases e) simp
next
  case (PopN n)
  then show ?thesis using emits_pop_n [OF assms(1,4,5)] assms(6) by (cases e) simp
next
  case FlushTop
  then show ?thesis using emits_flush_top [OF assms(1)] assms(5)
    by (intro exI [of _ "c\<lparr>top_dirty := False\<rparr>"]) simp
next
  case FlushTags
  then show ?thesis using emits_flush_tags [OF assms(1,2)] assms(3,5)
    by (intro exI [of _ "c\<lparr>deferred_pop_count := 0, tag_push_pending := False\<rparr>"]) simp
qed

lemma emits_ops:
  assumes "wd_tmp \<in> set rs" "wd_tmp2 \<in> set rs" "wd_tmp \<noteq> wd_tmp2"
  shows "run_remaining c > 0 \<Longrightarrow> \<not> perm_dirty c \<Longrightarrow> legal_ops b xs e \<Longrightarrow>
    \<exists>c'. run_remaining c' = run_remaining c \<and> \<not> perm_dirty c' \<and>
      emits xbase wd_top rs b c e (defer_ops native xbase wd_top wd_tmp wd_tmp2 xs) c' (fold (eager_op b) xs e)"
proof (induction xs arbitrary: c e)
  case Nil
  then show ?case by (intro exI [of _ c]) (simp add: emits_nothing)
next
  case (Cons x xs)
  obtain c1 where c1: "run_remaining c1 = run_remaining c" "\<not> perm_dirty c1"
    "emits xbase wd_top rs b c e (defer_op native xbase wd_top wd_tmp wd_tmp2 x) c1 (eager_op b x e)"
    using emits_op [OF assms Cons.prems(1,2), where b = b and x = x and e = e and native = native] Cons.prems(3) by auto
  obtain c2 where c2: "run_remaining c2 = run_remaining c" "\<not> perm_dirty c2"
    "emits xbase wd_top rs b c1 (eager_op b x e) (defer_ops native xbase wd_top wd_tmp wd_tmp2 xs) c2
      (fold (eager_op b) xs (eager_op b x e))"
    using Cons.IH [of c1 "eager_op b x e"] c1(1,2) Cons.prems by auto
  then show ?case using emits_then [OF c1(3) c2(3)]
    by (intro exI [of _ c2]) (simp add: emits_cong [where g = "defer_ops native xbase wd_top wd_tmp wd_tmp2 (x # xs)"])
qed

lemma emits_end_flush:
  assumes "wd_tmp \<in> set rs" "\<not> perm_dirty c" "run_remaining c \<le> consumed"
  shows "emits xbase wd_top rs b c e (end_flush native xbase wd_top wd_tmp consumed)
    (c\<lparr>deferred_pop_count := 0, tag_push_pending := False, top_dirty := False\<rparr>) e"
proof -
  let ?c = "c\<lparr>deferred_pop_count := 0\<rparr>"
  let ?f = "\<lambda>st. if tag_push_pending (tcache st) then
      (let (wd_tmp2, st1) = alloc_free_gpr st; (ws, st2) = flush_pending_tag xbase wd_top wd_tmp wd_tmp2 st1
       in (ws, free_gpr wd_tmp2 st2)) else ([], st)"
  have pending: "emits xbase wd_top rs b ?c e ?f (?c\<lparr>tag_push_pending := False\<rparr>) e"
  proof (cases "tag_push_pending c")
    case True
    show ?thesis
      by (rule emits_cong [OF _ emits_with_gpr [where f = "flush_pending_tag xbase wd_top wd_tmp"]])
        (use True assms(1) in \<open>auto simp: with_gpr_def intro: emits_flush_pending\<close>)
  next
    case False
    then have "?c\<lparr>tag_push_pending := False\<rparr> = ?c" by simp
    then show ?thesis using False by (simp only:) (rule emits_nothing, simp)
  qed
  have "emits xbase wd_top rs b c e (\<lambda>st. then_emit (then_emit (then_emit
      (perm_flush_before_stack_change native xbase wd_top wd_tmp st) (x87_flush_deferred_pops xbase wd_top wd_tmp))
      ?f) (x87_flush_top xbase wd_top wd_tmp)) (c\<lparr>deferred_pop_count := 0, tag_push_pending := False, top_dirty := False\<rparr>) e"
    by (rule emits_then emits_perm_clean emits_flush_pops pending emits_flush_top | fact)+
  then show ?thesis
    by (rule emits_cong [rotated]) (use assms(3) in \<open>simp add: end_flush_def\<close>)
qed

text \<open>C24: within a run, any legal sequence of pushes, pops and flush points followed by the end of the run
  leaves TOP in its register, the status word and the tag word exactly as the pushes and pops of the x87 do,
  however many of them were deferred, and changes no other held register.\<close>

theorem deferred_stack_is_eager:
  assumes "held st [xbase, wd_top, wd_tmp, wd_tmp2]"
    and "0 < run_remaining (tcache st)" "run_remaining (tcache st) \<le> consumed" "\<not> perm_dirty (tcache st)"
    and "deferred_pop_count (tcache st) = 0" "\<not> tag_push_pending (tcache st)" "\<not> top_dirty (tcache st)"
    and "then_emit (defer_ops native xbase wd_top wd_tmp wd_tmp2 xs st) (end_flush native xbase wd_top wd_tmp consumed) = (ws, st')"
    and "alloc_failure st' = None"
    and "xr m wd_top = word_of_nat t" "t < 8" "mem_top (xr m xbase) (mem m) = word_of_nat t"
    and "legal_ops (xr m xbase) xs (t, mem m)"
  shows "\<exists>m' t'. run ws m = Some m' \<and> xr m' wd_top = word_of_nat t' \<and>
    (t', mem m') = fold (eager_op (xr m xbase)) xs (t, mem m) \<and>
    keeps ({wd_top, wd_tmp, wd_tmp2} \<union> {r. is_free st r}) m m'"
proof -
  let ?c = "tcache st" and ?b = "xr m xbase"
  have d: "debts_ok ?b ?c t (mem m)" using assms by (simp add: debts_ok_def)
  have o: "owed ?b ?c t (mem m) = mem m" using assms by (simp add: nothing_owed)
  have ne: "wd_tmp \<noteq> wd_tmp2" using assms(1) by (simp add: held_def)
  obtain c1 where c1: "run_remaining c1 = run_remaining ?c" "\<not> perm_dirty c1"
    "emits xbase wd_top [wd_tmp, wd_tmp2] ?b ?c (t, mem m) (defer_ops native xbase wd_top wd_tmp wd_tmp2 xs) c1
      (fold (eager_op ?b) xs (t, mem m))"
    using emits_ops [of wd_tmp "[wd_tmp, wd_tmp2]" wd_tmp2] ne assms(2,4,13) by (metis list.set_intros(1) list.set_intros(2))
  have e: "emits xbase wd_top [wd_tmp, wd_tmp2] ?b c1 (fold (eager_op ?b) xs (t, mem m)) (end_flush native xbase wd_top wd_tmp consumed)
      (c1\<lparr>deferred_pop_count := 0, tag_push_pending := False, top_dirty := False\<rparr>) (fold (eager_op ?b) xs (t, mem m))"
    using assms(3) c1 by (intro emits_end_flush) simp_all
  have "viewed ?b ?c (t, mem m)" using d o by (auto simp: viewed_def)
  moreover have "carries xbase wd_top ?c (t, mem m) m" using assms(10) d o by (simp add: carries_def)
  ultimately have "runs ws m (\<lambda>m'. carries xbase wd_top (c1\<lparr>deferred_pop_count := 0, tag_push_pending := False, top_dirty := False\<rparr>)
      (fold (eager_op ?b) xs (t, mem m)) m' \<and> keeps (set (wd_top # [wd_tmp, wd_tmp2]) \<union> {r. is_free st r}) m m')"
    using emitsD(3) [OF emits_then [OF c1(3) e] _ refl assms(8,1) refl _ assms(9)] by blast
  from runs_run [OF this] show ?thesis by (auto simp: carries_def nothing_owed prod_eq_iff)
qed

definition example_run :: estate where
  "example_run = example_estate\<lparr>tcache := cache_init\<lparr>run_remaining := 3\<rparr>\<rparr>"

definition example_stack :: mach where
  "example_stack = \<lparr>xr = \<lambda>r. 0, spr = 0, dr = \<lambda>r. 0, flag_n = False, flag_z = False, flag_c = False,
     flag_v = False, flag_a = False, flag_p = False, mem = (\<lambda>a. if a = 4 \<or> a = 5 then 0xFF else 0)\<rparr>"

definition example_ops :: "stack_op list" where
  "example_ops = [Push, FlushTop, Push, Pop]"

theorem deferred_stack_is_eager_witness:
  "\<exists>m' t'. run (fst (then_emit (defer_ops False 0 1 2 3 example_ops example_run) (end_flush False 0 1 2 3))) example_stack = Some m' \<and>
    (t', mem m') = fold (eager_op 0) example_ops (0, mem example_stack) \<and> xr m' 1 = word_of_nat t'"
proof -
  have x: "xr example_stack r = 0" for r by (simp add: example_stack_def)
  have h: "held example_run [0, 1, 2, 3]" by code_simp
  have c: "0 < run_remaining (tcache example_run)" "run_remaining (tcache example_run) \<le> 3" "\<not> perm_dirty (tcache example_run)"
    "deferred_pop_count (tcache example_run) = 0" "\<not> tag_push_pending (tcache example_run)" "\<not> top_dirty (tcache example_run)"
    by (simp_all add: example_run_def cache_init_def)
  have a: "alloc_failure (snd (then_emit (defer_ops False 0 1 2 3 example_ops example_run) (end_flush False 0 1 2 3))) = None"
    by code_simp
  have t: "mem_top 0 (mem example_stack) = 0" by code_simp
  have l: "legal_ops 0 example_ops (0, mem example_stack)" by code_simp
  show ?thesis
    using deferred_stack_is_eager [OF h c surjective_pairing a, of example_stack 0] t l by (auto simp: x)
qed

end
