(* ===== verification/Guest_Stream.thy ===== *)
theory Guest_Stream
  imports Prelude "HOL-Library.Monad_Syntax"
begin

text \<open>
  The delta stream of an offset map (\<^verbatim>\<open>guest_pc_map.cpp\<close>): a bit reader over bytes that are either in
  memory or pulled in windows through a callback, Golomb-Rice and raw numbers, and one step of the
  stream.  Each operation returns \<open>None\<close> where the code returns \<open>false\<close>.
\<close>

section \<open>The bit reader\<close>

text \<open>The caller's callback: \<open>len\<close> bytes at an address, or failure.\<close>

type_synonym reader = "u64 \<Rightarrow> nat \<Rightarrow> u8 list option"

abbreviation kStreamWindow :: nat where
  "kStreamWindow \<equiv> 256"

definition kMaxFragmentSize :: u32 where
  "kMaxFragmentSize = push_bit 20 64"

text \<open>The cursor \<open>(pos_, bit_)\<close> is the bit position \<open>8 * pos_ + bit_\<close>.\<close>

record bit_reader =
  br_mem :: "u8 list option"
  br_size :: nat
  br_at :: nat
  br_addr :: u64
  br_win :: "u8 list"
  br_win_start :: nat
  br_win_len :: nat

definition bit_reader_mem :: "u8 list \<Rightarrow> nat \<Rightarrow> nat \<Rightarrow> bit_reader" where
  "bit_reader_mem data n start_byte =
     \<lparr>br_mem = Some data, br_size = n, br_at = 8 * start_byte, br_addr = 0, br_win = [], br_win_start = 0, br_win_len = 0\<rparr>"

definition bit_reader_remote :: "u64 \<Rightarrow> nat \<Rightarrow> nat \<Rightarrow> bit_reader" where
  "bit_reader_remote addr n start_byte =
     \<lparr>br_mem = None, br_size = n, br_at = 8 * start_byte, br_addr = addr, br_win = [], br_win_start = 0, br_win_len = 0\<rparr>"

definition pull_window :: "reader \<Rightarrow> nat \<Rightarrow> bit_reader \<Rightarrow> bit_reader option" where
  "pull_window r idx br =
     (if idx < br_win_start br \<or> br_win_start br + br_win_len br \<le> idx then
        let want = (if br_size br - idx < kStreamWindow then br_size br - idx else kStreamWindow)
        in do { w \<leftarrow> r (br_addr br + word_of_nat idx) want;
                Some (br\<lparr>br_win := w, br_win_start := idx, br_win_len := want\<rparr>) }
      else Some br)"

definition byte_at :: "reader \<Rightarrow> nat \<Rightarrow> bit_reader \<Rightarrow> (u8 \<times> bit_reader) option" where
  "byte_at r idx br =
     (if br_size br \<le> idx then None
      else case br_mem br of Some data \<Rightarrow> Some (data ! idx, br)
        | None \<Rightarrow> do { br1 \<leftarrow> pull_window r idx br; Some (br_win br1 ! (idx - br_win_start br1), br1) })"

definition read_bit :: "reader \<Rightarrow> bit_reader \<Rightarrow> (u32 \<times> bit_reader) option" where
  "read_bit r br = do { (byte, br1) \<leftarrow> byte_at r (br_at br div 8) br;
     Some (drop_bit (br_at br mod 8) (ucast byte) AND 1, br1\<lparr>br_at := br_at br + 1\<rparr>) }"

text \<open>The number of bits that are left: every bit read is one less.\<close>

definition bits_left :: "bit_reader \<Rightarrow> nat" where
  "bits_left br = 8 * br_size br - br_at br"

lemma pull_window_keeps:
  assumes "pull_window r idx br = Some br'"
  shows "br_size br' = br_size br" "br_at br' = br_at br"
  using assms by (auto simp: pull_window_def Let_def split: if_splits bind_splits)

lemma byte_at_keeps:
  assumes "byte_at r idx br = Some (b, br')"
  shows "br_size br' = br_size br" "br_at br' = br_at br" "idx < br_size br"
  using assms by (auto simp: byte_at_def pull_window_keeps split: if_splits option.splits bind_splits)

lemma read_bit_left:
  assumes "read_bit r br = Some (b, br')"
  shows "bits_left br' < bits_left br"
proof -
  obtain byte br1 where "byte_at r (br_at br div 8) br = Some (byte, br1)" "br' = br1\<lparr>br_at := br_at br + 1\<rparr>"
    using assms by (auto simp: read_bit_def split: bind_splits)
  with byte_at_keeps [OF this(1)] show ?thesis by (simp add: bits_left_def)
qed

section \<open>Numbers\<close>

text \<open>The unary prefix of a Golomb-Rice number.\<close>

function rice_prefix :: "reader \<Rightarrow> nat \<Rightarrow> u32 \<Rightarrow> bit_reader \<Rightarrow> (u32 \<times> bit_reader) option" where
  "rice_prefix r k q br =
     (case read_bit r br of None \<Rightarrow> None
      | Some (b, br1) \<Rightarrow>
          if b = 0 then Some (q, br1)
          else if drop_bit k 0xFFFFFFFF < q + 1 then None
          else rice_prefix r k (q + 1) br1)"
  by pat_completeness auto
termination
  by (relation "measure (\<lambda>(r, k, q, br). bits_left br)") (auto dest: read_bit_left)

declare rice_prefix.simps [simp del]

text \<open>The loop that collects bits, least significant first.\<close>

fun read_low :: "reader \<Rightarrow> nat list \<Rightarrow> u32 \<Rightarrow> bit_reader \<Rightarrow> (u32 \<times> bit_reader) option" where
  "read_low r [] v br = Some (v, br)"
| "read_low r (i # is) v br = do { (b, br1) \<leftarrow> read_bit r br; read_low r is (v OR push_bit i b) br1 }"

definition rice :: "reader \<Rightarrow> nat \<Rightarrow> bit_reader \<Rightarrow> (u32 \<times> bit_reader) option" where
  "rice r k br = do { (q, br1) \<leftarrow> rice_prefix r k 0 br; read_low r [0..<k] (push_bit k q) br1 }"

definition raw32 :: "reader \<Rightarrow> bit_reader \<Rightarrow> (u32 \<times> bit_reader) option" where
  "raw32 r br = read_low r [0..<32] 0 br"

text \<open>The padding after a chunk's last step: the loop of \<^verbatim>\<open>endsAt\<close>.\<close>

function skip_padding :: "reader \<Rightarrow> nat \<Rightarrow> bit_reader \<Rightarrow> bool" where
  "skip_padding r next_byte br =
     (if br_at br div 8 < next_byte then
        (case read_bit r br of None \<Rightarrow> False | Some (b, br1) \<Rightarrow> b = 0 \<and> skip_padding r next_byte br1)
      else True)"
  by pat_completeness auto
termination
  by (relation "measure (\<lambda>(r, n, br). bits_left br)") (auto dest: read_bit_left)

declare skip_padding.simps [simp del]

definition ends_at :: "reader \<Rightarrow> nat \<Rightarrow> bit_reader \<Rightarrow> bool" where
  "ends_at r next_byte br =
     (let pos = br_at br div 8 in
      if next_byte < pos \<or> 4 < next_byte - pos then False else skip_padding r next_byte br)"

section \<open>One step of the stream\<close>

text \<open>An ARM advance, in instructions, with the x86 advance that follows it: a Golomb-Rice pair, or, after
  a zero, two raw numbers.\<close>

definition rice_pair :: "reader \<Rightarrow> nat \<Rightarrow> u32 \<Rightarrow> bit_reader \<Rightarrow> ((u32 \<times> u32) \<times> bit_reader) option" where
  "rice_pair r k1 a br = do { (d_x86, br1) \<leftarrow> rice r k1 br; Some ((a, d_x86), br1) }"

definition raw_pair :: "reader \<Rightarrow> bit_reader \<Rightarrow> ((u32 \<times> u32) \<times> bit_reader) option" where
  "raw_pair r br = do { (d_arm, br1) \<leftarrow> raw32 r br; (d_x86, br2) \<leftarrow> raw32 r br1; Some ((d_arm, d_x86), br2) }"

definition step_flags :: "reader \<Rightarrow> nat \<Rightarrow> u32 \<Rightarrow> bit_reader \<Rightarrow> ((u32 \<times> u32) \<times> bit_reader) option" where
  "step_flags r k2 selector br =
     (if selector = 1 then Some ((1, 0), br)
      else if selector = 2 then do { (extra, br1) \<leftarrow> rice r k2 br; Some ((1, push_bit 8 extra AND 0xFF00), br1) }
      else if selector = 3 then Some ((2, 0), br)
      else if selector = 4 then Some ((3, 0), br)
      else Some ((0, 0), br))"

definition step_deltas :: "reader \<Rightarrow> nat \<Rightarrow> nat \<Rightarrow> bit_reader \<Rightarrow> ((u32 \<times> u32 \<times> u32) \<times> bit_reader) option" where
  "step_deltas r k1 k2 br = do {
     (a, br1) \<leftarrow> rice r k2 br;
     if a \<noteq> 0 then do { ((d_arm, d_x86), br2) \<leftarrow> rice_pair r k1 a br1; Some ((d_arm, d_x86, 0), br2) }
     else do {
       (sel, br2) \<leftarrow> rice r k2 br1;
       let selector = sel AND 0xff in
       if selector = 0 then do { ((d_arm, d_x86), br3) \<leftarrow> raw_pair r br2; Some ((d_arm, d_x86, 0), br3) }
       else do {
         ((lo, hi), br3) \<leftarrow> step_flags r k2 selector br2;
         (a2, br4) \<leftarrow> rice r k2 br3;
         ((d_arm, d_x86), br5) \<leftarrow> (if a2 \<noteq> 0 then rice_pair r k1 a2 br4 else raw_pair r br4);
         Some ((d_arm, d_x86, hi OR lo), br5) } } }"

definition step :: "reader \<Rightarrow> u8 list \<Rightarrow> u32 \<Rightarrow> u32 \<Rightarrow> bit_reader \<Rightarrow> ((u32 \<times> u32 \<times> u32) \<times> bit_reader) option" where
  "step r k x86 arm br = do {
     ((d_arm, d_x86, flag), br1) \<leftarrow> step_deltas r (unat (k ! 1)) (unat (k ! 2)) br;
     if d_arm = 0 \<or> kMaxFragmentSize div 4 < d_arm then None
     else Some ((x86 + d_x86, arm + d_arm * 4, flag), br1) }"

section \<open>What the stream encodes\<close>

definition bits_of :: "u8 list \<Rightarrow> bool list" where
  "bits_of bs = concat (map (\<lambda>b. map (bit b) [0..<8]) bs)"

text \<open>The codes of a number, and of one step: every form the format has.\<close>

definition rice_code :: "nat \<Rightarrow> u32 \<Rightarrow> bool list" where
  "rice_code k v = replicate (unat (drop_bit k v)) True @ False # map (bit v) [0..<k]"

definition raw_code :: "u32 \<Rightarrow> bool list" where
  "raw_code v = map (bit v) [0..<32]"

text \<open>Where the pair of advances is a Golomb-Rice pair and where it is raw: the ARM advance is never zero.\<close>

definition pair_code :: "nat \<Rightarrow> nat \<Rightarrow> bool \<Rightarrow> u32 \<Rightarrow> u32 \<Rightarrow> bool list" where
  "pair_code k1 k2 raw d_arm d_x86 =
     (if raw then rice_code k2 0 @ raw_code d_arm @ raw_code d_x86 else rice_code k2 d_arm @ rice_code k1 d_x86)"

text \<open>The selector and the extra number that announce a flag word.\<close>

definition flag_code :: "nat \<Rightarrow> u32 \<Rightarrow> u32 \<Rightarrow> bool list" where
  "flag_code k2 selector extra = rice_code k2 0 @ rice_code k2 selector @ (if selector = 2 then rice_code k2 extra else [])"

definition flag_word :: "u32 \<Rightarrow> u32 \<Rightarrow> u32" where
  "flag_word selector extra =
     (if selector = 1 then 1 else if selector = 2 then (push_bit 8 extra AND 0xFF00) OR 1
      else if selector = 3 then 2 else if selector = 4 then 3 else 0)"

inductive codes_step :: "nat \<Rightarrow> nat \<Rightarrow> u32 \<Rightarrow> u32 \<Rightarrow> u32 \<Rightarrow> bool list \<Rightarrow> bool" for k1 k2 where
  plain: "d_arm \<noteq> 0 \<Longrightarrow> codes_step k1 k2 d_arm d_x86 0 (pair_code k1 k2 False d_arm d_x86)"
| plain_raw: "codes_step k1 k2 d_arm d_x86 0 (rice_code k2 0 @ pair_code k1 k2 True d_arm d_x86)"
| flagged: "selector \<noteq> 0 \<Longrightarrow> selector \<le> 0xff \<Longrightarrow> raw \<or> d_arm \<noteq> 0 \<Longrightarrow>
    codes_step k1 k2 d_arm d_x86 (flag_word selector extra) (flag_code k2 selector extra @ pair_code k1 k2 raw d_arm d_x86)"

end
