(* ===== verification/Guest_Decode.thy ===== *)
theory Guest_Decode
  imports Guest_Stream
begin

text \<open>
  Reading back what the stream encodes.  The interface \<open>bit_source\<close> is a reader that has a given list of
  bits ahead of it; every number and every step the stream can encode is read back through it.  It holds of
  both readers of the code, the one over memory and the one that pulls windows.
\<close>

section \<open>Bits of bytes\<close>

lemma length_bits_of [simp]: "length (bits_of bs) = 8 * length bs"
  by (simp add: bits_of_def length_concat comp_def sum_list_triv)

lemma bits_of_Cons: "bits_of (b # bs) = map (bit b) [0..<8] @ bits_of bs"
  by (simp add: bits_of_def)

lemma bits_of_nth: "i < 8 * length bs \<Longrightarrow> bits_of bs ! i = bit (bs ! (i div 8)) (i mod 8)"
proof (induction bs arbitrary: i)
  case (Cons b bs)
  show ?case
  proof (cases "i < 8")
    case True
    then show ?thesis by (simp add: bits_of_Cons nth_append del: upt_Suc)
  next
    case False
    then obtain j where j: "i = j + 8" by (metis add.commute le_Suc_ex not_less)
    then have "j < 8 * length bs" using Cons.prems by simp
    moreover have d: "(j + 8) div 8 = Suc (j div 8)" and m: "(j + 8) mod 8 = j mod 8" by presburger+
    ultimately show ?thesis using Cons.IH [of j] unfolding j d m by (simp add: bits_of_Cons nth_append)
  qed
qed simp

lemma shifted_bit:
  assumes "n < 8"
  shows "drop_bit n (ucast (b :: u8)) AND (1 :: u32) = of_bool (bit b n)"
  by (rule bit_word_eqI) (use assms in \<open>auto simp: bit_simps bit_1_iff\<close>)

lemma collect_low:
  "fold (\<lambda>i v. v OR push_bit i (of_bool (bit (w :: u32) i))) [0..<k] v = v OR take_bit k w"
proof (induction k)
  case (Suc k)
  have "(v OR take_bit k w) OR push_bit k (of_bool (bit w k)) = v OR take_bit (Suc k) w"
    by (rule bit_word_eqI) (auto simp: bit_simps less_Suc_eq)
  then show ?case using Suc by simp
qed simp

lemma unary_prefix:
  assumes "i < unat (drop_bit k (v :: u32))"
  shows "\<not> drop_bit k (0xFFFFFFFF :: u32) < 0 + word_of_nat i + 1"
proof -
  have top: "drop_bit k v \<le> drop_bit k 0xFFFFFFFF"
  proof -
    have "unat v < 2 ^ LENGTH(32)" by (rule unsigned_less)
    then have "unat v \<le> 4294967295" by simp
    then show ?thesis by (simp only: word_le_nat_alt unat_drop_bit_eq) (simp add: drop_bit_eq_div div_le_mono)
  qed
  have "unat (drop_bit k v) < 2 ^ LENGTH(32)" by (rule unsigned_less)
  then have "Suc i < 2 ^ 32" using assms by simp
  then have "unat (word_of_nat (Suc i) :: u32) = Suc i" by (simp only: unat_of_nat) simp
  then have "unat (word_of_nat i + 1 :: u32) = Suc i" by (simp add: add.commute)
  then show ?thesis using assms top by (simp add: word_less_nat_alt word_le_nat_alt)
qed

section \<open>The interface\<close>

definition reads :: "(bit_reader \<Rightarrow> bool list \<Rightarrow> bool) \<Rightarrow> (bit_reader \<Rightarrow> ('a \<times> bit_reader) option) \<Rightarrow> bool list \<Rightarrow> 'a \<Rightarrow> bool" where
  "reads ahead f c v \<longleftrightarrow> (\<forall>br rest. ahead br (c @ rest) \<longrightarrow>
     (\<exists>br'. f br = Some (v, br') \<and> ahead br' rest \<and> br_at br' = br_at br + length c))"

lemma reads_bind:
  assumes "reads ahead f c v" "reads ahead (g v) d w"
  shows "reads ahead (\<lambda>br. do { (x, br1) \<leftarrow> f br; g x br1 }) (c @ d) w"
  unfolding reads_def
proof (intro allI impI)
  fix br rest
  assume "ahead br ((c @ d) @ rest)"
  then obtain br1 where b1: "f br = Some (v, br1)" "ahead br1 (d @ rest)" "br_at br1 = br_at br + length c"
    using assms(1) unfolding reads_def append_assoc by blast
  obtain br2 where "g v br1 = Some (w, br2)" "ahead br2 rest" "br_at br2 = br_at br1 + length d"
    using assms(2) b1(2) unfolding reads_def by blast
  then show "\<exists>br'. do { (x, br1) \<leftarrow> f br; g x br1 } = Some (w, br') \<and> ahead br' rest \<and>
      br_at br' = br_at br + length (c @ d)"
    using b1(1,3) by simp
qed

lemma reads_return: "reads ahead (\<lambda>br. Some (v, br)) [] v"
  by (simp add: reads_def)

lemma reads_map:
  assumes "reads ahead f c v"
  shows "reads ahead (\<lambda>br. do { (x, br1) \<leftarrow> f br; Some (h x, br1) }) c (h v)"
  using assms unfolding reads_def by fastforce

lemma reads_map2:
  assumes "reads ahead f c (v, w)"
  shows "reads ahead (\<lambda>br. do { ((x, y), br1) \<leftarrow> f br; Some (h x y, br1) }) c (h v w)"
  using assms unfolding reads_def by fastforce

locale bit_source =
  fixes r :: reader and ahead :: "bit_reader \<Rightarrow> bool list \<Rightarrow> bool"
  assumes read_ahead: "ahead br (b # bs) \<Longrightarrow>
      \<exists>br'. read_bit r br = Some (of_bool b, br') \<and> ahead br' bs \<and> br_at br' = Suc (br_at br)"
begin

lemma reads_bit: "reads ahead (read_bit r) [b] (of_bool b)"
  by (simp add: reads_def read_ahead)

lemma reads_low:
  "reads ahead (read_low r is v) (map (bit (w :: u32)) is) (fold (\<lambda>i v. v OR push_bit i (of_bool (bit w i))) is v)"
proof (induction "is" arbitrary: v)
  case Nil
  then show ?case by (simp add: reads_return)
next
  case (Cons i "is")
  show ?case
    using reads_bind [OF reads_bit [of "bit w i"], where g = "\<lambda>b. read_low r is (v OR push_bit i b)", OF Cons.IH]
    by simp
qed

lemma reads_prefix:
  assumes "\<And>i. i < n \<Longrightarrow> \<not> drop_bit k 0xFFFFFFFF < q + word_of_nat i + 1"
  shows "reads ahead (rice_prefix r k q) (replicate n True @ [False]) (q + word_of_nat n)"
  using assms
proof (induction n arbitrary: q)
  case 0
  have "\<exists>br'. rice_prefix r k q br = Some (q, br') \<and> ahead br' rest \<and> br_at br' = Suc (br_at br)"
    if a: "ahead br (False # rest)" for br rest
  proof -
    obtain br' where "read_bit r br = Some (of_bool False, br')" "ahead br' rest" "br_at br' = Suc (br_at br)"
      using read_ahead [OF a] by blast
    then show ?thesis by (simp add: rice_prefix.simps [of r k q br])
  qed
  then show ?case by (simp add: reads_def)
next
  case (Suc n)
  have p: "reads ahead (rice_prefix r k (q + 1)) (replicate n True @ [False]) (q + 1 + word_of_nat n)"
    by (rule Suc.IH) (use Suc.prems [of "Suc i" for i] in \<open>simp add: algebra_simps\<close>)
  have ok: "\<not> drop_bit k 0xFFFFFFFF < q + 1" using Suc.prems [of 0] by simp
  have "\<exists>br'. rice_prefix r k q br = Some (q + word_of_nat (Suc n), br') \<and> ahead br' rest \<and>
      br_at br' = br_at br + Suc (Suc n)"
    if a: "ahead br (True # replicate n True @ False # rest)" for br rest
  proof -
    obtain b1 where b1: "read_bit r br = Some (of_bool True, b1)" "ahead b1 ((replicate n True @ [False]) @ rest)"
        "br_at b1 = Suc (br_at br)"
      using read_ahead [OF a] by auto
    obtain b2 where "rice_prefix r k (q + 1) b1 = Some (q + 1 + word_of_nat n, b2)" "ahead b2 rest"
        "br_at b2 = br_at b1 + length (replicate n True @ [False])"
      using p b1(2) unfolding reads_def by blast
    then show ?thesis using b1 ok by (simp add: rice_prefix.simps [of r k q br] algebra_simps)
  qed
  then show ?case by (simp add: reads_def)
qed

lemma reads_rice: "reads ahead (rice r k) (rice_code k v) v"
proof -
  have p: "reads ahead (rice_prefix r k 0) (replicate (unat (drop_bit k v)) True @ [False]) (drop_bit k v)"
    using reads_prefix [of "unat (drop_bit k v)" k 0, OF unary_prefix] by simp
  have l: "reads ahead (read_low r [0..<k] (push_bit k (drop_bit k v))) (map (bit v) [0..<k]) v"
  proof -
    have "push_bit k (drop_bit k v) OR take_bit k v = v"
      by (rule bit_word_eqI) (auto simp: bit_simps)
    then show ?thesis
      using reads_low [of "[0..<k]" "push_bit k (drop_bit k v)" v] by (simp only: collect_low)
  qed
  show ?thesis
    using reads_bind [OF p, where g = "\<lambda>q. read_low r [0..<k] (push_bit k q)", OF l]
    by (simp add: rice_def [abs_def] rice_code_def)
qed

lemma reads_raw32: "reads ahead (raw32 r) (raw_code v) v"
  using reads_low [of "[0..<32]" 0 v] by (simp only: collect_low) (simp add: raw32_def [abs_def] raw_code_def take_bit_word_eq_self)

lemma reads_rice_pair: "reads ahead (rice_pair r k1 a) (rice_code k1 d) (a, d)"
  unfolding rice_pair_def [abs_def] by (rule reads_map [OF reads_rice])

lemma reads_raw_pair: "reads ahead (raw_pair r) (raw_code a @ raw_code d) (a, d)"
  unfolding raw_pair_def [abs_def] by (rule reads_bind [OF reads_raw32 reads_map [OF reads_raw32]])

lemma reads_flags:
  "reads ahead (step_flags r k2 selector) (if selector = 2 then rice_code k2 extra else [])
     (if selector = 1 \<or> selector = 2 then 1 else if selector = 3 then 2 else if selector = 4 then 3 else 0,
      if selector = 2 then push_bit 8 extra AND 0xFF00 else 0)"
  unfolding step_flags_def [abs_def]
  by (simp add: reads_return reads_map [OF reads_rice, where h = "\<lambda>e. (1, push_bit 8 e AND 0xFF00)"])

text \<open>The end of a flagged step: its pair of advances, raw when the leading number is zero.\<close>

lemma reads_pair_end:
  assumes "raw \<or> d_arm \<noteq> 0"
  shows "reads ahead (\<lambda>br. do { (a2, br4) \<leftarrow> rice r k2 br;
      ((d_arm, d_x86), br5) \<leftarrow> (if a2 \<noteq> 0 then rice_pair r k1 a2 br4 else raw_pair r br4);
      Some (f d_arm d_x86, br5) }) (pair_code k1 k2 raw d_arm d_x86) (f d_arm d_x86)"
proof (cases raw)
  case True
  then show ?thesis
    using reads_bind [OF reads_rice [of k2 0], where g = "\<lambda>a2 br4. do { ((d_arm, d_x86), br5) \<leftarrow>
      (if a2 \<noteq> 0 then rice_pair r k1 a2 br4 else raw_pair r br4); Some (f d_arm d_x86, br5) }",
      of "raw_code d_arm @ raw_code d_x86"] reads_map2 [OF reads_raw_pair, where h = f]
    by (simp add: pair_code_def)
next
  case False
  then show ?thesis
    using assms reads_bind [OF reads_rice [of k2 d_arm], where g = "\<lambda>a2 br4. do { ((d_arm, d_x86), br5) \<leftarrow>
      (if a2 \<noteq> 0 then rice_pair r k1 a2 br4 else raw_pair r br4); Some (f d_arm d_x86, br5) }",
      of "rice_code k1 d_x86"] reads_map2 [OF reads_rice_pair, where h = f]
    by (simp add: pair_code_def)
qed

lemma reads_step_deltas:
  assumes "codes_step k1 k2 d_arm d_x86 flags c"
  shows "reads ahead (step_deltas r k1 k2) c (d_arm, d_x86, flags)"
  using assms
proof cases
  case plain
  show ?thesis
    unfolding plain(2) pair_code_def step_deltas_def [abs_def] if_False
  proof (rule reads_bind [OF reads_rice])
    show "reads ahead (\<lambda>br1. if d_arm \<noteq> 0 then do { ((a, d), br2) \<leftarrow> rice_pair r k1 d_arm br1; Some ((a, d, 0), br2) } else x br1)
        (rice_code k1 d_x86) (d_arm, d_x86, flags)" for x
      using plain reads_map2 [OF reads_rice_pair, where h = "\<lambda>a d. (a, d, 0 :: u32)"] by simp
  qed
next
  case plain_raw
  show ?thesis
    unfolding plain_raw(2) pair_code_def step_deltas_def [abs_def] if_True
  proof (rule reads_bind [OF reads_rice], simp, rule reads_bind [OF reads_rice])
    show "reads ahead (\<lambda>br2. let selector = 0 AND 0xff in
          if selector = (0 :: u32) then do { ((a, d), br3) \<leftarrow> raw_pair r br2; Some ((a, d, 0), br3) } else x selector br2)
        (raw_code d_arm @ raw_code d_x86) (d_arm, d_x86, flags)" for x
      using plain_raw reads_map2 [OF reads_raw_pair, where h = "\<lambda>a d. (a, d, 0 :: u32)"] by simp
  qed
next
  case (flagged selector raw extra)
  have "unat (take_bit 8 selector) = unat selector"
    using flagged(4) by (simp add: unsigned_take_bit_eq take_bit_nat_eq_self word_le_nat_alt)
  then have "take_bit 8 selector = selector" by (rule unsigned_word_eqI)
  then have low: "selector AND 0xff = selector"
    by (simp add: take_bit_eq_mask mask_eq_exp_minus_1)
  let ?lo = "if selector = 1 \<or> selector = 2 then 1 else if selector = 3 then 2 else if selector = 4 then 3 else 0"
  let ?hi = "if selector = 2 then push_bit 8 extra AND 0xFF00 else 0"
  have fl: "flags = ?hi OR ?lo"
    by (simp add: flagged(1) flag_word_def)
  have "reads ahead (\<lambda>br2. do {
        ((lo, hi), br3) \<leftarrow> step_flags r k2 selector br2;
        (a2, br4) \<leftarrow> rice r k2 br3;
        ((d_arm, d_x86), br5) \<leftarrow> (if a2 \<noteq> 0 then rice_pair r k1 a2 br4 else raw_pair r br4);
        Some ((d_arm, d_x86, hi OR lo), br5) })
      ((if selector = 2 then rice_code k2 extra else []) @ pair_code k1 k2 raw d_arm d_x86) (d_arm, d_x86, flags)"
    unfolding fl by (rule reads_bind [OF reads_flags], unfold prod.case, rule reads_pair_end [OF flagged(5)])
  then show ?thesis
    unfolding flagged(2) flag_code_def step_deltas_def [abs_def] append_assoc
    by - (rule reads_bind [OF reads_rice], simp split del: if_split, rule reads_bind [OF reads_rice],
        simp add: flagged(3) low split del: if_split)
qed

lemma reads_step:
  assumes "codes_step (unat (k ! 1)) (unat (k ! 2)) d_arm d_x86 flags c" "d_arm \<noteq> 0" "d_arm \<le> kMaxFragmentSize div 4"
  shows "reads ahead (step r k x86 arm) c (x86 + d_x86, arm + d_arm * 4, flags)"
proof -
  have "reads ahead (\<lambda>br1. if d_arm = 0 \<or> kMaxFragmentSize div 4 < d_arm then None
      else Some ((x86 + d_x86, arm + d_arm * 4, flags), br1)) [] (x86 + d_x86, arm + d_arm * 4, flags)"
    using assms(2) assms(3) [THEN leD] by (simp add: reads_return)
  then have "reads ahead (step r k x86 arm) (c @ []) (x86 + d_x86, arm + d_arm * 4, flags)"
    unfolding step_def [abs_def] by - (rule reads_bind [OF reads_step_deltas [OF assms(1)]], simp)
  then show ?thesis by simp
qed

end

section \<open>The two readers of the code\<close>

text \<open>What is ahead of a reader over memory.\<close>

definition mem_ahead :: "bit_reader \<Rightarrow> bool list \<Rightarrow> bool" where
  "mem_ahead br bs \<longleftrightarrow> (\<exists>data. br_mem br = Some data \<and> br_size br \<le> length data \<and>
     br_at br \<le> 8 * br_size br \<and> bs = drop (br_at br) (bits_of (take (br_size br) data)))"

text \<open>What is ahead of a reader that pulls windows of a memory \<open>m\<close>, through a callback whose answers agree with
  \<open>m\<close>.\<close>

definition bytes :: "(u64 \<Rightarrow> u8) \<Rightarrow> u64 \<Rightarrow> nat \<Rightarrow> u8 list" where
  "bytes m a n = map (\<lambda>i. m (a + word_of_nat i)) [0..<n]"

definition faithful :: "(u64 \<Rightarrow> u8) \<Rightarrow> reader \<Rightarrow> bool" where
  "faithful m r \<longleftrightarrow> (\<forall>a n w. r a n = Some w \<longrightarrow> w = bytes m a n)"

definition window_of :: "(u64 \<Rightarrow> u8) \<Rightarrow> bit_reader \<Rightarrow> bool" where
  "window_of m br \<longleftrightarrow> br_mem br = None \<and>
     br_win br = bytes m (br_addr br + word_of_nat (br_win_start br)) (br_win_len br)"

definition window_ahead :: "(u64 \<Rightarrow> u8) \<Rightarrow> bit_reader \<Rightarrow> bool list \<Rightarrow> bool" where
  "window_ahead m br bs \<longleftrightarrow> window_of m br \<and> br_at br \<le> 8 * br_size br \<and>
     bs = drop (br_at br) (bits_of (bytes m (br_addr br) (br_size br)))"

lemma length_bytes [simp]: "length (bytes m a n) = n"
  by (simp add: bytes_def)

lemma bytes_nth [simp]: "i < n \<Longrightarrow> bytes m a n ! i = m (a + word_of_nat i)"
  by (simp add: bytes_def)

lemma pull_window_of:
  assumes "faithful m r" "window_of m br" "pull_window r idx br = Some br'" "idx < br_size br"
  shows "window_of m br' \<and> br_addr br' = br_addr br \<and> br_size br' = br_size br \<and> br_at br' = br_at br \<and>
    br_win_start br' \<le> idx \<and> idx < br_win_start br' + br_win_len br'"
  using assms by (auto simp: pull_window_def Let_def faithful_def window_of_def split: if_splits bind_splits)

lemma byte_at_window:
  assumes "faithful m r" "window_of m br" "byte_at r idx br = Some (b, br')"
  shows "window_of m br' \<and> br_addr br' = br_addr br \<and> br_size br' = br_size br \<and> br_at br' = br_at br \<and>
    b = m (br_addr br + word_of_nat idx)"
proof -
  obtain br1 where w: "pull_window r idx br = Some br1" "idx < br_size br" "br' = br1"
      "b = br_win br1 ! (idx - br_win_start br1)"
    using assms(2,3) by (auto simp: byte_at_def window_of_def split: if_splits bind_splits)
  note k = pull_window_of [OF assms(1,2) w(1,2)]
  have "word_of_nat (br_win_start br1) + (word_of_nat (idx - br_win_start br1) :: u64) = word_of_nat idx"
    using k by (simp flip: of_nat_add)
  then show ?thesis using k by (auto simp: w(3,4) window_of_def add.assoc)
qed

lemma drop_bits_nth:
  assumes "at \<le> 8 * length bs" "b # rest = drop at (bits_of bs)"
  shows "at div 8 < length bs \<and> b = bit (bs ! (at div 8)) (at mod 8) \<and> rest = drop (Suc at) (bits_of bs)"
proof -
  have l: "at < 8 * length bs" using assms by (cases "at = 8 * length bs") auto
  then have "drop at (bits_of bs) = bits_of bs ! at # drop (Suc at) (bits_of bs)"
    by (simp add: Cons_nth_drop_Suc)
  then show ?thesis using assms(2) l bits_of_nth [OF l] by auto
qed

interpretation memory: bit_source r mem_ahead for r
proof unfold_locales
  fix br b bs
  assume a: "mem_ahead br (b # bs)"
  then obtain data where d: "br_mem br = Some data" "br_size br \<le> length data" "br_at br \<le> 8 * br_size br"
      "b # bs = drop (br_at br) (bits_of (take (br_size br) data))"
    by (auto simp: mem_ahead_def)
  have n: "br_at br div 8 < br_size br" "b = bit (data ! (br_at br div 8)) (br_at br mod 8)"
      "bs = drop (Suc (br_at br)) (bits_of (take (br_size br) data))"
    using drop_bits_nth [OF _ d(4)] d(2,3) by auto
  then show "\<exists>br'. read_bit r br = Some (of_bool b, br') \<and> mem_ahead br' bs \<and> br_at br' = Suc (br_at br)"
    using d(1,2) by (auto simp: read_bit_def byte_at_def shifted_bit mem_ahead_def)
qed

text \<open>A callback that never fails.\<close>

definition whole :: "(u64 \<Rightarrow> u8) \<Rightarrow> reader" where
  "whole m a n = Some (bytes m a n)"

lemma faithful_whole: "faithful m (whole m)"
  by (simp add: faithful_def whole_def)

lemma byte_at_whole:
  assumes "window_of m br" "idx < br_size br"
  obtains b br' where "byte_at (whole m) idx br = Some (b, br')"
  using assms that
  by (cases "idx < br_win_start br \<or> br_win_start br + br_win_len br \<le> idx")
    (auto simp: byte_at_def window_of_def pull_window_def whole_def Let_def)

interpretation windows: bit_source "whole m" "window_ahead m" for m
proof unfold_locales
  fix br b bs
  assume a: "window_ahead m br (b # bs)"
  then have n: "br_at br div 8 < br_size br \<and> b = bit (m (br_addr br + word_of_nat (br_at br div 8))) (br_at br mod 8) \<and>
      bs = drop (Suc (br_at br)) (bits_of (bytes m (br_addr br) (br_size br)))"
    using drop_bits_nth [of "br_at br" "bytes m (br_addr br) (br_size br)" b bs] by (auto simp: window_ahead_def)
  obtain x br1 where x: "byte_at (whole m) (br_at br div 8) br = Some (x, br1)"
    using byte_at_whole [of m br] a n by (auto simp: window_ahead_def)
  note k = byte_at_window [OF faithful_whole _ x]
  show "\<exists>br'. read_bit (whole m) br = Some (of_bool b, br') \<and> window_ahead m br' bs \<and> br_at br' = Suc (br_at br)"
    using k a n x by (auto simp: read_bit_def window_ahead_def shifted_bit window_of_def)
qed

section \<open>Two readers of one stream\<close>

text \<open>What two runs of one operation give: the first may fail where the callback loses reads, and otherwise
  they give the same value in corresponding states.\<close>

definition agrees :: "bool \<Rightarrow> (bit_reader \<Rightarrow> bit_reader \<Rightarrow> bool) \<Rightarrow> ('a \<times> bit_reader) option \<Rightarrow> ('a \<times> bit_reader) option \<Rightarrow> bool" where
  "agrees lossy S x y \<longleftrightarrow> (x = None \<and> lossy) \<or> rel_option (rel_prod (=) S) x y"

lemma agrees_None [simp]: "agrees lossy S None None"
  by (simp add: agrees_def)

lemma agrees_Some [simp]: "agrees lossy S (Some (v, b1)) (Some (w, b2)) \<longleftrightarrow> v = w \<and> S b1 b2"
  by (simp add: agrees_def)

lemma agrees_cases:
  assumes "agrees lossy S x y"
  obtains "x = None" lossy | "x = None" "y = None" | v b1 b2 where "x = Some (v, b1)" "y = Some (v, b2)" "S b1 b2"
  using assms by (auto simp: agrees_def rel_option_iff rel_prod_conv split: option.splits)

lemma agrees_bind:
  assumes "agrees lossy S x y" "\<And>v b1 b2. S b1 b2 \<Longrightarrow> agrees lossy T (f v b1) (g v b2)"
  shows "agrees lossy T (do { (v, b1) \<leftarrow> x; f v b1 }) (do { (v, b2) \<leftarrow> y; g v b2 })"
  using assms(1) by (rule agrees_cases) (auto simp: assms(2), simp_all add: agrees_def)

lemma agrees_if:
  "(c \<Longrightarrow> agrees lossy S x y) \<Longrightarrow> (\<not> c \<Longrightarrow> agrees lossy S x' y') \<Longrightarrow>
    agrees lossy S (if c then x else x') (if c then y else y')"
  by simp

lemma agrees_split:
  "(\<And>a d. v = (a, d) \<Longrightarrow> agrees lossy S (F a d b1) (G a d b2)) \<Longrightarrow>
    agrees lossy S (case_prod F v b1) (case_prod G v b2)"
  by (cases v) simp

locale two_readers =
  fixes r1 r2 :: reader and lossy :: bool and same :: "bit_reader \<Rightarrow> bit_reader \<Rightarrow> bool"
  assumes same_bit: "same b1 b2 \<Longrightarrow> agrees lossy same (read_bit r1 b1) (read_bit r2 b2)"
begin

lemma same_low: "same b1 b2 \<Longrightarrow> agrees lossy same (read_low r1 is v b1) (read_low r2 is v b2)"
  by (induction "is" arbitrary: v b1 b2) (auto intro!: agrees_bind same_bit)

lemma same_prefix: "same b1 b2 \<Longrightarrow> agrees lossy same (rice_prefix r1 k q b1) (rice_prefix r2 k q b2)"
proof (induction "bits_left b1" arbitrary: q b1 b2 rule: less_induct)
  case less
  show ?case
    using same_bit [OF less.prems]
  proof (cases rule: agrees_cases)
    case 1
    then show ?thesis by (simp add: rice_prefix.simps [of r1] agrees_def)
  next
    case 2
    then show ?thesis by (simp add: rice_prefix.simps [of r1] rice_prefix.simps [of r2])
  next
    case (3 v c1 c2)
    then show ?thesis
      using less.hyps [OF read_bit_left [OF 3(1)] 3(3)]
      by (simp add: rice_prefix.simps [of r1 k q b1] rice_prefix.simps [of r2 k q b2])
  qed
qed

lemmas agrees_intros = agrees_bind [where S = same] agrees_if agrees_split

lemma same_rice: "same b1 b2 \<Longrightarrow> agrees lossy same (rice r1 k b1) (rice r2 k b2)"
  unfolding rice_def by (intro agrees_intros same_prefix same_low) simp_all

lemma same_raw32: "same b1 b2 \<Longrightarrow> agrees lossy same (raw32 r1 b1) (raw32 r2 b2)"
  unfolding raw32_def by (rule same_low)

lemma same_rice_pair: "same b1 b2 \<Longrightarrow> agrees lossy same (rice_pair r1 k a b1) (rice_pair r2 k a b2)"
  unfolding rice_pair_def by (intro agrees_intros same_rice) simp_all

lemma same_raw_pair: "same b1 b2 \<Longrightarrow> agrees lossy same (raw_pair r1 b1) (raw_pair r2 b2)"
  unfolding raw_pair_def by (intro agrees_intros same_raw32) simp_all

lemma same_flags: "same b1 b2 \<Longrightarrow> agrees lossy same (step_flags r1 k s b1) (step_flags r2 k s b2)"
  unfolding step_flags_def by (intro agrees_intros same_rice) simp_all

lemma same_step: "same b1 b2 \<Longrightarrow> agrees lossy same (step r1 k x a b1) (step r2 k x a b2)"
  unfolding step_def step_deltas_def Let_def
  by (intro agrees_intros same_rice same_rice_pair same_raw_pair same_flags) simp_all

end

text \<open>A reader that pulls windows of \<open>m\<close> and one over a copy of the same bytes.\<close>

definition same_stream :: "(u64 \<Rightarrow> u8) \<Rightarrow> bit_reader \<Rightarrow> bit_reader \<Rightarrow> bool" where
  "same_stream m b1 b2 \<longleftrightarrow> window_of m b1 \<and> br_size b2 = br_size b1 \<and> br_at b2 = br_at b1 \<and>
     (\<exists>data. br_mem b2 = Some data \<and> (\<forall>i<br_size b1. data ! i = m (br_addr b1 + word_of_nat i)))"

text \<open>Whether a callback loses reads.\<close>

definition loses :: "reader \<Rightarrow> bool" where
  "loses r \<longleftrightarrow> (\<exists>a n. r a n = None)"

lemma not_loses: "faithful m r \<Longrightarrow> \<not> loses r \<Longrightarrow> r = whole m"
  by (intro ext) (metis faithful_def loses_def not_None_eq whole_def)

lemma same_stream_bit:
  assumes "faithful m r" "same_stream m b1 b2"
  shows "agrees (loses r) (same_stream m) (read_bit r b1) (read_bit r2 b2)"
proof -
  obtain data where d: "br_mem b2 = Some data" "\<forall>i<br_size b1. data ! i = m (br_addr b1 + word_of_nat i)"
      and s: "window_of m b1" "br_size b2 = br_size b1" "br_at b2 = br_at b1"
    using assms(2) by (auto simp: same_stream_def)
  let ?i = "br_at b1 div 8"
  consider "br_size b1 \<le> ?i" | "?i < br_size b1" "byte_at r ?i b1 = None" | x c where "?i < br_size b1" "byte_at r ?i b1 = Some (x, c)"
    by (cases "byte_at r ?i b1"; cases "br_size b1 \<le> ?i") auto
  then show ?thesis
  proof cases
    case 1
    then show ?thesis by (simp add: read_bit_def byte_at_def s)
  next
    case 2
    then have "r \<noteq> whole m" using byte_at_whole [OF s(1) 2(1)] by force
    then have "loses r" using not_loses [OF assms(1)] by blast
    then show ?thesis using 2(2) by (simp add: read_bit_def agrees_def)
  next
    case 3
    note k = byte_at_window [OF assms(1) s(1) 3(2)]
    show ?thesis
      using 3 k d s by (simp add: read_bit_def byte_at_def [of r2] same_stream_def window_of_def)
  qed
qed

end
