(* ===== verification/Guest_Map.thy ===== *)
theory Guest_Map
  imports Guest_Decode
begin

text \<open>
  The offset map of a code fragment (\<^verbatim>\<open>guest_pc_map.cpp\<close>): its header, its chunks, the search for the chunk
  of an ARM offset, and the walk along the chunk's steps.
\<close>

section \<open>Fields in memory order\<close>

primrec le_word :: "u8 list \<Rightarrow> 'w::len word" where
  "le_word [] = 0"
| "le_word (b # bs) = ucast b OR push_bit 8 (le_word bs)"

definition field8 :: "u8 list \<Rightarrow> nat \<Rightarrow> u8" where
  "field8 bs off = bs ! off"

definition field32 :: "u8 list \<Rightarrow> nat \<Rightarrow> u32" where
  "field32 bs off = le_word (take 4 (drop off bs))"

definition field64 :: "u8 list \<Rightarrow> nat \<Rightarrow> u64" where
  "field64 bs off = le_word (take 8 (drop off bs))"

section \<open>Header and chunks\<close>

record map_header =
  rice_k :: "u8 list"
  field_08 :: u32
  field_0C :: u32
  total_size :: u32
  chunk_count :: u32
  chunks_offset :: u32
  stream_offset :: u32

abbreviation kHeaderSize :: nat where
  "kHeaderSize \<equiv> 0x20"

definition parse_header :: "u8 list \<Rightarrow> map_header" where
  "parse_header bs =
     \<lparr>rice_k = take 4 bs, field_08 = field32 bs 8, field_0C = field32 bs 12, total_size = field32 bs 0x10,
      chunk_count = field32 bs 0x14, chunks_offset = field32 bs 0x18, stream_offset = field32 bs 0x1c\<rparr>"

record map_chunk =
  ck_x86 :: u32
  ck_arm :: u32
  ck_stream_byte :: u32
  ck_insn_count :: u32

abbreviation kChunkSize :: nat where
  "kChunkSize \<equiv> 16"

definition parse_chunk :: "u8 list \<Rightarrow> map_chunk" where
  "parse_chunk bs =
     \<lparr>ck_x86 = field32 bs 0, ck_arm = field32 bs 4, ck_stream_byte = field32 bs 8, ck_insn_count = field32 bs 12\<rparr>"

definition kMaxChunkCount :: u32 where
  "kMaxChunkCount = push_bit 20 1"

definition check_header :: "map_header \<Rightarrow> bool" where
  "check_header h =
     (if rice_k h ! 3 \<noteq> 0 \<or> field_08 h \<noteq> 0 \<or> field_0C h \<noteq> 0 then False
      else if 31 < rice_k h ! 1 \<or> 31 < rice_k h ! 2 then False
      else if total_size h < 0x20 \<or> chunk_count h = 0 \<or> kMaxChunkCount < chunk_count h then False
      else if chunks_offset h < 0x20 \<or> total_size h < stream_offset h \<or> stream_offset h < chunks_offset h then False
      else (ucast (chunks_offset h) + ucast (chunk_count h) * 16 :: u64) \<le> ucast (stream_offset h))"

record map_view =
  v_header :: map_header
  v_chunks :: "u8 list"
  v_stream :: "u8 list"
  v_stream_size :: nat

text \<open>\<open>None\<close> is the null pointer.\<close>

definition parse_map :: "u8 list option \<Rightarrow> map_view option" where
  "parse_map p = (case p of None \<Rightarrow> None | Some bs \<Rightarrow>
     (if length bs < kHeaderSize then None
      else let h = parse_header (take kHeaderSize bs) in
        if \<not> check_header h \<or> length bs < unat (total_size h) then None
        else Some \<lparr>v_header = h, v_chunks = drop (unat (chunks_offset h)) bs,
                   v_stream = drop (unat (stream_offset h)) bs,
                   v_stream_size = unat (total_size h - stream_offset h)\<rparr>))"

definition chunk_at :: "u8 list \<Rightarrow> nat \<Rightarrow> map_chunk" where
  "chunk_at chunks i = parse_chunk (take kChunkSize (drop (kChunkSize * i) chunks))"

section \<open>Finding the chunk\<close>

text \<open>The indexes are below the chunk count, so \<open>lo + (hi - lo) / 2\<close> does not wrap.\<close>

function find_chunk_loop :: "(nat \<Rightarrow> map_chunk option) \<Rightarrow> u32 \<Rightarrow> nat \<Rightarrow> nat \<Rightarrow> nat option" where
  "find_chunk_loop fetch off lo hi =
     (if 1 < hi - lo then
        (let mid = lo + (hi - lo) div 2 in
         case fetch mid of None \<Rightarrow> None
         | Some c \<Rightarrow> if ck_arm c \<le> off then find_chunk_loop fetch off mid hi else find_chunk_loop fetch off lo mid)
      else Some lo)"
  by pat_completeness auto
termination
  by (relation "measure (\<lambda>(fetch, off, lo, hi). hi - lo)") auto

declare find_chunk_loop.simps [simp del]

definition find_chunk :: "u32 \<Rightarrow> u32 \<Rightarrow> (nat \<Rightarrow> map_chunk option) \<Rightarrow> nat option" where
  "find_chunk n off fetch = find_chunk_loop fetch off 0 (unat n)"

section \<open>Walking a chunk\<close>

record map_point =
  p_x86 :: u32
  p_arm :: u32
  p_flags :: u32
  p_exact :: bool

datatype status = Resolved | NotTranslated | Unavailable

text \<open>The loop of \<^verbatim>\<open>walkToTarget\<close>; \<open>None\<close> is \<^verbatim>\<open>Unavailable\<close>.\<close>

fun walk_loop :: "reader \<Rightarrow> u8 list \<Rightarrow> u32 \<Rightarrow> nat \<Rightarrow> u32 \<Rightarrow> u32 \<Rightarrow> map_point \<Rightarrow> bit_reader \<Rightarrow> map_point option" where
  "walk_loop r k off 0 x86 arm best br = Some best"
| "walk_loop r k off (Suc n) x86 arm best br =
     (case step r k x86 arm br of None \<Rightarrow> None
      | Some ((x86', arm', flags), br') \<Rightarrow>
          if arm' \<le> arm then None
          else if off < arm' then Some best
          else walk_loop r k off n x86' arm' \<lparr>p_x86 = x86', p_arm = arm', p_flags = flags, p_exact = (arm' = off)\<rparr> br')"

definition walk_to_target ::
  "reader \<Rightarrow> bit_reader \<Rightarrow> u8 list \<Rightarrow> map_chunk \<Rightarrow> u32 \<Rightarrow> map_point \<Rightarrow> status \<times> map_point" where
  "walk_to_target r br k c off out =
     (if off < ck_arm c then (NotTranslated, out)
      else case walk_loop r k off (unat (ck_insn_count c)) (ck_x86 c) (ck_arm c)
          \<lparr>p_x86 = ck_x86 c, p_arm = ck_arm c, p_flags = 0, p_exact = (ck_arm c = off)\<rparr> br of
        None \<Rightarrow> (Unavailable, out)
      | Some best \<Rightarrow> (Resolved, best))"

section \<open>Maps in memory\<close>

text \<open>A reader over memory has no callback.\<close>

definition no_reader :: reader where
  "no_reader a n = None"

definition decode_map :: "u8 list option \<Rightarrow> u32 \<Rightarrow> map_point \<Rightarrow> status \<times> map_point" where
  "decode_map p off out = (case parse_map p of None \<Rightarrow> (Unavailable, out)
     | Some v \<Rightarrow>
       (case find_chunk (chunk_count (v_header v)) off (\<lambda>i. Some (chunk_at (v_chunks v) i)) of
          None \<Rightarrow> (Unavailable, out)
        | Some index \<Rightarrow>
          (let c = chunk_at (v_chunks v) index in
           if v_stream_size v < unat (ck_stream_byte c) then (Unavailable, out)
           else walk_to_target no_reader (bit_reader_mem (v_stream v) (v_stream_size v) (unat (ck_stream_byte c)))
                  (rice_k (v_header v)) c off out)))"

text \<open>The loop of \<^verbatim>\<open>decodeMapChunk\<close>, with the reader it ends with.\<close>

fun chunk_loop :: "reader \<Rightarrow> u8 list \<Rightarrow> nat \<Rightarrow> u32 \<Rightarrow> u32 \<Rightarrow> bit_reader \<Rightarrow> (map_point list \<times> bit_reader) option" where
  "chunk_loop r k 0 x86 arm br = Some ([], br)"
| "chunk_loop r k (Suc n) x86 arm br =
     (case step r k x86 arm br of None \<Rightarrow> None
      | Some ((x86', arm', flags), br') \<Rightarrow>
          if arm' \<le> arm then None
          else do { (ps, br2) \<leftarrow> chunk_loop r k n x86' arm' br';
                    Some (\<lparr>p_x86 = x86', p_arm = arm', p_flags = flags, p_exact = True\<rparr> # ps, br2) })"

text \<open>The boundaries it writes to \<open>out\<close>, whose number it returns; \<open>None\<close> is \<open>-1\<close>.\<close>

definition decode_map_chunk :: "u8 list option \<Rightarrow> u32 \<Rightarrow> bool \<Rightarrow> int \<Rightarrow> map_point list option" where
  "decode_map_chunk p i out_null out_max = (case parse_map p of None \<Rightarrow> None
     | Some v \<Rightarrow>
       if chunk_count (v_header v) \<le> i \<or> out_null then None
       else
         let c = chunk_at (v_chunks v) (unat i) in
         if (word_of_int out_max :: u64) < ucast (ck_insn_count c) + 1 then None
         else if v_stream_size v < unat (ck_stream_byte c) then None
         else
           let next_byte = (if i + 1 < chunk_count (v_header v)
                            then unat (ck_stream_byte (chunk_at (v_chunks v) (unat (i + 1)))) else v_stream_size v)
           in case chunk_loop no_reader (rice_k (v_header v)) (unat (ck_insn_count c)) (ck_x86 c) (ck_arm c)
                (bit_reader_mem (v_stream v) (v_stream_size v) (unat (ck_stream_byte c))) of
             None \<Rightarrow> None
           | Some (ps, br) \<Rightarrow>
               if ends_at no_reader next_byte br
               then Some (\<lparr>p_x86 = ck_x86 c, p_arm = ck_arm c, p_flags = 0, p_exact = True\<rparr> # ps) else None)"

end
