(* ===== verification/Guest_Lookup.thy ===== *)
theory Guest_Lookup
  imports Guest_Map "HOL-Library.Tree"
begin

text \<open>
  From an ARM program counter to a guest one (\<^verbatim>\<open>guest_pc_map.cpp\<close>): the walk of the fragment tree in the
  inspected process, the decode against a fragment's map, and the cache of recent answers.
\<close>

section \<open>Fragments\<close>

abbreviation kWindowBegin :: u64 where
  "kWindowBegin \<equiv> 0x30"
abbreviation kNodeWindow :: nat where
  "kNodeWindow \<equiv> 0x70"

record fragment =
  f_node :: u64
  f_x86_begin :: u64
  f_arm_begin :: u64
  f_map :: u64
  f_x86_size :: u32
  f_arm_size :: u32
  f_kind :: u8

definition no_fragment :: fragment where
  "no_fragment = \<lparr>f_node = 0, f_x86_begin = 0, f_arm_begin = 0, f_map = 0, f_x86_size = 0, f_arm_size = 0, f_kind = 0\<rparr>"

text \<open>The fields of a node window, which starts \<^verbatim>\<open>kWindowBegin\<close> bytes into the node.\<close>

definition parse_node :: "u8 list \<Rightarrow> u64 \<Rightarrow> fragment" where
  "parse_node win a =
     \<lparr>f_node = a, f_x86_begin = field64 win (0x48 - 0x30), f_arm_begin = field64 win (0x58 - 0x30),
      f_map = field64 win (0x80 - 0x30), f_x86_size = field32 win (0x98 - 0x30),
      f_arm_size = field32 win (0x9c - 0x30), f_kind = field8 win (0x78 - 0x30)\<rparr>"

definition node_left :: "u8 list \<Rightarrow> u64" where
  "node_left win = field64 win (0x30 - 0x30)"

definition node_right :: "u8 list \<Rightarrow> u64" where
  "node_right win = field64 win (0x38 - 0x30)"

definition arm_end :: "fragment \<Rightarrow> u64" where
  "arm_end f = f_arm_begin f + ucast (f_arm_size f)"

definition frag_contains :: "fragment \<Rightarrow> u64 \<Rightarrow> bool" where
  "frag_contains f pc \<longleftrightarrow> f_node f \<noteq> 0 \<and> f_arm_begin f \<le> pc \<and> pc < arm_end f"

definition read_node :: "reader \<Rightarrow> u64 \<Rightarrow> u8 list option" where
  "read_node r a = r (a + kWindowBegin) kNodeWindow"

definition node_unchanged :: "reader \<Rightarrow> fragment \<Rightarrow> bool" where
  "node_unchanged r f = (case read_node r (f_node f) of None \<Rightarrow> False
     | Some win \<Rightarrow> (let now = parse_node win (f_node f) in
         f_arm_begin now = f_arm_begin f \<and> f_arm_size now = f_arm_size f \<and> f_x86_begin now = f_x86_begin f \<and>
         f_x86_size now = f_x86_size f \<and> f_map now = f_map f \<and> f_kind now = f_kind f))"

section \<open>The tree\<close>

fun lookup_loop :: "nat \<Rightarrow> reader \<Rightarrow> u64 \<Rightarrow> u64 \<Rightarrow> fragment \<Rightarrow> status \<times> fragment" where
  "lookup_loop 0 r a pc out = (Unavailable, out)"
| "lookup_loop (Suc depth) r a pc out =
     (if a = 0 then (NotTranslated, out)
      else if a < 0x1000 \<or> a AND 7 \<noteq> 0 then (Unavailable, out)
      else case read_node r a of None \<Rightarrow> (Unavailable, out)
        | Some win \<Rightarrow>
          (let f = parse_node win a in
           if f_arm_size f = 0 \<or> kMaxFragmentSize < f_arm_size f then (Unavailable, out)
           else if pc < f_arm_begin f then lookup_loop depth r (node_left win) pc out
           else if arm_end f \<le> pc then lookup_loop depth r (node_right win) pc out
           else (Resolved, f)))"

definition kMaxTreeDepth :: nat where
  "kMaxTreeDepth = 4096"

text \<open>\<open>root\<close> is the offset of the tree root in the runtime image, zero when it was not found.\<close>

definition lookup_fragment :: "u64 \<Rightarrow> reader \<Rightarrow> u64 \<Rightarrow> u64 \<Rightarrow> fragment \<Rightarrow> status \<times> fragment" where
  "lookup_fragment root r base pc out =
     (if root = 0 then (Unavailable, out)
      else case r (base + root) 8 of None \<Rightarrow> (Unavailable, out)
        | Some bs \<Rightarrow> lookup_loop kMaxTreeDepth r (field64 bs 0) pc out)"

section \<open>Resolving\<close>

datatype no_guest_reason = Unknown | NoFragment | RuntimeRoutines | BeforeFirstBoundary

abbreviation kTranslated :: u8 where
  "kTranslated \<equiv> 4"

record resolution =
  res_x86_pc :: u64
  res_fragment :: fragment
  res_arm_offset :: u32
  res_point :: map_point
  res_reason :: no_guest_reason

definition no_point :: map_point where
  "no_point = \<lparr>p_x86 = 0, p_arm = 0, p_flags = 0, p_exact = False\<rparr>"

definition fetch_chunk :: "reader \<Rightarrow> u64 \<Rightarrow> nat \<Rightarrow> map_chunk option" where
  "fetch_chunk r chunks_addr i = map_option parse_chunk (r (chunks_addr + word_of_nat i * 16) kChunkSize)"

text \<open>The boundary a fragment's map gives for an ARM offset, read through the callback.\<close>

definition decode_remote :: "reader \<Rightarrow> fragment \<Rightarrow> u32 \<Rightarrow> status \<times> map_point" where
  "decode_remote r f off =
     (case r (f_map f) kHeaderSize of None \<Rightarrow> (Unavailable, no_point)
      | Some hb \<Rightarrow>
        (let h = parse_header hb in
         if \<not> check_header h then (Unavailable, no_point)
         else
           let chunks_addr = f_map f + ucast (chunks_offset h) in
           case find_chunk (chunk_count h) off (fetch_chunk r chunks_addr) of None \<Rightarrow> (Unavailable, no_point)
           | Some index \<Rightarrow>
             (case fetch_chunk r chunks_addr index of None \<Rightarrow> (Unavailable, no_point)
              | Some c \<Rightarrow>
                (let stream_size = unat (total_size h - stream_offset h) in
                 if stream_size < unat (ck_stream_byte c) then (Unavailable, no_point)
                 else walk_to_target r (bit_reader_remote (f_map f + ucast (stream_offset h)) stream_size
                        (unat (ck_stream_byte c))) (rice_k h) c off no_point))))"

definition resolve_in_fragment :: "reader \<Rightarrow> fragment \<Rightarrow> u64 \<Rightarrow> resolution \<Rightarrow> status \<times> resolution" where
  "resolve_in_fragment r f pc out =
     (if f_kind f \<noteq> kTranslated then (NotTranslated, out\<lparr>res_reason := RuntimeRoutines\<rparr>)
      else if f_map f = 0 \<or> f_x86_size f = 0 then (Unavailable, out)
      else
        let off = ucast (pc - f_arm_begin f) in
        case decode_remote r f off of
          (NotTranslated, _) \<Rightarrow> (NotTranslated, out\<lparr>res_reason := BeforeFirstBoundary\<rparr>)
        | (Unavailable, _) \<Rightarrow> (Unavailable, out)
        | (Resolved, point) \<Rightarrow>
            if f_x86_size f < p_x86 point then (Unavailable, out)
            else (Resolved, out\<lparr>res_fragment := f, res_arm_offset := off, res_point := point,
                               res_x86_pc := f_x86_begin f + ucast (p_x86 point)\<rparr>))"

definition resolve_pc :: "u64 \<Rightarrow> reader \<Rightarrow> u64 \<Rightarrow> u64 \<Rightarrow> resolution \<Rightarrow> status \<times> resolution" where
  "resolve_pc root r base pc out =
     (case lookup_fragment root r base pc no_fragment of
        (Resolved, f) \<Rightarrow> resolve_in_fragment r f pc out
      | (NotTranslated, _) \<Rightarrow> (NotTranslated, out\<lparr>res_reason := NoFragment\<rparr>)
      | (Unavailable, _) \<Rightarrow> (Unavailable, out))"

section \<open>The cache\<close>

abbreviation kSets :: nat where
  "kSets \<equiv> 256"
abbreviation kWays :: nat where
  "kWays \<equiv> 8"
abbreviation kNegativeRecheck :: u32 where
  "kNegativeRecheck \<equiv> 64"

record cache_entry =
  e_fragment :: fragment
  e_arm_pc :: u64
  e_x86_pc :: u64
  e_point :: map_point
  e_stamp :: u64
  e_recheck :: u32
  e_used :: bool

definition no_entry :: cache_entry where
  "no_entry = \<lparr>e_fragment = no_fragment, e_arm_pc = 0, e_x86_pc = 0, e_point = no_point, e_stamp = 0, e_recheck = 0,
     e_used = False\<rparr>"

record pc_cache =
  pc_entries :: "nat \<Rightarrow> cache_entry"
  pc_hits :: u64
  fragment_hits :: u64
  negative_hits :: u64
  misses :: u64
  stale :: u64
  pc_clock :: u64

definition empty_cache :: pc_cache where
  "empty_cache = \<lparr>pc_entries = \<lambda>_. no_entry, pc_hits = 0, fragment_hits = 0, negative_hits = 0, misses = 0, stale = 0,
     pc_clock = 0\<rparr>"

definition cache_clear :: "pc_cache \<Rightarrow> pc_cache" where
  "cache_clear c = c\<lparr>pc_entries := \<lambda>_. no_entry, pc_clock := 0\<rparr>"

definition entry_matches :: "cache_entry \<Rightarrow> u64 \<Rightarrow> bool" where
  "entry_matches e pc = (if f_node (e_fragment e) \<noteq> 0 then frag_contains (e_fragment e) pc else e_arm_pc e = pc)"

text \<open>The scan of a set: the entry that matches, or else the one to replace.\<close>

fun select_loop :: "(nat \<Rightarrow> cache_entry) \<Rightarrow> u64 \<Rightarrow> nat list \<Rightarrow> nat \<Rightarrow> bool \<times> nat" where
  "select_loop es pc [] victim = (False, victim)"
| "select_loop es pc (i # is) victim =
     (if e_used (es i) \<and> entry_matches (es i) pc then (True, i)
      else select_loop es pc is
             (if \<not> e_used (es i) \<or> e_stamp (es i) < e_stamp (es victim) then i else victim))"

definition cache_set :: "u64 \<Rightarrow> nat" where
  "cache_set pc = (unat (drop_bit 12 pc) mod kSets) * kWays"

definition cache_select :: "pc_cache \<Rightarrow> u64 \<Rightarrow> bool \<times> nat \<times> pc_cache" where
  "cache_select c pc =
     (let c1 = c\<lparr>pc_clock := pc_clock c + 1\<rparr>; first = cache_set pc;
          (hit, i) = select_loop (pc_entries c1) pc [first..<first + kWays] first
      in (hit, i, c1\<lparr>pc_entries := (pc_entries c1)(i := (pc_entries c1 i)\<lparr>e_stamp := pc_clock c1\<rparr>)\<rparr>))"

definition set_entry :: "nat \<Rightarrow> cache_entry \<Rightarrow> pc_cache \<Rightarrow> pc_cache" where
  "set_entry i e c = c\<lparr>pc_entries := (pc_entries c)(i := e)\<rparr>"

text \<open>The lookup after a miss, and what it leaves in the entry.\<close>

definition resolve_cold :: "u64 \<Rightarrow> reader \<Rightarrow> u64 \<Rightarrow> u64 \<Rightarrow> resolution \<Rightarrow> nat \<Rightarrow> pc_cache \<Rightarrow> status \<times> resolution \<times> pc_cache" where
  "resolve_cold root r base pc out i c0 =
     (let c = c0\<lparr>misses := misses c0 + 1\<rparr>; stamp = e_stamp (pc_entries c i) in
      case lookup_fragment root r base pc no_fragment of
        (NotTranslated, _) \<Rightarrow>
          (NotTranslated, out\<lparr>res_reason := NoFragment\<rparr>,
           set_entry i (no_entry\<lparr>e_used := True, e_arm_pc := pc, e_stamp := stamp\<rparr>) c)
      | (Unavailable, _) \<Rightarrow> (Unavailable, out, c)
      | (Resolved, f) \<Rightarrow>
          (case resolve_in_fragment r f pc out of (s, out') \<Rightarrow>
             (s, out', if s = Unavailable then c
                else set_entry i (no_entry\<lparr>e_used := True, e_fragment := f, e_arm_pc := pc,
                       e_x86_pc := (if s = Resolved then res_x86_pc out' else 0), e_point := res_point out',
                       e_stamp := stamp\<rparr>) c)))"

definition resolve_cached :: "u64 \<Rightarrow> reader \<Rightarrow> u64 \<Rightarrow> u64 \<Rightarrow> resolution \<Rightarrow> pc_cache \<Rightarrow> status \<times> resolution \<times> pc_cache" where
  "resolve_cached root r base pc out c0 =
     (case cache_select c0 pc of (hit, i, c) \<Rightarrow>
       let e = pc_entries c i in
       if hit \<and> f_node (e_fragment e) \<noteq> 0 then
         (if node_unchanged r (e_fragment e) then
            (if f_kind (e_fragment e) \<noteq> kTranslated then
               (NotTranslated, out\<lparr>res_reason := RuntimeRoutines\<rparr>, c\<lparr>negative_hits := negative_hits c + 1\<rparr>)
             else if e_arm_pc e = pc then
               (Resolved, out\<lparr>res_fragment := e_fragment e, res_arm_offset := ucast (pc - f_arm_begin (e_fragment e)),
                  res_point := e_point e, res_x86_pc := e_x86_pc e\<rparr>, c\<lparr>pc_hits := pc_hits c + 1\<rparr>)
             else (case resolve_in_fragment r (e_fragment e) pc out of (s, out') \<Rightarrow>
               if s \<noteq> Unavailable then
                 (s, out', set_entry i (e\<lparr>e_arm_pc := pc, e_x86_pc := res_x86_pc out', e_point := res_point out'\<rparr>)
                    (c\<lparr>fragment_hits := fragment_hits c + 1\<rparr>))
               else resolve_cold root r base pc out' i c))
          else resolve_cold root r base pc out i (set_entry i no_entry (c\<lparr>stale := stale c + 1\<rparr>)))
       else if hit \<and> e_recheck e < kNegativeRecheck then
         (NotTranslated, out\<lparr>res_reason := NoFragment\<rparr>,
          set_entry i (e\<lparr>e_recheck := e_recheck e + 1\<rparr>) (c\<lparr>negative_hits := negative_hits c + 1\<rparr>))
       else resolve_cold root r base pc out i c)"

end
