(* ===== verification/Guest_Map_Props.thy ===== *)
theory Guest_Map_Props
  imports Guest_Lookup
begin

text \<open>
  What the map decoders give: every boundary a stream encodes is decoded, the answer for an ARM offset is the
  last boundary at or before it, and reading a map through the callback answers as a copy of it in memory does.
\<close>

section \<open>Decoding a whole chunk\<close>

text \<open>The boundaries that a list of advances \<open>(d_arm, d_x86, flags)\<close> leads to.\<close>

fun boundaries :: "u32 \<Rightarrow> u32 \<Rightarrow> (u32 \<times> u32 \<times> u32) list \<Rightarrow> map_point list" where
  "boundaries x86 arm [] = []"
| "boundaries x86 arm ((d_arm, d_x86, flags) # ss) =
     \<lparr>p_x86 = x86 + d_x86, p_arm = arm + d_arm * 4, p_flags = flags, p_exact = True\<rparr> #
     boundaries (x86 + d_x86) (arm + d_arm * 4) ss"

text \<open>The ARM offsets advance and do not wrap.\<close>

fun advancing :: "u32 \<Rightarrow> (u32 \<times> u32 \<times> u32) list \<Rightarrow> bool" where
  "advancing arm [] \<longleftrightarrow> True"
| "advancing arm ((d_arm, d_x86, flags) # ss) \<longleftrightarrow>
     d_arm \<noteq> 0 \<and> d_arm \<le> kMaxFragmentSize div 4 \<and> arm < arm + d_arm * 4 \<and> advancing (arm + d_arm * 4) ss"

inductive codes_steps :: "u8 list \<Rightarrow> (u32 \<times> u32 \<times> u32) list \<Rightarrow> bool list \<Rightarrow> bool" for k where
  none: "codes_steps k [] []"
| more: "codes_step (unat (k ! 1)) (unat (k ! 2)) d_arm d_x86 flags c \<Longrightarrow> codes_steps k ss cs \<Longrightarrow>
    codes_steps k ((d_arm, d_x86, flags) # ss) (c @ cs)"

context bit_source begin

lemma reads_chunk:
  "codes_steps k ss cs \<Longrightarrow> advancing arm ss \<Longrightarrow>
    reads ahead (chunk_loop r k (length ss) x86 arm) cs (boundaries x86 arm ss)"
proof (induction arbitrary: x86 arm rule: codes_steps.induct)
  case none
  then show ?case by (simp add: reads_return)
next
  case (more d_arm d_x86 flags c ss cs)
  let ?x = "x86 + d_x86" and ?a = "arm + d_arm * 4"
  let ?p = "\<lparr>p_x86 = ?x, p_arm = ?a, p_flags = flags, p_exact = True\<rparr>"
  have s: "reads ahead (step r k x86 arm) c (?x, ?a, flags)"
    by (rule reads_step [OF more.hyps(1)]) (use more.prems in auto)
  have t: "reads ahead (\<lambda>br. do { (ps, br2) \<leftarrow> chunk_loop r k (length ss) ?x ?a br; Some (?p # ps, br2) }) cs
      (?p # boundaries ?x ?a ss)"
    by (rule reads_map [OF more.IH]) (use more.prems in auto)
  have lt: "arm < ?a" using more.prems by simp
  show ?case
    unfolding reads_def
  proof (intro allI impI)
    fix br rest
    assume "ahead br ((c @ cs) @ rest)"
    then obtain b1 where b1: "step r k x86 arm br = Some ((?x, ?a, flags), b1)" "ahead b1 (cs @ rest)"
        "br_at b1 = br_at br + length c"
      using s unfolding reads_def append_assoc by blast
    obtain b2 where "do { (ps, br2) \<leftarrow> chunk_loop r k (length ss) ?x ?a b1; Some (?p # ps, br2) } =
        Some (?p # boundaries ?x ?a ss, b2)" "ahead b2 rest" "br_at b2 = br_at b1 + length cs"
      using t b1(2) unfolding reads_def by blast
    then show "\<exists>br'. chunk_loop r k (length ((d_arm, d_x86, flags) # ss)) x86 arm br =
        Some (boundaries x86 arm ((d_arm, d_x86, flags) # ss), br') \<and> ahead br' rest \<and> br_at br' = br_at br + length (c @ cs)"
      using b1(1,3) lt by simp
  qed
qed

lemma skips_padding:
  "ahead br (replicate n False @ rest) \<Longrightarrow> br_at br + n = 8 * next_byte \<Longrightarrow> skip_padding r next_byte br"
proof (induction n arbitrary: br)
  case 0
  then show ?case by (simp add: skip_padding.simps [of r])
next
  case (Suc n)
  obtain br' where "read_bit r br = Some (of_bool False, br')" "ahead br' (replicate n False @ rest)" "br_at br' = Suc (br_at br)"
    using read_ahead [of br False] Suc.prems(1) by auto
  then show ?case using Suc.IH [of br'] Suc.prems(2) by (simp add: skip_padding.simps [of r next_byte br])
qed

lemma ends_in_padding:
  assumes "ahead br (replicate n False @ rest)" "br_at br + n = 8 * next_byte" "n < 32"
  shows "ends_at r next_byte br"
proof -
  have "br_at br div 8 \<le> next_byte" "next_byte - br_at br div 8 \<le> 4" using assms(2,3) by linarith+
  then show ?thesis using skips_padding [OF assms(1,2)] by (simp add: ends_at_def)
qed

end

lemma parse_map_stream:
  assumes "parse_map p = Some v"
  shows "v_stream_size v \<le> length (v_stream v)" "chunk_count (v_header v) \<noteq> 0"
proof -
  obtain bs where bs: "p = Some bs" "v_header v = parse_header (take 0x20 bs)" "check_header (v_header v)"
      "unat (total_size (v_header v)) \<le> length bs" "v_stream v = drop (unat (stream_offset (v_header v))) bs"
      "v_stream_size v = unat (total_size (v_header v) - stream_offset (v_header v))"
    using assms by (auto simp: parse_map_def Let_def split: option.splits if_splits)
  then have "stream_offset (v_header v) \<le> total_size (v_header v)" "chunk_count (v_header v) \<noteq> 0"
    by (auto simp: check_header_def split: if_splits)
  then show "v_stream_size v \<le> length (v_stream v)" "chunk_count (v_header v) \<noteq> 0"
    using bs(4-6) by (simp_all add: unat_sub diff_le_mono)
qed

lemma room_for_points:
  assumes "int n < out_max" "out_max < 2 ^ 31" "n = unat (k :: u32)"
  shows "\<not> (word_of_int out_max :: u64) < ucast k + 1"
proof -
  have "unat k < 2 ^ LENGTH(32)" by (rule unsigned_less)
  then have "unat (ucast k + 1 :: u64) = unat k + 1"
    by (simp add: unat_word_ariths unsigned_ucast_eq take_bit_nat_eq_self)
  moreover have "unat (word_of_int out_max :: u64) = nat out_max"
    using assms(1,2) by (simp add: unat_eq_nat_uint uint_word_of_int)
  moreover have "n < nat out_max" using assms(1) by simp
  ultimately show ?thesis using assms(3) by (simp add: word_less_nat_alt)
qed

text \<open>C28: a chunk whose stream bytes hold the codes of a list of advances, in any of the forms of the format,
  followed by fewer than 32 zero bits, is decoded to exactly the boundaries those advances lead to.\<close>

theorem encoded_chunk_is_decoded:
  assumes "parse_map p = Some v" "i < chunk_count (v_header v)" "c = chunk_at (v_chunks v) (unat i)"
    and "unat (ck_stream_byte c) \<le> v_stream_size v"
    and "codes_steps (rice_k (v_header v)) ss cs" "advancing (ck_arm c) ss" "length ss = unat (ck_insn_count c)"
    and "drop (8 * unat (ck_stream_byte c)) (bits_of (take (v_stream_size v) (v_stream v))) = cs @ replicate pad False @ rest"
    and "8 * unat (ck_stream_byte c) + length cs + pad = 8 * (if i + 1 < chunk_count (v_header v)
          then unat (ck_stream_byte (chunk_at (v_chunks v) (unat (i + 1)))) else v_stream_size v)" "pad < 32"
    and "int (length ss) < out_max" "out_max < 2 ^ 31"
  shows "decode_map_chunk p i False out_max =
    Some (\<lparr>p_x86 = ck_x86 c, p_arm = ck_arm c, p_flags = 0, p_exact = True\<rparr> # boundaries (ck_x86 c) (ck_arm c) ss)"
proof -
  let ?br = "bit_reader_mem (v_stream v) (v_stream_size v) (unat (ck_stream_byte c))"
  have a: "mem_ahead ?br (cs @ replicate pad False @ rest)"
    using parse_map_stream(1) [OF assms(1)] assms(4,8) by (simp add: mem_ahead_def bit_reader_mem_def)
  obtain br where br: "chunk_loop no_reader (rice_k (v_header v)) (unat (ck_insn_count c)) (ck_x86 c) (ck_arm c) ?br =
      Some (boundaries (ck_x86 c) (ck_arm c) ss, br)" "mem_ahead br (replicate pad False @ rest)" "br_at br = br_at ?br + length cs"
    using memory.reads_chunk [OF assms(5,6)] a unfolding reads_def assms(7) by blast
  have e: "ends_at no_reader (if i + 1 < chunk_count (v_header v)
          then unat (ck_stream_byte (chunk_at (v_chunks v) (unat (i + 1)))) else v_stream_size v) br"
    by (rule memory.ends_in_padding [OF br(2) _ assms(10)]) (use assms(9) br(3) in \<open>simp add: bit_reader_mem_def\<close>)
  show ?thesis
    using room_for_points [OF assms(11,12,7)] assms(1-4) br(1) e by (simp add: decode_map_chunk_def Let_def leD)
qed

text \<open>A decode that stops inside the first byte of the next chunk is taken to have ended at the chunk's end.\<close>

lemma ends_at_mid_byte: "br_at br div 8 = next_byte \<Longrightarrow> ends_at r next_byte br"
  by (simp add: ends_at_def skip_padding.simps)

section \<open>The last boundary at or before an offset\<close>

definition up_to :: "u32 \<Rightarrow> map_point list \<Rightarrow> map_point list" where
  "up_to off ps = filter (\<lambda>p. p_arm p \<le> off) ps"

text \<open>The answer for an offset: a boundary, and whether the offset is that boundary.\<close>

definition answer_at :: "u32 \<Rightarrow> map_point \<Rightarrow> map_point" where
  "answer_at off p = p\<lparr>p_exact := (p_arm p = off)\<rparr>"

lemma chunk_loop_arms:
  "chunk_loop r k n x86 arm br = Some (ps, br') \<Longrightarrow> \<forall>p\<in>set ps. arm < p_arm p"
proof (induction n arbitrary: x86 arm br ps)
  case (Suc n)
  obtain x a fl br1 qs where s: "step r k x86 arm br = Some ((x, a, fl), br1)" "arm < a"
      "chunk_loop r k n x a br1 = Some (qs, br')" "ps = \<lparr>p_x86 = x, p_arm = a, p_flags = fl, p_exact = True\<rparr> # qs"
    using Suc.prems by (auto split: option.splits if_splits prod.splits bind_splits)
  then show ?case using Suc.IH [OF s(3)] by fastforce
qed simp

lemma walk_loop_last:
  "chunk_loop r k n x86 arm br = Some (ps, br') \<Longrightarrow>
    walk_loop r k off n x86 arm best br = Some (last (best # map (answer_at off) (up_to off ps)))"
proof (induction n arbitrary: x86 arm br ps best)
  case 0
  then show ?case by (simp add: up_to_def)
next
  case (Suc n)
  obtain x a fl br1 qs where s: "step r k x86 arm br = Some ((x, a, fl), br1)" "arm < a"
      "chunk_loop r k n x a br1 = Some (qs, br')" "ps = \<lparr>p_x86 = x, p_arm = a, p_flags = fl, p_exact = True\<rparr> # qs"
    using Suc.prems by (auto split: option.splits if_splits prod.splits bind_splits)
  show ?case
  proof (cases "off < a")
    case True
    then have "up_to off qs = []" using chunk_loop_arms [OF s(3)] by (auto simp: up_to_def filter_empty_conv)
    then show ?thesis using s(1,2) True by (simp add: s(4)) (simp add: up_to_def)
  next
    case False
    then show ?thesis
      using s(1,2) Suc.IH [OF s(3)] by (simp add: s(4) leD) (simp add: up_to_def answer_at_def)
  qed
qed

lemma find_chunk_brackets:
  assumes "lo < hi" "lo = 0 \<or> ck_arm (f lo) \<le> off" "hi = n \<or> off < ck_arm (f hi)" "hi \<le> n"
  shows "\<exists>i. find_chunk_loop (\<lambda>i. Some (f i)) off lo hi = Some i \<and> i < n \<and> (i = 0 \<or> ck_arm (f i) \<le> off) \<and>
    (Suc i = n \<or> off < ck_arm (f (Suc i)))"
  using assms
proof (induction "\<lambda>i. Some (f i)" off lo hi rule: find_chunk_loop.induct)
  case (1 off lo hi)
  show ?case
  proof (cases "1 < hi - lo")
    case False
    then have "hi = Suc lo" using 1(3) by simp
    then show ?thesis using 1(4-6) False by (simp add: find_chunk_loop.simps)
  next
    case True
    let ?mid = "lo + (hi - lo) div 2"
    have m: "lo < ?mid" "?mid < hi" using True by linarith+
    show ?thesis
    proof (cases "ck_arm (f ?mid) \<le> off")
      case left: True
      have "\<exists>i. find_chunk_loop (\<lambda>i. Some (f i)) off ?mid hi = Some i \<and> i < n \<and> (i = 0 \<or> ck_arm (f i) \<le> off) \<and>
          (Suc i = n \<or> off < ck_arm (f (Suc i)))"
        by (rule 1(1) [OF True refl refl left]) (use m left 1(3-6) in auto)
      then show ?thesis using True left by (simp add: find_chunk_loop.simps [of _ off lo hi] Let_def)
    next
      case right: False
      have "\<exists>i. find_chunk_loop (\<lambda>i. Some (f i)) off lo ?mid = Some i \<and> i < n \<and> (i = 0 \<or> ck_arm (f i) \<le> off) \<and>
          (Suc i = n \<or> off < ck_arm (f (Suc i)))"
        by (rule 1(2) [OF True refl refl right]) (use m right 1(3-6) in auto)
      then show ?thesis using True right by (simp add: find_chunk_loop.simps [of _ off lo hi] Let_def)
    qed
  qed
qed

definition chunk_start :: "map_chunk \<Rightarrow> map_point" where
  "chunk_start c = \<lparr>p_x86 = ck_x86 c, p_arm = ck_arm c, p_flags = 0, p_exact = True\<rparr>"

lemma decoded_chunk:
  assumes "decode_map_chunk p i False out_max = Some ps" "parse_map p = Some v"
  obtains qs br where "ps = chunk_start (chunk_at (v_chunks v) (unat i)) # qs"
    "chunk_loop no_reader (rice_k (v_header v)) (unat (ck_insn_count (chunk_at (v_chunks v) (unat i))))
       (ck_x86 (chunk_at (v_chunks v) (unat i))) (ck_arm (chunk_at (v_chunks v) (unat i)))
       (bit_reader_mem (v_stream v) (v_stream_size v) (unat (ck_stream_byte (chunk_at (v_chunks v) (unat i))))) = Some (qs, br)"
    "unat (ck_stream_byte (chunk_at (v_chunks v) (unat i))) \<le> v_stream_size v"
  using assms by (auto simp: decode_map_chunk_def Let_def chunk_start_def split: if_splits option.splits)

lemma last_case: "(case xs @ y # ys of [] \<Rightarrow> a | q # qs \<Rightarrow> g (last (q # qs))) = g (last (y # ys))"
  by (cases xs) simp_all

lemma up_to_chunks:
  assumes "i < n" "sorted (map p_arm (concat (map ps [0..<n])))"
    and "Suc i = n \<or> (\<exists>q qs. ps (Suc i) = q # qs \<and> off < p_arm q)"
  shows "up_to off (concat (map ps [0..<n])) = up_to off (concat (map ps [0..<i])) @ up_to off (ps i)"
proof -
  have split: "[0..<n] = [0..<i] @ i # [Suc i..<n]"
    using assms(1) by (metis le_add1 less_imp_add_positive upt_add_eq_append upt_conv_Cons plus_nat.add_0)
  have "up_to off (concat (map ps [Suc i..<n])) = []"
  proof (cases "Suc i = n")
    case False
    then have si: "Suc i < n" using assms(1) by simp
    obtain q qs where q: "ps (Suc i) = q # qs" "off < p_arm q" using assms(3) False by blast
    have "sorted (map p_arm (concat (map ps [Suc i..<n])))"
      using assms(2) unfolding split by (simp add: sorted_append)
    then have "\<forall>p\<in>set (concat (map ps [Suc i..<n])). p_arm q \<le> p_arm p"
      unfolding upt_conv_Cons [OF si] by (auto simp: q(1))
    then show ?thesis using q(2) unfolding up_to_def filter_empty_conv by fastforce
  qed (simp add: up_to_def)
  then show ?thesis unfolding split by (simp add: up_to_def)
qed

text \<open>C29: when every chunk of a map decodes and the boundaries are in ARM order, the answer for an ARM
  offset is the last boundary of the whole map at or before it, and no answer exactly when there is none:
  the binary search for the chunk and the early stop of the walk lose nothing.\<close>

theorem map_answers_last_boundary:
  assumes "parse_map p = Some v" "n = unat (chunk_count (v_header v))"
    and "\<forall>i<n. decode_map_chunk p (word_of_nat i) False out_max = Some (ps i)"
    and "sorted (map p_arm (concat (map ps [0..<n])))"
  shows "decode_map p off out = (case up_to off (concat (map ps [0..<n])) of [] \<Rightarrow> (NotTranslated, out)
    | q # qs \<Rightarrow> (Resolved, answer_at off (last (q # qs))))"
proof -
  let ?c = "chunk_at (v_chunks v)"
  have n: "0 < n" using parse_map_stream(2) [OF assms(1)] assms(2) by (simp add: unat_gt_0)
  have u: "unat (word_of_nat i :: u32) = i" if "i < n" for i
  proof -
    have "unat (chunk_count (v_header v)) < 2 ^ LENGTH(32)" by (rule unsigned_less)
    then show ?thesis using that assms(2) by (simp add: unat_of_nat)
  qed
  obtain i where i: "find_chunk (chunk_count (v_header v)) off (\<lambda>i. Some (?c i)) = Some i" "i < n"
      "i = 0 \<or> ck_arm (?c i) \<le> off" "Suc i = n \<or> off < ck_arm (?c (Suc i))"
    using find_chunk_brackets [of 0 n ?c off n] n by (auto simp: find_chunk_def assms(2))
  obtain qs br where d: "ps i = chunk_start (?c i) # qs"
      "chunk_loop no_reader (rice_k (v_header v)) (unat (ck_insn_count (?c i))) (ck_x86 (?c i)) (ck_arm (?c i))
         (bit_reader_mem (v_stream v) (v_stream_size v) (unat (ck_stream_byte (?c i)))) = Some (qs, br)"
      "unat (ck_stream_byte (?c i)) \<le> v_stream_size v"
    using decoded_chunk [of p "word_of_nat i" out_max "ps i" v] assms(1,3) i(2) u by (metis (no_types, lifting))
  have later: "Suc i = n \<or> (\<exists>q qs. ps (Suc i) = q # qs \<and> off < p_arm q)"
  proof (cases "Suc i = n")
    case False
    then have si: "Suc i < n" using i(2) by simp
    obtain qs' where "ps (Suc i) = chunk_start (?c (Suc i)) # qs'"
      using decoded_chunk [of p "word_of_nat (Suc i)" out_max "ps (Suc i)" v] assms(1,3) si u by (metis (no_types, lifting))
    then show ?thesis using False i(4) by (simp add: chunk_start_def)
  qed simp
  note all = up_to_chunks [OF i(2) assms(4) later]
  have dm: "decode_map p off out = walk_to_target no_reader
      (bit_reader_mem (v_stream v) (v_stream_size v) (unat (ck_stream_byte (?c i)))) (rice_k (v_header v)) (?c i) off out"
    using assms(1) i(1) d(3) by (simp add: decode_map_def Let_def)
  show ?thesis
  proof (cases "ck_arm (?c i) \<le> off")
    case True
    then have "up_to off (ps i) = chunk_start (?c i) # up_to off qs" by (simp add: d(1) up_to_def chunk_start_def)
    moreover have "answer_at off (chunk_start (?c i)) = \<lparr>p_x86 = ck_x86 (?c i), p_arm = ck_arm (?c i), p_flags = 0,
        p_exact = (ck_arm (?c i) = off)\<rparr>" by (simp add: answer_at_def chunk_start_def)
    ultimately show ?thesis
      unfolding dm all walk_to_target_def walk_loop_last [OF d(2)] using True
      by (simp only: last_case [where g = "\<lambda>p. (Resolved, answer_at off p)"]) (simp add: leD last_map)
  next
    case False
    then have "i = 0" using i(3) by simp
    moreover have "up_to off (ps i) = []"
      using False chunk_loop_arms [OF d(2)] by (auto simp: d(1) up_to_def filter_empty_conv chunk_start_def)
    ultimately show ?thesis
      unfolding dm all using False by (simp add: walk_to_target_def up_to_def not_le)
  qed
qed

end
