(* ===== verification/Guest_Remote.thy ===== *)
theory Guest_Remote
  imports Guest_Map_Props
begin

text \<open>
  Reading another process: with a callback whose answers agree with a memory, every operation either gives
  what it gives on that memory, or reports \<^verbatim>\<open>Unavailable\<close> because a read was lost; and the decode of a map
  through the callback is the decode of a copy of the map.
\<close>

section \<open>Lossy results\<close>

definition lossy_eq :: "bool \<Rightarrow> 'a \<Rightarrow> 'a \<Rightarrow> 'a \<Rightarrow> bool" where
  "lossy_eq lossy fail x y \<longleftrightarrow> x = y \<or> lossy \<and> x = fail"

lemma lossy_eq_refl [simp]: "lossy_eq l fail x x"
  by (simp add: lossy_eq_def)

context two_readers begin

lemma same_walk: "same b1 b2 \<Longrightarrow> lossy_eq lossy None (walk_loop r1 k off n x a best b1) (walk_loop r2 k off n x a best b2)"
proof (induction n arbitrary: x a best b1 b2)
  case (Suc n)
  show ?case
    using same_step [OF Suc.prems, of k x a]
  proof (cases rule: agrees_cases)
    case (3 v c1 c2)
    then show ?thesis using Suc.IH [OF 3(3)] by (cases v) simp
  qed (auto simp: lossy_eq_def)
qed simp

lemma same_walk_to_target:
  "same b1 b2 \<Longrightarrow> lossy_eq lossy (Unavailable, out) (walk_to_target r1 b1 k c off out) (walk_to_target r2 b2 k c off out)"
  using same_walk [of b1 b2 k off "unat (ck_insn_count c)" "ck_x86 c" "ck_arm c"
      "\<lparr>p_x86 = ck_x86 c, p_arm = ck_arm c, p_flags = 0, p_exact = (ck_arm c = off)\<rparr>"]
  by (auto simp: walk_to_target_def lossy_eq_def)

end

text \<open>The window reader over a faithful callback, and the reader over a copy; without losses, the two agree.\<close>

lemma window_and_copy: "faithful m r \<Longrightarrow> two_readers r r2 (loses r) (same_stream m)"
  by unfold_locales (rule same_stream_bit)

lemma whole_loses [simp]: "\<not> loses (whole m)"
  by (simp add: loses_def whole_def)

interpretation window_copy: two_readers "whole m" r2 False "same_stream m" for m r2
  using window_and_copy [OF faithful_whole] by simp

lemma faithful_read:
  assumes "faithful m r"
  obtains "loses r" "r a n = None" | "r a n = Some (bytes m a n)"
  using assms by (cases "r a n") (auto simp: faithful_def loses_def)

section \<open>Finding the chunk through the callback\<close>

lemma find_chunk_lossy:
  assumes "\<forall>i<hi. lossy_eq l None (f i) (g i)"
  shows "lossy_eq l None (find_chunk_loop f off lo hi) (find_chunk_loop g off lo hi)"
  using assms
proof (induction f off lo hi rule: find_chunk_loop.induct)
  case (1 f off lo hi)
  show ?case
  proof (cases "1 < hi - lo")
    case True
    let ?mid = "lo + (hi - lo) div 2"
    have m: "?mid < hi" using True by linarith
    then have e: "lossy_eq l None (f ?mid) (g ?mid)" using 1(3) by simp
    show ?thesis
    proof (cases "f ?mid")
      case None
      then show ?thesis
        using e True by (auto simp: lossy_eq_def find_chunk_loop.simps [of f off lo hi] find_chunk_loop.simps [of g off lo hi] Let_def)
    next
      case (Some c)
      then have g: "g ?mid = Some c" using e by (auto simp: lossy_eq_def)
      have "ck_arm c \<le> off \<Longrightarrow> lossy_eq l None (find_chunk_loop f off ?mid hi) (find_chunk_loop g off ?mid hi)"
        by (rule 1(1) [OF True refl Some]) (use 1(3) in auto)
      moreover have "\<not> ck_arm c \<le> off \<Longrightarrow> lossy_eq l None (find_chunk_loop f off lo ?mid) (find_chunk_loop g off lo ?mid)"
        by (rule 1(2) [OF True refl Some]) (use 1(3) m in auto)
      ultimately show ?thesis
        using Some g True by (auto simp: find_chunk_loop.simps [of f off lo hi] find_chunk_loop.simps [of g off lo hi] Let_def)
    qed
  qed (simp add: find_chunk_loop.simps [of f] find_chunk_loop.simps [of g])
qed

lemma take_bytes: "n \<le> k \<Longrightarrow> take n (bytes m a k) = bytes m a n"
  by (rule nth_equalityI) simp_all

lemma drop_bytes: "n + j \<le> k \<Longrightarrow> take j (drop n (bytes m a k)) = bytes m (a + word_of_nat n) j"
  by (rule nth_equalityI) (simp_all add: add.assoc)

section \<open>Decoding through the callback\<close>

lemma bytes_at_offset:
  assumes "unat (w :: u32) + j \<le> k"
  shows "take j (drop (unat w) (bytes m a k)) = bytes m (a + ucast w) j"
  using drop_bytes [OF assms] by simp

lemma fetch_lossy:
  assumes "faithful m r" "unat w + kChunkSize * Suc i \<le> k"
  shows "lossy_eq (loses r) None (fetch_chunk r (a + ucast (w :: u32)) i) (Some (chunk_at (drop (unat w) (bytes m a k)) i))"
proof -
  have "take kChunkSize (drop (kChunkSize * i) (drop (unat w) (bytes m a k))) =
      bytes m (a + ucast w + word_of_nat i * 16) kChunkSize"
    using drop_bytes [of "kChunkSize * i + unat w" kChunkSize k m a] assms(2) by (simp add: add.assoc add.commute mult.commute)
  then show ?thesis
    by (cases rule: faithful_read [OF assms(1), of "a + ucast w + word_of_nat i * 16" kChunkSize])
      (simp_all add: fetch_chunk_def chunk_at_def lossy_eq_def)
qed

lemma unat_u64: "unat (ucast (w :: u32) :: u64) = unat w"
proof -
  have "unat w < 2 ^ LENGTH(32)" by (rule unsigned_less)
  then show ?thesis by (simp add: unsigned_ucast_eq take_bit_nat_eq_self)
qed

lemma header_bounds:
  assumes "check_header h"
  shows "unat (chunks_offset h) + kChunkSize * unat (chunk_count h) \<le> unat (stream_offset h)"
    and "stream_offset h \<le> total_size h" "0x20 \<le> unat (total_size h)"
proof -
  have c: "chunk_count h \<le> kMaxChunkCount" and e: "(ucast (chunks_offset h) + ucast (chunk_count h) * 16 :: u64) \<le> ucast (stream_offset h)"
    using assms by (auto simp: check_header_def split: if_splits)
  show "stream_offset h \<le> total_size h" "0x20 \<le> unat (total_size h)"
    using assms by (auto simp: check_header_def word_less_nat_alt word_le_nat_alt not_less split: if_splits)
  have o: "unat (chunks_offset h) < 2 ^ LENGTH(32)" "unat (chunk_count h) < 2 ^ LENGTH(32)" by (rule unsigned_less)+
  then have "unat (ucast (chunks_offset h) + ucast (chunk_count h) * 16 :: u64) = unat (chunks_offset h) + unat (chunk_count h) * 16"
    by (simp add: unat_word_ariths unsigned_ucast_eq take_bit_nat_eq_self)
  moreover have "unat (ucast (stream_offset h) :: u64) = unat (stream_offset h)"
    by (rule unat_u64)
  ultimately show "unat (chunks_offset h) + kChunkSize * unat (chunk_count h) \<le> unat (stream_offset h)"
    using e by (simp add: word_le_nat_alt mult.commute)
qed

lemma same_stream_start:
  assumes "unat (w :: u32) + k \<le> j"
  shows "same_stream m (bit_reader_remote (a + ucast w) k sb) (bit_reader_mem (drop (unat w) (bytes m a j)) k sb)"
  using assms by (simp add: same_stream_def bit_reader_remote_def bit_reader_mem_def window_of_def bytes_def add.assoc)

text \<open>Once the header is good: the chunk that is found and the walk along it.\<close>

lemma remote_chunks_are_local:
  fixes a :: u64 and m :: "u64 \<Rightarrow> u8" and n :: nat and h :: map_header
  assumes "faithful m r" "check_header h" "unat (total_size h) \<le> n"
  defines "chunk \<equiv> chunk_at (drop (unat (chunks_offset h)) (bytes m a n))"
  obtains i where "find_chunk (chunk_count h) off (\<lambda>i. Some (chunk i)) = Some i"
    "lossy_eq (loses r) None (find_chunk (chunk_count h) off (fetch_chunk r (a + ucast (chunks_offset h)))) (Some i)"
    "lossy_eq (loses r) None (fetch_chunk r (a + ucast (chunks_offset h)) i) (Some (chunk i))"
proof -
  note b = header_bounds [OF assms(2)]
  have count: "0 < unat (chunk_count h)" using assms(2) by (auto simp: check_header_def unat_gt_0 split: if_splits)
  have fetch: "lossy_eq (loses r) None (fetch_chunk r (a + ucast (chunks_offset h)) i) (Some (chunk i))"
    if "i < unat (chunk_count h)" for i
    unfolding chunk_def using b assms(3) that by (intro fetch_lossy [OF assms(1)]) (simp add: word_le_nat_alt)
  obtain i where i: "find_chunk (chunk_count h) off (\<lambda>i. Some (chunk i)) = Some i" "i < unat (chunk_count h)"
    using find_chunk_brackets [of 0 "unat (chunk_count h)" chunk off "unat (chunk_count h)"] count
    by (auto simp: find_chunk_def)
  have "lossy_eq (loses r) None (find_chunk (chunk_count h) off (fetch_chunk r (a + ucast (chunks_offset h)))) (Some i)"
    unfolding i(1) [symmetric] find_chunk_def by (rule find_chunk_lossy) (use fetch in blast)
  then show thesis using that i fetch by blast
qed

lemma remote_walk_is_local:
  assumes "faithful m r" "check_header h" "unat (total_size h) \<le> n"
  defines "k \<equiv> unat (total_size h - stream_offset h)"
  shows "lossy_eq (loses r) (Unavailable, out)
    (walk_to_target r (bit_reader_remote (a + ucast (stream_offset h)) k sb) ks c off out)
    (walk_to_target no_reader (bit_reader_mem (drop (unat (stream_offset h)) (bytes m a n)) k sb) ks c off out)"
proof (rule two_readers.same_walk_to_target [OF window_and_copy [OF assms(1)]], rule same_stream_start)
  show "unat (stream_offset h) + k \<le> n"
    using header_bounds [OF assms(2)] assms(3) unfolding k_def by (simp add: unat_sub word_le_nat_alt)
qed

lemma decode_remote_local:
  assumes "faithful m r" "unat (total_size (parse_header (bytes m (f_map f) kHeaderSize))) \<le> n" "kHeaderSize \<le> n"
  shows "lossy_eq (loses r) (Unavailable, no_point) (decode_remote r f off) (decode_map (Some (bytes m (f_map f) n)) off no_point)"
proof -
  let ?h = "parse_header (bytes m (f_map f) kHeaderSize)"
  let ?bs = "bytes m (f_map f) n"
  let ?v = "\<lparr>v_header = ?h, v_chunks = drop (unat (chunks_offset ?h)) ?bs, v_stream = drop (unat (stream_offset ?h)) ?bs,
    v_stream_size = unat (total_size ?h - stream_offset ?h)\<rparr>"
  show ?thesis
  proof (cases rule: faithful_read [OF assms(1), of "f_map f" kHeaderSize])
    case 1
    then show ?thesis by (simp add: decode_remote_def lossy_eq_def)
  next
    case 2
    show ?thesis
    proof (cases "check_header ?h")
      case False
      then show ?thesis
        using 2 assms(2,3) by (simp add: decode_remote_def decode_map_def parse_map_def take_bytes Let_def)
    next
      case True
      have v: "parse_map (Some ?bs) = Some ?v"
        using True assms(2,3) by (simp add: parse_map_def take_bytes Let_def)
      obtain i where i: "find_chunk (chunk_count ?h) off (\<lambda>i. Some (chunk_at (v_chunks ?v) i)) = Some i"
          "lossy_eq (loses r) None (find_chunk (chunk_count ?h) off (fetch_chunk r (f_map f + ucast (chunks_offset ?h)))) (Some i)"
          "lossy_eq (loses r) None (fetch_chunk r (f_map f + ucast (chunks_offset ?h)) i) (Some (chunk_at (v_chunks ?v) i))"
        using remote_chunks_are_local [OF assms(1) True assms(2), where a = "f_map f" and off = off] by auto
      let ?c = "chunk_at (drop (unat (chunks_offset ?h)) ?bs) i"
      note w = remote_walk_is_local [OF assms(1) True assms(2), where a = "f_map f" and c = ?c and off = off
        and sb = "unat (ck_stream_byte ?c)" and ks = "rice_k ?h" and out = no_point]
      note defs = decode_remote_def decode_map_def i(1) [simplified] Let_def
      consider "loses r" "find_chunk (chunk_count ?h) off (fetch_chunk r (f_map f + ucast (chunks_offset ?h))) = None"
        | "find_chunk (chunk_count ?h) off (fetch_chunk r (f_map f + ucast (chunks_offset ?h))) = Some i"
          "loses r" "fetch_chunk r (f_map f + ucast (chunks_offset ?h)) i = None"
        | "find_chunk (chunk_count ?h) off (fetch_chunk r (f_map f + ucast (chunks_offset ?h))) = Some i"
          "fetch_chunk r (f_map f + ucast (chunks_offset ?h)) i = Some ?c"
        using i(2,3) by (auto simp: lossy_eq_def)
      then show ?thesis
        by cases (use w v 2 True in \<open>simp_all add: defs lossy_eq_def\<close>)
    qed
  qed
qed

text \<open>C30: decoding a map through the callback, chunk by chunk and in windows of the stream, gives what
  decoding a copy of the map in memory gives, or reports \<^verbatim>\<open>Unavailable\<close> because a read was lost.\<close>

theorem remote_decode_is_local:
  assumes "faithful m r" "unat (total_size (parse_header (bytes m (f_map f) kHeaderSize))) \<le> n" "kHeaderSize \<le> n"
  shows "decode_remote r f off = decode_map (Some (bytes m (f_map f) n)) off no_point \<or>
    loses r \<and> decode_remote r f off = (Unavailable, no_point)"
  using decode_remote_local [OF assms] by (simp add: lossy_eq_def)

end
