(* ===== verification/Guest_Tree.thy ===== *)
theory Guest_Tree
  imports Guest_Remote
begin

text \<open>
  The walk of the fragment tree finds the fragment that contains an ARM program counter, and a lookup
  through a callback that loses reads gives the answer of the whole memory or \<^verbatim>\<open>Unavailable\<close>.
\<close>

section \<open>A tree in memory\<close>

fun holds_tree :: "(u64 \<Rightarrow> u8) \<Rightarrow> u64 \<Rightarrow> fragment tree \<Rightarrow> bool" where
  "holds_tree m a Leaf \<longleftrightarrow> a = 0"
| "holds_tree m a (Node l f r) \<longleftrightarrow>
     (let win = bytes m (a + kWindowBegin) kNodeWindow in
      0x1000 \<le> a \<and> a AND 7 = 0 \<and> f = parse_node win a \<and> f_arm_size f \<noteq> 0 \<and> f_arm_size f \<le> kMaxFragmentSize \<and>
      holds_tree m (node_left win) l \<and> holds_tree m (node_right win) r)"

text \<open>A search tree on ARM intervals, none of which wraps around the address space.\<close>

definition interval_tree :: "fragment tree \<Rightarrow> bool" where
  "interval_tree t \<longleftrightarrow> sorted_wrt (\<lambda>f g. arm_end f \<le> f_arm_begin g) (inorder t) \<and>
     (\<forall>f\<in>set_tree t. f_arm_begin f < arm_end f)"

lemma interval_tree_Node:
  assumes "interval_tree (Node l f r)"
  shows "interval_tree l" "interval_tree r"
    "\<forall>g\<in>set_tree l. arm_end g \<le> f_arm_begin f" "\<forall>g\<in>set_tree r. arm_end f \<le> f_arm_begin g" "f_arm_begin f < arm_end f"
  using assms by (auto simp: interval_tree_def sorted_wrt_append)

lemma holds_tree_nodes: "holds_tree m a t \<Longrightarrow> f \<in> set_tree t \<Longrightarrow>
    f = parse_node (bytes m (f_node f + kWindowBegin) kNodeWindow) (f_node f) \<and> 0x1000 \<le> f_node f"
  by (induction t arbitrary: a) (auto simp: Let_def parse_node_def)

lemma contained_once:
  "interval_tree t \<Longrightarrow> f \<in> set_tree t \<Longrightarrow> g \<in> set_tree t \<Longrightarrow> frag_contains f pc \<Longrightarrow> frag_contains g pc \<Longrightarrow> f = g"
proof (induction t)
  case (Node l h r)
  note i = interval_tree_Node [OF Node.prems(1)]
  have below: "\<not> frag_contains x pc \<or> \<not> frag_contains y pc" if "arm_end x \<le> f_arm_begin y" for x y
    using that by (auto simp: frag_contains_def)
  have apart: "\<not> frag_contains x pc \<or> \<not> frag_contains y pc" if "x \<in> set_tree l" "y \<in> set_tree r" for x y
    by (rule below) (use i(3-5) that in \<open>meson order.trans less_imp_le\<close>)
  have b: "x \<in> set_tree l \<Longrightarrow> \<not> frag_contains x pc \<or> \<not> frag_contains h pc"
      "x \<in> set_tree r \<Longrightarrow> \<not> frag_contains x pc \<or> \<not> frag_contains h pc" for x
    using below i(3,4) by blast+
  show ?case
    using Node.prems(2-5) Node.IH(1) [OF i(1)] Node.IH(2) [OF i(2)] apart b by auto
qed simp

section \<open>The walk\<close>

lemma lookup_loop_finds:
  assumes "holds_tree m a t" "interval_tree t" "height t < d"
  shows "(\<exists>f\<in>set_tree t. frag_contains f pc \<and> lookup_loop d (whole m) a pc out = (Resolved, f)) \<or>
    (\<forall>f\<in>set_tree t. \<not> frag_contains f pc) \<and> lookup_loop d (whole m) a pc out = (NotTranslated, out)"
  using assms
proof (induction t arbitrary: a d)
  case Leaf
  then show ?case by (cases d) auto
next
  case (Node l f r)
  obtain d' where d: "d = Suc d'" using Node.prems(3) by (cases d) auto
  let ?win = "bytes m (a + kWindowBegin) kNodeWindow"
  have n: "0x1000 \<le> a" "a AND 7 = 0" "f = parse_node ?win a" "f_arm_size f \<noteq> 0" "f_arm_size f \<le> kMaxFragmentSize"
      "holds_tree m (node_left ?win) l" "holds_tree m (node_right ?win) r"
    using Node.prems(1) unfolding holds_tree.simps Let_def by blast+
  have a: "a \<noteq> 0" "f_node f \<noteq> 0" using n(1,3) by (auto simp: parse_node_def)
  note i = interval_tree_Node [OF Node.prems(2)]
  have step: "lookup_loop d (whole m) a pc out =
      (if pc < f_arm_begin f then lookup_loop d' (whole m) (node_left ?win) pc out
       else if arm_end f \<le> pc then lookup_loop d' (whole m) (node_right ?win) pc out else (Resolved, f))"
    using n(1-5) a(1) by (simp add: d read_node_def whole_def Let_def leD)
  have h: "height l < d'" "height r < d'" using Node.prems(3) d by auto
  consider "pc < f_arm_begin f" | "\<not> pc < f_arm_begin f" "arm_end f \<le> pc" | "f_arm_begin f \<le> pc" "pc < arm_end f" by force
  then show ?case
  proof cases
    case 1
    then have "\<forall>g\<in>set_tree (Node l f r). frag_contains g pc \<longrightarrow> g \<in> set_tree l"
      using i(4,5) by (fastforce simp: frag_contains_def)
    then show ?thesis using 1 step Node.IH(1) [OF n(6) i(1) h(1)] by auto
  next
    case 2
    then have "\<forall>g\<in>set_tree (Node l f r). frag_contains g pc \<longrightarrow> g \<in> set_tree r"
      using i(3,5) by (fastforce simp: frag_contains_def)
    then show ?thesis using 2 step Node.IH(2) [OF n(7) i(2) h(2)] by auto
  next
    case 3
    then show ?thesis using step a(2) by (auto simp: frag_contains_def leD)
  qed
qed

section \<open>Lost reads\<close>

lemma lookup_loop_lossy:
  assumes "faithful m r"
  shows "lossy_eq (loses r) (Unavailable, out) (lookup_loop d r a pc out) (lookup_loop d (whole m) a pc out)"
proof (induction d arbitrary: a)
  case (Suc d)
  show ?case
    by (cases rule: faithful_read [OF assms, of "a + kWindowBegin" kNodeWindow])
      (use Suc in \<open>auto simp: read_node_def whole_def Let_def lossy_eq_def\<close>)
qed simp

lemma lookup_lossy:
  assumes "faithful m r"
  shows "lossy_eq (loses r) (Unavailable, out) (lookup_fragment root r base pc out) (lookup_fragment root (whole m) base pc out)"
  by (cases rule: faithful_read [OF assms, of "base + root" 8])
    (use lookup_loop_lossy [OF assms] in \<open>auto simp: lookup_fragment_def whole_def lossy_eq_def\<close>)

lemma decode_lossy:
  assumes "faithful m r"
  shows "lossy_eq (loses r) (Unavailable, no_point) (decode_remote r f off) (decode_remote (whole m) f off)"
proof -
  let ?n = "max kHeaderSize (unat (total_size (parse_header (bytes m (f_map f) kHeaderSize))))"
  show ?thesis
    using decode_remote_local [OF assms, of f ?n off] decode_remote_local [OF faithful_whole, of m f ?n off]
    by (auto simp: lossy_eq_def)
qed

lemma resolve_in_lossy:
  assumes "faithful m r"
  shows "lossy_eq (loses r) (Unavailable, out) (resolve_in_fragment r f pc out) (resolve_in_fragment (whole m) f pc out)"
  using decode_lossy [OF assms, of f "ucast (pc - f_arm_begin f)"]
  by (auto simp: resolve_in_fragment_def Let_def lossy_eq_def)

lemma resolve_pc_lossy:
  assumes "faithful m r"
  shows "lossy_eq (loses r) (Unavailable, out) (resolve_pc root r base pc out) (resolve_pc root (whole m) base pc out)"
proof -
  obtain s f where w: "lookup_fragment root (whole m) base pc no_fragment = (s, f)" by fastforce
  then consider "lookup_fragment root r base pc no_fragment = (s, f)"
    | "loses r" "lookup_fragment root r base pc no_fragment = (Unavailable, no_fragment)"
    using lookup_lossy [OF assms, of no_fragment root base pc] by (auto simp: lossy_eq_def)
  then show ?thesis
  proof cases
    case 1
    then show ?thesis
      using resolve_in_lossy [OF assms, of out f pc] w by (cases s) (simp_all add: resolve_pc_def)
  next
    case 2
    then show ?thesis by (simp add: resolve_pc_def lossy_eq_def)
  qed
qed

text \<open>C31: on a search tree of ARM intervals less than 4096 deep, the walk gives the one fragment that
  contains the program counter, or reports that none does, or that a read was lost; it never gives another
  fragment.\<close>

theorem lookup_finds_the_fragment:
  assumes "faithful m r" "root \<noteq> 0" "holds_tree m (field64 (bytes m (base + root) 8) 0) t" "interval_tree t"
    and "height t < kMaxTreeDepth"
  shows "(\<exists>f\<in>set_tree t. frag_contains f pc \<and> (\<forall>g\<in>set_tree t. frag_contains g pc \<longrightarrow> g = f) \<and>
      lookup_fragment root r base pc out = (Resolved, f)) \<or>
    (\<forall>f\<in>set_tree t. \<not> frag_contains f pc) \<and> lookup_fragment root r base pc out = (NotTranslated, out) \<or>
    loses r \<and> lookup_fragment root r base pc out = (Unavailable, out)"
proof -
  have w: "lookup_fragment root (whole m) base pc out =
      lookup_loop kMaxTreeDepth (whole m) (field64 (bytes m (base + root) 8) 0) pc out"
    using assms(2) by (simp add: lookup_fragment_def whole_def)
  show ?thesis
    using lookup_loop_finds [OF assms(3-5), of pc out] lookup_lossy [OF assms(1), of out root base pc]
      contained_once [OF assms(4)] unfolding w lossy_eq_def by metis
qed

end
