(* ===== verification/Guest_Cache.thy ===== *)
theory Guest_Cache
  imports Guest_Tree
begin

text \<open>
  The cached lookup answers as the uncached one, over any sequence of queries, as long as no query falls
  before a fragment's first boundary; for those, the second answer is wrong.
\<close>

section \<open>A process\<close>

text \<open>A memory with a fragment tree at the runtime's root pointer.\<close>

definition process :: "(u64 \<Rightarrow> u8) \<Rightarrow> u64 \<Rightarrow> u64 \<Rightarrow> fragment tree \<Rightarrow> bool" where
  "process m root base t \<longleftrightarrow> root \<noteq> 0 \<and> holds_tree m (field64 (bytes m (base + root) 8) 0) t \<and> interval_tree t \<and>
     height t < kMaxTreeDepth"

lemma lookup_in_process:
  assumes "process m root base t"
  shows "f \<in> set_tree t \<Longrightarrow> frag_contains f pc \<Longrightarrow> lookup_fragment root (whole m) base pc out = (Resolved, f)"
    and "\<forall>f\<in>set_tree t. \<not> frag_contains f pc \<Longrightarrow> lookup_fragment root (whole m) base pc out = (NotTranslated, out)"
proof -
  have w: "lookup_fragment root (whole m) base pc out =
      lookup_loop kMaxTreeDepth (whole m) (field64 (bytes m (base + root) 8) 0) pc out" and i: "interval_tree t"
    using assms by (simp_all add: process_def lookup_fragment_def whole_def)
  have l: "(\<exists>f\<in>set_tree t. frag_contains f pc \<and> lookup_fragment root (whole m) base pc out = (Resolved, f)) \<or>
      (\<forall>f\<in>set_tree t. \<not> frag_contains f pc) \<and> lookup_fragment root (whole m) base pc out = (NotTranslated, out)"
    unfolding w by (rule lookup_loop_finds) (use assms in \<open>simp_all add: process_def\<close>)
  then show "f \<in> set_tree t \<Longrightarrow> frag_contains f pc \<Longrightarrow> lookup_fragment root (whole m) base pc out = (Resolved, f)"
    using contained_once [OF i] by metis
  show "\<forall>f\<in>set_tree t. \<not> frag_contains f pc \<Longrightarrow> lookup_fragment root (whole m) base pc out = (NotTranslated, out)"
    using l by blast
qed

text \<open>No translated fragment holds the program counter before its first boundary.\<close>

definition past_first_boundary :: "(u64 \<Rightarrow> u8) \<Rightarrow> fragment tree \<Rightarrow> u64 \<Rightarrow> bool" where
  "past_first_boundary m t pc \<longleftrightarrow> (\<forall>f\<in>set_tree t. frag_contains f pc \<and> f_kind f = kTranslated \<longrightarrow>
     fst (decode_remote (whole m) f (ucast (pc - f_arm_begin f))) \<noteq> NotTranslated)"

section \<open>Entries that are right\<close>

definition resolved :: "fragment \<Rightarrow> u64 \<Rightarrow> map_point \<Rightarrow> u64 \<Rightarrow> resolution \<Rightarrow> resolution" where
  "resolved f pc point x out =
     out\<lparr>res_fragment := f, res_arm_offset := ucast (pc - f_arm_begin f), res_point := point, res_x86_pc := x\<rparr>"

definition entry_ok :: "(u64 \<Rightarrow> u8) \<Rightarrow> fragment tree \<Rightarrow> cache_entry \<Rightarrow> bool" where
  "entry_ok m t e \<longleftrightarrow> (e_used e \<longrightarrow>
     (if f_node (e_fragment e) \<noteq> 0 then
        e_fragment e \<in> set_tree t \<and>
        (f_kind (e_fragment e) = kTranslated \<longrightarrow> (\<forall>out. resolve_in_fragment (whole m) (e_fragment e) (e_arm_pc e) out =
           (Resolved, resolved (e_fragment e) (e_arm_pc e) (e_point e) (e_x86_pc e) out)))
      else \<forall>f\<in>set_tree t. \<not> frag_contains f (e_arm_pc e)))"

definition cache_ok :: "(u64 \<Rightarrow> u8) \<Rightarrow> fragment tree \<Rightarrow> pc_cache \<Rightarrow> bool" where
  "cache_ok m t c \<longleftrightarrow> (\<forall>i. entry_ok m t (pc_entries c i))"

lemma cache_ok_simps [simp]:
  "cache_ok m t (c\<lparr>pc_hits := v\<rparr>) = cache_ok m t c" "cache_ok m t (c\<lparr>fragment_hits := v\<rparr>) = cache_ok m t c"
  "cache_ok m t (c\<lparr>negative_hits := v\<rparr>) = cache_ok m t c" "cache_ok m t (c\<lparr>misses := v\<rparr>) = cache_ok m t c"
  "cache_ok m t (c\<lparr>stale := v\<rparr>) = cache_ok m t c"
  by (simp_all add: cache_ok_def)

lemma cache_ok_set: "cache_ok m t c \<Longrightarrow> entry_ok m t e \<Longrightarrow> cache_ok m t (set_entry i e c)"
  by (simp add: cache_ok_def set_entry_def)

lemma entry_ok_unused: "\<not> e_used e \<Longrightarrow> entry_ok m t e"
  by (simp add: entry_ok_def)

lemma entry_ok_cong:
  assumes "entry_ok m t e" "e_used e' = e_used e" "e_fragment e' = e_fragment e" "e_arm_pc e' = e_arm_pc e"
    and "e_point e' = e_point e" "e_x86_pc e' = e_x86_pc e"
  shows "entry_ok m t e'"
  using assms by (simp add: entry_ok_def)

text \<open>A cleared cache and an empty one are right for every process.\<close>

lemma cache_ok_empty: "cache_ok m t empty_cache" "cache_ok m t (cache_clear c)"
  by (simp_all add: cache_ok_def empty_cache_def cache_clear_def entry_ok_def no_entry_def)

lemma select_loop_hit: "select_loop es pc is v = (True, i) \<Longrightarrow> e_used (es i) \<and> entry_matches (es i) pc"
  by (induction "is" arbitrary: v) (auto split: if_splits)

lemma select_loop_in: "select_loop es pc is v = (hit, i) \<Longrightarrow> i = v \<or> i \<in> set is"
proof (induction "is" arbitrary: v)
  case (Cons j js)
  then show ?case by (cases "e_used (es j) \<and> entry_matches (es j) pc") (auto split: if_splits)
qed simp

text \<open>The entry that is selected lies in the array.\<close>

lemma cache_select_in:
  assumes "cache_select c pc = (hit, i, c')"
  shows "i < kSets * kWays"
proof -
  have "i \<in> {cache_set pc ..< cache_set pc + kWays}"
    using assms by (auto simp: cache_select_def Let_def split: prod.splits dest!: select_loop_in)
  then show ?thesis by (auto simp: cache_set_def)
qed

lemma cache_select_ok:
  assumes "cache_select c pc = (hit, i, c')" "cache_ok m t c"
  shows "cache_ok m t c'" "hit \<Longrightarrow> e_used (pc_entries c' i) \<and> entry_matches (pc_entries c' i) pc"
proof -
  let ?c1 = "c\<lparr>pc_clock := pc_clock c + 1\<rparr>"
  have s: "select_loop (pc_entries ?c1) pc [cache_set pc..<cache_set pc + kWays] (cache_set pc) = (hit, i)"
      "c' = set_entry i ((pc_entries ?c1 i)\<lparr>e_stamp := pc_clock ?c1\<rparr>) ?c1"
    using assms(1) by (auto simp: cache_select_def Let_def set_entry_def split: prod.splits)
  show "cache_ok m t c'"
    unfolding s(2) using assms(2) by (auto simp: cache_ok_def set_entry_def intro: entry_ok_cong)
  show "e_used (pc_entries c' i) \<and> entry_matches (pc_entries c' i) pc" if hit
    using select_loop_hit [of "pc_entries ?c1" pc _ _ i] s that by (auto simp: set_entry_def entry_matches_def)
qed

section \<open>One query\<close>

lemma resolved_for_all:
  assumes "resolve_in_fragment r f pc out = (Resolved, out')"
  shows "resolve_in_fragment r f pc o2 = (Resolved, resolved f pc (res_point out') (res_x86_pc out') o2)"
    and "out' = resolved f pc (res_point out') (res_x86_pc out') out"
  using assms by (auto simp: resolve_in_fragment_def resolved_def Let_def split: if_splits prod.splits status.splits)

lemma not_translated_in_fragment:
  assumes "resolve_in_fragment (whole m) f pc out = (NotTranslated, out')" "f_kind f = kTranslated"
    and "past_first_boundary m t pc" "f \<in> set_tree t" "frag_contains f pc"
  shows False
  using assms by (fastforce simp: resolve_in_fragment_def past_first_boundary_def Let_def split: if_splits prod.splits status.splits)

text \<open>The entry a decode leaves behind.\<close>

lemma entry_ok_decoded:
  assumes "resolve_in_fragment (whole m) f pc out = (s, out')" "s \<noteq> Unavailable" "f \<in> set_tree t" "frag_contains f pc"
    and "past_first_boundary m t pc" "e_fragment e = f" "e_arm_pc e = pc" "e_point e = res_point out'"
    and "s = Resolved \<Longrightarrow> e_x86_pc e = res_x86_pc out'"
  shows "entry_ok m t e"
proof (cases "f_kind f = kTranslated")
  case True
  then have "s = Resolved" using not_translated_in_fragment [OF _ True assms(5,3,4)] assms(1,2) by (cases s) auto
  then show ?thesis
    using assms resolved_for_all(1) [of "whole m" f pc out out'] by (simp add: entry_ok_def frag_contains_def)
next
  case False
  then show ?thesis using assms(3,4,6) by (simp add: entry_ok_def frag_contains_def)
qed

lemma resolve_in_cases:
  assumes "faithful m r" "resolve_in_fragment r f pc out = (s, out')" "s \<noteq> Unavailable"
  shows "resolve_in_fragment (whole m) f pc out = (s, out')"
  using resolve_in_lossy [OF assms(1), of out f pc] assms(2,3) by (auto simp: lossy_eq_def)

lemma resolve_unavailable:
  assumes "resolve_in_fragment r f pc out = (Unavailable, out')"
  shows "out' = out"
  using assms by (auto simp: resolve_in_fragment_def Let_def split: if_splits prod.splits status.splits)

lemma cold_ok:
  assumes "process m root base t" "faithful m r" "past_first_boundary m t pc" "cache_ok m t c"
    and "resolve_cold root r base pc out i c = (s, out', c')"
  shows "lossy_eq (loses r) (Unavailable, out) (s, out') (resolve_pc root (whole m) base pc out) \<and> cache_ok m t c'"
proof (cases "\<exists>f\<in>set_tree t. frag_contains f pc")
  case False
  then have w: "lookup_fragment root (whole m) base pc no_fragment = (NotTranslated, no_fragment)"
    using lookup_in_process(2) [OF assms(1)] by blast
  consider "lookup_fragment root r base pc no_fragment = (NotTranslated, no_fragment)"
    | "loses r" "lookup_fragment root r base pc no_fragment = (Unavailable, no_fragment)"
    using lookup_lossy [OF assms(2), of no_fragment root base pc] w by (auto simp: lossy_eq_def)
  then show ?thesis
  proof cases
    case 1
    have "entry_ok m t (no_entry\<lparr>e_used := True, e_arm_pc := pc, e_stamp := st\<rparr>)" for st
      using False by (simp add: entry_ok_def no_entry_def no_fragment_def)
    then show ?thesis
      using 1 w assms(4,5) by (auto simp: resolve_cold_def resolve_pc_def Let_def intro!: cache_ok_set)
  next
    case 2
    then show ?thesis using assms(4,5) by (auto simp: resolve_cold_def Let_def lossy_eq_def)
  qed
next
  case True
  then obtain f where f: "f \<in> set_tree t" "frag_contains f pc" by blast
  then have w: "lookup_fragment root (whole m) base pc no_fragment = (Resolved, f)"
    using lookup_in_process(1) [OF assms(1)] by blast
  consider "lookup_fragment root r base pc no_fragment = (Resolved, f)"
    | "loses r" "lookup_fragment root r base pc no_fragment = (Unavailable, no_fragment)"
    using lookup_lossy [OF assms(2), of no_fragment root base pc] w by (auto simp: lossy_eq_def)
  then show ?thesis
  proof cases
    case 1
    obtain s1 o1 where d: "resolve_in_fragment r f pc out = (s1, o1)" by fastforce
    have eq: "s = s1" "out' = o1" using assms(5) 1 d by (auto simp: resolve_cold_def Let_def)
    have "lossy_eq (loses r) (Unavailable, out) (s, out') (resolve_pc root (whole m) base pc out)"
      using resolve_in_lossy [OF assms(2), of out f pc] w d by (simp add: resolve_pc_def eq)
    moreover have "cache_ok m t c'"
    proof (cases "s1 = Unavailable")
      case True
      then show ?thesis using assms(4,5) 1 d by (auto simp: resolve_cold_def Let_def)
    next
      case False
      then show ?thesis
        using assms(4,5) 1 d entry_ok_decoded [OF resolve_in_cases [OF assms(2) d False] False f assms(3)]
        by (auto simp: resolve_cold_def Let_def intro!: cache_ok_set)
    qed
    ultimately show ?thesis ..
  next
    case 2
    then show ?thesis using assms(4,5) by (auto simp: resolve_cold_def Let_def lossy_eq_def)
  qed
qed

lemma fragment_hit_ok:
  assumes "process m root base t" "faithful m r" "past_first_boundary m t pc"
    and "cache_select c0 pc = (hit, i, c)" "cache_ok m t c0"
    and "hit" "f_node (e_fragment (pc_entries c i)) \<noteq> 0" "node_unchanged r (e_fragment (pc_entries c i))"
    and "resolve_cached root r base pc out c0 = (s, out', c')"
  shows "lossy_eq (loses r) (Unavailable, out) (s, out') (resolve_pc root (whole m) base pc out) \<and> cache_ok m t c'"
proof -
  let ?e = "pc_entries c i" and ?f = "e_fragment (pc_entries c i)"
  note ok = cache_select_ok(1) [OF assms(4,5)]
  then have e: "entry_ok m t ?e" by (simp add: cache_ok_def)
  have u: "e_used ?e" "frag_contains ?f pc"
    using cache_select_ok(2) [OF assms(4,5,6)] assms(7) by (simp_all add: entry_matches_def)
  then have f: "?f \<in> set_tree t" using e assms(7) by (simp add: entry_ok_def)
  have w: "resolve_pc root (whole m) base pc out = resolve_in_fragment (whole m) ?f pc out"
    using lookup_in_process(1) [OF assms(1) f u(2)] by (simp add: resolve_pc_def)
  note run = assms(9) [unfolded resolve_cached_def assms(4) prod.case Let_def]
  consider "f_kind ?f \<noteq> kTranslated" | "f_kind ?f = kTranslated" "e_arm_pc ?e = pc" | "f_kind ?f = kTranslated" "e_arm_pc ?e \<noteq> pc" by blast
  then show ?thesis
  proof cases
    case 1
    then show ?thesis using run assms(6-8) ok w by (auto simp: resolve_in_fragment_def)
  next
    case 2
    then have "resolve_in_fragment (whole m) ?f pc out = (Resolved, resolved ?f pc (e_point ?e) (e_x86_pc ?e) out)"
      using e u(1) assms(7) by (simp add: entry_ok_def)
    then show ?thesis using run assms(6-8) ok w 2 by (auto simp: resolved_def)
  next
    case 3
    obtain s1 o1 where d: "resolve_in_fragment r ?f pc out = (s1, o1)" by fastforce
    show ?thesis
    proof (cases "s1 = Unavailable")
      case True
      then have "o1 = out" using d resolve_unavailable by blast
      then show ?thesis using run cold_ok [OF assms(1-3) ok] assms(6-8) 3 d True by simp
    next
      case False
      note d2 = resolve_in_cases [OF assms(2) d False]
      have "entry_ok m t (?e\<lparr>e_arm_pc := pc, e_x86_pc := res_x86_pc o1, e_point := res_point o1\<rparr>)"
        by (rule entry_ok_decoded [OF d2 False f u(2) assms(3)]) simp_all
      then show ?thesis using run assms(6-8) 3 d False ok d2 w by (auto intro!: cache_ok_set)
    qed
  qed
qed

lemma query_ok:
  assumes "process m root base t" "faithful m r" "past_first_boundary m t pc" "cache_ok m t c0"
    and "resolve_cached root r base pc out c0 = (s, out', c')"
  shows "lossy_eq (loses r) (Unavailable, out) (s, out') (resolve_pc root (whole m) base pc out) \<and> cache_ok m t c'"
proof -
  obtain hit i c where sel: "cache_select c0 pc = (hit, i, c)" by (metis prod_cases3)
  note ok = cache_select_ok(1) [OF sel assms(4)]
  let ?e = "pc_entries c i" and ?f = "e_fragment (pc_entries c i)"
  note cold = cold_ok [OF assms(1-3)]
  have e: "entry_ok m t ?e" using ok by (simp add: cache_ok_def)
  consider "\<not> hit" | "hit" "f_node ?f \<noteq> 0" "node_unchanged r ?f" | "hit" "f_node ?f \<noteq> 0" "\<not> node_unchanged r ?f"
    | "hit" "f_node ?f = 0" by blast
  then show ?thesis
  proof cases
    case 1
    then show ?thesis using cold [OF ok] assms(5) sel by (simp add: resolve_cached_def Let_def)
  next
    case 3
    have "cache_ok m t (set_entry i no_entry (c\<lparr>stale := stale c + 1\<rparr>))"
      using ok by (intro cache_ok_set) (simp_all add: entry_ok_unused no_entry_def)
    from cold [OF this] show ?thesis using 3 assms(5) sel by (simp add: resolve_cached_def Let_def)
  next
    case 4
    have u: "e_used ?e" "e_arm_pc ?e = pc" using cache_select_ok(2) [OF sel assms(4)] 4 by (auto simp: entry_matches_def)
    then have none: "\<forall>f\<in>set_tree t. \<not> frag_contains f pc" using e 4(2) by (simp add: entry_ok_def)
    have "entry_ok m t (?e\<lparr>e_recheck := e_recheck ?e + 1\<rparr>)" using e by (rule entry_ok_cong) simp_all
    then have "cache_ok m t (set_entry i (?e\<lparr>e_recheck := e_recheck ?e + 1\<rparr>) (c\<lparr>negative_hits := negative_hits c + 1\<rparr>))"
      using ok by (intro cache_ok_set) simp_all
    then show ?thesis
      using cold [OF ok] assms(5) sel 4 lookup_in_process(2) [OF assms(1) none]
      by (auto simp: resolve_cached_def resolve_pc_def Let_def split: if_splits)
  next
    case 2
    then show ?thesis using fragment_hit_ok [OF assms(1-3) sel assms(4) 2 assms(5)] by blast
  qed
qed

text \<open>A session: queries through callbacks that may each lose reads, answered from one cache.\<close>

fun session :: "u64 \<Rightarrow> u64 \<Rightarrow> (reader \<times> u64 \<times> resolution) list \<Rightarrow> pc_cache \<Rightarrow> (status \<times> resolution) list" where
  "session root base [] c = []"
| "session root base ((r, pc, out) # qs) c =
     (case resolve_cached root r base pc out c of (s, out', c') \<Rightarrow> (s, out') # session root base qs c')"


end
