(* ===== verification/Guest_Props.thy ===== *)
theory Guest_Props
  imports Guest_Cache
begin

text \<open>
  The answer the cache gets wrong, and a concrete process on which the properties of the guest program
  counter lookup are applied.
\<close>

section \<open>Before the first boundary\<close>

lemma select_unused: "\<forall>j. \<not> e_used (es j) \<Longrightarrow> is \<noteq> [] \<Longrightarrow> select_loop es pc is v = (False, last is)"
  by (induction "is" arbitrary: v) auto

lemma select_only:
  "\<forall>j. j \<noteq> k \<longrightarrow> \<not> e_used (es j) \<Longrightarrow> e_used (es k) \<Longrightarrow> entry_matches (es k) pc \<Longrightarrow> k \<in> set is \<Longrightarrow>
    select_loop es pc is v = (True, k)"
  by (induction "is" arbitrary: v) auto

text \<open>The entry of a program counter in an empty cache is the last of its set.\<close>

abbreviation cold_index :: "u64 \<Rightarrow> nat" where
  "cold_index pc \<equiv> cache_set pc + 7"

lemma select_empty:
  obtains c where "cache_select empty_cache pc = (False, cold_index pc, c)" "\<forall>j. \<not> e_used (pc_entries c j)"
proof -
  have "select_loop (\<lambda>_. no_entry) pc [cache_set pc..<cache_set pc + kWays] (cache_set pc) = (False, cold_index pc)"
    by (subst select_unused) (simp_all add: no_entry_def)
  then show thesis using that by (simp add: cache_select_def empty_cache_def Let_def no_entry_def)
qed

lemma select_again:
  assumes "\<forall>j. \<not> e_used (pc_entries c j)" "e_used e" "entry_matches e pc"
  obtains c' e' where "cache_select (set_entry (cold_index pc) e c) pc = (True, cold_index pc, c')"
    "pc_entries c' (cold_index pc) = e\<lparr>e_stamp := pc_clock c + 1\<rparr>"
proof -
  have "select_loop ((pc_entries c)(cold_index pc := e)) pc [cache_set pc..<cache_set pc + kWays] (cache_set pc) =
      (True, cold_index pc)"
    by (rule select_only) (use assms in simp_all)
  then show thesis using that by (simp add: cache_select_def set_entry_def Let_def)
qed

text \<open>C33: a program counter before the first boundary of its fragment is answered rightly the first time,
  and the second time from the cache as resolved, with guest program counter 0.\<close>

theorem before_first_boundary_is_cached:
  assumes "process m root base t"
    and "resolve_pc root (whole m) base pc out = (NotTranslated, out\<lparr>res_reason := BeforeFirstBoundary\<rparr>)"
    and "resolve_cached root (whole m) base pc out empty_cache = (s1, out1, c1)"
    and "resolve_cached root (whole m) base pc out c1 = (s2, out2, c2)"
  shows "(s1, out1) = resolve_pc root (whole m) base pc out \<and> s2 = Resolved \<and> res_x86_pc out2 = 0"
proof -
  obtain f where f: "f \<in> set_tree t" "frag_contains f pc"
    using assms(2) lookup_in_process(2) [OF assms(1), of pc no_fragment]
    by (cases "\<forall>f\<in>set_tree t. \<not> frag_contains f pc") (auto simp: resolve_pc_def dest: arg_cong [where f = res_reason])
  have look: "lookup_fragment root (whole m) base pc no_fragment = (Resolved, f)"
    using lookup_in_process(1) [OF assms(1) f] .
  then have d: "resolve_in_fragment (whole m) f pc out = (NotTranslated, out\<lparr>res_reason := BeforeFirstBoundary\<rparr>)"
    using assms(2) by (simp add: resolve_pc_def)
  then have k: "f_kind f = kTranslated"
    by (auto simp: resolve_in_fragment_def dest: arg_cong [where f = res_reason] split: if_splits)
  have node: "f_node f \<noteq> 0" "f = parse_node (bytes m (f_node f + kWindowBegin) kNodeWindow) (f_node f)"
    using holds_tree_nodes [of m _ t f] assms(1) f by (auto simp: process_def frag_contains_def)
  then have same: "node_unchanged (whole m) f"
    by (simp add: node_unchanged_def read_node_def whole_def Let_def)
  obtain c where c: "cache_select empty_cache pc = (False, cold_index pc, c)" "\<forall>j. \<not> e_used (pc_entries c j)"
    using select_empty by blast
  let ?c = "c\<lparr>misses := misses c + 1\<rparr>"
  let ?e = "no_entry\<lparr>e_used := True, e_fragment := f, e_arm_pc := pc, e_x86_pc := 0, e_point := res_point out,
    e_stamp := e_stamp (pc_entries c (cold_index pc))\<rparr>"
  have one: "s1 = NotTranslated" "out1 = out\<lparr>res_reason := BeforeFirstBoundary\<rparr>" "c1 = set_entry (cold_index pc) ?e ?c"
    using assms(3) look d by (auto simp: resolve_cached_def c(1) resolve_cold_def Let_def)
  obtain c' where c': "cache_select c1 pc = (True, cold_index pc, c')" "pc_entries c' (cold_index pc) = ?e\<lparr>e_stamp := pc_clock ?c + 1\<rparr>"
    using select_again [of ?c ?e pc] c(2) f(2) node(1) unfolding one(3) by (auto simp: entry_matches_def)
  have "s2 = Resolved \<and> res_x86_pc out2 = 0"
    using assms(4) c' node(1) same k by (auto simp: resolve_cached_def Let_def)
  then show ?thesis using one(1,2) assms(2) by simp
qed

section \<open>A process\<close>

fun mem_of :: "(u64 \<times> u8 list) list \<Rightarrow> u64 \<Rightarrow> u8" where
  "mem_of [] a = 0"
| "mem_of ((b, bs) # rest) a = (if unat (a - b) < length bs then bs ! unat (a - b) else mem_of rest a)"

text \<open>Two chunks: one of two Golomb-Rice steps, the second of them flagged, and one of a raw step backwards in
  the guest code.\<close>

definition example_map :: "u8 list" where
  "example_map =
     [0, 2, 1, 0,  0, 0, 0, 0,  0, 0, 0, 0,  0, 0, 0, 0,  0x50, 0, 0, 0,  2, 0, 0, 0,  0x20, 0, 0, 0,  0x40, 0, 0, 0] @
     [0, 0, 0, 0,  8, 0, 0, 0,  0, 0, 0, 0,  2, 0, 0, 0] @
     [0x10, 0, 0, 0,  0x20, 0, 0, 0,  4, 0, 0, 0,  1, 0, 0, 0] @
     [0x1A, 0x53, 0, 0] @ [0x40, 0, 0, 0, 0xC0, 0xFF, 0xFF, 0xFF, 0x0F, 0, 0, 0]"

definition example_node :: "u8 list" where
  "example_node =
     replicate 0x18 0 @ [0, 0, 0x40, 0, 0, 0, 0, 0] @ replicate 8 0 @ [0, 0, 0x50, 0, 0, 0, 0, 0] @ replicate 0x18 0 @
     [4, 0, 0, 0, 0, 0, 0, 0] @ [0, 0x30, 0, 0, 0, 0, 0, 0] @ replicate 0x10 0 @ [0x40, 0, 0, 0] @ [0, 1, 0, 0]"

definition example_mem :: "u64 \<Rightarrow> u8" where
  "example_mem = mem_of [(0x1010, [0, 0x20, 0, 0, 0, 0, 0, 0]), (0x2030, example_node), (0x3000, example_map)]"

definition example_fragment :: fragment where
  "example_fragment = \<lparr>f_node = 0x2000, f_x86_begin = 0x400000, f_arm_begin = 0x500000, f_map = 0x3000,
     f_x86_size = 0x40, f_arm_size = 0x100, f_kind = 4\<rparr>"

definition example_out :: resolution where
  "example_out = \<lparr>res_x86_pc = 0, res_fragment = no_fragment, res_arm_offset = 0, res_point = no_point, res_reason = Unknown\<rparr>"

text \<open>Reading a region of the memory.\<close>

lemma read_region: "n \<le> length bs \<Longrightarrow> length bs < 2 ^ 64 \<Longrightarrow> bytes (mem_of ((b, bs) # rest)) b n = take n bs"
  by (rule nth_equalityI) (auto simp: unat_of_nat)

lemma skip_region:
  assumes "length bs \<le> unat (a - b)" "unat (a - b) + n \<le> 2 ^ 64"
  shows "bytes (mem_of ((b, bs) # rest)) a n = bytes (mem_of rest) a n"
proof (rule nth_equalityI)
  fix i
  assume i: "i < length (bytes (mem_of ((b, bs) # rest)) a n)"
  have "unat (a + word_of_nat i - b) = unat (a - b) + i"
  proof -
    have "a + word_of_nat i - b = word_of_nat (unat (a - b) + i)" by simp
    then show ?thesis using i assms(2) by (simp only: unat_of_nat) simp
  qed
  then show "bytes (mem_of ((b, bs) # rest)) a n ! i = bytes (mem_of rest) a n ! i"
    using i assms(1) by simp
qed simp

lemma example_lengths: "length example_map = 0x50" "length example_node = 0x70"
  by code_simp+

lemma example_bytes:
  "bytes example_mem 0x1010 8 = [0, 0x20, 0, 0, 0, 0, 0, 0]"
  "bytes example_mem 0x2030 0x70 = example_node"
  "bytes example_mem 0x3000 0x50 = example_map" "bytes example_mem 0x3000 0x20 = take 0x20 example_map"
  by (simp_all add: example_mem_def read_region skip_region example_lengths)

lemma example_parsed:
  "field64 [0, 0x20, 0, 0, 0, 0, 0, 0] 0 = 0x2000" "parse_node example_node 0x2000 = example_fragment"
  "node_left example_node = 0" "node_right example_node = 0"
  by code_simp+

lemma example_process: "process example_mem 0x10 0x1000 (Node Leaf example_fragment Leaf)"
  using example_parsed by (simp add: process_def example_bytes kMaxTreeDepth_def interval_tree_def) (simp add: example_fragment_def kMaxFragmentSize_def arm_end_def)

section \<open>The properties on it\<close>

definition example_view :: map_view where
  "example_view = \<lparr>v_header = parse_header (take 0x20 example_map), v_chunks = drop 0x20 example_map,
     v_stream = drop 0x40 example_map, v_stream_size = 0x10\<rparr>"

definition example_steps :: "(u32 \<times> u32 \<times> u32) list" where
  "example_steps = [(1, 3, 0), (2, 5, 1)]"

definition example_points :: "nat \<Rightarrow> map_point list" where
  "example_points i = (if i = 0
     then [\<lparr>p_x86 = 0, p_arm = 8, p_flags = 0, p_exact = True\<rparr>, \<lparr>p_x86 = 3, p_arm = 12, p_flags = 0, p_exact = True\<rparr>,
           \<lparr>p_x86 = 8, p_arm = 20, p_flags = 1, p_exact = True\<rparr>]
     else [\<lparr>p_x86 = 0x10, p_arm = 0x20, p_flags = 0, p_exact = True\<rparr>, \<lparr>p_x86 = 0xC, p_arm = 0x30, p_flags = 0, p_exact = True\<rparr>])"

lemma example_parse: "parse_map (Some example_map) = Some example_view"
  by code_simp

lemma example_header:
  "unat (rice_k (v_header example_view) ! 1) = 2" "unat (rice_k (v_header example_view) ! 2) = 1"
  "chunk_count (v_header example_view) = 2"
  "chunk_at (v_chunks example_view) 0 = \<lparr>ck_x86 = 0, ck_arm = 8, ck_stream_byte = 0, ck_insn_count = 2\<rparr>"
  "ck_stream_byte (chunk_at (v_chunks example_view) 1) = 4"
  by code_simp+

lemma example_codes: "codes_steps (rice_k (v_header example_view)) example_steps
    (pair_code 2 1 False 1 3 @ (flag_code 1 1 0 @ pair_code 2 1 False 2 5) @ [])"
proof -
  have "codes_step 2 1 2 5 1 (flag_code 1 1 0 @ pair_code 2 1 False 2 5)"
    using codes_step.flagged [of 1 False 2 2 1 5 0] by (simp add: flag_word_def)
  moreover have "codes_step 2 1 1 3 0 (pair_code 2 1 False 1 3)" by (rule codes_step.plain) simp
  ultimately show ?thesis
    unfolding example_steps_def by (intro codes_steps.intros) (simp_all only: example_header)
qed

lemma example_stream: "drop (8 * unat (0 :: u32)) (bits_of (take 0x10 (drop 0x40 example_map))) =
    (pair_code 2 1 False 1 3 @ (flag_code 1 1 0 @ pair_code 2 1 False 2 5) @ []) @ replicate 16 False @
    bits_of (drop 0x44 example_map)"
  by code_simp

theorem encoded_chunk_is_decoded_witness: "decode_map_chunk (Some example_map) 0 False 100 = Some (example_points 0)"
proof -
  let ?c = "\<lparr>ck_x86 = 0, ck_arm = 8, ck_stream_byte = 0, ck_insn_count = 2\<rparr> :: map_chunk"
  have l: "length (pair_code 2 1 False 1 3 @ (flag_code 1 1 0 @ pair_code 2 1 False 2 5) @ []) = 16" by code_simp
  have a: "advancing 8 example_steps" by code_simp
  have b: "\<lparr>p_x86 = 0, p_arm = 8, p_flags = 0, p_exact = True\<rparr> # boundaries 0 8 example_steps = example_points 0" by code_simp
  have "decode_map_chunk (Some example_map) 0 False 100 =
      Some (\<lparr>p_x86 = ck_x86 ?c, p_arm = ck_arm ?c, p_flags = 0, p_exact = True\<rparr> # boundaries (ck_x86 ?c) (ck_arm ?c) example_steps)"
  proof (rule encoded_chunk_is_decoded [OF example_parse, where pad = 16])
    show "?c = chunk_at (v_chunks example_view) (unat 0)" by (simp add: example_header)
    show "codes_steps (rice_k (v_header example_view)) example_steps
        (pair_code 2 1 False 1 3 @ (flag_code 1 1 0 @ pair_code 2 1 False 2 5) @ [])" by (rule example_codes)
    show "drop (8 * unat (ck_stream_byte ?c)) (bits_of (take (v_stream_size example_view) (v_stream example_view))) =
        (pair_code 2 1 False 1 3 @ (flag_code 1 1 0 @ pair_code 2 1 False 2 5) @ []) @ replicate 16 False @ bits_of (drop 0x44 example_map)"
      using example_stream by (simp only: example_view_def map_view.select_convs map_chunk.select_convs)
    show "8 * unat (ck_stream_byte ?c) + length (pair_code 2 1 False 1 3 @ (flag_code 1 1 0 @ pair_code 2 1 False 2 5) @ []) + 16 =
        8 * (if 0 + 1 < chunk_count (v_header example_view)
          then unat (ck_stream_byte (chunk_at (v_chunks example_view) (unat (0 + 1)))) else v_stream_size example_view)"
      using example_header(5) unfolding l example_header(3) by simp
    show "advancing (ck_arm ?c) example_steps" using a by simp
    show "0 < chunk_count (v_header example_view)" unfolding example_header by simp
  qed (simp_all add: example_view_def example_steps_def)
  then show ?thesis unfolding b [symmetric] by simp
qed

theorem map_answers_last_boundary_witness: "decode_map (Some example_map) 22 no_point = (Resolved, answer_at 22 (example_points 0 ! 2))"
proof -
  have p: "\<forall>i<2. decode_map_chunk (Some example_map) (word_of_nat i) False 100 = Some (example_points i)"
  proof (intro allI impI)
    fix i :: nat assume "i < 2"
    then consider "i = 0" | "i = 1" by linarith
    then show "decode_map_chunk (Some example_map) (word_of_nat i) False 100 = Some (example_points i)"
      by cases (simp only:, code_simp)+
  qed
  have s: "sorted (map p_arm (concat (map example_points [0..<2])))" by code_simp
  have u: "up_to 22 (concat (map example_points [0..<2])) = example_points 0" by code_simp
  show ?thesis
    using map_answers_last_boundary [OF example_parse _ p s, of 22 no_point] unfolding u
    by (simp add: example_header example_points_def)
qed

theorem remote_decode_is_local_witness:
  "decode_remote (whole example_mem) example_fragment 0x34 = decode_map (Some example_map) 0x34 no_point"
proof -
  have f: "f_map example_fragment = 0x3000" by (simp add: example_fragment_def)
  have t: "total_size (parse_header (take 0x20 example_map)) = 0x50" by code_simp
  show ?thesis
    using remote_decode_is_local [OF faithful_whole, where f = example_fragment and n = "0x50" and off = "0x34" and m = example_mem]
    by (simp add: f example_bytes t)
qed

theorem lookup_finds_the_fragment_witness:
  "lookup_fragment 0x10 (whole example_mem) 0x1000 0x500034 no_fragment = (Resolved, example_fragment)"
proof -
  have c: "frag_contains example_fragment 0x500034" by (simp add: frag_contains_def example_fragment_def arm_end_def)
  have p: "(0x10 :: u64) \<noteq> 0" "holds_tree example_mem (field64 (bytes example_mem (0x1000 + 0x10) 8) 0) (Node Leaf example_fragment Leaf)"
      "interval_tree (Node Leaf example_fragment Leaf)" "height (Node Leaf example_fragment Leaf) < kMaxTreeDepth"
    using example_process by (simp_all add: process_def)
  show ?thesis
    using lookup_finds_the_fragment [OF faithful_whole p, where pc = "0x500034" and out = no_fragment] c by simp
qed

text \<open>A pc inside the map's reach, the same again, and one before the first boundary.\<close>

lemma example_decode:
  "fst (decode_map (Some example_map) 0x16 no_point) = Resolved" "fst (decode_map (Some example_map) 0x34 no_point) = Resolved"
  "fst (decode_map (Some example_map) 4 no_point) = NotTranslated"
  by code_simp+

lemma example_remote: "decode_remote (whole example_mem) example_fragment off = decode_map (Some example_map) off no_point"
proof -
  have f: "f_map example_fragment = 0x3000" by (simp add: example_fragment_def)
  have t: "total_size (parse_header (take 0x20 example_map)) = 0x50" by code_simp
  show ?thesis
    using decode_remote_local [OF faithful_whole, where f = example_fragment and n = "0x50" and off = off and m = example_mem]
    by (simp add: f example_bytes t lossy_eq_def)
qed


theorem before_first_boundary_is_cached_witness:
  "\<exists>out1 c1 out2 c2. resolve_cached 0x10 (whole example_mem) 0x1000 0x500004 example_out empty_cache = (NotTranslated, out1, c1) \<and>
    resolve_cached 0x10 (whole example_mem) 0x1000 0x500004 example_out c1 = (Resolved, out2, c2) \<and> res_x86_pc out2 = 0"
proof -
  obtain s1 out1 c1 where one: "resolve_cached 0x10 (whole example_mem) 0x1000 0x500004 example_out empty_cache = (s1, out1, c1)"
    by (metis prod_cases3)
  obtain s2 out2 c2 where two: "resolve_cached 0x10 (whole example_mem) 0x1000 0x500004 example_out c1 = (s2, out2, c2)"
    by (metis prod_cases3)
  have c: "frag_contains example_fragment 0x500004" by (simp add: frag_contains_def example_fragment_def arm_end_def)
  obtain p where "decode_map (Some example_map) 4 no_point = (NotTranslated, p)"
    using example_decode(3) by (cases "decode_map (Some example_map) 4 no_point") simp
  then have d: "resolve_in_fragment (whole example_mem) example_fragment 0x500004 example_out =
      (NotTranslated, example_out\<lparr>res_reason := BeforeFirstBoundary\<rparr>)"
    by (simp add: resolve_in_fragment_def example_remote) (simp add: example_fragment_def)
  have u: "resolve_pc 0x10 (whole example_mem) 0x1000 0x500004 example_out =
      (NotTranslated, example_out\<lparr>res_reason := BeforeFirstBoundary\<rparr>)"
    using lookup_in_process(1) [OF example_process _ c, of no_fragment] d by (simp add: resolve_pc_def)
  show ?thesis
    using before_first_boundary_is_cached [OF example_process u one two] one two u by auto
qed

end
