(* ===== verification/Opcode_Names.thy ===== *)
theory Opcode_Names
  imports Operands "HOL-Library.Char_ord" "HOL-Library.List_Lexorder"
begin

text \<open>
  The mnemonics of \<^verbatim>\<open>Opcode.cpp\<close>, indexed by the translator's own opcode numbers.
\<close>

definition opcode_names_1 :: "string list" where
  "opcode_names_1 = [
     ''aaa'', ''aad'', ''aam'', ''aas'', ''adc'', ''add'', ''and'', ''andn'', ''bextr'', ''blsi'', ''blsmsk'',
     ''blsr'', ''bsf'', ''bsr'', ''bt'', ''btc'', ''btr'', ''bts'', ''bzhi'', ''clc'', ''cld'', ''cmc'', ''cmovcc'',
     ''cmp'', ''cmpsb_string'', ''cmpsd_string'', ''cmpsq_string'', ''cmpsw_string'', ''cmpxchg'', ''cmpxchg16b'',
     ''cmpxchg8b'', ''comisd'', ''comiss'', ''daa'', ''das'', ''dec'', ''div'', ''fcmovb'', ''fcmovbe'', ''fcmove'',
     ''fcmovnb'', ''fcmovnbe'', ''fcmovne'', ''fcmovnu'', ''fcmovu'', ''fcomi'', ''fcomip'', ''fucomi'', ''fucomip'',
     ''idiv'', ''imul'', ''inc'', ''insb'', ''insd'', ''insw'', ''jcc'', ''lahf'', ''lodsb'', ''lodsd'', ''lodsq'',
     ''lodsw'', ''loope'', ''looped'', ''loopew'', ''loopne'', ''loopned'', ''loopnew'', ''lsl'', ''lzcnt'',
     ''movsb_string'', ''movsd_string'', ''mul'', ''neg'', ''or'', ''outsb'', ''outsd'', ''outsw'', ''popcnt'',
     ''popf'', ''popfd'', ''popfq'', ''ptest'', ''pushf'', ''pushfd'', ''pushfq'', ''rcl'', ''rcr'', ''rdrand'',
     ''rol'', ''ror'', ''sahf'', ''sar'', ''sbb'', ''scasb'', ''scasd'', ''scasq'', ''scasw'', ''setcc'', ''shl'',
     ''shld'', ''shr'', ''shrd'', ''stc'', ''std'', ''stosb'', ''stosd'', ''stosq'', ''stosw'', ''sub'', ''test'',
     ''tzcnt'', ''ucomisd'', ''ucomiss'', ''vtestpd'', ''vtestps'', ''xadd'', ''xor'', ''addpd'', ''addps'',
     ''addsd'', ''addss'', ''addsubpd'', ''addsubps'', ''aesdec'', ''aesdeclast'', ''aesenc'', ''aesenclast'',
     ''aesimc'', ''aeskeygenassist'', ''andnpd'', ''andnps'', ''andpd'', ''andps'', ''blendpd'']"

definition opcode_names_2 :: "string list" where
  "opcode_names_2 = [
     ''blendps'', ''blendvpd'', ''blendvps'', ''bound'', ''bswap'', ''call'', ''call_far'', ''cbw'', ''cdq'',
     ''cdqe'', ''clflush'', ''cli'', ''cmppd'', ''cmpps'', ''cmpsd'', ''cmpss'', ''cpuid'', ''cqo'', ''crc32'',
     ''cvtdq2pd'', ''cvtdq2ps'', ''cvtpd2dq'', ''cvtpd2pi'', ''cvtpd2ps'', ''cvtpi2pd'', ''cvtpi2ps'', ''cvtps2dq'',
     ''cvtps2pd'', ''cvtps2pi'', ''cvtsd2si'', ''cvtsd2ss'', ''cvtsi2sd'', ''cvtsi2ss'', ''cvtss2sd'', ''cvtss2si'',
     ''cvttpd2dq'', ''cvttpd2pi'', ''cvttps2dq'', ''cvttps2pi'', ''cvttsd2si'', ''cvttss2si'', ''cwd'', ''cwde'',
     ''divpd'', ''divps'', ''divsd'', ''divss'', ''dppd'', ''dpps'', ''emms'', ''enter'', ''enterd'', ''enterw'',
     ''extractps'', ''f2xm1'', ''fabs'', ''fadd'', ''faddp'', ''fbld'', ''fbstp'', ''fchs'', ''fclex'', ''fcom'',
     ''fcomp'', ''fcompp'', ''fcos'', ''fdecstp'', ''fdisi'', ''fdiv'', ''fdivp'', ''fdivr'', ''fdivrp'', ''feni'',
     ''ffree'', ''fiadd'', ''ficom'', ''ficomp'', ''fidiv'', ''fidivr'', ''fild'', ''fimul'', ''fincstp'', ''finit'',
     ''fist'', ''fistp'', ''fisttp'', ''fisub'', ''fisubr'', ''fld'', ''fld1'', ''fldcw'', ''fldenv'', ''fldl2e'',
     ''fldl2t'', ''fldlg2'', ''fldln2'', ''fldpi'', ''fldz'', ''fmul'', ''fmulp'', ''fnop'', ''fnstcw'', ''fpatan'',
     ''fprem'', ''fprem1'', ''fptan'', ''frndint'', ''frstor'', ''fsave'', ''fscale'', ''fsin'', ''fsincos'',
     ''fsqrt'', ''fst'', ''fst_stack'', ''fstenv'', ''fstp'', ''fstp_stack'', ''fstsw'', ''fsub'', ''fsubp'',
     ''fsubr'', ''fsubrp'', ''ftst'', ''fucom'', ''fucomp'', ''fucompp'', ''fxam'', ''fxch'', ''fxrstor'',
     ''fxsave'', ''fxtract'', ''fyl2x'', ''fyl2xp1'']"

definition opcode_names_3 :: "string list" where
  "opcode_names_3 = [
     ''haddpd'', ''haddps'', ''hlt'', ''hsubpd'', ''hsubps'', ''in'', ''insertps'', ''int'', ''int3'', ''invd'',
     ''invlpg'', ''iret'', ''iret_64'', ''jcxz'', ''jecxz'', ''jmp'', ''jmp_far'', ''jrcxz'', ''l_segment'',
     ''lddqu'', ''ldmxcsr'', ''lea'', ''leave'', ''leaved'', ''leavew'', ''lfence'', ''lgdt'', ''lidt'', ''lmsw'',
     ''loop'', ''loopd'', ''loopw'', ''maskmovdqu'', ''maskmovq'', ''maxpd'', ''maxps'', ''maxsd'', ''maxss'',
     ''mfence'', ''minpd'', ''minps'', ''minsd'', ''minss'', ''monitor'', ''mov'', ''mov_segment'', ''movapd'',
     ''movaps'', ''movbe'', ''movd'', ''movddup'', ''movdq2q'', ''movdqa'', ''movdqu'', ''movhlps'', ''movhpd'',
     ''movhps'', ''movlhps'', ''movlpd'', ''movlps'', ''movmskpd'', ''movmskps'', ''movntdq'', ''movntdqa'',
     ''movnti'', ''movntpd'', ''movntps'', ''movntq'', ''movq'', ''movq2dq'', ''movsd'', ''movshdup'', ''movsldup'',
     ''movsq_string'', ''movss'', ''movsw_string'', ''movsx'', ''movsxd'', ''movupd'', ''movups'', ''movzx'',
     ''mpsadbw'', ''mulpd'', ''mulps'', ''mulsd'', ''mulss'', ''mulx'', ''mwait'', ''nop'', ''not'', ''orpd'',
     ''orps'', ''out'', ''pabsb'', ''pabsd'', ''pabsw'', ''packssdw'', ''packsswb'', ''packusdw'', ''packuswb'',
     ''paddb'', ''paddd'', ''paddq'', ''paddsb'', ''paddsw'', ''paddusb'', ''paddusw'', ''paddw'', ''palignr'',
     ''pand'', ''pandn'', ''pavgb'', ''pavgw'', ''pblendvb'', ''pblendw'', ''pclmulqdq'', ''pcmpeqb'', ''pcmpeqd'',
     ''pcmpeqq'', ''pcmpeqw'', ''pcmpestri_32'', ''pcmpestri_64'', ''pcmpestrm_32'', ''pcmpestrm_64'', ''pcmpgtb'',
     ''pcmpgtd'', ''pcmpgtq'', ''pcmpgtw'', ''pcmpistri_32'', ''pcmpistri_64'', ''pcmpistrm'', ''pdep'', ''pext'',
     ''pextrb'']"

definition opcode_names_4 :: "string list" where
  "opcode_names_4 = [
     ''pextrdq'', ''pextrw'', ''phaddd'', ''phaddsw'', ''phaddw'', ''phminposuw'', ''phsubd'', ''phsubsw'',
     ''phsubw'', ''pinsrb'', ''pinsrdq'', ''pinsrw'', ''pmaddubsw'', ''pmaddwd'', ''pmaxsb'', ''pmaxsd'', ''pmaxsw'',
     ''pmaxub'', ''pmaxud'', ''pmaxuw'', ''pminsb'', ''pminsd'', ''pminsw'', ''pminub'', ''pminud'', ''pminuw'',
     ''pmovmskb'', ''pmovsxbd'', ''pmovsxbq'', ''pmovsxbw'', ''pmovsxdq'', ''pmovsxwd'', ''pmovsxwq'', ''pmovzxbd'',
     ''pmovzxbq'', ''pmovzxbw'', ''pmovzxdq'', ''pmovzxwd'', ''pmovzxwq'', ''pmuldq'', ''pmulhrsw'', ''pmulhuw'',
     ''pmulhw'', ''pmulld'', ''pmullw'', ''pmuludq'', ''pop'', ''pop_segment'', ''popa'', ''popad'', ''popd'',
     ''popd_segment'', ''popw'', ''popw_segment'', ''por'', ''prefetchnta'', ''prefetcht0'', ''prefetcht1'',
     ''prefetcht2'', ''prefetchw'', ''prefetchwt1'', ''psadbw'', ''pshufb'', ''pshufd'', ''pshufhw'', ''pshuflw'',
     ''pshufw'', ''psignb'', ''psignd'', ''psignw'', ''pslld'', ''pslldq'', ''psllq'', ''psllw'', ''psrad'',
     ''psraw'', ''psrld'', ''psrldq'', ''psrlq'', ''psrlw'', ''psubb'', ''psubd'', ''psubq'', ''psubsb'', ''psubsw'',
     ''psubusb'', ''psubusw'', ''psubw'', ''punpckhbw'', ''punpckhdq'', ''punpckhqdq'', ''punpckhwd'', ''punpcklbw'',
     ''punpckldq'', ''punpcklqdq'', ''punpcklwd'', ''push'', ''push_segment'', ''pusha'', ''pushad'', ''pushd'',
     ''pushd_segment'', ''pushw'', ''pushw_segment'', ''pxor'', ''rcpps'', ''rcpss'', ''rdmsr'', ''rdpmc'',
     ''rdtsc'', ''rdtscp'', ''ret'', ''ret_far'', ''rorx'', ''roundpd'', ''roundps'', ''roundsd'', ''roundss'',
     ''rsqrtps'', ''rsqrtss'', ''sarx'', ''sfence'', ''sgdt'', ''sgdtd'', ''shlx'', ''shrx'', ''shufpd'', ''shufps'',
     ''sidt'', ''sldt'', ''sldt32'', ''smsw'', ''sqrtpd'', ''sqrtps'']"

definition opcode_names_5 :: "string list" where
  "opcode_names_5 = [
     ''sqrtsd'', ''sqrtss'', ''sti'', ''stmxcsr'', ''str'', ''subpd'', ''subps'', ''subsd'', ''subss'', ''swapgs'',
     ''syscall'', ''sysenter'', ''sysexit'', ''sysret'', ''ud2'', ''unpckhpd'', ''unpckhps'', ''unpcklpd'',
     ''unpcklps'', ''vbroadcastf128'', ''vbroadcasti128'', ''vbroadcastsd'', ''vbroadcastss'', ''vcvtph2ps'',
     ''vcvtps2ph'', ''vextractf128'', ''vextracti128'', ''vfmadd132pd'', ''vfmadd132ps'', ''vfmadd132sd'',
     ''vfmadd132ss'', ''vfmadd213pd'', ''vfmadd213ps'', ''vfmadd213sd'', ''vfmadd213ss'', ''vfmadd231pd'',
     ''vfmadd231ps'', ''vfmadd231sd'', ''vfmadd231ss'', ''vfmaddsub132pd'', ''vfmaddsub132ps'', ''vfmaddsub213pd'',
     ''vfmaddsub213ps'', ''vfmaddsub231pd'', ''vfmaddsub231ps'', ''vfmsub132pd'', ''vfmsub132ps'', ''vfmsub132sd'',
     ''vfmsub132ss'', ''vfmsub213pd'', ''vfmsub213ps'', ''vfmsub213sd'', ''vfmsub213ss'', ''vfmsub231pd'',
     ''vfmsub231ps'', ''vfmsub231sd'', ''vfmsub231ss'', ''vfmsubadd132pd'', ''vfmsubadd132ps'', ''vfmsubadd213pd'',
     ''vfmsubadd213ps'', ''vfmsubadd231pd'', ''vfmsubadd231ps'', ''vfnmadd132pd'', ''vfnmadd132ps'',
     ''vfnmadd132sd'', ''vfnmadd132ss'', ''vfnmadd213pd'', ''vfnmadd213ps'', ''vfnmadd213sd'', ''vfnmadd213ss'',
     ''vfnmadd231pd'', ''vfnmadd231ps'', ''vfnmadd231sd'', ''vfnmadd231ss'', ''vfnmsub132pd'', ''vfnmsub132ps'',
     ''vfnmsub132sd'', ''vfnmsub132ss'', ''vfnmsub213pd'', ''vfnmsub213ps'', ''vfnmsub213sd'', ''vfnmsub213ss'',
     ''vfnmsub231pd'', ''vfnmsub231ps'', ''vfnmsub231sd'', ''vfnmsub231ss'', ''vgatherdpd'', ''vgatherdps'',
     ''vgatherqpd'', ''vgatherqps'', ''vinsertf128'', ''vinserti128'', ''vmaskmovpd'', ''vmaskmovps'', ''vpblendd'',
     ''vpbroadcastb'', ''vpbroadcastd'', ''vpbroadcastq'', ''vpbroadcastw'', ''vperm2f128'', ''vperm2i128'',
     ''vpermd'', ''vpermilpd'', ''vpermilps'', ''vpermpd'', ''vpermps'', ''vpermq'', ''vpgatherdd'', ''vpgatherdq'',
     ''vpgatherqd'', ''vpgatherqq'', ''vpmaskmovd'', ''vpmaskmovq'', ''vpsllvd'', ''vpsllvq'', ''vpsravd'',
     ''vpsrlvd'', ''vpsrlvq'', ''vzeroall'', ''vzeroupper'', ''wait'', ''wbinv'', ''wrmsr'', ''xchg'', ''xgetbv'',
     ''xlat'', ''xorpd'', ''xorps'', ''xrstor'', ''xsave'', ''xsetbv'', ''arpl'']"

definition kOpcodeNames :: "string list" where
  "kOpcodeNames = opcode_names_1 @ opcode_names_2 @ opcode_names_3 @ opcode_names_4 @ opcode_names_5"

lemmas opcode_names_defs = opcode_names_1_def opcode_names_2_def opcode_names_3_def opcode_names_4_def opcode_names_5_def

section \<open>No name twice\<close>

text \<open>The names come in alphabetical order, in two runs, with \<^verbatim>\<open>arpl\<close> last.\<close>

fun ascending :: "string list \<Rightarrow> bool" where
  "ascending (x # y # zs) \<longleftrightarrow> x < y \<and> ascending (y # zs)"
| "ascending _ \<longleftrightarrow> True"

fun sorted_apart :: "string list \<Rightarrow> string list \<Rightarrow> bool" where
  "sorted_apart (x # xs) (y # ys) \<longleftrightarrow>
     (if x < y then sorted_apart xs (y # ys) else y < x \<and> sorted_apart (x # xs) ys)"
| "sorted_apart _ _ \<longleftrightarrow> True"

lemma ascending_less: "ascending (x # xs) \<Longrightarrow> y \<in> set xs \<Longrightarrow> x < y"
proof (induction xs arbitrary: x)
  case (Cons a xs)
  then show ?case by (auto intro: less_trans)
qed simp

lemma ascending_tl: "ascending (x # xs) \<Longrightarrow> ascending xs"
  by (cases xs) auto

lemma ascending_distinct: "ascending xs \<Longrightarrow> distinct xs"
proof (induction xs)
  case (Cons x xs)
  then show ?case using ascending_less [of x xs x] ascending_tl [of x xs] by auto
qed simp

lemma sorted_apart_disjoint: "sorted_apart xs ys \<Longrightarrow> ascending xs \<Longrightarrow> ascending ys \<Longrightarrow> set xs \<inter> set ys = {}"
proof (induction xs ys rule: sorted_apart.induct)
  case (1 x xs y ys)
  show ?case
  proof (cases "x < y")
    case True
    then have "x \<notin> set (y # ys)" using ascending_less [OF 1(5)] by (auto dest: less_trans less_imp_neq)
    then show ?thesis using 1(1) [OF True] 1(3-5) True ascending_tl by auto
  next
    case False
    then have "y \<notin> set (x # xs)" using 1(3) ascending_less [OF 1(4)] by (auto dest: less_trans less_imp_neq)
    then show ?thesis using 1(2) [OF False] 1(3-5) False ascending_tl by auto
  qed
qed auto

definition first_run :: "string list" where
  "first_run = take 117 opcode_names_1"

definition second_run :: "string list" where
  "second_run = drop 117 opcode_names_1 @ opcode_names_2 @ opcode_names_3 @ opcode_names_4 @ take 132 opcode_names_5"

lemma runs_of_names: "take 668 kOpcodeNames = first_run @ second_run"
  by (simp add: kOpcodeNames_def first_run_def second_run_def opcode_names_defs)

lemma first_run_ascending: "ascending first_run"
  unfolding first_run_def opcode_names_defs by simp

lemma second_run_ascending: "ascending second_run"
  unfolding second_run_def opcode_names_defs by simp

lemma runs_apart:
  "sorted_apart first_run (drop 117 opcode_names_1 @ opcode_names_2)"
  "sorted_apart first_run opcode_names_3"
  "sorted_apart first_run opcode_names_4"
  "sorted_apart first_run (take 132 opcode_names_5)"
  unfolding first_run_def opcode_names_defs by simp_all

lemma ascending_append: "ascending (xs @ ys) \<Longrightarrow> ascending xs \<and> ascending ys"
  by (induction xs rule: ascending.induct) (auto dest: ascending_tl)

lemma kOpcodeNames_distinct: "distinct (take 668 kOpcodeNames)"
proof -
  note a = second_run_ascending [unfolded second_run_def]
  have "ascending (drop 117 opcode_names_1 @ opcode_names_2)" "ascending opcode_names_3" "ascending opcode_names_4"
      "ascending (take 132 opcode_names_5)"
    using ascending_append [of "drop 117 opcode_names_1 @ opcode_names_2"] ascending_append [of opcode_names_3]
      ascending_append [of opcode_names_4] a by (metis append_assoc)+
  then have "set first_run \<inter> set second_run = {}"
    using runs_apart [THEN sorted_apart_disjoint, OF first_run_ascending]
    unfolding second_run_def set_append by blast
  then show ?thesis
    using first_run_ascending second_run_ascending by (simp add: runs_of_names ascending_distinct)
qed

end
