(* ===== verification/Opcode_Map.thy ===== *)
theory Opcode_Map
  imports Opcode_Names Opcode_Version Dispatch
begin

text \<open>
  The mapping between the runtime's opcode numbers and the translator's (\<^verbatim>\<open>OpcodeCompatibility.cpp\<close>): from
  the mnemonic table of the runtime when one was read, else by the version of the runtime.
\<close>

definition kOpcodeUnmapped :: u16 where
  "kOpcodeUnmapped = 0xFFFF"

definition kVersion_26_4 :: u64 where
  "kVersion_26_4 = 0x16F0140000000"

text \<open>The state of the mapping: the globals of the file, and the version the runtime reported.\<close>

record opcode_maps =
  table_active :: bool
  to_internal :: "u16 list"
  to_host :: "u16 list"
  host_arpl :: u16
  runtime_version :: u64

section \<open>Setting the runtime's table\<close>

text \<open>\<open>emplace\<close> keeps the first entry of a name.\<close>

definition internal_by_name :: "string \<Rightarrow> u16 option" where
  "internal_by_name =
     fold (\<lambda>i m. if word_of_nat i \<noteq> kOpcodeName_arpl \<and> m (kOpcodeNames ! i) = None
                 then m(kOpcodeNames ! i \<mapsto> word_of_nat i) else m) [0..<length kOpcodeNames] Map.empty"

definition enter_host :: "string list \<Rightarrow> nat \<Rightarrow> u16 list \<times> u16 list \<Rightarrow> u16 list \<times> u16 list" where
  "enter_host names h = (\<lambda>(ti, th).
     (case internal_by_name (names ! h) of None \<Rightarrow> (ti, th)
      | Some i \<Rightarrow> (ti[h := i], if th ! unat i = kOpcodeUnmapped then th[unat i := word_of_nat h] else th)))"

definition opcode_set_host_table :: "string list \<Rightarrow> opcode_maps \<Rightarrow> opcode_maps" where
  "opcode_set_host_table names st =
     (let (ti, th) = fold (enter_host names) [0..<length names]
            (replicate (length names) kOpcodeUnmapped, replicate (length kOpcodeNames) kOpcodeUnmapped);
          arpl = word_of_nat (length names)
      in st\<lparr>to_internal := ti, host_arpl := arpl, to_host := th[unat kOpcodeName_arpl := arpl], table_active := True\<rparr>)"

definition opcode_clear_host_table :: "opcode_maps \<Rightarrow> opcode_maps" where
  "opcode_clear_host_table st = st\<lparr>table_active := False, to_internal := [], to_host := [], host_arpl := kOpcodeName_arpl\<rparr>"

section \<open>The two directions\<close>

definition opcode_host_to_internal :: "opcode_maps \<Rightarrow> u16 \<Rightarrow> u16" where
  "opcode_host_to_internal st op =
     (if table_active st then
        (if op = host_arpl st then kOpcodeName_arpl
         else if unat op < length (to_internal st) then to_internal st ! unat op else kOpcodeUnmapped)
      else if runtime_version st > kVersion_26_4 then op
      else host_to_internal_26_4 op)"

definition opcode_internal_to_host :: "opcode_maps \<Rightarrow> u16 \<Rightarrow> u16" where
  "opcode_internal_to_host st op =
     (if table_active st then (if unat op < length (to_host st) then to_host st ! unat op else kOpcodeUnmapped)
      else if runtime_version st > kVersion_26_4 then op
      else internal_to_host_26_4 op)"

section \<open>What a runtime must have\<close>

definition op_range :: "u16 \<Rightarrow> u16 \<Rightarrow> u16 list" where
  "op_range a b = map word_of_nat [unat a..<Suc (unat b)]"

definition kBridged :: "u16 list" where
  "kBridged = [kOpcodeName_wait, kOpcodeName_mov, kOpcodeName_lea, kOpcodeName_movzx, kOpcodeName_movsx,
     kOpcodeName_movsxd, kOpcodeName_add, kOpcodeName_sub, kOpcodeName_and, kOpcodeName_or,
     kOpcodeName_xor, kOpcodeName_inc, kOpcodeName_dec]"

definition opcode_first_unmapped_required :: "opcode_maps \<Rightarrow> u16" where
  "opcode_first_unmapped_required st =
     (if \<not> table_active st then kOpcodeUnmapped
      else case find (\<lambda>op. to_host st ! unat op = kOpcodeUnmapped)
             (op_range kOpcodeName_fcmovb kOpcodeName_fucomip @ op_range kOpcodeName_f2xm1 kOpcodeName_fyl2xp1 @ kBridged)
           of Some op \<Rightarrow> op | None \<Rightarrow> kOpcodeUnmapped)"

section \<open>The loader's checks\<close>

text \<open>One range of \<^verbatim>\<open>opcodeTableMatches\<close>: in the translator's order, and without a gap, for the runtime too.
  A range whose first opcode has no number was reported before.\<close>

definition range_contiguous :: "opcode_maps \<Rightarrow> u16 \<Rightarrow> u16 \<Rightarrow> bool" where
  "range_contiguous st lo hi =
     (let base = opcode_internal_to_host st lo in
      base = kOpcodeUnmapped \<or>
      list_all (\<lambda>op. opcode_internal_to_host st op = base + (op - lo)) (op_range lo hi))"

definition opcodeTableMatches :: "opcode_maps \<Rightarrow> string list \<Rightarrow> u32 \<Rightarrow> bool" where
  "opcodeTableMatches st names opcode_count =
     (if opcode_count = 0 then False
      else if length names \<noteq> unat opcode_count then False
      else opcode_first_unmapped_required st = kOpcodeUnmapped \<and>
        range_contiguous st kOpcodeName_fcmovb kOpcodeName_fucomip \<and>
        range_contiguous st kOpcodeName_f2xm1 kOpcodeName_fyl2xp1)"

definition filterOpcodeIdsFit :: "opcode_maps \<Rightarrow> bool" where
  "filterOpcodeIdsFit st \<longleftrightarrow>
     \<not> (opcode_internal_to_host st kOpcodeName_fcmovb > 0xFFF \<or> opcode_internal_to_host st kOpcodeName_f2xm1 > 0xFFF \<or>
        opcode_internal_to_host st kOpcodeName_arpl > 0xFFF)"

definition runtimeAssumptionsHold :: "opcode_maps \<Rightarrow> string list \<Rightarrow> u32 \<Rightarrow> u32 \<Rightarrow> u32 \<Rightarrow> bool" where
  "runtimeAssumptionsHold st names opcode_count tr_size kStockTRSize \<longleftrightarrow>
     (names = [] \<or> opcodeTableMatches st names opcode_count) \<and> filterOpcodeIdsFit st \<and>
     (tr_size = 0 \<or> tr_size = kStockTRSize)"

end
