(* ===== verification/Opcode_Map_Props.thy ===== *)
theory Opcode_Map_Props
  imports Opcode_Map
begin

text \<open>
  What the opcode mapping guarantees: the two directions are inverse, the table of the 26.4 runtime read by
  name gives what its switches give, and a runtime that passes the check has every opcode a run can hold.
\<close>

section \<open>Names\<close>

lemma emplace_sound:
  "fold (\<lambda>i m. if p i \<and> m (g i) = None then m(g i \<mapsto> v i) else m) ks m s = Some x \<Longrightarrow>
    m s = Some x \<or> (\<exists>i\<in>set ks. p i \<and> g i = s \<and> x = v i)"
proof (induction ks arbitrary: m)
  case (Cons k ks)
  from Cons.IH [OF Cons.prems [unfolded fold_simps]] show ?case by (auto split: if_splits)
qed simp

lemma emplace_keeps:
  "m s \<noteq> None \<Longrightarrow> fold (\<lambda>i m. if p i \<and> m (g i) = None then m(g i \<mapsto> v i) else m) ks m s = m s"
  by (induction ks arbitrary: m) (auto split: if_splits)

lemma emplace_complete:
  "i \<in> set ks \<Longrightarrow> p i \<Longrightarrow> fold (\<lambda>i m. if p i \<and> m (g i) = None then m(g i \<mapsto> v i) else m) ks m (g i) \<noteq> None"
proof (induction ks arbitrary: m)
  case (Cons k ks)
  let ?m = "if p k \<and> m (g k) = None then m(g k \<mapsto> v k) else m"
  show ?case
  proof (cases "k = i")
    case True
    then have "?m (g i) \<noteq> None" using Cons.prems by auto
    from emplace_keeps [of ?m, OF this] this show ?thesis unfolding fold_simps by metis
  next
    case False
    then show ?thesis using Cons.IH [of ?m] Cons.prems by (auto simp del: fun_upd_apply)
  qed
qed simp

lemma names_length: "length kOpcodeNames = 669"
  unfolding kOpcodeNames_def opcode_names_defs by simp

lemma internal_by_name_sound:
  assumes "internal_by_name s = Some i"
  shows "unat i < 668" "kOpcodeNames ! unat i = s"
proof -
  obtain k where "k < 669" "word_of_nat k \<noteq> kOpcodeName_arpl" "kOpcodeNames ! k = s" "i = word_of_nat k"
    using emplace_sound [OF assms [unfolded internal_by_name_def]] by (auto simp: names_length)
  moreover from this have "unat i = k" by (simp add: unat_of_nat take_bit_eq_mod unsigned_of_nat)
  moreover have "k \<noteq> 668" using calculation(2) by auto
  ultimately show "unat i < 668" "kOpcodeNames ! unat i = s" by auto
qed

section \<open>The two lists\<close>

definition host_of :: "string list \<Rightarrow> nat \<Rightarrow> u16 \<Rightarrow> nat option" where
  "host_of names n i = find (\<lambda>h. internal_by_name (names ! h) = Some i) [0..<n]"

lemma find_snoc: "find p (xs @ [x]) = (case find p xs of Some y \<Rightarrow> Some y | None \<Rightarrow> if p x then Some x else None)"
  by (induction xs) auto

lemma find_Some_upt: "find p [0..<n] = Some h \<Longrightarrow> h < n \<and> p h"
  by (auto simp: find_Some_iff)

lemma entered:
  assumes "n \<le> length names" "length names < 65535"
  shows "fold (enter_host names) [0..<n] (replicate (length names) kOpcodeUnmapped, replicate (length kOpcodeNames) kOpcodeUnmapped) =
    (map (\<lambda>h. if h < n then (case internal_by_name (names ! h) of Some i \<Rightarrow> i | None \<Rightarrow> kOpcodeUnmapped) else kOpcodeUnmapped)
       [0..<length names],
     map (\<lambda>i. case host_of names n (word_of_nat i) of Some h \<Rightarrow> word_of_nat h | None \<Rightarrow> kOpcodeUnmapped) [0..<669])"
  using assms(1)
proof (induction n)
  case 0
  then show ?case by (auto simp: host_of_def names_length map_replicate_const)
next
  case (Suc n)
  have u: "word_of_nat h \<noteq> kOpcodeUnmapped" if "h < Suc n" for h
  proof
    assume "word_of_nat h = kOpcodeUnmapped"
    then have "unat (word_of_nat h :: u16) = 65535" by (simp add: kOpcodeUnmapped_def)
    moreover have "unat (word_of_nat h :: u16) = h" using that Suc.prems assms(2) by (simp add: unsigned_of_nat take_bit_eq_mod)
    ultimately show False using that Suc.prems assms(2) by simp
  qed
  have f: "host_of names (Suc n) i = (case host_of names n i of Some h \<Rightarrow> Some h
      | None \<Rightarrow> if internal_by_name (names ! n) = Some i then Some n else None)" for i
    by (simp add: host_of_def find_snoc)
  define ti where "ti k = map (\<lambda>h. if h < k then (case internal_by_name (names ! h) of Some i \<Rightarrow> i | None \<Rightarrow> kOpcodeUnmapped)
      else kOpcodeUnmapped) [0..<length names]" for k
  define th where "th k = map (\<lambda>i. case host_of names k (word_of_nat i) of Some h \<Rightarrow> word_of_nat h | None \<Rightarrow> kOpcodeUnmapped)
      [0..<669]" for k
  have "enter_host names n (ti n, th n) = (ti (Suc n), th (Suc n))"
  proof (cases "internal_by_name (names ! n)")
    case None
    then have "ti (Suc n) = ti n" by (auto simp: ti_def less_Suc_eq)
    moreover have "th (Suc n) = th n" by (auto simp: th_def f None split: option.split)
    ultimately show ?thesis by (simp add: enter_host_def None)
  next
    case (Some i)
    have i: "unat i < 669" using internal_by_name_sound(1) [OF Some] by simp
    have "(ti n)[n := i] = ti (Suc n)"
      by (rule nth_equalityI) (auto simp: ti_def nth_list_update Some less_Suc_eq)
    moreover have "(if th n ! unat i = kOpcodeUnmapped then (th n)[unat i := word_of_nat n] else th n) = th (Suc n)"
    proof (rule nth_equalityI)
      fix j assume "j < length (if th n ! unat i = kOpcodeUnmapped then (th n)[unat i := word_of_nat n] else th n)"
      then have j: "j < 669" by (simp add: th_def split: if_splits)
      have e: "i = word_of_nat j \<longleftrightarrow> unat i = j" using i j by (auto simp: unsigned_of_nat take_bit_eq_mod)
      show "(if th n ! unat i = kOpcodeUnmapped then (th n)[unat i := word_of_nat n] else th n) ! j = th (Suc n) ! j"
      proof (cases "host_of names n i")
        case None
        then have "th n ! unat i = kOpcodeUnmapped" using i by (simp add: th_def)
        then show ?thesis using i j None e Some by (auto simp: th_def nth_list_update f split: option.split)
      next
        case (Some h)
        then have "h < n" unfolding host_of_def using find_Some_upt by blast
        then have "th n ! unat i \<noteq> kOpcodeUnmapped" using i u [of h] Some by (simp add: th_def)
        then show ?thesis using j e Some \<open>internal_by_name (names ! n) = Some i\<close> by (auto simp: th_def f split: option.split)
      qed
    qed (simp add: th_def)
    ultimately show ?thesis by (simp add: enter_host_def Some)
  qed
  then show ?case using Suc.IH Suc.prems unfolding ti_def th_def by simp
qed

section \<open>The round trip\<close>

lemma maps_set:
  assumes "length names < 65535" "st' = opcode_set_host_table names st"
  shows "table_active st'" "host_arpl st' = word_of_nat (length names)" "runtime_version st' = runtime_version st"
    "to_internal st' = map (\<lambda>h. case internal_by_name (names ! h) of Some i \<Rightarrow> i | None \<Rightarrow> kOpcodeUnmapped) [0..<length names]"
    "to_host st' = (map (\<lambda>i. case host_of names (length names) (word_of_nat i) of Some h \<Rightarrow> word_of_nat h | None \<Rightarrow> kOpcodeUnmapped)
       [0..<669])[668 := word_of_nat (length names)]"
  using entered [OF order_refl assms(1)] by (simp_all add: assms(2) opcode_set_host_table_def Let_def)

lemma host_numbers:
  assumes "length names < 65535" "st' = opcode_set_host_table names st"
  shows "opcode_host_to_internal st' h =
      (if unat h = length names then kOpcodeName_arpl
       else if unat h < length names then (case internal_by_name (names ! unat h) of Some i \<Rightarrow> i | None \<Rightarrow> kOpcodeUnmapped)
       else kOpcodeUnmapped)"
    "opcode_internal_to_host st' i =
      (if i = kOpcodeName_arpl then word_of_nat (length names)
       else if unat i < 668 then (case host_of names (length names) i of Some h \<Rightarrow> word_of_nat h | None \<Rightarrow> kOpcodeUnmapped)
       else kOpcodeUnmapped)"
proof -
  note m = maps_set [OF assms(1,2)]
  have "h = word_of_nat (length names) \<longleftrightarrow> unat h = length names"
    using assms(1) by (auto simp: word_unat_eq_iff unsigned_of_nat take_bit_eq_mod)
  then show "opcode_host_to_internal st' h =
      (if unat h = length names then kOpcodeName_arpl
       else if unat h < length names then (case internal_by_name (names ! unat h) of Some i \<Rightarrow> i | None \<Rightarrow> kOpcodeUnmapped)
       else kOpcodeUnmapped)"
    by (simp add: opcode_host_to_internal_def m)
  have "i = kOpcodeName_arpl \<longleftrightarrow> unat i = 668" by (simp add: word_unat_eq_iff)
  then show "opcode_internal_to_host st' i =
      (if i = kOpcodeName_arpl then word_of_nat (length names)
       else if unat i < 668 then (case host_of names (length names) i of Some h \<Rightarrow> word_of_nat h | None \<Rightarrow> kOpcodeUnmapped)
       else kOpcodeUnmapped)"
    by (simp add: opcode_internal_to_host_def m nth_list_update)
qed

lemma internal_by_name_ne: "internal_by_name s = Some i \<Longrightarrow> i \<noteq> kOpcodeUnmapped \<and> i \<noteq> kOpcodeName_arpl"
  using internal_by_name_sound(1) [of s i] by (auto simp: kOpcodeUnmapped_def)

lemma mapped_back:
  assumes "length names < 65535" "st' = opcode_set_host_table names st" "opcode_internal_to_host st' i \<noteq> kOpcodeUnmapped"
  shows "opcode_host_to_internal st' (opcode_internal_to_host st' i) = i"
proof -
  note n = host_numbers [OF assms(1,2)]
  have w: "unat (word_of_nat k :: u16) = k" if "k \<le> length names" for k
    using that assms(1) by (simp add: unsigned_of_nat take_bit_eq_mod)
  show ?thesis
  proof (cases "i = kOpcodeName_arpl")
    case True
    then show ?thesis by (simp add: n w)
  next
    case False
    obtain k where k: "host_of names (length names) i = Some k" "opcode_internal_to_host st' i = word_of_nat k"
    proof (cases "unat i < 668 \<and> host_of names (length names) i \<noteq> None")
      case True
      then show ?thesis using False by (auto simp: n(2) intro: that)
    next
      case False
      then have "opcode_internal_to_host st' i = kOpcodeUnmapped" using \<open>i \<noteq> kOpcodeName_arpl\<close> by (auto simp: n(2))
      then show ?thesis using assms(3) by simp
    qed
    then have "k < length names" "internal_by_name (names ! k) = Some i" using find_Some_upt by (auto simp: host_of_def)
    then show ?thesis by (simp add: k n(1) w)
  qed
qed

lemma mapped_forth:
  assumes "length names < 65535" "distinct names" "st' = opcode_set_host_table names st"
    and nz: "opcode_host_to_internal st' h \<noteq> kOpcodeUnmapped"
  shows "opcode_internal_to_host st' (opcode_host_to_internal st' h) = h"
proof -
  note n = host_numbers [OF assms(1,3)]
  show ?thesis
  proof (cases "unat h = length names")
    case True
    then show ?thesis by (simp add: n flip: True)
  next
    case False
    then obtain i where i: "unat h < length names" "internal_by_name (names ! unat h) = Some i" "opcode_host_to_internal st' h = i"
      using nz False by (auto simp: n(1) split: if_splits option.splits)
    have "host_of names (length names) i = Some (unat h)"
    proof -
      obtain k where k: "host_of names (length names) i = Some k"
        using i(1,2) by (cases "host_of names (length names) i") (auto simp: host_of_def find_None_iff)
      then have "k < length names" "internal_by_name (names ! k) = Some i" using find_Some_upt by (auto simp: host_of_def)
      then have "names ! k = names ! unat h" using internal_by_name_sound(2) i(2) by metis
      then show ?thesis using k \<open>k < length names\<close> i(1) assms(2) by (simp add: nth_eq_iff_index_eq)
    qed
    then show ?thesis
      using internal_by_name_ne [OF i(2)] internal_by_name_sound(1) [OF i(2)] by (simp add: i(3) n(2))
  qed
qed

text \<open>C34: once the runtime's table is set, with any names none of which is repeated, the two directions are
  inverse: the number a name's opcode maps to maps back to it, a mapped number names the same mnemonic on both
  sides, and the synthetic ARPL is the first number past the table.\<close>

theorem host_table_round_trip:
  assumes "length names < 65535" "distinct names" "st' = opcode_set_host_table names st"
  shows "(opcode_internal_to_host st' i \<noteq> kOpcodeUnmapped \<longrightarrow> opcode_host_to_internal st' (opcode_internal_to_host st' i) = i) \<and>
    (opcode_host_to_internal st' h \<noteq> kOpcodeUnmapped \<longrightarrow> opcode_internal_to_host st' (opcode_host_to_internal st' h) = h) \<and>
    (unat h < length names \<and> opcode_host_to_internal st' h \<noteq> kOpcodeUnmapped \<longrightarrow>
      kOpcodeNames ! unat (opcode_host_to_internal st' h) = names ! unat h) \<and>
    opcode_internal_to_host st' kOpcodeName_arpl = word_of_nat (length names)"
proof (intro conjI impI)
  note n = host_numbers [OF assms(1,3)]
  show "opcode_internal_to_host st' kOpcodeName_arpl = word_of_nat (length names)" by (simp add: n)
  show "opcode_host_to_internal st' (opcode_internal_to_host st' i) = i" if "opcode_internal_to_host st' i \<noteq> kOpcodeUnmapped"
    using mapped_back [OF assms(1,3) that] .
  show "opcode_internal_to_host st' (opcode_host_to_internal st' h) = h" if "opcode_host_to_internal st' h \<noteq> kOpcodeUnmapped"
    using mapped_forth [OF assms that] .
  show "kOpcodeNames ! unat (opcode_host_to_internal st' h) = names ! unat h"
    if "unat h < length names \<and> opcode_host_to_internal st' h \<noteq> kOpcodeUnmapped"
    using that internal_by_name_sound(2) by (auto simp: n(1) split: if_splits option.splits)
qed

section \<open>The table of the 26.4 runtime\<close>

text \<open>The names in the order of \<^verbatim>\<open>Opcode_26_4.h\<close>.\<close>

definition names_26_4 :: "string list" where
  "names_26_4 = map (\<lambda>h. kOpcodeNames ! unat (move_from (word_of_nat h))) [0..<668]"

lemma internal_by_name_complete:
  assumes "k < 668"
  shows "internal_by_name (kOpcodeNames ! k) = Some (word_of_nat k)"
proof -
  have k: "unat (word_of_nat k :: u16) = k" using assms by (simp add: unsigned_of_nat take_bit_eq_mod)
  have "word_of_nat k \<noteq> kOpcodeName_arpl" using k assms by auto
  then obtain i where i: "internal_by_name (kOpcodeNames ! k) = Some i"
    using emplace_complete [of k "[0..<length kOpcodeNames]" "\<lambda>i. word_of_nat i \<noteq> kOpcodeName_arpl" "\<lambda>i. kOpcodeNames ! i" word_of_nat Map.empty]
      assms unfolding internal_by_name_def by (auto simp: names_length)
  have "take 668 kOpcodeNames ! unat i = take 668 kOpcodeNames ! k" "unat i < 668"
    using internal_by_name_sound [OF i] assms by simp_all
  then have "unat i = k"
    using nth_eq_iff_index_eq [OF kOpcodeNames_distinct, of "unat i" k] assms by (simp add: names_length)
  then show ?thesis using i by (metis word_unat_eq_iff k)
qed

lemma move_from_small: "k < 668 \<Longrightarrow> unat (move_from (word_of_nat k)) < 668"
  by (auto simp: unat_moves unsigned_of_nat take_bit_eq_mod)

lemma names_26_4_by_name:
  assumes "k < 668"
  shows "internal_by_name (names_26_4 ! k) = Some (move_from (word_of_nat k))"
  using internal_by_name_complete [OF move_from_small [OF assms]] assms by (simp add: names_26_4_def)

lemma table_26_4_moves:
  assumes "st' = opcode_set_host_table names_26_4 st" "h < 669" "i < 669"
  shows "opcode_host_to_internal st' h = move_from h \<and> opcode_internal_to_host st' i = move_to i"
proof -
  have l: "length names_26_4 = 668" by (simp add: names_26_4_def)
  then have l': "length names_26_4 < 65535" by simp
  note n = host_numbers [OF l' assms(1), unfolded l]
  have u: "unat h < 669" "unat i < 669" using assms(2,3) by (simp_all add: word_less_nat_alt)
  have m: "move_from 668 = 668" "move_to 668 = 668" by (simp_all add: move_from_def move_to_def)
  have "opcode_host_to_internal st' h = move_from h"
  proof (cases "unat h = 668")
    case True
    then have "h = 668" by (simp add: word_unat_eq_iff)
    then show ?thesis by (simp add: n m)
  next
    case False
    then show ?thesis using u(1) names_26_4_by_name [of "unat h"] by (simp add: n)
  qed
  moreover have "opcode_internal_to_host st' i = move_to i"
  proof (cases "i = 668")
    case True
    then show ?thesis by (simp add: n m)
  next
    case False
    then have i: "unat i < 668" using u(2) by (simp add: word_unat_eq_iff)
    define k where "k = unat (move_to i)"
    have k: "k < 668" "word_of_nat k = move_to i" using i by (auto simp: k_def unat_moves) [1] (simp add: k_def)
    have "internal_by_name (names_26_4 ! k') = Some i \<longleftrightarrow> k' = k" if "k' < 668" for k'
    proof -
      have "unat (word_of_nat k' :: u16) = k'" using that by (simp add: unsigned_of_nat take_bit_eq_mod)
      then have "move_from (word_of_nat k') = i \<longleftrightarrow> k' = k" by (metis k(2) k_def move_inverse)
      then show ?thesis using names_26_4_by_name [OF that] by simp
    qed
    then have "host_of names_26_4 668 i = Some k"
      using k(1) by (auto simp: host_of_def find_Some_iff)
    then show ?thesis using i False k(2) by (simp add: n)
  qed
  ultimately show ?thesis by simp
qed

text \<open>C35: setting the 26.4 runtime's own table gives, on its opcodes and the synthetic ARPL, the numbers the
  switches for that version give: the two ways of numbering agree where both apply.\<close>

theorem named_table_is_version_switch:
  assumes "st' = opcode_set_host_table names_26_4 st" "h < 669" "i < 669"
  shows "opcode_host_to_internal st' h = host_to_internal_26_4 h \<and> opcode_internal_to_host st' i = internal_to_host_26_4 i"
  using table_26_4_moves [OF assms] assms(2,3) version_switch_eqs by simp

section \<open>What the check at launch gives\<close>

lemma op_range_iff: "op \<in> set (op_range a b) \<longleftrightarrow> a \<le> op \<and> op \<le> b"
proof -
  have "op \<in> set (op_range a b) \<longleftrightarrow> (\<exists>k. unat a \<le> k \<and> k \<le> unat b \<and> op = word_of_nat k)"
    by (auto simp: op_range_def image_iff Bex_def simp del: upt_Suc)
  also have "\<dots> \<longleftrightarrow> unat a \<le> unat op \<and> unat op \<le> unat b"
  proof
    assume "\<exists>k. unat a \<le> k \<and> k \<le> unat b \<and> op = word_of_nat k"
    then obtain k where k: "unat a \<le> k" "k \<le> unat b" "op = word_of_nat k" by blast
    have "unat b < 65536" using unsigned_less [of b, where ?'a = nat] by simp
    then have "k < 65536" using k(2) by simp
    then have "unat op = k" by (simp add: k(3) unsigned_of_nat take_bit_eq_mod)
    then show "unat a \<le> unat op \<and> unat op \<le> unat b" using k by simp
  qed (auto intro: exI [of _ "unat op"])
  finally show ?thesis by (simp add: word_le_nat_alt)
qed

lemma active_to_host:
  assumes "length names < 65535" "st' = opcode_set_host_table names st" "unat op < 669"
  shows "to_host st' ! unat op = opcode_internal_to_host st' op"
  using maps_set [OF assms(1,2)] assms(3) by (simp add: opcode_internal_to_host_def)

lemma required_mapped:
  assumes "length names < 65535" "st' = opcode_set_host_table names st"
  shows "opcode_first_unmapped_required st' = kOpcodeUnmapped \<longleftrightarrow>
    (\<forall>op. (is_x87_opcode op \<or> op \<in> set kBridged) \<longrightarrow> opcode_internal_to_host st' op \<noteq> kOpcodeUnmapped)"
proof -
  let ?ops = "op_range kOpcodeName_fcmovb kOpcodeName_fucomip @ op_range kOpcodeName_f2xm1 kOpcodeName_fyl2xp1 @ kBridged"
  have ops: "op \<in> set ?ops \<longleftrightarrow> is_x87_opcode op \<or> op \<in> set kBridged" for op
    by (auto simp: op_range_iff is_x87_opcode_def)
  have small: "unat op < 669" if "op \<in> set ?ops" for op
    using that by (auto simp: op_range_iff word_le_nat_alt kBridged_def)
  have e: "to_host st' ! unat op = opcode_internal_to_host st' op" if "op \<in> set ?ops" for op
    using active_to_host [OF assms small [OF that]] .
  show ?thesis
  proof (cases "find (\<lambda>op. to_host st' ! unat op = kOpcodeUnmapped) ?ops")
    case None
    then have "opcode_internal_to_host st' op \<noteq> kOpcodeUnmapped" if "op \<in> set ?ops" for op
      using that e unfolding find_None_iff by metis
    then show ?thesis using None maps_set(1) [OF assms] ops by (simp add: opcode_first_unmapped_required_def)
  next
    case (Some op)
    then obtain i where "i < length ?ops" "to_host st' ! unat (?ops ! i) = kOpcodeUnmapped" "op = ?ops ! i"
      unfolding find_Some_iff by blast
    then have "op \<in> set ?ops" "to_host st' ! unat op = kOpcodeUnmapped" using nth_mem [of i ?ops] by (simp_all only:)
    moreover have "op \<noteq> kOpcodeUnmapped" using small [OF calculation(1)] by (auto simp: kOpcodeUnmapped_def)
    ultimately show ?thesis using Some maps_set(1) [OF assms] e [of op] ops [of op]
      by (auto simp: opcode_first_unmapped_required_def)
  qed
qed

lemma bridge_in_kBridged: "is_bridge_v1 ins \<or> is_bridge_v2 ins \<or> is_bridge_v2_proven ins \<Longrightarrow> opcode ins \<in> set kBridged"
  using is_bridge_v1_opcode [of ins] is_bridge_v2_opcode [of ins] is_bridge_v2_proven_imp_v2 [of ins] by (auto simp: kBridged_def)

lemma matches_required: "opcodeTableMatches st names n \<Longrightarrow> opcode_first_unmapped_required st = kOpcodeUnmapped"
  by (simp add: opcodeTableMatches_def split: if_splits)

text \<open>C36: a runtime whose table passes the check at launch has a number of its own for every opcode that a run
  can start with, hold or bridge, and reading an instruction with that number gives the opcode back.\<close>

theorem checked_runtime_has_run_opcodes:
  assumes "length names < 65535" "st' = opcode_set_host_table names st" "opcodeTableMatches st' names n"
    and "is_x87_opcode (opcode ins) \<or> is_bridge_v1 ins \<or> is_bridge_v2 ins \<or> is_bridge_v2_proven ins"
  shows "opcode_internal_to_host st' (opcode ins) \<noteq> kOpcodeUnmapped \<and>
    opcode_host_to_internal st' (opcode_internal_to_host st' (opcode ins)) = opcode ins"
proof -
  have "opcode_internal_to_host st' (opcode ins) \<noteq> kOpcodeUnmapped"
    using required_mapped [OF assms(1,2)] matches_required [OF assms(3)] assms(4) bridge_in_kBridged by blast
  then show ?thesis using mapped_back [OF assms(1,2)] by simp
qed

section \<open>The 26.4 runtime passes\<close>

lemma names_26_4_length: "length names_26_4 = 668"
  by (simp add: names_26_4_def)

lemma runtime_26_4_numbers:
  "i < 669 \<Longrightarrow> opcode_internal_to_host (opcode_set_host_table names_26_4 st) i = move_to i"
  "h < 669 \<Longrightarrow> opcode_host_to_internal (opcode_set_host_table names_26_4 st) h = move_from h"
  using table_26_4_moves [OF refl] by simp_all

lemma runtime_26_4_matches: "opcodeTableMatches (opcode_set_host_table names_26_4 st) names_26_4 668"
proof -
  let ?st = "opcode_set_host_table names_26_4 st"
  have l: "length names_26_4 < 65535" by (simp add: names_26_4_length)
  have small: "op < 669" if "is_x87_opcode op \<or> op \<in> set kBridged" for op
    using that by (auto simp: is_x87_opcode_def word_less_nat_alt word_le_nat_alt kBridged_def)
  have "move_to op \<noteq> kOpcodeUnmapped" if "op < 669" for op
  proof
    assume "move_to op = kOpcodeUnmapped"
    then have "unat (move_to op) = 65535" by (simp add: kOpcodeUnmapped_def)
    then show False using that by (auto simp: unat_moves word_less_nat_alt split: if_splits)
  qed
  then have "opcode_first_unmapped_required ?st = kOpcodeUnmapped"
    using small by (simp add: required_mapped [OF l refl] runtime_26_4_numbers)
  moreover have "range_contiguous ?st lo hi" if "\<forall>op. lo \<le> op \<and> op \<le> hi \<longrightarrow> op < 669 \<and> move_to op = move_to lo + (op - lo)" "lo \<le> hi" for lo hi
  proof -
    have "lo < 669" using that by blast
    then have "opcode_internal_to_host ?st op = opcode_internal_to_host ?st lo + (op - lo)" if "op \<in> set (op_range lo hi)" for op
      using that \<open>\<forall>op. _ op\<close> runtime_26_4_numbers(1) by (metis op_range_iff)
    then show ?thesis by (simp add: range_contiguous_def list_all_iff Let_def)
  qed
  moreover have "move_to op = op + 1 \<and> op < 669" if "kOpcodeName_f2xm1 \<le> op" "op \<le> kOpcodeName_fyl2xp1" for op
  proof -
    have "72 \<le> op" by (rule order_trans [OF _ that(1)]) simp
    moreover have "op < 354" by (rule order_le_less_trans [OF that(2)]) simp
    moreover have "op < 669" by (rule order_le_less_trans [OF that(2)]) simp
    ultimately show ?thesis by (simp add: move_to_def)
  qed
  moreover have "move_to op = op \<and> op < 669" if "kOpcodeName_fcmovb \<le> op" "op \<le> kOpcodeName_fucomip" for op
  proof -
    have "op < 72" by (rule order_le_less_trans [OF that(2)]) simp
    moreover have "op < 669" by (rule order_le_less_trans [OF that(2)]) simp
    moreover have "\<not> 72 \<le> op" "op \<noteq> 354" using calculation by auto
    ultimately show ?thesis by (simp add: move_to_def)
  qed
  ultimately show ?thesis by (simp add: opcodeTableMatches_def names_26_4_length)
qed

section \<open>Witnesses\<close>

definition example_maps :: opcode_maps where
  "example_maps = \<lparr>table_active = False, to_internal = [], to_host = [], host_arpl = kOpcodeName_arpl, runtime_version = 0\<rparr>"

theorem host_table_round_trip_witness:
  "length [''fxch'', ''nosuch'', ''fld''] < 65535 \<and> distinct [''fxch'', ''nosuch'', ''fld''] \<and>
   (let st = opcode_set_host_table [''fxch'', ''nosuch'', ''fld''] example_maps in
      opcode_internal_to_host st kOpcodeName_arpl = 3 \<and>
      (opcode_host_to_internal st 2 \<noteq> kOpcodeUnmapped \<longrightarrow> opcode_internal_to_host st (opcode_host_to_internal st 2) = 2))"
  using host_table_round_trip [OF _ _ refl, of "[''fxch'', ''nosuch'', ''fld'']" example_maps 0 2] by (simp add: Let_def)

theorem named_table_is_version_switch_witness:
  "opcode_host_to_internal (opcode_set_host_table names_26_4 example_maps) 72 = 354 \<and>
   opcode_internal_to_host (opcode_set_host_table names_26_4 example_maps) 100 = 101"
  using named_table_is_version_switch [OF refl, of 72 100 example_maps] by (simp add: version_switch_eqs move_from_def move_to_def)

definition example_fxch :: irinstr where
  "example_fxch = \<lparr>pc = 0, opcode = kOpcodeName_fxch, rep_prefix = 0, flag_liveness = 0, num_operands = 0,
     opnd0 = \<lparr>kind = Register, opsize = S80, reg_byte = 0, seg_override = 0, mem_flags = 0, base_reg = 0, index_reg = 0, shift_amount = 0, disp = 0\<rparr>,
     opnd1 = \<lparr>kind = Register, opsize = S80, reg_byte = 0, seg_override = 0, mem_flags = 0, base_reg = 0, index_reg = 0, shift_amount = 0, disp = 0\<rparr>,
     opnd2 = \<lparr>kind = Register, opsize = S80, reg_byte = 0, seg_override = 0, mem_flags = 0, base_reg = 0, index_reg = 0, shift_amount = 0, disp = 0\<rparr>,
     opnd3 = \<lparr>kind = Register, opsize = S80, reg_byte = 0, seg_override = 0, mem_flags = 0, base_reg = 0, index_reg = 0, shift_amount = 0, disp = 0\<rparr>\<rparr>"

theorem checked_runtime_has_run_opcodes_witness:
  "opcodeTableMatches (opcode_set_host_table names_26_4 example_maps) names_26_4 668 \<and> is_x87_opcode (opcode example_fxch) \<and>
   opcode_internal_to_host (opcode_set_host_table names_26_4 example_maps) (opcode example_fxch) \<noteq> kOpcodeUnmapped"
proof -
  have x: "is_x87_opcode (opcode example_fxch)" by (simp add: example_fxch_def is_x87_opcode_def)
  have l: "length names_26_4 < 65535" by (simp add: names_26_4_length)
  show ?thesis
    using checked_runtime_has_run_opcodes [OF l refl runtime_26_4_matches disjI1 [OF x], of example_maps] runtime_26_4_matches x by blast
qed

end
