(* ===== verification/Opcode_Table.thy ===== *)
theory Opcode_Table
  imports Prelude
begin

text \<open>
  Reading the runtime's mnemonic table out of its \<^verbatim>\<open>__cstring\<close> section (\<^verbatim>\<open>opcode_table.cpp\<close>).  A section is
  a list of bytes, an offset into it an index.
\<close>

definition char_bytes :: "string \<Rightarrow> u8 list" where
  "char_bytes s = map (\<lambda>c. word_of_nat (of_char c)) s"

definition text_of :: "u8 list \<Rightarrow> string" where
  "text_of bs = map (\<lambda>b. char_of (unat b)) bs"

section \<open>Searching\<close>

text \<open>\<^verbatim>\<open>std::search\<close> from an offset on: the first place where the pattern stands.\<close>

definition search_bytes :: "u8 list \<Rightarrow> u8 list \<Rightarrow> nat \<Rightarrow> nat option" where
  "search_bytes pat data from = find (\<lambda>i. take (length pat) (drop i data) = pat) [from..<Suc (length data)]"

definition kTableHead :: "u8 list" where
  "kTableHead = 0 # concat (map (\<lambda>s. char_bytes s @ [0]) [''aaa'', ''aad'', ''aam'', ''aas'', ''adc'', ''add''])"

section \<open>The names\<close>

record opcode_table =
  tbl_names :: "string list"
  tbl_count :: u32

text \<open>The loop over the strings, on what is left of the section; \<open>n\<close> counts the names so far.\<close>

function read_names :: "nat \<Rightarrow> u8 list \<Rightarrow> string list" where
  "read_names n ds =
     (if ds = [] \<or> n \<ge> 1024 then []
      else let s = takeWhile (\<lambda>b. b \<noteq> 0) ds in
        if s = [] then [] else text_of s # read_names (Suc n) (drop (length s + 1) ds))"
  by pat_completeness auto
termination by (relation "measure (length \<circ> snd)") auto

declare read_names.simps [simp del]

section \<open>The bound ahead of the table\<close>

text \<open>Where the string that ends at \<open>str_end\<close> begins, and the string.\<close>

definition string_begin :: "u8 list \<Rightarrow> nat \<Rightarrow> nat" where
  "string_begin data str_end = str_end - length (takeWhile (\<lambda>b. b \<noteq> 0) (rev (take str_end data)))"

definition string_before :: "u8 list \<Rightarrow> nat \<Rightarrow> u8 list" where
  "string_before data str_end = drop (string_begin data str_end) (take str_end data)"

definition is_digit :: "u8 \<Rightarrow> bool" where
  "is_digit b \<longleftrightarrow> 48 \<le> b \<and> b \<le> 57"

definition decimal :: "u8 list \<Rightarrow> nat" where
  "decimal ds = foldl (\<lambda>v b. 10 * v + unat (b - 48)) 0 ds"

text \<open>\<^verbatim>\<open>std::from_chars\<close> on the whole of the digits, as the code accepts it; 0 where it does not.\<close>

definition parse_count :: "u8 list \<Rightarrow> u32" where
  "parse_count ds = (if ds \<noteq> [] \<and> list_all is_digit ds \<and> decimal ds < 2 ^ 32 then word_of_nat (decimal ds) else 0)"

definition kBoundPrefix :: "u8 list" where
  "kBoundPrefix = char_bytes ''index < ''"

function bound_walk :: "u8 list \<Rightarrow> nat \<Rightarrow> nat \<Rightarrow> u32" where
  "bound_walk data back str_end =
     (if back \<ge> 4 \<or> str_end = 0 then 0
      else let prev = string_before data str_end; str_begin = string_begin data str_end in
        if take (length kBoundPrefix) prev = kBoundPrefix \<and> str_begin > 0 \<and>
           string_before data (str_begin - 1) = char_bytes ''opcode_to_string''
        then parse_count (drop (length kBoundPrefix) prev)
        else if str_begin = 0 then 0
        else bound_walk data (Suc back) (str_begin - 1))"
  by pat_completeness auto
termination by (relation "measure (\<lambda>(data, back, str_end). 4 - back)") auto

declare bound_walk.simps [simp del]

section \<open>The table\<close>

definition parseOpcodeTable :: "u8 list \<Rightarrow> opcode_table" where
  "parseOpcodeTable data =
     (case search_bytes kTableHead data 0 of
        None \<Rightarrow> \<lparr>tbl_names = [], tbl_count = 0\<rparr>
      | Some head \<Rightarrow>
          if search_bytes kTableHead data (head + 1) \<noteq> None then \<lparr>tbl_names = [], tbl_count = 0\<rparr>
          else
            (let names = read_names 0 (drop (head + 1) data);
                 count = bound_walk data 0 head
             in \<lparr>tbl_names = (if count \<noteq> 0 \<and> length names > unat count then take (unat count) names else names),
                 tbl_count = count\<rparr>))"

section \<open>Reading back\<close>

definition c_strings :: "string list \<Rightarrow> u8 list" where
  "c_strings ns = concat (map (\<lambda>s. char_bytes s @ [0]) ns)"

definition plain_name :: "string \<Rightarrow> bool" where
  "plain_name s \<longleftrightarrow> s \<noteq> [] \<and> 0 \<notin> set (char_bytes s)"

lemma text_of_char_bytes: "text_of (char_bytes s) = s"
proof -
  have "unat (word_of_nat (of_char c) :: u8) = (of_char c :: nat)" for c
    by (cases c) (simp add: unsigned_of_nat take_bit_eq_mod)
  then show ?thesis by (simp add: text_of_def char_bytes_def comp_def map_idI)
qed

lemma takeWhile_char_bytes: "0 \<notin> set bs \<Longrightarrow> takeWhile (\<lambda>b. b \<noteq> 0) (bs @ 0 # ds) = bs"
  by (induction bs) auto

lemma read_names_strings:
  "list_all plain_name ns \<Longrightarrow> n + length ns \<le> 1024 \<Longrightarrow>
    read_names n (c_strings ns @ rest) = ns @ read_names (n + length ns) rest"
proof (induction ns arbitrary: n)
  case Nil
  then show ?case by (simp add: c_strings_def)
next
  case (Cons s ns)
  have s: "char_bytes s \<noteq> []" "0 \<notin> set (char_bytes s)" using Cons.prems(1) by (auto simp: plain_name_def char_bytes_def)
  have t: "takeWhile (\<lambda>b. b \<noteq> 0) (char_bytes s @ 0 # c_strings ns @ rest) = char_bytes s" by (rule takeWhile_char_bytes [OF s(2)])
  have "c_strings (s # ns) @ rest = char_bytes s @ 0 # c_strings ns @ rest" by (simp add: c_strings_def)
  then show ?case
    using Cons.IH [of "Suc n"] Cons.prems s by (subst read_names.simps) (simp add: t Let_def text_of_char_bytes)
qed

lemma string_begin_after: "0 \<notin> set bs \<Longrightarrow> string_begin (pre @ 0 # bs @ ds) (Suc (length pre + length bs)) = Suc (length pre)"
  by (simp add: string_begin_def takeWhile_char_bytes)

lemma string_before_after: "0 \<notin> set bs \<Longrightarrow> string_before (pre @ 0 # bs @ ds) (Suc (length pre + length bs)) = bs"
  by (simp add: string_before_def string_begin_after)

lemma bound_read:
  assumes "list_all is_digit digits" "digits \<noteq> []" "decimal digits < 2 ^ 32"
    and "data = pre @ 0 # char_bytes ''opcode_to_string'' @ 0 # kBoundPrefix @ digits @ ds"
    and "e = length pre + 26 + length digits"
  shows "bound_walk data 0 e = word_of_nat (decimal digits)"
proof -
  define b where "b = kBoundPrefix @ digits"
  define p where "p = pre @ 0 # char_bytes ''opcode_to_string''"
  have nz: "0 \<notin> set b" "0 \<notin> set (char_bytes ''opcode_to_string'')"
    using assms(1) by (auto simp: b_def kBoundPrefix_def char_bytes_def is_digit_def list_all_iff)
  have l: "length kBoundPrefix = 8" "length (char_bytes ''opcode_to_string'') = 16" by (simp_all add: kBoundPrefix_def char_bytes_def)
  have d1: "data = p @ 0 # b @ ds" "e = Suc (length p + length b)" by (simp_all add: assms(4,5) p_def b_def l)
  have d2: "data = pre @ 0 # char_bytes ''opcode_to_string'' @ 0 # b @ ds" by (simp add: assms(4) b_def)
  have "string_before data e = b" "string_begin data e = Suc (length p)"
    unfolding d1 by (rule string_before_after string_begin_after, rule nz)+
  moreover have "string_before data (length p) = char_bytes ''opcode_to_string''"
    using string_before_after [OF nz(2), of pre "0 # b @ ds"] by (simp add: d2 p_def l add.commute)
  ultimately show ?thesis
    using assms(1-3) d1(2) by (subst bound_walk.simps) (simp add: Let_def b_def parse_count_def)
qed

lemma find_unique:
  assumes "p e" "e \<in> set xs" "\<And>i. i \<in> set xs \<Longrightarrow> p i \<Longrightarrow> i = e"
  shows "find p xs = Some e"
proof (cases "find p xs")
  case None
  then show ?thesis using assms(1,2) by (auto simp: find_None_iff)
next
  case (Some x)
  then have "x \<in> set xs" "p x" by (auto simp: find_Some_iff)
  then show ?thesis using assms(3) Some by metis
qed


definition example_section :: "u8 list" where
  "example_section = char_bytes ''Opcode.cpp'' @ 0 # char_bytes ''opcode_to_string'' @ 0 # kBoundPrefix @ char_bytes ''7'' @
     0 # c_strings [''aaa'', ''aad'', ''aam'', ''aas'', ''adc'', ''add'', ''and''] @ c_strings [''bitfield'']"


end
