(* ===== verification/Stub_Encode.thy ===== *)
theory Stub_Encode
  imports Prelude
begin

text \<open>
  The instruction encoders and the buffer helpers of \<^verbatim>\<open>stub_asm.cpp\<close>.  A register number is masked to five
  bits, an immediate to the width of its field; a signed operand is an integer, taken modulo \<open>2 ^ 32\<close> as
  the cast does.  Code is a list of bytes, little-endian.
\<close>

section \<open>Fields\<close>

definition low5 :: "u32 \<Rightarrow> u32" where
  "low5 r = r AND 0x1F"

text \<open>C++ division, which truncates.\<close>

definition tdiv :: "int \<Rightarrow> int \<Rightarrow> int" where
  "tdiv a b = sgn a * sgn b * (\<bar>a\<bar> div \<bar>b\<bar>)"

definition imm7_of :: "int \<Rightarrow> u32" where
  "imm7_of imm = word_of_int (tdiv imm 8) AND 0x7F"

definition imm19_of :: "int \<Rightarrow> u32" where
  "imm19_of imm = word_of_int imm AND 0x7FFFF"

section \<open>Encoders\<close>

definition movz :: "u32 \<Rightarrow> u16 \<Rightarrow> u32 \<Rightarrow> u32" where
  "movz rd imm lsl_shift = 0xD2800000 OR push_bit 21 (lsl_shift div 16) OR push_bit 5 (ucast imm) OR low5 rd"

definition movk :: "u32 \<Rightarrow> u16 \<Rightarrow> u32 \<Rightarrow> u32" where
  "movk rd imm lsl_shift = 0xF2800000 OR push_bit 21 (lsl_shift div 16) OR push_bit 5 (ucast imm) OR low5 rd"

definition movn :: "u32 \<Rightarrow> u16 \<Rightarrow> u32 \<Rightarrow> u32" where
  "movn rd imm lsl_shift = 0x92800000 OR push_bit 21 (lsl_shift div 16) OR push_bit 5 (ucast imm) OR low5 rd"

definition br :: "u32 \<Rightarrow> u32" where
  "br rn = 0xD61F0000 OR push_bit 5 (low5 rn)"

definition svc :: "u16 \<Rightarrow> u32" where
  "svc imm16 = 0xD4000001 OR push_bit 5 (ucast imm16)"

definition stp_preindex :: "u32 \<Rightarrow> u32 \<Rightarrow> u32 \<Rightarrow> int \<Rightarrow> u32" where
  "stp_preindex rt1 rt2 rn imm =
     0xA9800000 OR push_bit 15 (imm7_of imm) OR push_bit 10 (low5 rt2) OR push_bit 5 (low5 rn) OR low5 rt1"

definition stp_offset :: "u32 \<Rightarrow> u32 \<Rightarrow> u32 \<Rightarrow> int \<Rightarrow> u32" where
  "stp_offset rt1 rt2 rn imm =
     0xA9000000 OR push_bit 15 (imm7_of imm) OR push_bit 10 (low5 rt2) OR push_bit 5 (low5 rn) OR low5 rt1"

definition ldp_offset :: "u32 \<Rightarrow> u32 \<Rightarrow> u32 \<Rightarrow> int \<Rightarrow> u32" where
  "ldp_offset rt1 rt2 rn imm =
     0xA9400000 OR push_bit 15 (imm7_of imm) OR push_bit 10 (low5 rt2) OR push_bit 5 (low5 rn) OR low5 rt1"

definition ldp_postindex :: "u32 \<Rightarrow> u32 \<Rightarrow> u32 \<Rightarrow> int \<Rightarrow> u32" where
  "ldp_postindex rt1 rt2 rn imm =
     0xA8C00000 OR push_bit 15 (imm7_of imm) OR push_bit 10 (low5 rt2) OR push_bit 5 (low5 rn) OR low5 rt1"

definition str_w_offset :: "u32 \<Rightarrow> u32 \<Rightarrow> u32 \<Rightarrow> u32" where
  "str_w_offset wt rn imm = 0xB9000000 OR push_bit 10 (imm div 4 AND 0xFFF) OR push_bit 5 (low5 rn) OR low5 wt"

definition str_x_offset :: "u32 \<Rightarrow> u32 \<Rightarrow> u32 \<Rightarrow> u32" where
  "str_x_offset xt rn imm = 0xF9000000 OR push_bit 10 (imm div 8 AND 0xFFF) OR push_bit 5 (low5 rn) OR low5 xt"

definition cbz :: "u32 \<Rightarrow> int \<Rightarrow> u32" where
  "cbz rt imm19_words = 0xB4000000 OR push_bit 5 (imm19_of imm19_words) OR low5 rt"

definition cbz_w :: "u32 \<Rightarrow> int \<Rightarrow> u32" where
  "cbz_w rt imm19_words = 0x34000000 OR push_bit 5 (imm19_of imm19_words) OR low5 rt"

definition ldr_x_offset :: "u32 \<Rightarrow> u32 \<Rightarrow> u32 \<Rightarrow> u32" where
  "ldr_x_offset xt rn imm = 0xF9400000 OR push_bit 10 (imm div 8 AND 0xFFF) OR push_bit 5 (low5 rn) OR low5 xt"

definition ldr_w_offset :: "u32 \<Rightarrow> u32 \<Rightarrow> u32 \<Rightarrow> u32" where
  "ldr_w_offset wt rn imm = 0xB9400000 OR push_bit 10 (imm div 4 AND 0xFFF) OR push_bit 5 (low5 rn) OR low5 wt"

definition brk_imm :: "u16 \<Rightarrow> u32" where
  "brk_imm imm = 0xD4200000 OR push_bit 5 (ucast imm)"

definition add_imm :: "u32 \<Rightarrow> u32 \<Rightarrow> u32 \<Rightarrow> u32" where
  "add_imm rd rn imm = 0x91000000 OR push_bit 10 (imm AND 0xFFF) OR push_bit 5 (low5 rn) OR low5 rd"

definition sub_imm_w :: "u32 \<Rightarrow> u32 \<Rightarrow> u32 \<Rightarrow> u32" where
  "sub_imm_w rd rn imm = 0x51000000 OR push_bit 10 (imm AND 0xFFF) OR push_bit 5 (low5 rn) OR low5 rd"

definition cmp_imm_w :: "u32 \<Rightarrow> u32 \<Rightarrow> u32" where
  "cmp_imm_w rn imm = 0x7100001F OR push_bit 10 (imm AND 0xFFF) OR push_bit 5 (low5 rn)"

definition cmp_reg_w :: "u32 \<Rightarrow> u32 \<Rightarrow> u32" where
  "cmp_reg_w rn rm = 0x6B00001F OR push_bit 16 (low5 rm) OR push_bit 5 (low5 rn)"

definition subs_imm_w :: "u32 \<Rightarrow> u32 \<Rightarrow> u32 \<Rightarrow> u32" where
  "subs_imm_w rd rn imm = 0x71000000 OR push_bit 10 (imm AND 0xFFF) OR push_bit 5 (low5 rn) OR low5 rd"

definition add_imm_w :: "u32 \<Rightarrow> u32 \<Rightarrow> u32 \<Rightarrow> u32" where
  "add_imm_w rd rn imm = 0x11000000 OR push_bit 10 (imm AND 0xFFF) OR push_bit 5 (low5 rn) OR low5 rd"

definition sub_imm_x :: "u32 \<Rightarrow> u32 \<Rightarrow> u32 \<Rightarrow> u32" where
  "sub_imm_x rd rn imm = 0xD1000000 OR push_bit 10 (imm AND 0xFFF) OR push_bit 5 (low5 rn) OR low5 rd"

definition lsr_imm_x :: "u32 \<Rightarrow> u32 \<Rightarrow> u32 \<Rightarrow> u32" where
  "lsr_imm_x rd rn shift = 0xD340FC00 OR push_bit 16 (shift AND 0x3F) OR push_bit 5 (low5 rn) OR low5 rd"

definition lsl_imm_x :: "u32 \<Rightarrow> u32 \<Rightarrow> u32 \<Rightarrow> u32" where
  "lsl_imm_x rd rn shift =
     0xD3400000 OR push_bit 16 ((64 - shift) AND 0x3F) OR push_bit 10 ((63 - shift) AND 0x3F) OR push_bit 5 (low5 rn) OR low5 rd"

definition and_w_imm_0xf :: "u32 \<Rightarrow> u32 \<Rightarrow> u32" where
  "and_w_imm_0xf rd rn = 0x12000C00 OR push_bit 5 (low5 rn) OR low5 rd"

definition strb_w_offset :: "u32 \<Rightarrow> u32 \<Rightarrow> u32 \<Rightarrow> u32" where
  "strb_w_offset wt rn imm = 0x39000000 OR push_bit 10 (imm AND 0xFFF) OR push_bit 5 (low5 rn) OR low5 wt"

definition mov_reg_x :: "u32 \<Rightarrow> u32 \<Rightarrow> u32" where
  "mov_reg_x rd rm = 0xAA0003E0 OR push_bit 16 (low5 rm) OR low5 rd"

definition cbnz_w :: "u32 \<Rightarrow> int \<Rightarrow> u32" where
  "cbnz_w rt imm19_words = 0x35000000 OR push_bit 5 (imm19_of imm19_words) OR low5 rt"

definition b_cond :: "u32 \<Rightarrow> int \<Rightarrow> u32" where
  "b_cond cond imm19_words = 0x54000000 OR push_bit 5 (imm19_of imm19_words) OR (cond AND 0xF)"

abbreviation (input) COND_EQ :: u32 where "COND_EQ \<equiv> 0x0"
abbreviation (input) COND_NE :: u32 where "COND_NE \<equiv> 0x1"
abbreviation (input) COND_HS :: u32 where "COND_HS \<equiv> 0x2"
abbreviation (input) COND_LO :: u32 where "COND_LO \<equiv> 0x3"
abbreviation (input) COND_HI :: u32 where "COND_HI \<equiv> 0x8"
abbreviation (input) COND_LS :: u32 where "COND_LS \<equiv> 0x9"
abbreviation (input) COND_LT :: u32 where "COND_LT \<equiv> 0xB"
abbreviation (input) COND_LE :: u32 where "COND_LE \<equiv> 0xD"

definition b_uncond :: "int \<Rightarrow> u32" where
  "b_uncond imm26_words = 0x14000000 OR (word_of_int imm26_words AND 0x03FFFFFF)"

definition ldrh_w_offset :: "u32 \<Rightarrow> u32 \<Rightarrow> u32 \<Rightarrow> u32" where
  "ldrh_w_offset wt rn imm = 0x79400000 OR push_bit 10 (imm div 2 AND 0xFFF) OR push_bit 5 (low5 rn) OR low5 wt"

definition str_d_offset :: "u32 \<Rightarrow> u32 \<Rightarrow> u32 \<Rightarrow> u32" where
  "str_d_offset dt rn imm = 0xFD000000 OR push_bit 10 (imm div 8 AND 0xFFF) OR push_bit 5 (low5 rn) OR low5 dt"

definition ldr_d_offset :: "u32 \<Rightarrow> u32 \<Rightarrow> u32 \<Rightarrow> u32" where
  "ldr_d_offset dt rn imm = 0xFD400000 OR push_bit 10 (imm div 8 AND 0xFFF) OR push_bit 5 (low5 rn) OR low5 dt"

definition bl :: "int \<Rightarrow> u32" where
  "bl imm26_words = 0x94000000 OR (word_of_int imm26_words AND 0x03FFFFFF)"

definition mov_reg_w :: "u32 \<Rightarrow> u32 \<Rightarrow> u32" where
  "mov_reg_w rd rm = 0x2A0003E0 OR push_bit 16 (low5 rm) OR low5 rd"

definition add_reg_x :: "u32 \<Rightarrow> u32 \<Rightarrow> u32 \<Rightarrow> u32" where
  "add_reg_x rd rn rm = 0x8B000000 OR push_bit 16 (low5 rm) OR push_bit 5 (low5 rn) OR low5 rd"

definition cmp_reg_x :: "u32 \<Rightarrow> u32 \<Rightarrow> u32" where
  "cmp_reg_x rn rm = 0xEB00001F OR push_bit 16 (low5 rm) OR push_bit 5 (low5 rn)"

definition ldrb_w_offset :: "u32 \<Rightarrow> u32 \<Rightarrow> u32 \<Rightarrow> u32" where
  "ldrb_w_offset wt rn imm = 0x39400000 OR push_bit 10 (imm AND 0xFFF) OR push_bit 5 (low5 rn) OR low5 wt"

definition sub_reg_x :: "u32 \<Rightarrow> u32 \<Rightarrow> u32 \<Rightarrow> u32" where
  "sub_reg_x rd rn rm = 0xCB000000 OR push_bit 16 (low5 rm) OR push_bit 5 (low5 rn) OR low5 rd"

definition cmp_imm_x :: "u32 \<Rightarrow> u32 \<Rightarrow> u32" where
  "cmp_imm_x rn imm = 0xF100001F OR push_bit 10 (imm AND 0xFFF) OR push_bit 5 (low5 rn)"

definition strh_w_offset :: "u32 \<Rightarrow> u32 \<Rightarrow> u32 \<Rightarrow> u32" where
  "strh_w_offset wt rn imm = 0x79000000 OR push_bit 10 (imm div 2 AND 0xFFF) OR push_bit 5 (low5 rn) OR low5 wt"

definition ldrb_w_reg :: "u32 \<Rightarrow> u32 \<Rightarrow> u32 \<Rightarrow> u32" where
  "ldrb_w_reg wt rn rm = 0x38606800 OR push_bit 16 (low5 rm) OR push_bit 5 (low5 rn) OR low5 wt"

definition strb_w_reg :: "u32 \<Rightarrow> u32 \<Rightarrow> u32 \<Rightarrow> u32" where
  "strb_w_reg wt rn rm = 0x38206800 OR push_bit 16 (low5 rm) OR push_bit 5 (low5 rn) OR low5 wt"

abbreviation (input) RET_INSN :: u32 where "RET_INSN \<equiv> 0xD65F03C0"

definition madd :: "u32 \<Rightarrow> u32 \<Rightarrow> u32 \<Rightarrow> u32 \<Rightarrow> u32" where
  "madd rd rn rm ra =
     0x9B000000 OR push_bit 16 (low5 rm) OR push_bit 10 (low5 ra) OR push_bit 5 (low5 rn) OR low5 rd"

section \<open>Buffers\<close>

abbreviation (input) SP :: u32 where "SP \<equiv> 31"
abbreviation (input) LR :: u32 where "LR \<equiv> 30"

definition word_bytes :: "u32 \<Rightarrow> u8 list" where
  "word_bytes w = [ucast w, ucast (drop_bit 8 w), ucast (drop_bit 16 w), ucast (drop_bit 24 w)]"

text \<open>\<open>emit_all\<close> is a sequence of calls of \<^verbatim>\<open>emit\<close>.\<close>

definition emit_all :: "u32 list \<Rightarrow> u8 list \<Rightarrow> u8 list" where
  "emit_all ws out = out @ concat (map word_bytes ws)"

definition half :: "nat \<Rightarrow> u64 \<Rightarrow> u16" where
  "half k v = ucast (drop_bit (16 * k) v AND 0xFFFF)"

definition load_imm64 :: "u32 \<Rightarrow> u64 \<Rightarrow> u32 list" where
  "load_imm64 rd imm = [movz rd (half 0 imm) 0, movk rd (half 1 imm) 16, movk rd (half 2 imm) 32, movk rd (half 3 imm) 48]"

definition patch_word :: "nat \<Rightarrow> u32 \<Rightarrow> u8 list \<Rightarrow> u8 list" where
  "patch_word off insn v =
     v[off := ucast insn, off + 1 := ucast (drop_bit 8 insn), off + 2 := ucast (drop_bit 16 insn),
       off + 3 := ucast (drop_bit 24 insn)]"

definition patch_abs_jump_3movs :: "nat \<Rightarrow> u64 \<Rightarrow> u8 list \<Rightarrow> u8 list" where
  "patch_abs_jump_3movs off target v =
     patch_word (off + 8) (movk 16 (half 2 target) 32)
       (patch_word (off + 4) (movk 16 (half 1 target) 16) (patch_word off (movz 16 (half 0 target) 0) v))"

definition emit_abs_jump_placeholder :: "u8 list \<Rightarrow> nat \<times> u8 list" where
  "emit_abs_jump_placeholder out = (length out, emit_all [movz 16 0 0, movk 16 0 16, movk 16 0 32, br 16] out)"

definition abs_jump_3movs :: "u64 \<Rightarrow> u32 list" where
  "abs_jump_3movs target = [movz 16 (half 0 target) 0, movk 16 (half 1 target) 16, movk 16 (half 2 target) 32, br 16]"

end
