(* ===== verification/Stub_Asm.thy ===== *)
theory Stub_Asm
  imports Stub_Encode Opcode_Map Opcode_Table
begin

text \<open>
  The code that the loader writes into the runtime (\<^verbatim>\<open>stub_asm.cpp\<close>): the stub that sends an instruction's
  translation request, with the filter ahead of it and the abort routine behind it, and the hook of the
  decoder.
\<close>

section \<open>Abort routine\<close>

abbreviation (input) kAbortRoutineCodeSize :: nat where "kAbortRoutineCodeSize \<equiv> 192"
abbreviation (input) kAbortMsgSize :: nat where "kAbortMsgSize \<equiv> 64"
abbreviation (input) kAbortMsgWriteLen :: u16 where "kAbortMsgWriteLen \<equiv> 59"
abbreviation (input) kAbortMsgKindOff :: u32 where "kAbortMsgKindOff \<equiv> 27"
abbreviation (input) kAbortMsgValHexOff :: u32 where "kAbortMsgValHexOff \<equiv> 35"
abbreviation (input) kAbortMsgIdxHexOff :: u32 where "kAbortMsgIdxHexOff \<equiv> 50"

text \<open>The loop body is nine instructions, the branch back not counted.\<close>

definition abort_hex_loop :: "u32 \<Rightarrow> u32 \<Rightarrow> u32 list" where
  "abort_hex_loop val_reg buf_start_off =
     [mov_reg_x 4 val_reg, add_imm 6 SP (buf_start_off + 8), movz 7 8 0,
      sub_imm_x 6 6 1, and_w_imm_0xf 8 4, add_imm_w 9 8 48, cmp_imm_w 8 9, b_cond COND_LE 2,
      add_imm_w 9 8 (97 - 10), strb_w_offset 9 6 0, lsr_imm_x 4 4 4, subs_imm_w 7 7 1, b_cond COND_NE (-9)]"

definition abort_routine_code :: "u64 \<Rightarrow> u32 list" where
  "abort_routine_code template_addr =
     [sub_imm_x SP SP 64,
      movz 4 (half 0 template_addr) 0, movk 4 (half 1 template_addr) 16, movk 4 (half 2 template_addr) 32,
      ldp_offset 5 6 4 0, stp_offset 5 6 SP 0, ldp_offset 5 6 4 16, stp_offset 5 6 SP 16,
      ldp_offset 5 6 4 32, stp_offset 5 6 SP 32, ldp_offset 5 6 4 48, stp_offset 5 6 SP 48,
      add_imm_w 1 1 48, strb_w_offset 1 SP kAbortMsgKindOff] @
     abort_hex_loop 0 kAbortMsgValHexOff @ abort_hex_loop 2 kAbortMsgIdxHexOff @
     [movz 0 1 0, add_imm 1 SP 0, movz 2 kAbortMsgWriteLen 0, movz 16 4 0, svc 0x80,
      movz 0 137 0, movz 16 1 0, svc 0x80]"

definition emit_abort_routine :: "u64 \<Rightarrow> u8 list \<Rightarrow> u8 list" where
  "emit_abort_routine template_addr out =
     (let out' = emit_all (abort_routine_code template_addr) out in
      if length out' - length out \<noteq> kAbortRoutineCodeSize then [] else out')"

definition append_abort_msg_template :: "u8 list \<Rightarrow> u8 list" where
  "append_abort_msg_template out =
     out @ char_bytes ''rosettax87 stub abort kind=. val=0x........ idx=0x........'' @ replicate 6 10"

section \<open>Request body\<close>

abbreviation (input) kFrameSize :: int where "kFrameSize \<equiv> 192"

definition kMsgBits :: u32 where
  "kMsgBits = 0x13 OR push_bit 8 0x15"

abbreviation (input) kMsgSendSize :: u32 where "kMsgSendSize \<equiv> 64"
abbreviation (input) kMsgRcvSize :: u16 where "kMsgRcvSize \<equiv> 64"
abbreviation (input) kMsgIdSentinel :: u32 where "kMsgIdSentinel \<equiv> 0x10000000"
abbreviation (input) kReplySizeMin :: u32 where "kReplySizeMin \<equiv> 40"

record ipc_patches =
  none_jump :: nat
  kr_thunk_jump :: nat
  size_thunk_jump :: nat
  id_thunk_jump :: nat

definition ipc_prologue :: "u32 list" where
  "ipc_prologue = [stp_preindex 0 1 SP (- kFrameSize), stp_offset 2 3 SP 16, stp_offset 4 5 SP 32, stp_offset 16 LR SP 48]"

definition build_msgh_id :: "u32 list" where
  "build_msgh_id =
     [add_imm 9 SP 0, lsr_imm_x 9 9 20, movk 9 (ucast (drop_bit 16 kMsgIdSentinel)) 16, str_w_offset 9 SP 128]"

definition body_stores :: "u32 list" where
  "body_stores =
     [str_x_offset 0 SP 88, str_x_offset 1 SP 96, str_x_offset 2 SP 104, str_x_offset 3 SP 112, str_x_offset 4 SP 120]"

text \<open>A distance in instructions, from the branch at \<open>from\<close> to \<open>to\<close>.\<close>

definition words_between :: "nat \<Rightarrow> nat \<Rightarrow> int" where
  "words_between from to = (int to - int from) div 4"

definition emit_ipc_postlude :: "u8 list \<Rightarrow> ipc_patches \<times> u8 list" where
  "emit_ipc_postlude ipc0 =
     (let kr_cbnz_pos = length ipc0;
          ipc1 = emit_all [cbnz_w 0 0, ldr_w_offset 10 SP 68, cmp_imm_w 10 kReplySizeMin] ipc0;
          size_blt_pos = length ipc1;
          ipc2 = emit_all [b_cond COND_LT 0, ldr_w_offset 11 SP 84, ldr_w_offset 12 SP 128, cmp_reg_w 11 12] ipc1;
          id_bne_pos = length ipc2;
          ipc3 = emit_all [b_cond COND_NE 0, ldr_w_offset 9 SP 96, cbz_w 9 8,
            ldr_x_offset 0 SP 88, ldr_x_offset 1 SP 8, ldp_offset 2 3 SP 16, ldp_offset 4 5 SP 32, ldp_offset 16 LR SP 48,
            add_imm SP SP 192, RET_INSN,
            ldr_x_offset 0 SP 0, ldr_x_offset 1 SP 8, ldp_offset 2 3 SP 16, ldp_offset 4 5 SP 32, ldp_offset 16 LR SP 48,
            add_imm SP SP 192] ipc2;
          (none, ipc4) = emit_abs_jump_placeholder ipc3;
          kr_thunk_pos = length ipc4;
          (kr, ipc5) = emit_abs_jump_placeholder (emit_all [movz 1 0 0, ldr_x_offset 2 SP 32] ipc4);
          size_thunk_pos = length ipc5;
          (sz, ipc6) = emit_abs_jump_placeholder (emit_all [mov_reg_x 0 10, movz 1 1 0, ldr_x_offset 2 SP 32] ipc5);
          id_thunk_pos = length ipc6;
          (ident, ipc7) = emit_abs_jump_placeholder (emit_all [mov_reg_x 0 11, movz 1 2 0, ldr_x_offset 2 SP 32] ipc6);
          ipc8 = patch_word kr_cbnz_pos (cbnz_w 0 (words_between kr_cbnz_pos kr_thunk_pos)) ipc7;
          ipc9 = patch_word size_blt_pos (b_cond COND_LT (words_between size_blt_pos size_thunk_pos)) ipc8;
          ipc10 = patch_word id_bne_pos (b_cond COND_NE (words_between id_bne_pos id_thunk_pos)) ipc9
      in (\<lparr>none_jump = none, kr_thunk_jump = kr, size_thunk_jump = sz, id_thunk_jump = ident\<rparr>, ipc10))"

abbreviation (input) kMach64SendMqCall :: u64 where "kMach64SendMqCall \<equiv> 0x400000000"
abbreviation (input) kSendRcvOpt :: u64 where "kSendRcvOpt \<equiv> 3"
abbreviation (input) kRcvOnlyOpt :: u64 where "kRcvOnlyOpt \<equiv> 2"

definition mach_msg2_call :: "u32 \<Rightarrow> u32 \<Rightarrow> u64 \<Rightarrow> bool \<Rightarrow> bool \<Rightarrow> u32 list" where
  "mach_msg2_call sidecar_req parent_reply options64 send_args msgh_id_in_x9 =
     add_imm 0 SP 64 # load_imm64 1 options64 @
     (if send_args then
        load_imm64 2 (ucast kMsgBits OR push_bit 32 (ucast kMsgSendSize)) @
        load_imm64 3 (ucast sidecar_req OR push_bit 32 (ucast parent_reply)) @
        (if msgh_id_in_x9 then [] else [ldr_w_offset 9 SP 128]) @
        [lsl_imm_x 4 9 32]
      else [movz 2 0 0, movz 3 0 0, movz 4 0 0]) @
     load_imm64 10 (push_bit 32 (ucast parent_reply)) @
     [mov_reg_x 5 10, movz 6 kMsgRcvSize 0, movz 7 0 0, movn 16 46 0, svc 0x80]"

abbreviation (input) kMachRcvInterrupted :: u32 where "kMachRcvInterrupted \<equiv> 0x10004005"
abbreviation (input) kMachSendInterrupted :: u32 where "kMachSendInterrupted \<equiv> 0x10000007"

definition emit_mach_msg2_ipc :: "u32 \<Rightarrow> u32 \<Rightarrow> ipc_patches \<times> u8 list" where
  "emit_mach_msg2_ipc sidecar_req parent_reply =
     (let ipc0 = emit_all (ipc_prologue @ body_stores @ build_msgh_id @
            mach_msg2_call sidecar_req parent_reply (kSendRcvOpt OR kMach64SendMqCall) True True) [];
          dispatch_pos = length ipc0;
          cbz_zero_pos = length ipc0;
          ipc1 = emit_all [cbz_w 0 0, movz 13 (ucast (kMachRcvInterrupted AND 0xFFFF)) 0,
            movk 13 (ucast (drop_bit 16 kMachRcvInterrupted)) 16, cmp_reg_w 0 13] ipc0;
          retry_rcv_branch = length ipc1;
          ipc2 = emit_all [b_cond COND_EQ 0, movz 13 (ucast (kMachSendInterrupted AND 0xFFFF)) 0,
            movk 13 (ucast (drop_bit 16 kMachSendInterrupted)) 16, cmp_reg_w 0 13] ipc1;
          retry_full_branch = length ipc2;
          ipc3 = emit_all [b_cond COND_EQ 0] ipc2;
          validate_pos = length ipc3;
          ipc4 = patch_word cbz_zero_pos (cbz_w 0 (words_between cbz_zero_pos validate_pos)) ipc3;
          (p, ipc5) = emit_ipc_postlude ipc4;
          retry_rcv_pos = length ipc5;
          ipc6 = emit_all (mach_msg2_call sidecar_req parent_reply kRcvOnlyOpt False False) ipc5;
          ipc7 = emit_all [b_uncond (words_between (length ipc6) dispatch_pos)] ipc6;
          retry_full_pos = length ipc7;
          ipc8 = emit_all (mach_msg2_call sidecar_req parent_reply (kSendRcvOpt OR kMach64SendMqCall) True False) ipc7;
          ipc9 = emit_all [b_uncond (words_between (length ipc8) dispatch_pos)] ipc8;
          ipc10 = patch_word retry_rcv_branch (b_cond COND_EQ (words_between retry_rcv_branch retry_rcv_pos)) ipc9;
          ipc11 = patch_word retry_full_branch (b_cond COND_EQ (words_between retry_full_branch retry_full_pos)) ipc10
      in (p, ipc11))"

section \<open>The stub\<close>

record stub_blobs =
  entry :: "u8 list"
  handler :: "u8 list"

abbreviation (input) kFilterBytes :: nat where "kFilterBytes \<equiv> 60"

text \<open>The filter, for the runtime's numbers of \<^verbatim>\<open>fcmovb\<close>, \<^verbatim>\<open>f2xm1\<close> and the synthetic ARPL.\<close>

definition filter_code :: "u16 \<Rightarrow> u16 \<Rightarrow> u16 \<Rightarrow> u64 \<Rightarrow> u32 list" where
  "filter_code host_fcmovb host_f2xm1 host_arpl_id stash_addr =
     [movz 9 0x50 0, madd 10 4 9 2, ldrh_w_offset 9 10 4,
      sub_imm_w 11 9 (ucast host_fcmovb), cmp_imm_w 11 (ucast (kOpcodeName_fucomip - kOpcodeName_fcmovb)), b_cond COND_LS 10,
      sub_imm_w 11 9 (ucast host_f2xm1), cmp_imm_w 11 (ucast (kOpcodeName_fyl2xp1 - kOpcodeName_f2xm1)), b_cond COND_LS 7,
      cmp_imm_w 9 (ucast host_arpl_id), b_cond COND_EQ 5] @
     abs_jump_3movs stash_addr"

definition high16 :: u64 where
  "high16 = 0xFFFF000000000000"

definition stub_build :: "opcode_maps \<Rightarrow> u64 \<Rightarrow> u64 \<Rightarrow> u8 list \<Rightarrow> u32 \<Rightarrow> u32 \<Rightarrow> stub_blobs" where
  "stub_build maps handler_addr translate_insn_addr orig_prologue16 sidecar_req parent_reply =
     (let refused = \<lparr>entry = [], handler = []\<rparr>;
          (patches, ipc0) = emit_mach_msg2_ipc sidecar_req parent_reply;
          stash_addr = handler_addr + word_of_nat (kFilterBytes + length ipc0);
          abort_addr = stash_addr + 32;
          ipc = patch_abs_jump_3movs (id_thunk_jump patches) abort_addr
            (patch_abs_jump_3movs (size_thunk_jump patches) abort_addr
            (patch_abs_jump_3movs (kr_thunk_jump patches) abort_addr
            (patch_abs_jump_3movs (none_jump patches) stash_addr ipc0)));
          filt = emit_all (filter_code (opcode_internal_to_host maps kOpcodeName_fcmovb)
            (opcode_internal_to_host maps kOpcodeName_f2xm1) (opcode_internal_to_host maps kOpcodeName_arpl) stash_addr) [];
          h = filt @ ipc @ orig_prologue16 @ emit_all (abs_jump_3movs (translate_insn_addr + 16)) [];
          h1 = emit_abort_routine (abort_addr + word_of_nat kAbortRoutineCodeSize) h
      in
      if handler_addr AND high16 \<noteq> 0 then refused
      else if (stash_addr OR abort_addr) AND high16 \<noteq> 0 then refused
      else if \<not> filterOpcodeIdsFit maps then refused
      else if length filt \<noteq> kFilterBytes then refused
      else if handler_addr + word_of_nat (length h) \<noteq> abort_addr then \<lparr>entry = [], handler = h\<rparr>
      else if length h1 \<noteq> length h + kAbortRoutineCodeSize then \<lparr>entry = [], handler = h1\<rparr>
      else \<lparr>entry = emit_all (abs_jump_3movs handler_addr) [], handler = append_abort_msg_template h1\<rparr>)"

section \<open>The hook of the decoder\<close>

abbreviation (input) kDecoderCtxCodeBase :: u32 where "kDecoderCtxCodeBase \<equiv> 0x08"
abbreviation (input) kDecoderCtxCodeEnd :: u32 where "kDecoderCtxCodeEnd \<equiv> 0x10"
abbreviation (input) kDecoderCtxInsnStart :: u32 where "kDecoderCtxInsnStart \<equiv> 0x18"
abbreviation (input) kDecoderCtxCursor :: u32 where "kDecoderCtxCursor \<equiv> 0x20"
abbreviation (input) kFirstCall :: int where "kFirstCall \<equiv> 4"
abbreviation (input) kArpl :: int where "kArpl \<equiv> 36"
abbreviation (input) kSubst :: int where "kSubst \<equiv> 52"
abbreviation (input) kSecondCall :: int where "kSecondCall \<equiv> 62"
abbreviation (input) kDone :: int where "kDone \<equiv> 79"
abbreviation (input) kCodeInstrs :: int where "kCodeInstrs \<equiv> 82"

text \<open>The frame: the saved arguments, the return address, what the second call must restore, the substitute
  and the mnemonic to force.\<close>

abbreviation (input) kOffCtx :: u32 where "kOffCtx \<equiv> 0"
abbreviation (input) kOffOffset :: u32 where "kOffOffset \<equiv> 8"
abbreviation (input) kOffOut :: u32 where "kOffOut \<equiv> 16"
abbreviation (input) kOffOutLen :: u32 where "kOffOutLen \<equiv> 24"
abbreviation (input) kOffLr :: u32 where "kOffLr \<equiv> 32"
abbreviation (input) kOffCodeBase :: u32 where "kOffCodeBase \<equiv> 40"
abbreviation (input) kOffCodeEnd :: u32 where "kOffCodeEnd \<equiv> 48"
abbreviation (input) kOffInsn :: u32 where "kOffInsn \<equiv> 56"
abbreviation (input) kOffSubst :: u32 where "kOffSubst \<equiv> 64"
abbreviation (input) kOffMnemonic :: u32 where "kOffMnemonic \<equiv> 80"
abbreviation (input) kFrame :: u32 where "kFrame \<equiv> 96"
abbreviation (input) kDcD8Halfword :: u16 where "kDcD8Halfword \<equiv> 0xD8DC"
abbreviation (input) kD8D8Halfword :: u16 where "kD8D8Halfword \<equiv> 0xD8D8"

text \<open>Instructions 0 to 22: the first call, and which encodings are taken up.\<close>

definition hook_first_call :: "u32 list" where
  "hook_first_call =
     [sub_imm_x SP SP kFrame, stp_offset 0 1 SP 0, stp_offset 2 3 SP 16, str_x_offset LR SP kOffLr,
      bl (kCodeInstrs - kFirstCall), cmp_imm_w 0 1, b_cond COND_NE (kDone - 6),
      ldr_x_offset 9 SP kOffOutLen, ldrb_w_offset 9 9 0, cbnz_w 9 (kDone - 9),
      ldr_x_offset 12 SP kOffCtx, ldr_x_offset 10 12 kDecoderCtxCodeBase, ldr_x_offset 11 12 kDecoderCtxCodeEnd,
      ldr_x_offset 9 SP kOffOffset, mov_reg_w 9 9, add_reg_x 13 10 9, cmp_reg_x 13 11, b_cond COND_HS (kDone - 17),
      ldrb_w_offset 9 13 0, cmp_imm_w 9 0x63, b_cond COND_EQ (kArpl - 20), cmp_imm_w 9 0xDC, b_cond COND_NE (kDone - 22)]"

text \<open>Instructions 23 to 35, the alias of \<^verbatim>\<open>fcomp st(0)\<close>, and 36 to 51, ARPL.\<close>

definition hook_dc_d8 :: "u32 list" where
  "hook_dc_d8 =
     [add_imm 14 13 2, cmp_reg_x 14 11, b_cond COND_HI (kDone - 25), ldrh_w_offset 9 13 0, movz 14 kDcD8Halfword 0,
      cmp_reg_w 9 14, b_cond COND_NE (kDone - 29), add_imm 15 SP kOffSubst, movz 9 kD8D8Halfword 0, strh_w_offset 9 15 0,
      movz 14 2 0, movz 16 0 0, b_uncond (kSubst - 35)]"

definition hook_arpl :: "u16 \<Rightarrow> u32 list" where
  "hook_arpl host_arpl_opcode =
     [ldrb_w_offset 9 12 0, cbz_w 9 (kDone - 37), add_imm 15 SP kOffSubst, sub_reg_x 14 11 13, cmp_imm_x 14 16,
      b_cond COND_LS 2, movz 14 16 0, movz 9 0 0, ldrb_w_reg 17 13 9, strb_w_reg 17 15 9, add_imm 9 9 1, cmp_reg_x 9 14,
      b_cond COND_LO (-4), movz 9 1 0, strb_w_offset 9 15 0, movz 16 host_arpl_opcode 0]"

text \<open>Instructions 52 to 81: the second call, what it restores, and the return.\<close>

definition hook_subst :: "u32 list" where
  "hook_subst =
     [str_x_offset 10 SP kOffCodeBase, str_x_offset 11 SP kOffCodeEnd, str_x_offset 13 SP kOffInsn,
      str_x_offset 16 SP kOffMnemonic, str_x_offset 15 12 kDecoderCtxCodeBase, add_reg_x 9 15 14,
      str_x_offset 9 12 kDecoderCtxCodeEnd, ldr_x_offset 0 SP kOffCtx, movz 1 0 0, ldp_offset 2 3 SP 16,
      bl (kCodeInstrs - kSecondCall),
      ldr_x_offset 12 SP kOffCtx, ldr_x_offset 10 SP kOffCodeBase, ldr_x_offset 11 SP kOffCodeEnd,
      str_x_offset 10 12 kDecoderCtxCodeBase, str_x_offset 11 12 kDecoderCtxCodeEnd,
      ldr_x_offset 13 SP kOffInsn, str_x_offset 13 12 kDecoderCtxInsnStart, ldr_x_offset 9 SP kOffOutLen, ldrb_w_offset 9 9 0,
      add_reg_x 13 13 9, str_x_offset 13 12 kDecoderCtxCursor, cbnz_w 0 (kDone - 74), ldr_x_offset 9 SP kOffMnemonic,
      cbz 9 (kDone - 76), ldr_x_offset 2 SP kOffOut, strh_w_offset 9 2 0,
      ldr_x_offset LR SP kOffLr, add_imm SP SP kFrame, RET_INSN]"

definition hook_code :: "u16 \<Rightarrow> u32 list" where
  "hook_code host_arpl_opcode = hook_first_call @ hook_dc_d8 @ hook_arpl host_arpl_opcode @ hook_subst"

definition buildDecodeHook :: "u64 \<Rightarrow> u64 \<Rightarrow> u8 list \<Rightarrow> u16 \<Rightarrow> stub_blobs" where
  "buildDecodeHook handler_addr decode_opcode_addr orig_prologue16 host_arpl_opcode =
     (let h = emit_all (hook_code host_arpl_opcode) [] in
      if (handler_addr OR decode_opcode_addr) AND high16 \<noteq> 0 then \<lparr>entry = [], handler = []\<rparr>
      else if length h \<noteq> nat (kCodeInstrs * 4) then \<lparr>entry = [], handler = []\<rparr>
      else \<lparr>entry = emit_all (abs_jump_3movs handler_addr) [],
             handler = emit_all (abs_jump_3movs (decode_opcode_addr + 16)) (h @ orig_prologue16)\<rparr>)"

end
