(* ===== verification/Stub_Sem.thy ===== *)
theory Stub_Sem
  imports Stub_Asm A64_Exec
begin

text \<open>
  A machine for the loader's own code.  It branches backwards, calls, traps and leaves through a register, so the
  machine of \<open>A64_Sem\<close> is put under a program counter, an index into the code; the instructions that machine has no
  use for are added to its decoder from the architecture's tables.
\<close>

section \<open>Decoding\<close>

datatype stub_insn =
    Core a64
  | MulAdd int int int int
  | Pair bool bool int int int int
  | ToRegister int
  | CallTo int
  | Trap int

text \<open>\<open>Pair\<close> is a pair of 64-bit registers at a signed offset, in units of 8 bytes: whether it is a load, whether
  the base is written before the access, the offset, the base and the two registers.  The instruction that returns
  is a jump through the register it names.\<close>

definition decode_stub :: "u32 \<Rightarrow> stub_insn option" where
  "decode_stub w =
     (let g = bits 26 6 w; c = bits 24 2 w; rd = bits 0 5 w; rn = bits 5 5 w in
      if g = 0x25 then Some (CallTo (signed_take_bit 25 (bits 0 26 w)))
      else if g = 0x35 \<and> c = 2 \<and> bits 21 3 w \<in> {0, 2} \<and> bits 10 11 w = 0x7C0 \<and> rd = 0 then Some (ToRegister rn)
      else if g = 0x35 \<and> c = 0 \<and> bits 21 3 w = 0 \<and> rd = 1 then Some (Trap (bits 5 16 w))
      else if g = 0x26 \<and> c = 3 \<and> bits 21 3 w = 0 \<and> bits 15 1 w = 0 then Some (MulAdd rd rn (bits 16 5 w) (bits 10 5 w))
      else if g = 0x2A \<and> c = 1 then
        Some (Pair (bits 22 1 w = 1) (bits 23 1 w = 1) (signed_take_bit 6 (bits 15 7 w)) rn rd (bits 10 5 w))
      else map_option Core (decode w))"

section \<open>Stepping\<close>

text \<open>What the world outside does, at a trap or a call, is a list of functions on the machine, taken in turn.\<close>

datatype config = At nat mach "(mach \<Rightarrow> mach) list" | Gone u64 mach "(mach \<Rightarrow> mach) list"

text \<open>How far a branch goes, in instructions; offsets are signed.\<close>

definition jump_by :: "a64 \<Rightarrow> mach \<Rightarrow> int option" where
  "jump_by i m =
     (case i of Branch n \<Rightarrow> Some (signed_take_bit 25 n)
      | BranchCond c n \<Rightarrow> Some (if holds c m then signed_take_bit 18 n else 1)
      | CompareBranch sf nz n rt \<Rightarrow> Some (if (rx sf rt m = 0) \<noteq> nz then signed_take_bit 18 n else 1)
      | _ \<Rightarrow> None)"

definition pair_access :: "bool \<Rightarrow> u64 \<Rightarrow> int \<Rightarrow> int \<Rightarrow> mach \<Rightarrow> mach" where
  "pair_access ld a rt rt2 m =
     (if ld then wx True rt2 (load 8 (a + 8) (mem m)) (wx True rt (load 8 a (mem m)) m)
      else m\<lparr>mem := store 8 (a + 8) (rx True rt2 m) (store 8 a (rx True rt m) (mem m))\<rparr>)"

text \<open>A call goes right past the end of the code, where the caller has put what is called.\<close>

fun stub_exec :: "u64 \<Rightarrow> nat \<Rightarrow> stub_insn \<Rightarrow> nat \<Rightarrow> mach \<Rightarrow> (mach \<Rightarrow> mach) list \<Rightarrow> config option" where
  "stub_exec base n (Core i) ix m ws =
     (case jump_by i m of
        Some k \<Rightarrow> if 0 \<le> int ix + k then Some (At (nat (int ix + k)) m ws) else None
      | None \<Rightarrow> map_option (\<lambda>m'. At (Suc ix) m' ws) (exec i m))"
| "stub_exec base n (MulAdd rd rn rm ra) ix m ws =
     Some (At (Suc ix) (wx True rd (rx True ra m + rx True rn m * rx True rm m) m) ws)"
| "stub_exec base n (Pair ld pre k rn rt rt2) ix m ws =
     (let a = rsp True rn m + word_of_int (8 * k) in
      Some (At (Suc ix) (pair_access ld a rt rt2 (if pre then wsp True rn a m else m)) ws))"
| "stub_exec base n (ToRegister rn) ix m ws = Some (Gone (rx True rn m) m ws)"
| "stub_exec base n (CallTo k) ix m ws =
     (if int ix + k = int n then
        (case ws of [] \<Rightarrow> None | f # fs \<Rightarrow> Some (At (Suc ix) (f (wx True 30 (base + 4 * word_of_nat (Suc ix)) m)) fs))
      else None)"
| "stub_exec base n (Trap k) ix m ws = (case ws of [] \<Rightarrow> None | f # fs \<Rightarrow> Some (At (Suc ix) (f m) fs))"

fun stub_step :: "u64 \<Rightarrow> u32 list \<Rightarrow> config \<Rightarrow> config option" where
  "stub_step base code (At ix m ws) =
     (if ix < length code then
        (case decode_stub (code ! ix) of None \<Rightarrow> None | Some i \<Rightarrow> stub_exec base (length code) i ix m ws)
      else None)"
| "stub_step base code (Gone a m ws) = None"

text \<open>What a run leads to.  The machine is deterministic, so a run that ends has one end.\<close>

inductive leads :: "u64 \<Rightarrow> u32 list \<Rightarrow> config \<Rightarrow> config \<Rightarrow> bool" for base code where
  here: "leads base code c c"
| on: "stub_step base code c = Some c' \<Longrightarrow> leads base code c' c'' \<Longrightarrow> leads base code c c''"

lemma leads_trans: "leads base code c c' \<Longrightarrow> leads base code c' c'' \<Longrightarrow> leads base code c c''"
  by (induction rule: leads.induct) (auto intro: leads.on)

lemma leads_end_unique:
  "leads base code c d \<Longrightarrow> leads base code c e \<Longrightarrow> stub_step base code d = None \<Longrightarrow> stub_step base code e = None \<Longrightarrow> d = e"
proof (induction arbitrary: e rule: leads.induct)
  case (here c)
  then show ?case by (auto elim: leads.cases)
next
  case (on c c' c'')
  then have "leads base code c' e" using on.hyps(1) by (auto elim: leads.cases)
  then show ?case using on by blast
qed

section \<open>What each encoder assembles\<close>

lemma masked_field: "push_bit t (x AND mask n) = field t n (uint x)"
  by (rule bit_word_eqI) (auto simp: bit_field bit_simps)

lemma unmasked_field: "push_bit t (ucast (x :: u16)) = field t 16 (uint x)"
  by (rule bit_word_eqI) (auto simp: bit_field bit_simps dest: bit_imp_le_length)

lemma hw_field: "x < 4 \<Longrightarrow> push_bit t x = field t 2 (uint x)"
proof -
  assume "x < 4"
  then have "unat x < 4" by (simp add: word_less_nat_alt)
  then have "x AND mask 2 = x"
    by (simp add: word_unat_eq_iff unsigned_take_bit_eq take_bit_nat_eq_self flip: take_bit_eq_mask)
  then show ?thesis by (metis masked_field)
qed

lemma masks: "(0xF :: u32) = mask 4" "(0x1F :: u32) = mask 5" "(0x3F :: u32) = mask 6" "(0x7F :: u32) = mask 7"
  "(0xFFF :: u32) = mask 12" "(0x7FFFF :: u32) = mask 19" "(0x3FFFFFF :: u32) = mask 26"
  by (simp_all add: mask_eq_exp_minus_1)

lemma low5_field: "push_bit t (low5 r) = field t 5 (uint r)" "low5 r = field 0 5 (uint r)"
  unfolding low5_def masks
  subgoal by (rule masked_field)
  subgoal using masked_field [of 0 r 5] by simp
  done

lemma imm12_field: "push_bit t (x AND 0xFFF) = field t 12 (uint x)"
  using masked_field [of t x 12] by (simp add: masks)

lemma imm19_field: "push_bit t (imm19_of k) = field t 19 k"
  by (rule bit_word_eqI) (auto simp: imm19_of_def masks bit_field bit_simps)

lemma imm26_field: "word_of_int k AND 0x3FFFFFF = field 0 26 k"
  by (rule bit_word_eqI) (auto simp: masks bit_field bit_simps)

lemma imm7_field: "push_bit t (imm7_of k) = field t 7 (tdiv k 8)"
  by (rule bit_word_eqI) (auto simp: imm7_of_def masks bit_field bit_simps)

lemma imm6_field: "push_bit t (x AND 0x3F) = field t 6 (uint x)"
  using masked_field [of t x 6] by (simp add: masks)

lemma imm4_field: "x AND 0xF = field 0 4 (uint x)"
  using masked_field [of 0 x 4] by (simp add: masks)

lemmas encoded = low5_field(1) imm12_field imm6_field imm19_field imm26_field imm7_field unmasked_field imm4_field

lemma stub_core:
  assumes "bits 26 6 w \<noteq> 0x25" "bits 26 6 w \<noteq> 0x35 \<or> bits 24 2 w = 1" "bits 26 6 w \<noteq> 0x26 \<or> bits 24 2 w \<noteq> 3"
    "bits 26 6 w \<noteq> 0x2A \<or> bits 24 2 w \<noteq> 1" "decode w = Some i"
  shows "decode_stub w = Some (Core i)"
  using assms by (auto simp: decode_stub_def Let_def)

lemma field_bounds: "take_bit 16 (uint (x :: u16)) = uint x" "s div 16 < 4 \<Longrightarrow> take_bit 2 (uint (s div 16 :: u32)) = uint (s div 16)"
  by (simp_all add: take_bit_int_eq_self_iff word_less_def unsigned_less [of x, where ?'a = int, simplified])

named_theorems stub_decodes \<open>what the encoders' words decode to\<close>

lemma stub_decode_movz [stub_decodes]: "s div 16 < 4 \<Longrightarrow> decode_stub (movz rd imm s) =
    Some (Core (MovWide True 2 (uint (s div 16)) (uint imm) (take_bit 5 (uint rd))))"
  by (simp only: movz_def encoded hw_field ; (simp only: low5_field(2))?; rule stub_core) (simp_all add: bits_fields field_bounds dec_data(3))

lemma stub_decode_movk [stub_decodes]: "s div 16 < 4 \<Longrightarrow> decode_stub (movk rd imm s) =
    Some (Core (MovWide True 3 (uint (s div 16)) (uint imm) (take_bit 5 (uint rd))))"
  by (simp only: movk_def encoded hw_field ; (simp only: low5_field(2))?; rule stub_core) (simp_all add: bits_fields field_bounds dec_data(3))

lemma stub_decode_movn [stub_decodes]: "s div 16 < 4 \<Longrightarrow> decode_stub (movn rd imm s) =
    Some (Core (MovWide True 0 (uint (s div 16)) (uint imm) (take_bit 5 (uint rd))))"
  by (simp only: movn_def encoded hw_field ; (simp only: low5_field(2))?; rule stub_core) (simp_all add: bits_fields field_bounds dec_data(3))

lemma stub_decode_add_imm [stub_decodes]: "decode_stub (add_imm rd rn imm) =
    Some (Core (AddSubImm True False False (take_bit 12 (uint imm)) (take_bit 5 (uint rn)) (take_bit 5 (uint rd))))"
  by (simp only: add_imm_def encoded ; (simp only: low5_field(2))?; rule stub_core) (simp_all add: bits_fields field_bounds dec_data(1))

lemma stub_decode_add_imm_w [stub_decodes]: "decode_stub (add_imm_w rd rn imm) =
    Some (Core (AddSubImm False False False (take_bit 12 (uint imm)) (take_bit 5 (uint rn)) (take_bit 5 (uint rd))))"
  by (simp only: add_imm_w_def encoded ; (simp only: low5_field(2))?; rule stub_core) (simp_all add: bits_fields field_bounds dec_data(1))

lemma stub_decode_sub_imm_w [stub_decodes]: "decode_stub (sub_imm_w rd rn imm) =
    Some (Core (AddSubImm False True False (take_bit 12 (uint imm)) (take_bit 5 (uint rn)) (take_bit 5 (uint rd))))"
  by (simp only: sub_imm_w_def encoded ; (simp only: low5_field(2))?; rule stub_core) (simp_all add: bits_fields field_bounds dec_data(1))

lemma stub_decode_subs_imm_w [stub_decodes]: "decode_stub (subs_imm_w rd rn imm) =
    Some (Core (AddSubImm False True True (take_bit 12 (uint imm)) (take_bit 5 (uint rn)) (take_bit 5 (uint rd))))"
  by (simp only: subs_imm_w_def encoded ; (simp only: low5_field(2))?; rule stub_core) (simp_all add: bits_fields field_bounds dec_data(1))

lemma stub_decode_sub_imm_x [stub_decodes]: "decode_stub (sub_imm_x rd rn imm) =
    Some (Core (AddSubImm True True False (take_bit 12 (uint imm)) (take_bit 5 (uint rn)) (take_bit 5 (uint rd))))"
  by (simp only: sub_imm_x_def encoded ; (simp only: low5_field(2))?; rule stub_core) (simp_all add: bits_fields field_bounds dec_data(1))

lemma stub_decode_cmp_imm_w [stub_decodes]: "decode_stub (cmp_imm_w rn imm) =
    Some (Core (AddSubImm False True True (take_bit 12 (uint imm)) (take_bit 5 (uint rn)) 31))"
  by (simp only: cmp_imm_w_def encoded ; (simp only: low5_field(2))?; rule stub_core) (simp_all add: bits_fields field_bounds dec_data(1))

lemma stub_decode_cmp_imm_x [stub_decodes]: "decode_stub (cmp_imm_x rn imm) =
    Some (Core (AddSubImm True True True (take_bit 12 (uint imm)) (take_bit 5 (uint rn)) 31))"
  by (simp only: cmp_imm_x_def encoded ; (simp only: low5_field(2))?; rule stub_core) (simp_all add: bits_fields field_bounds dec_data(1))

lemma stub_decode_cmp_reg_w [stub_decodes]: "decode_stub (cmp_reg_w rn rm) =
    Some (Core (AddSubReg False True True 0 (take_bit 5 (uint rm)) 0 (take_bit 5 (uint rn)) 31))"
  by (simp only: cmp_reg_w_def encoded ; (simp only: low5_field(2))?; rule stub_core) (simp_all add: bits_fields field_bounds dec_data(6))

lemma stub_decode_cmp_reg_x [stub_decodes]: "decode_stub (cmp_reg_x rn rm) =
    Some (Core (AddSubReg True True True 0 (take_bit 5 (uint rm)) 0 (take_bit 5 (uint rn)) 31))"
  by (simp only: cmp_reg_x_def encoded ; (simp only: low5_field(2))?; rule stub_core) (simp_all add: bits_fields field_bounds dec_data(6))

lemma stub_decode_add_reg_x [stub_decodes]: "decode_stub (add_reg_x rd rn rm) =
    Some (Core (AddSubReg True False False 0 (take_bit 5 (uint rm)) 0 (take_bit 5 (uint rn)) (take_bit 5 (uint rd))))"
  by (simp only: add_reg_x_def encoded ; (simp only: low5_field(2))?; rule stub_core) (simp_all add: bits_fields field_bounds dec_data(6))

lemma stub_decode_sub_reg_x [stub_decodes]: "decode_stub (sub_reg_x rd rn rm) =
    Some (Core (AddSubReg True True False 0 (take_bit 5 (uint rm)) 0 (take_bit 5 (uint rn)) (take_bit 5 (uint rd))))"
  by (simp only: sub_reg_x_def encoded ; (simp only: low5_field(2))?; rule stub_core) (simp_all add: bits_fields field_bounds dec_data(6))

lemma stub_decode_mov_reg_x [stub_decodes]: "decode_stub (mov_reg_x rd rm) =
    Some (Core (LogicReg True 1 False 0 (take_bit 5 (uint rm)) 0 31 (take_bit 5 (uint rd))))"
  by (simp only: mov_reg_x_def encoded ; (simp only: low5_field(2))?; rule stub_core) (simp_all add: bits_fields field_bounds dec_data(5))

lemma stub_decode_mov_reg_w [stub_decodes]: "decode_stub (mov_reg_w rd rm) =
    Some (Core (LogicReg False 1 False 0 (take_bit 5 (uint rm)) 0 31 (take_bit 5 (uint rd))))"
  by (simp only: mov_reg_w_def encoded ; (simp only: low5_field(2))?; rule stub_core) (simp_all add: bits_fields field_bounds dec_data(5))

lemma stub_decode_and_w_imm_0xf [stub_decodes]: "decode_stub (and_w_imm_0xf rd rn) =
    Some (Core (LogicImm False 0 0 0 3 (take_bit 5 (uint rn)) (take_bit 5 (uint rd))))"
  by (simp only: and_w_imm_0xf_def encoded ; (simp only: low5_field(2))?; rule stub_core) (simp_all add: bits_fields field_bounds dec_data(2))

lemma stub_decode_lsr_imm_x [stub_decodes]: "decode_stub (lsr_imm_x rd rn shift) =
    Some (Core (Bitfield True 2 (take_bit 6 (uint shift)) 63 (take_bit 5 (uint rn)) (take_bit 5 (uint rd))))"
  by (simp only: lsr_imm_x_def encoded ; (simp only: low5_field(2))?; rule stub_core) (simp_all add: bits_fields field_bounds dec_data(4))

lemma stub_decode_lsl_imm_x [stub_decodes]: "decode_stub (lsl_imm_x rd rn shift) =
    Some (Core (Bitfield True 2 (take_bit 6 (uint (64 - shift))) (take_bit 6 (uint (63 - shift))) (take_bit 5 (uint rn)) (take_bit 5 (uint rd))))"
  by (simp only: lsl_imm_x_def encoded ; (simp only: low5_field(2))?; rule stub_core) (simp_all add: bits_fields field_bounds dec_data(4))

lemma stub_decode_str_w_offset [stub_decodes]: "decode_stub (str_w_offset rt rn imm) =
    Some (Core (LoadStore 2 False 0 (take_bit 12 (uint (imm div 4))) (take_bit 5 (uint rn)) (take_bit 5 (uint rt))))"
  by (simp only: str_w_offset_def encoded ; (simp only: low5_field(2))?; rule stub_core) (simp_all add: bits_fields field_bounds dec_memory(1))

lemma stub_decode_str_x_offset [stub_decodes]: "decode_stub (str_x_offset rt rn imm) =
    Some (Core (LoadStore 3 False 0 (take_bit 12 (uint (imm div 8))) (take_bit 5 (uint rn)) (take_bit 5 (uint rt))))"
  by (simp only: str_x_offset_def encoded ; (simp only: low5_field(2))?; rule stub_core) (simp_all add: bits_fields field_bounds dec_memory(1))

lemma stub_decode_strb_w_offset [stub_decodes]: "decode_stub (strb_w_offset rt rn imm) =
    Some (Core (LoadStore 0 False 0 (take_bit 12 (uint imm)) (take_bit 5 (uint rn)) (take_bit 5 (uint rt))))"
  by (simp only: strb_w_offset_def encoded ; (simp only: low5_field(2))?; rule stub_core) (simp_all add: bits_fields field_bounds dec_memory(1))

lemma stub_decode_strh_w_offset [stub_decodes]: "decode_stub (strh_w_offset rt rn imm) =
    Some (Core (LoadStore 1 False 0 (take_bit 12 (uint (imm div 2))) (take_bit 5 (uint rn)) (take_bit 5 (uint rt))))"
  by (simp only: strh_w_offset_def encoded ; (simp only: low5_field(2))?; rule stub_core) (simp_all add: bits_fields field_bounds dec_memory(1))

lemma stub_decode_ldr_w_offset [stub_decodes]: "decode_stub (ldr_w_offset rt rn imm) =
    Some (Core (LoadStore 2 False 1 (take_bit 12 (uint (imm div 4))) (take_bit 5 (uint rn)) (take_bit 5 (uint rt))))"
  by (simp only: ldr_w_offset_def encoded ; (simp only: low5_field(2))?; rule stub_core) (simp_all add: bits_fields field_bounds dec_memory(1))

lemma stub_decode_ldr_x_offset [stub_decodes]: "decode_stub (ldr_x_offset rt rn imm) =
    Some (Core (LoadStore 3 False 1 (take_bit 12 (uint (imm div 8))) (take_bit 5 (uint rn)) (take_bit 5 (uint rt))))"
  by (simp only: ldr_x_offset_def encoded ; (simp only: low5_field(2))?; rule stub_core) (simp_all add: bits_fields field_bounds dec_memory(1))

lemma stub_decode_ldrh_w_offset [stub_decodes]: "decode_stub (ldrh_w_offset rt rn imm) =
    Some (Core (LoadStore 1 False 1 (take_bit 12 (uint (imm div 2))) (take_bit 5 (uint rn)) (take_bit 5 (uint rt))))"
  by (simp only: ldrh_w_offset_def encoded ; (simp only: low5_field(2))?; rule stub_core) (simp_all add: bits_fields field_bounds dec_memory(1))

lemma stub_decode_ldrb_w_offset [stub_decodes]: "decode_stub (ldrb_w_offset rt rn imm) =
    Some (Core (LoadStore 0 False 1 (take_bit 12 (uint imm)) (take_bit 5 (uint rn)) (take_bit 5 (uint rt))))"
  by (simp only: ldrb_w_offset_def encoded ; (simp only: low5_field(2))?; rule stub_core) (simp_all add: bits_fields field_bounds dec_memory(1))

lemma stub_decode_str_d_offset [stub_decodes]: "decode_stub (str_d_offset rt rn imm) =
    Some (Core (LoadStore 3 True 0 (take_bit 12 (uint (imm div 8))) (take_bit 5 (uint rn)) (take_bit 5 (uint rt))))"
  by (simp only: str_d_offset_def encoded ; (simp only: low5_field(2))?; rule stub_core) (simp_all add: bits_fields field_bounds dec_memory(1))

lemma stub_decode_ldr_d_offset [stub_decodes]: "decode_stub (ldr_d_offset rt rn imm) =
    Some (Core (LoadStore 3 True 1 (take_bit 12 (uint (imm div 8))) (take_bit 5 (uint rn)) (take_bit 5 (uint rt))))"
  by (simp only: ldr_d_offset_def encoded ; (simp only: low5_field(2))?; rule stub_core) (simp_all add: bits_fields field_bounds dec_memory(1))

lemma stub_decode_ldrb_w_reg [stub_decodes]: "decode_stub (ldrb_w_reg rt rn rm) =
    Some (Core (LoadStoreReg 0 False 1 3 False (take_bit 5 (uint rm)) (take_bit 5 (uint rn)) (take_bit 5 (uint rt))))"
  by (simp only: ldrb_w_reg_def encoded ; (simp only: low5_field(2))?; rule stub_core) (simp_all add: bits_fields field_bounds dec_memory(2))

lemma stub_decode_strb_w_reg [stub_decodes]: "decode_stub (strb_w_reg rt rn rm) =
    Some (Core (LoadStoreReg 0 False 0 3 False (take_bit 5 (uint rm)) (take_bit 5 (uint rn)) (take_bit 5 (uint rt))))"
  by (simp only: strb_w_reg_def encoded ; (simp only: low5_field(2))?; rule stub_core) (simp_all add: bits_fields field_bounds dec_memory(2))

lemma stub_decode_cbz [stub_decodes]: "decode_stub (cbz rt k) =
    Some (Core (CompareBranch True False (take_bit 19 k) (take_bit 5 (uint rt))))"
  by (simp only: cbz_def encoded ; (simp only: low5_field(2))?; rule stub_core) (simp_all add: bits_fields field_bounds dec_branch(2))

lemma stub_decode_cbz_w [stub_decodes]: "decode_stub (cbz_w rt k) =
    Some (Core (CompareBranch False False (take_bit 19 k) (take_bit 5 (uint rt))))"
  by (simp only: cbz_w_def encoded ; (simp only: low5_field(2))?; rule stub_core) (simp_all add: bits_fields field_bounds dec_branch(2))

lemma stub_decode_cbnz_w [stub_decodes]: "decode_stub (cbnz_w rt k) =
    Some (Core (CompareBranch False True (take_bit 19 k) (take_bit 5 (uint rt))))"
  by (simp only: cbnz_w_def encoded ; (simp only: low5_field(2))?; rule stub_core) (simp_all add: bits_fields field_bounds dec_branch(2))

lemma stub_decode_b_cond [stub_decodes]: "decode_stub (b_cond c k) =
    Some (Core (BranchCond (take_bit 4 (uint c)) (take_bit 19 k)))"
  by (simp only: b_cond_def encoded ; (simp only: low5_field(2))?; rule stub_core) (simp_all add: bits_fields field_bounds dec_branch(4))

lemma stub_decode_b_uncond [stub_decodes]: "decode_stub (b_uncond k) =
    Some (Core (Branch (take_bit 26 k)))"
  by (simp only: b_uncond_def encoded ; (simp only: low5_field(2))?; rule stub_core) (simp_all add: bits_fields field_bounds dec_branch(1))

lemma stub_decode_bl [stub_decodes]: "decode_stub (bl k) =
    Some (CallTo (signed_take_bit 25 (take_bit 26 k)))"
  by (simp only: bl_def encoded; (simp only: low5_field(2))?) (simp add: decode_stub_def bits_fields field_bounds)

lemma stub_decode_br [stub_decodes]: "decode_stub (br rn) =
    Some (ToRegister (take_bit 5 (uint rn)))"
  by (simp only: br_def encoded; (simp only: low5_field(2))?) (simp add: decode_stub_def bits_fields field_bounds)

lemma stub_decode_svc [stub_decodes]: "decode_stub (svc imm) =
    Some (Trap (uint imm))"
  by (simp only: svc_def encoded; (simp only: low5_field(2))?) (simp add: decode_stub_def bits_fields field_bounds)

lemma stub_decode_madd [stub_decodes]: "decode_stub (madd rd rn rm ra) =
    Some (MulAdd (take_bit 5 (uint rd)) (take_bit 5 (uint rn)) (take_bit 5 (uint rm)) (take_bit 5 (uint ra)))"
  by (simp only: madd_def encoded; (simp only: low5_field(2))?) (simp add: decode_stub_def bits_fields field_bounds)

lemma stub_decode_stp_preindex [stub_decodes]: "decode_stub (stp_preindex rt rt2 rn k) =
    Some (Pair False True (signed_take_bit 6 (take_bit 7 (tdiv k 8))) (take_bit 5 (uint rn)) (take_bit 5 (uint rt)) (take_bit 5 (uint rt2)))"
  by (simp only: stp_preindex_def encoded; (simp only: low5_field(2))?) (simp add: decode_stub_def bits_fields field_bounds)

lemma stub_decode_stp_offset [stub_decodes]: "decode_stub (stp_offset rt rt2 rn k) =
    Some (Pair False False (signed_take_bit 6 (take_bit 7 (tdiv k 8))) (take_bit 5 (uint rn)) (take_bit 5 (uint rt)) (take_bit 5 (uint rt2)))"
  by (simp only: stp_offset_def encoded; (simp only: low5_field(2))?) (simp add: decode_stub_def bits_fields field_bounds)

lemma stub_decode_ldp_offset [stub_decodes]: "decode_stub (ldp_offset rt rt2 rn k) =
    Some (Pair True False (signed_take_bit 6 (take_bit 7 (tdiv k 8))) (take_bit 5 (uint rn)) (take_bit 5 (uint rt)) (take_bit 5 (uint rt2)))"
  by (simp only: ldp_offset_def encoded; (simp only: low5_field(2))?) (simp add: decode_stub_def bits_fields field_bounds)

lemma stub_decode_ret [stub_decodes]: "decode_stub RET_INSN = Some (ToRegister 30)"
  by (simp add: decode_stub_def bits_numeral)

end
