(* ===== verification/Stub_Steps.thy ===== *)
theory Stub_Steps
  imports Stub_Sem
begin

text \<open>
  Running the loader's code one word at a time: what each encoder's word does, for operands in range, as rewrite
  rules over the state before it.
\<close>

section \<open>Operands\<close>

lemma reg_operand: "r < 31 \<Longrightarrow> gpr (uint r)" for r :: u32
  by (simp add: gpr_def word_less_def)

lemma operand5: "r < 32 \<Longrightarrow> take_bit 5 (uint r) = uint r" for r :: u32
  by (simp add: take_bit_int_eq_self_iff word_less_def)

lemma operand12: "x < 0x1000 \<Longrightarrow> take_bit 12 (uint x) = uint x" for x :: u32
  by (simp add: take_bit_int_eq_self_iff word_less_def)

lemma below31: "r < 31 \<Longrightarrow> r < 32 \<and> r \<noteq> 31 \<and> uint r \<noteq> 31" for r :: u32
  by (auto simp: word_less_def)

lemma up_to31: "r < 32 \<Longrightarrow> uint r = 31 \<longleftrightarrow> r = 31" for r :: u32
  by (auto simp: word_eq_iff_unsigned [where ?'a = int])

text \<open>A base register or a destination of an addition, which may be the stack pointer.\<close>

definition base_of :: "u32 \<Rightarrow> mach \<Rightarrow> u64" where
  "base_of r m = (if r = 31 then spr m else xr m (uint r))"

definition set_base :: "u32 \<Rightarrow> u64 \<Rightarrow> mach \<Rightarrow> mach" where
  "set_base r v m = (if r = 31 then m\<lparr>spr := v\<rparr> else set_x (uint r) v m)"

definition set_mem :: "(u64 \<Rightarrow> u8) \<Rightarrow> mach \<Rightarrow> mach" where
  "set_mem h m = m\<lparr>mem := h\<rparr>"

lemma set_mem_sel [simp]: "xr (set_mem h m) = xr m" "spr (set_mem h m) = spr m" "dr (set_mem h m) = dr m" "mem (set_mem h m) = h"
  by (simp_all add: set_mem_def)

lemma set_base_sel [simp]: "xr (set_base 31 v m) = xr m" "spr (set_base 31 v m) = v" "dr (set_base 31 v m) = dr m"
  "mem (set_base 31 v m) = mem m"
  by (simp_all add: set_base_def)

lemma set_base_reg: "r < 31 \<Longrightarrow> set_base r v m = set_x (uint r) v m"
  by (auto simp: set_base_def)

lemma set_mem_order [simp]: "set_mem h (set_mem g m) = set_mem h m" "set_mem h (set_x r v m) = set_x r v (set_mem h m)"
  "set_base 31 a (set_x r v m) = set_x r v (set_base 31 a m)" "set_base 31 a (set_mem h m) = set_mem h (set_base 31 a m)"
  "set_base 31 a (set_base 31 c m) = set_base 31 a m"
  by (simp_all add: set_mem_def set_x_def set_base_def)

lemma base_of_sp [simp]: "base_of 31 m = spr m"
  by (simp add: base_of_def)

lemma base_of_reg: "r < 31 \<Longrightarrow> base_of r m = xr m (uint r)"
  by (auto simp: base_of_def)

lemma base_reads: "r < 32 \<Longrightarrow> rsp True (uint r) m = base_of r m" "r < 32 \<Longrightarrow> rsp False (uint r) m = w32 (base_of r m)"
  by (auto simp: base_of_def rsp_def up_to31 width_def w32_def take_bit_word_beyond_length_eq)

lemma base_writes: "r < 32 \<Longrightarrow> wsp True (uint r) v m = set_base r v m"
  by (auto simp: set_base_def wsp_def wx_def up_to31 width_def set_x_def take_bit_word_beyond_length_eq)

section \<open>Comparisons\<close>

definition compared :: "bool \<Rightarrow> u64 \<Rightarrow> u64 \<Rightarrow> mach \<Rightarrow> mach" where
  "compared sf a b m = with_flags True sf True a b m"

lemma compared_sel [simp]: "xr (compared sf a b m) = xr m" "spr (compared sf a b m) = spr m" "dr (compared sf a b m) = dr m"
  "mem (compared sf a b m) = mem m"
  by (simp_all add: compared_def with_flags_def Let_def)

lemma exec_compare:
  "exec (AddSubImm sf True True imm rn 31) m = Some (compared sf (rsp sf rn m) (word_of_int imm) m)"
  "exec (AddSubReg sf True True 0 rm 0 rn 31) m = Some (compared sf (rx sf rn m) (rx sf rm m) m)"
  by (simp_all add: Let_def wx_def compared_def shifted_def rx_def take_bit_word_beyond_length_eq)

lemma sub_zero:
  assumes "take_bit (width sf) a = a" "take_bit (width sf) b = b"
  shows "add_sub sf True a b = 0 \<longleftrightarrow> a = b"
proof (cases sf)
  case True
  then show ?thesis by (simp add: add_sub_def width_def take_bit_word_beyond_length_eq)
next
  case False
  have "w32 a = w32 b" if "w32 (a - b) = 0"
  proof -
    have "w32 a = w32 (w32 (a - b) + b)" by (simp only: w32_simps) simp
    then show ?thesis by (simp add: that)
  qed
  then show ?thesis using assms False by (auto simp: add_sub_def width_def w32_def)
qed

lemma compare_conditions:
  assumes "take_bit (width sf) a = a" "take_bit (width sf) b = b"
  shows "holds 0 (compared sf a b m) \<longleftrightarrow> a = b" "holds 1 (compared sf a b m) \<longleftrightarrow> a \<noteq> b"
    "holds 2 (compared sf a b m) \<longleftrightarrow> b \<le> a" "holds 3 (compared sf a b m) \<longleftrightarrow> a < b"
    "holds 8 (compared sf a b m) \<longleftrightarrow> b < a" "holds 9 (compared sf a b m) \<longleftrightarrow> a \<le> b"
  using sub_zero [OF assms] by (auto simp: holds_def compared_def with_flags_def Let_def)

lemma w32_less: "unat x < 2 ^ 32 \<Longrightarrow> w32 x = x"
  by (simp add: w32_def word_unat_eq_iff unsigned_take_bit_eq take_bit_nat_eq_self)

lemma compare32:
  assumes "w32 a = a" "w32 b = b"
  shows "holds 0 (compared False a b m) \<longleftrightarrow> a = b" "holds 1 (compared False a b m) \<longleftrightarrow> a \<noteq> b"
    "holds 2 (compared False a b m) \<longleftrightarrow> b \<le> a" "holds 3 (compared False a b m) \<longleftrightarrow> a < b"
    "holds 8 (compared False a b m) \<longleftrightarrow> b < a" "holds 9 (compared False a b m) \<longleftrightarrow> a \<le> b"
  by (rule compare_conditions; use assms in \<open>simp add: width_def w32_def\<close>)+

lemma compare64:
  "holds 0 (compared True a b m) \<longleftrightarrow> a = b" "holds 1 (compared True a b m) \<longleftrightarrow> a \<noteq> b"
  "holds 2 (compared True a b m) \<longleftrightarrow> b \<le> a" "holds 3 (compared True a b m) \<longleftrightarrow> a < b"
  "holds 8 (compared True a b m) \<longleftrightarrow> b < a" "holds 9 (compared True a b m) \<longleftrightarrow> a \<le> b"
  by (rule compare_conditions; simp add: width_def take_bit_word_beyond_length_eq)+

section \<open>One word\<close>

definition stub_word :: "u64 \<Rightarrow> nat \<Rightarrow> u32 \<Rightarrow> nat \<Rightarrow> mach \<Rightarrow> (mach \<Rightarrow> mach) list \<Rightarrow> config option" where
  "stub_word base n w ix m ws = (case decode_stub w of None \<Rightarrow> None | Some i \<Rightarrow> stub_exec base n i ix m ws)"

lemma at_word:
  assumes "ix < length code" "stub_word base (length code) (code ! ix) ix m ws = Some c" "leads base code c d"
  shows "leads base code (At ix m ws) d"
  by (rule leads.on [OF _ assms(3)]) (use assms in \<open>simp add: stub_word_def\<close>)

named_theorems stub_does \<open>what an encoder's word does\<close>

lemmas does_simps = stub_word_def stub_decodes jump_by_def operand5 operand12 below31 reg_operand reads writes base_reads base_writes
  add_sub_def with_flags_def access_def Let_def width_def take_bit_word_beyond_length_eq set_mem_def [symmetric] exec_compare
  pair_access_def shifted_def extended_def logic_def logic_flags_def w32_def [symmetric]

lemma does_movz [stub_does]: "rd < 31 \<Longrightarrow> s div 16 < 4 \<Longrightarrow> stub_word base n (movz rd imm s) ix m ws =
    Some (At (Suc ix) (set_x (uint rd) (push_bit (nat (16 * uint (s div 16))) (ucast imm)) m) ws)"
  by (simp add: does_simps)

lemma does_movk [stub_does]: "rd < 31 \<Longrightarrow> s div 16 < 4 \<Longrightarrow> stub_word base n (movk rd imm s) ix m ws =
    Some (At (Suc ix) (set_x (uint rd) ((xr m (uint rd) AND NOT (push_bit (nat (16 * uint (s div 16))) 0xFFFF)) OR push_bit (nat (16 * uint (s div 16))) (ucast imm)) m) ws)"
  by (simp add: does_simps)

lemma does_movn [stub_does]: "rd < 31 \<Longrightarrow> s div 16 < 4 \<Longrightarrow> stub_word base n (movn rd imm s) ix m ws =
    Some (At (Suc ix) (set_x (uint rd) (NOT (push_bit (nat (16 * uint (s div 16))) (ucast imm))) m) ws)"
  by (simp add: does_simps)

lemma does_add_imm [stub_does]: "rd < 32 \<Longrightarrow> rn < 32 \<Longrightarrow> imm < 0x1000 \<Longrightarrow> stub_word base n (add_imm rd rn imm) ix m ws =
    Some (At (Suc ix) (set_base rd (base_of rn m + ucast imm) m) ws)"
  by (simp add: does_simps)

lemma does_sub_imm_x [stub_does]: "rd < 32 \<Longrightarrow> rn < 32 \<Longrightarrow> imm < 0x1000 \<Longrightarrow> stub_word base n (sub_imm_x rd rn imm) ix m ws =
    Some (At (Suc ix) (set_base rd (base_of rn m - ucast imm) m) ws)"
  by (simp add: does_simps)

lemma does_add_imm_w [stub_does]: "rd < 31 \<Longrightarrow> rn < 31 \<Longrightarrow> imm < 0x1000 \<Longrightarrow> stub_word base n (add_imm_w rd rn imm) ix m ws =
    Some (At (Suc ix) (set_x (uint rd) (w32 (xr m (uint rn) + ucast imm)) m) ws)"
  by (simp add: does_simps)

lemma does_sub_imm_w [stub_does]: "rd < 31 \<Longrightarrow> rn < 31 \<Longrightarrow> imm < 0x1000 \<Longrightarrow> stub_word base n (sub_imm_w rd rn imm) ix m ws =
    Some (At (Suc ix) (set_x (uint rd) (w32 (xr m (uint rn) - ucast imm)) m) ws)"
  by (simp add: does_simps)

lemma does_cmp_imm_w [stub_does]: "rn < 31 \<Longrightarrow> imm < 0x1000 \<Longrightarrow> stub_word base n (cmp_imm_w rn imm) ix m ws =
    Some (At (Suc ix) (compared False (w32 (xr m (uint rn))) (ucast imm) m) ws)"
  by (simp add: stub_word_def stub_decodes jump_by_def operand5 operand12 below31 reg_operand reads exec_compare del: exec.simps)

lemma does_cmp_imm_x [stub_does]: "rn < 31 \<Longrightarrow> imm < 0x1000 \<Longrightarrow> stub_word base n (cmp_imm_x rn imm) ix m ws =
    Some (At (Suc ix) (compared True (xr m (uint rn)) (ucast imm) m) ws)"
  by (simp add: stub_word_def stub_decodes jump_by_def operand5 operand12 below31 reg_operand reads exec_compare del: exec.simps)

lemma does_cmp_reg_w [stub_does]: "rn < 31 \<Longrightarrow> rm < 31 \<Longrightarrow> stub_word base n (cmp_reg_w rn rm) ix m ws =
    Some (At (Suc ix) (compared False (w32 (xr m (uint rn))) (w32 (xr m (uint rm))) m) ws)"
  by (simp add: stub_word_def stub_decodes jump_by_def operand5 operand12 below31 reg_operand reads exec_compare del: exec.simps)

lemma does_cmp_reg_x [stub_does]: "rn < 31 \<Longrightarrow> rm < 31 \<Longrightarrow> stub_word base n (cmp_reg_x rn rm) ix m ws =
    Some (At (Suc ix) (compared True (xr m (uint rn)) (xr m (uint rm)) m) ws)"
  by (simp add: stub_word_def stub_decodes jump_by_def operand5 operand12 below31 reg_operand reads exec_compare del: exec.simps)

lemma does_add_reg_x [stub_does]: "rd < 31 \<Longrightarrow> rn < 31 \<Longrightarrow> rm < 31 \<Longrightarrow> stub_word base n (add_reg_x rd rn rm) ix m ws =
    Some (At (Suc ix) (set_x (uint rd) (xr m (uint rn) + xr m (uint rm)) m) ws)"
  by (simp add: does_simps)

lemma does_sub_reg_x [stub_does]: "rd < 31 \<Longrightarrow> rn < 31 \<Longrightarrow> rm < 31 \<Longrightarrow> stub_word base n (sub_reg_x rd rn rm) ix m ws =
    Some (At (Suc ix) (set_x (uint rd) (xr m (uint rn) - xr m (uint rm)) m) ws)"
  by (simp add: does_simps)

lemma does_mov_reg_x [stub_does]: "rd < 31 \<Longrightarrow> rm < 31 \<Longrightarrow> stub_word base n (mov_reg_x rd rm) ix m ws =
    Some (At (Suc ix) (set_x (uint rd) (xr m (uint rm)) m) ws)"
  by (simp add: does_simps rx_def [of _ 31])

lemma does_mov_reg_w [stub_does]: "rd < 31 \<Longrightarrow> rm < 31 \<Longrightarrow> stub_word base n (mov_reg_w rd rm) ix m ws =
    Some (At (Suc ix) (set_x (uint rd) (w32 (xr m (uint rm))) m) ws)"
  by (simp add: does_simps rx_def [of _ 31])

lemma does_str_w [stub_does]: "rt < 31 \<Longrightarrow> rn < 32 \<Longrightarrow> imm div 4 < 0x1000 \<Longrightarrow> stub_word base n (str_w_offset rt rn imm) ix m ws =
    Some (At (Suc ix) (set_mem (store 4 (base_of rn m + ucast (imm div 4) * 4) (xr m (uint rt)) (mem m)) m) ws)"
  by (simp add: does_simps)

lemma does_str_x [stub_does]: "rt < 31 \<Longrightarrow> rn < 32 \<Longrightarrow> imm div 8 < 0x1000 \<Longrightarrow> stub_word base n (str_x_offset rt rn imm) ix m ws =
    Some (At (Suc ix) (set_mem (store 8 (base_of rn m + ucast (imm div 8) * 8) (xr m (uint rt)) (mem m)) m) ws)"
  by (simp add: does_simps)

lemma does_strb [stub_does]: "rt < 31 \<Longrightarrow> rn < 32 \<Longrightarrow> imm < 0x1000 \<Longrightarrow> stub_word base n (strb_w_offset rt rn imm) ix m ws =
    Some (At (Suc ix) (set_mem (store 1 (base_of rn m + ucast imm) (xr m (uint rt)) (mem m)) m) ws)"
  by (simp add: does_simps)

lemma does_strh [stub_does]: "rt < 31 \<Longrightarrow> rn < 32 \<Longrightarrow> imm div 2 < 0x1000 \<Longrightarrow> stub_word base n (strh_w_offset rt rn imm) ix m ws =
    Some (At (Suc ix) (set_mem (store 2 (base_of rn m + ucast (imm div 2) * 2) (xr m (uint rt)) (mem m)) m) ws)"
  by (simp add: does_simps)

lemma does_ldr_w [stub_does]: "rt < 31 \<Longrightarrow> rn < 32 \<Longrightarrow> imm div 4 < 0x1000 \<Longrightarrow> stub_word base n (ldr_w_offset rt rn imm) ix m ws =
    Some (At (Suc ix) (set_x (uint rt) (load 4 (base_of rn m + ucast (imm div 4) * 4) (mem m)) m) ws)"
  by (simp add: does_simps)

lemma does_ldr_x [stub_does]: "rt < 31 \<Longrightarrow> rn < 32 \<Longrightarrow> imm div 8 < 0x1000 \<Longrightarrow> stub_word base n (ldr_x_offset rt rn imm) ix m ws =
    Some (At (Suc ix) (set_x (uint rt) (load 8 (base_of rn m + ucast (imm div 8) * 8) (mem m)) m) ws)"
  by (simp add: does_simps)

lemma does_ldrh [stub_does]: "rt < 31 \<Longrightarrow> rn < 32 \<Longrightarrow> imm div 2 < 0x1000 \<Longrightarrow> stub_word base n (ldrh_w_offset rt rn imm) ix m ws =
    Some (At (Suc ix) (set_x (uint rt) (load 2 (base_of rn m + ucast (imm div 2) * 2) (mem m)) m) ws)"
  by (simp add: does_simps)

lemma does_ldrb [stub_does]: "rt < 31 \<Longrightarrow> rn < 32 \<Longrightarrow> imm < 0x1000 \<Longrightarrow> stub_word base n (ldrb_w_offset rt rn imm) ix m ws =
    Some (At (Suc ix) (set_x (uint rt) (load 1 (base_of rn m + ucast imm) (mem m)) m) ws)"
  by (simp add: does_simps)

lemma does_ldrb_reg [stub_does]: "rt < 31 \<Longrightarrow> rn < 32 \<Longrightarrow> rm < 31 \<Longrightarrow> stub_word base n (ldrb_w_reg rt rn rm) ix m ws =
    Some (At (Suc ix) (set_x (uint rt) (load 1 (base_of rn m + xr m (uint rm)) (mem m)) m) ws)"
  by (simp add: does_simps)

lemma does_strb_reg [stub_does]: "rt < 31 \<Longrightarrow> rn < 32 \<Longrightarrow> rm < 31 \<Longrightarrow> stub_word base n (strb_w_reg rt rn rm) ix m ws =
    Some (At (Suc ix) (set_mem (store 1 (base_of rn m + xr m (uint rm)) (xr m (uint rt)) (mem m)) m) ws)"
  by (simp add: does_simps)

lemma does_madd [stub_does]: "rd < 31 \<Longrightarrow> rn < 31 \<Longrightarrow> rm < 31 \<Longrightarrow> ra < 31 \<Longrightarrow> stub_word base n (madd rd rn rm ra) ix m ws =
    Some (At (Suc ix) (set_x (uint rd) (xr m (uint ra) + xr m (uint rn) * xr m (uint rm)) m) ws)"
  by (simp add: does_simps)

section \<open>Branches, pairs, calls\<close>

lemma signed_operand:
  assumes "- (2 ^ n) \<le> k" "k < 2 ^ n"
  shows "signed_take_bit n (take_bit (Suc n) k) = (k :: int)"
  using assms by (simp add: signed_take_bit_take_bit signed_take_bit_int_eq_self)

lemma offset19: "- 0x40000 \<le> k \<Longrightarrow> k < 0x40000 \<Longrightarrow> signed_take_bit 18 (take_bit 19 k) = (k :: int)"
  using signed_operand [of 18 k] by simp

lemma offset26: "- 0x2000000 \<le> k \<Longrightarrow> k < 0x2000000 \<Longrightarrow> signed_take_bit 25 (take_bit 26 k) = (k :: int)"
  using signed_operand [of 25 k] by simp

lemma offset7: "- 0x40 \<le> k \<Longrightarrow> k < 0x40 \<Longrightarrow> signed_take_bit 6 (take_bit 7 k) = (k :: int)"
  using signed_operand [of 6 k] by simp

lemma operand4: "c < 16 \<Longrightarrow> take_bit 4 (uint c) = uint c" for c :: u32
  by (simp add: take_bit_int_eq_self_iff word_less_def)

lemma does_b_cond [stub_does]:
  assumes "c < 16" "- 0x40000 \<le> k" "k < 0x40000"
  shows "holds (uint c) m \<Longrightarrow> 0 \<le> int ix + k \<Longrightarrow> stub_word base n (b_cond c k) ix m ws = Some (At (nat (int ix + k)) m ws)"
    "\<not> holds (uint c) m \<Longrightarrow> stub_word base n (b_cond c k) ix m ws = Some (At (Suc ix) m ws)"
  using assms by (simp_all add: does_simps operand4 offset19 nat_add_distrib)

lemma does_b [stub_does]:
  assumes "- 0x2000000 \<le> k" "k < 0x2000000" "0 \<le> int ix + k"
  shows "stub_word base n (b_uncond k) ix m ws = Some (At (nat (int ix + k)) m ws)"
  using assms by (simp add: does_simps offset26)

lemma does_cbz_w [stub_does]:
  assumes "rt < 31" "- 0x40000 \<le> k" "k < 0x40000"
  shows "w32 (xr m (uint rt)) = 0 \<Longrightarrow> 0 \<le> int ix + k \<Longrightarrow> stub_word base n (cbz_w rt k) ix m ws = Some (At (nat (int ix + k)) m ws)"
    "w32 (xr m (uint rt)) \<noteq> 0 \<Longrightarrow> stub_word base n (cbz_w rt k) ix m ws = Some (At (Suc ix) m ws)"
  using assms by (simp_all add: does_simps offset19 nat_add_distrib)

lemma does_cbnz_w [stub_does]:
  assumes "rt < 31" "- 0x40000 \<le> k" "k < 0x40000"
  shows "w32 (xr m (uint rt)) \<noteq> 0 \<Longrightarrow> 0 \<le> int ix + k \<Longrightarrow> stub_word base n (cbnz_w rt k) ix m ws = Some (At (nat (int ix + k)) m ws)"
    "w32 (xr m (uint rt)) = 0 \<Longrightarrow> stub_word base n (cbnz_w rt k) ix m ws = Some (At (Suc ix) m ws)"
  using assms by (simp_all add: does_simps offset19 nat_add_distrib)

lemma does_cbz [stub_does]:
  assumes "rt < 31" "- 0x40000 \<le> k" "k < 0x40000"
  shows "xr m (uint rt) = 0 \<Longrightarrow> 0 \<le> int ix + k \<Longrightarrow> stub_word base n (cbz rt k) ix m ws = Some (At (nat (int ix + k)) m ws)"
    "xr m (uint rt) \<noteq> 0 \<Longrightarrow> stub_word base n (cbz rt k) ix m ws = Some (At (Suc ix) m ws)"
  using assms by (simp_all add: does_simps offset19 nat_add_distrib)

lemma does_stp [stub_does]:
  assumes "rt < 31" "rt2 < 31" "rn < 32" "- 0x40 \<le> tdiv k 8" "tdiv k 8 < 0x40"
  shows "stub_word base n (stp_offset rt rt2 rn k) ix m ws =
    Some (At (Suc ix) (set_mem (store 8 (base_of rn m + word_of_int (8 * tdiv k 8) + 8) (xr m (uint rt2))
      (store 8 (base_of rn m + word_of_int (8 * tdiv k 8)) (xr m (uint rt)) (mem m))) m) ws)"
  using assms by (simp add: does_simps offset7)

lemma does_stp_preindex [stub_does]:
  assumes "rt < 31" "rt2 < 31" "- 0x40 \<le> tdiv k 8" "tdiv k 8 < 0x40"
  shows "stub_word base n (stp_preindex rt rt2 31 k) ix m ws =
    Some (At (Suc ix) (set_mem (store 8 (spr m + word_of_int (8 * tdiv k 8) + 8) (xr m (uint rt2))
      (store 8 (spr m + word_of_int (8 * tdiv k 8)) (xr m (uint rt)) (mem m))) (set_base 31 (spr m + word_of_int (8 * tdiv k 8)) m)) ws)"
  using assms by (simp add: stub_word_def stub_decodes operand5 below31 reg_operand reads Let_def set_mem_def set_base_def pair_access_def rsp_def wsp_def width_def take_bit_word_beyond_length_eq offset7)

lemma does_ldp [stub_does]:
  assumes "rt < 31" "rt2 < 31" "rn < 32" "- 0x40 \<le> tdiv k 8" "tdiv k 8 < 0x40"
  shows "stub_word base n (ldp_offset rt rt2 rn k) ix m ws =
    Some (At (Suc ix) (set_x (uint rt2) (load 8 (base_of rn m + word_of_int (8 * tdiv k 8) + 8) (mem m))
      (set_x (uint rt) (load 8 (base_of rn m + word_of_int (8 * tdiv k 8)) (mem m)) m)) ws)"
  using assms by (simp add: does_simps offset7)

lemma does_lsr [stub_does]:
  assumes "rd < 31" "rn < 31" "shift < 64"
  shows "stub_word base n (lsr_imm_x rd rn shift) ix m ws = Some (At (Suc ix) (set_x (uint rd) (drop_bit (unat shift) (xr m (uint rn))) m) ws)"
proof -
  have n: "take_bit 6 (uint shift) = uint shift" "nat (uint shift) = unat shift" "unat shift < 64"
    using assms(3) by (simp add: take_bit_int_eq_self_iff word_less_def, simp, simp add: word_less_nat_alt)
  have "take_bit (Suc (63 - unat shift)) (drop_bit (unat shift) x) = drop_bit (unat shift) x" for x :: u64
    by (rule bit_word_eqI) (auto simp: bit_simps dest: bit_imp_le_length)
  then show ?thesis using assms n by (simp add: does_simps bitfield_def Suc_diff_le)
qed

lemma does_lsl [stub_does]:
  assumes "rd < 31" "rn < 31"
  shows "stub_word base n (lsl_imm_x rd rn 32) ix m ws = Some (At (Suc ix) (set_x (uint rd) (push_bit 32 (xr m (uint rn))) m) ws)"
proof -
  have "push_bit 32 (take_bit 32 x) = push_bit 32 x" for x :: u64
    by (rule bit_word_eqI) (auto simp: bit_simps dest: bit_imp_le_length)
  then show ?thesis using assms by (simp add: does_simps bitfield_def flip: w32_def)
qed

lemma does_bl [stub_does]:
  assumes "- 0x2000000 \<le> k" "k < 0x2000000" "int ix + k = int n"
  shows "stub_word base n (bl k) ix m (f # fs) = Some (At (Suc ix) (f (set_x 30 (base + 4 * word_of_nat (Suc ix)) m)) fs)"
  using assms by (simp add: does_simps gpr_def offset26)

lemma does_svc [stub_does]: "stub_word base n (svc k) ix m (f # fs) = Some (At (Suc ix) (f m) fs)"
  by (simp add: does_simps)

lemma does_br [stub_does]: "rn < 31 \<Longrightarrow> stub_word base n (br rn) ix m ws = Some (Gone (xr m (uint rn)) m ws)"
  by (simp add: does_simps)

lemma does_ret [stub_does]: "stub_word base n 0xD65F03C0 ix m ws = Some (Gone (xr m 30) m ws)"
  by (simp add: does_simps stub_decode_ret gpr_def)

end
