(* ===== verification/Stub_Words.thy ===== *)
theory Stub_Words
  imports Stub_Steps
begin

text \<open>
  The request stub as a list of instructions: what the emitters leave after all their patches, and a rule that runs
  a stretch of it in one go.
\<close>

section \<open>Bytes and words\<close>

lemma length_word_bytes [simp]: "length (word_bytes w) = 4"
  by (simp add: word_bytes_def)

lemma length_emit_all [simp]: "length (emit_all ws out) = length out + 4 * length ws"
  by (induction ws) (auto simp: emit_all_def)

lemma emit_all_emit_all: "emit_all vs (emit_all ws out) = emit_all (ws @ vs) out"
  by (simp add: emit_all_def)

lemma patch_emitted:
  "k < length ws \<Longrightarrow> patch_word (4 * k) w (emit_all ws []) = emit_all (ws[k := w]) []"
proof (induction ws arbitrary: k)
  case (Cons v ws)
  show ?case
  proof (cases k)
    case 0
    then show ?thesis by (simp add: patch_word_def emit_all_def word_bytes_def)
  next
    case (Suc j)
    have "patch_word (4 * k) w (emit_all (v # ws) []) = word_bytes v @ patch_word (4 * j) w (emit_all ws [])"
      by (simp add: Suc patch_word_def emit_all_def word_bytes_def add.commute [of _ 3])
    then show ?thesis using Cons.IH [of j] Cons.prems by (simp only: Suc) (simp add: emit_all_def)
  qed
qed simp

lemma patch_jump_emitted:
  "k + 2 < length ws \<Longrightarrow> patch_abs_jump_3movs (4 * k) t (emit_all ws []) =
     emit_all (ws[k := movz 16 (half 0 t) 0, k + 1 := movk 16 (half 1 t) 16, k + 2 := movk 16 (half 2 t) 32]) []"
  using patch_emitted [of k ws] patch_emitted [of "k + 1" "ws[k := w]" for w] patch_emitted [of "k + 2" "ws[k := w, k + 1 := w']" for w w']
  by (simp add: patch_abs_jump_3movs_def add.commute)

lemma patch_at: "p mod 4 = 0 \<Longrightarrow> p div 4 < length ws \<Longrightarrow> patch_word p w (emit_all ws []) = emit_all (ws[p div 4 := w]) []"
  using patch_emitted [of "p div 4" ws w] by (metis add.right_neutral mult_div_mod_eq)

lemma patch_jump_at: "p mod 4 = 0 \<Longrightarrow> p div 4 + 2 < length ws \<Longrightarrow> patch_abs_jump_3movs p t (emit_all ws []) =
    emit_all (ws[p div 4 := movz 16 (half 0 t) 0, p div 4 + 1 := movk 16 (half 1 t) 16, p div 4 + 2 := movk 16 (half 2 t) 32]) []"
  using patch_jump_emitted [of "p div 4" ws t] by (metis add.right_neutral mult_div_mod_eq)

section \<open>An absolute jump\<close>

lemma abs_jump_value:
  "(((ucast (half 0 t) AND NOT (push_bit 16 0xFFFF)) OR push_bit 16 (ucast (half 1 t))) AND NOT (push_bit 32 0xFFFF)) OR
     push_bit 32 (ucast (half 2 t)) = take_bit 48 t"
  for t :: u64
proof -
  have m: "0xFFFF = (mask 16 :: u64)" by (simp add: mask_eq_exp_minus_1)
  show ?thesis unfolding half_def m by (intro bit_word_eqI, rename_tac n, case_tac "n < 32") (auto simp: bit_simps)
qed

lemma at_abs_jump:
  assumes "Suc (Suc (Suc ix)) < length code" "code ! ix = movz 16 (half 0 t) 0" "code ! Suc ix = movk 16 (half 1 t) 16"
    "code ! Suc (Suc ix) = movk 16 (half 2 t) 32" "code ! Suc (Suc (Suc ix)) = br 16"
  shows "leads base code (At ix m ws) (Gone (take_bit 48 t) (set_x 16 (take_bit 48 t) m) ws)"
proof -
  have again: "set_x r v (set_x r u m) = set_x r v m" for r u v by (simp add: set_x_def)
  show ?thesis
    apply (rule at_word, use assms in simp, use assms in \<open>simp add: stub_does\<close>)
    apply (rule at_word, use assms in simp, use assms in \<open>simp add: stub_does\<close>)
    apply (rule at_word, use assms in simp, use assms in \<open>simp add: stub_does\<close>)
    apply (rule at_word, use assms in simp, use assms in \<open>simp add: stub_does\<close>)
    using abs_jump_value [of t] leads.here by (simp add: again)
qed

section \<open>The words of the request\<close>

definition request_words :: "u32 \<Rightarrow> u32 \<Rightarrow> u32 list" where
  "request_words s p = ipc_prologue @ body_stores @ build_msgh_id @ mach_msg2_call s p 0x400000003 True True"

definition dispatch_words :: "u32 list" where
  "dispatch_words =
     [cbz_w 0 9, movz 13 0x4005 0, movk 13 0x1000 16, cmp_reg_w 0 13, b_cond COND_EQ 52,
      movz 13 7 0, movk 13 0x1000 16, cmp_reg_w 0 13, b_cond COND_EQ 66]"

definition check_words :: "u32 list" where
  "check_words =
     [cbnz_w 0 27, ldr_w_offset 10 31 68, cmp_imm_w 10 40, b_cond COND_LT 30,
      ldr_w_offset 11 31 84, ldr_w_offset 12 31 128, cmp_reg_w 11 12, b_cond COND_NE 33, ldr_w_offset 9 31 96, cbz_w 9 8]"

definition return_words :: "u32 list" where
  "return_words = [ldr_x_offset 0 31 88, ldr_x_offset 1 31 8, ldp_offset 2 3 31 16, ldp_offset 4 5 31 32, ldp_offset 16 30 31 48,
     add_imm 31 31 192, RET_INSN]"

definition none_words :: "u32 list" where
  "none_words = [ldr_x_offset 0 31 0, ldr_x_offset 1 31 8, ldp_offset 2 3 31 16, ldp_offset 4 5 31 32, ldp_offset 16 30 31 48,
     add_imm 31 31 192]"

definition kr_words :: "u32 list" where "kr_words = [movz 1 0 0, ldr_x_offset 2 31 32]"
definition size_words :: "u32 list" where "size_words = [mov_reg_x 0 10, movz 1 1 0, ldr_x_offset 2 31 32]"
definition id_words :: "u32 list" where "id_words = [mov_reg_x 0 11, movz 1 2 0, ldr_x_offset 2 31 32]"

definition ipc_words :: "u32 \<Rightarrow> u32 \<Rightarrow> u64 \<Rightarrow> u64 \<Rightarrow> u32 list" where
  "ipc_words s p stash abort =
     request_words s p @ dispatch_words @ check_words @ return_words @ none_words @ abs_jump_3movs stash @
     kr_words @ abs_jump_3movs abort @ size_words @ abs_jump_3movs abort @ id_words @ abs_jump_3movs abort @
     mach_msg2_call s p 2 False False @ [b_uncond (-73)] @ mach_msg2_call s p 0x400000003 True False @ [b_uncond (-98)]"

lemma lengths [simp]:
  "length ipc_prologue = 4" "length body_stores = 5" "length build_msgh_id = 4" "length (load_imm64 r v) = 4"
  "length (abs_jump_3movs t) = 4"
  by (simp_all add: ipc_prologue_def body_stores_def build_msgh_id_def load_imm64_def abs_jump_3movs_def)

lemma length_call [simp]:
  "length (mach_msg2_call s p v True True) = 23" "length (mach_msg2_call s p v True False) = 24"
  "length (mach_msg2_call s p v False x) = 17"
  by (simp_all add: mach_msg2_call_def)

lemma placeholder: "emit_abs_jump_placeholder (emit_all ws []) = (4 * length ws, emit_all (ws @ abs_jump_3movs 0) [])"
  by (simp add: emit_abs_jump_placeholder_def emit_all_emit_all abs_jump_3movs_def half_def)

lemma options: "kSendRcvOpt OR kMach64SendMqCall = 0x400000003"
  by simp

lemma ipc_is_words:
  "emit_mach_msg2_ipc s p = (\<lparr>none_jump = 272, kr_thunk_jump = 296, size_thunk_jump = 324, id_thunk_jump = 352\<rparr>,
     emit_all (ipc_words s p 0 0) [])"
  unfolding emit_mach_msg2_ipc_def emit_ipc_postlude_def Let_def options
  apply (simp add: emit_all_emit_all placeholder patch_at list_update_append words_between_def)
  apply (simp add: ipc_words_def request_words_def dispatch_words_def check_words_def return_words_def none_words_def
    kr_words_def size_words_def id_words_def)
  done

lemmas ipc_parts = request_words_def dispatch_words_def check_words_def return_words_def none_words_def
    kr_words_def size_words_def id_words_def

lemma length_parts [simp]:
  "length (request_words s p) = 36" "length dispatch_words = 9" "length check_words = 10" "length return_words = 7"
  "length none_words = 6" "length kr_words = 2" "length size_words = 3" "length id_words = 3"
  by (simp_all add: ipc_parts)

lemma length_ipc [simp]: "length (ipc_words s p a b) = 135"
  by (simp add: ipc_words_def)

lemma ipc_patched:
  "patch_abs_jump_3movs 352 a (patch_abs_jump_3movs 324 a (patch_abs_jump_3movs 296 a (patch_abs_jump_3movs 272 t
     (emit_all (ipc_words s p 0 0) [])))) = emit_all (ipc_words s p t a) []"
  by (simp add: patch_jump_at) (simp add: ipc_words_def list_update_append abs_jump_3movs_def)

lemma length_filter [simp]: "length (filter_code a b c t) = 15"
  by (simp add: filter_code_def)

section \<open>The layout of the handler\<close>

lemma high16_clear: "unat a < 2 ^ 48 \<Longrightarrow> a AND high16 = 0"
proof -
  assume "unat a < 2 ^ 48"
  then have "take_bit 48 a = a" by (simp add: word_unat_eq_iff unsigned_take_bit_eq take_bit_nat_eq_self)
  moreover have "take_bit 48 a AND high16 = 0"
    unfolding take_bit_eq_mask by (simp add: mask_eq_exp_minus_1 high16_def and.assoc)
  ultimately show ?thesis by simp
qed

lemma abort_length [simp]: "length (abort_routine_code t) = 48"
  by (simp add: abort_routine_code_def abort_hex_loop_def)

lemma template_length: "length (append_abort_msg_template out) = length out + 64"
  by (simp add: append_abort_msg_template_def char_bytes_def)

lemma handler_layout:
  assumes "length prologue = 16" "filterOpcodeIdsFit maps" "unat handler_addr + 888 < 2 ^ 48"
  shows "stub_build maps handler_addr translate_addr prologue s p =
    (let stash = handler_addr + 600; abort = handler_addr + 632 in
     \<lparr>entry = emit_all (abs_jump_3movs handler_addr) [],
      handler = append_abort_msg_template
        (emit_all (filter_code (opcode_internal_to_host maps kOpcodeName_fcmovb) (opcode_internal_to_host maps kOpcodeName_f2xm1)
            (opcode_internal_to_host maps kOpcodeName_arpl) stash @ ipc_words s p stash abort) [] @
         prologue @ emit_all (abs_jump_3movs (translate_addr + 16) @ abort_routine_code (handler_addr + 824)) [])\<rparr>)"
proof -
  have h: "high16 AND x = 0" if "unat x < 2 ^ 48" for x using high16_clear [OF that] by (simp add: and.commute)
  have a: "unat (handler_addr + k) = unat handler_addr + unat k" if "unat k \<le> 888" for k
    using assms(3) that by (simp add: unat_word_ariths)
  have b: "(handler_addr + 600 OR handler_addr + 632) AND high16 = 0" "handler_addr AND high16 = 0"
    using assms(3) by (simp_all add: bit.conj_disj_distrib2 high16_clear a)
  show ?thesis
    using assms(1,2) b
    by (simp add: stub_build_def ipc_is_words Let_def ipc_patched emit_all_emit_all emit_abort_routine_def
      add.commute [of 632 handler_addr] add.commute [of 824 handler_addr])
      (simp add: emit_all_def)
qed

end
