(* ===== verification/Stub_Filter.thy ===== *)
theory Stub_Filter
  imports Stub_Words Opcode_Map_Props
begin

text \<open>
  The filter ahead of the request: which instructions of a block the stub sends to the sidecar.
\<close>

section \<open>Running the filter\<close>

lemma half_operand: "w32 (load 2 a h) = load 2 a h"
  unfolding w32_def by (rule bit_word_eqI) (auto simp: bit_simps load_bit)

lemma id_operand: "x < 0x1000 \<Longrightarrow> (ucast x :: u32) < 0x1000" for x :: u16
  by (simp add: word_less_nat_alt unsigned_ucast_eq take_bit_nat_eq_self)

lemma id_twice: "ucast (ucast x :: u32) = (ucast x :: u64)" for x :: u16
  by (rule bit_word_eqI) (auto simp: bit_simps dest: bit_imp_le_length)

definition filter_claims :: "u16 \<Rightarrow> u16 \<Rightarrow> u16 \<Rightarrow> u64 \<Rightarrow> bool" where
  "filter_claims fcmovb f2xm1 arpl h \<longleftrightarrow> w32 (h - ucast fcmovb) \<le> 11 \<or> w32 (h - ucast f2xm1) \<le> 79 \<or> h = ucast arpl"

lemma filter_runs:
  fixes m ws
  defines "h \<equiv> load 2 (xr m 2 + 0x50 * xr m 4 + 4) (mem m)"
  assumes "fcmovb < 0x1000" "f2xm1 < 0x1000" "arpl < 0x1000"
  shows "\<exists>m'. leads base (filter_code fcmovb f2xm1 arpl stash) (At 0 m ws)
     (if filter_claims fcmovb f2xm1 arpl h then At 15 m' ws else Gone (take_bit 48 stash) m' ws) \<and>
     mem m' = mem m \<and> spr m' = spr m \<and> dr m' = dr m \<and> (\<forall>r. r \<notin> {9, 10, 11, 16} \<longrightarrow> xr m' r = xr m r)"
proof -
  let ?code = "filter_code fcmovb f2xm1 arpl stash"
  note ids = assms(2-) [THEN id_operand]
  note step = filter_code_def stub_does base_of_def ids
  define x where "x = h - ucast fcmovb"
  define y where "y = h - ucast f2xm1"
  define m3 where "m3 = set_x 9 h (set_x 10 (xr m 2 + 80 * xr m 4) (set_x 9 80 m))"
  define m5 where "m5 = compared False (w32 x) 11 (set_x 11 (w32 x) m3)"
  define m8 where "m8 = compared False (w32 y) 79 (set_x 11 (w32 y) m5)"
  define m10 where "m10 = compared False h (ucast arpl) m8"
  have h: "w32 h = h" by (simp add: h_def half_operand)
  have arpl32: "w32 (ucast arpl) = ucast arpl"
    by (simp add: w32_def) (rule bit_word_eqI, auto simp: bit_simps dest: bit_imp_le_length)
  note norm = m3_def m5_def m8_def m10_def x_def y_def h_def id_twice eval_nat_numeral mult.commute
  have a: "leads base ?code (At 5 m5 ws) d \<Longrightarrow> leads base ?code (At 0 m ws) d" for d
    apply (rule at_word, simp, simp add: step)
    apply (rule at_word, simp, simp add: step)
    apply (rule at_word, simp, simp add: step)
    apply (rule at_word, simp, simp add: step)
    apply (rule at_word, simp, simp add: step)
    apply (simp add: norm)
    done
  have b: "leads base ?code (At 8 m8 ws) d \<Longrightarrow> leads base ?code (At 6 m5 ws) d" for d
    apply (rule at_word, simp, simp add: step)
    apply (rule at_word, simp, simp add: step)
    apply (simp add: norm)
    done
  have c: "leads base ?code (At 10 m10 ws) d \<Longrightarrow> leads base ?code (At 9 m8 ws) d" for d
    apply (rule at_word, simp, simp add: step)
    using h apply (simp add: norm)
    done
  have taken: "leads base ?code (At 15 m' ws) d \<Longrightarrow> leads base ?code (At ix m' ws) d"
    if "(ix, c, j) \<in> {(5, 9, 10), (8, 9, 7), (10, 0, 5)}" "holds c m'" for ix c j m' d
    apply (rule at_word)
    using that by (auto simp: step)
  have untaken: "leads base ?code (At (Suc ix) m' ws) d \<Longrightarrow> leads base ?code (At ix m' ws) d"
    if "(ix, c, j) \<in> {(5, 9, 10), (8, 9, 7), (10, 0, 5)}" "\<not> holds c m'" for ix c j m' d
    apply (rule at_word)
    using that by (auto simp: step)
  have conds: "holds 9 m5 \<longleftrightarrow> w32 x \<le> 11" "holds 9 m8 \<longleftrightarrow> w32 y \<le> 79" "holds 0 m10 \<longleftrightarrow> h = ucast arpl"
    using h arpl32 by (simp_all add: m5_def m8_def m10_def compare32 w32_less)
  have same: "mem m' = mem m \<and> spr m' = spr m \<and> dr m' = dr m \<and> (\<forall>r. r \<notin> {9, 10, 11, 16} \<longrightarrow> xr m' r = xr m r)"
    if "m' \<in> {m5, m8, m10, set_x 16 v m10}" for m' v
    using that by (auto simp: m3_def m5_def m8_def m10_def)
  have u5: "leads base ?code (At 0 m ws) d" if "\<not> holds 9 m5" "leads base ?code (At 8 m8 ws) d" for d
    using a [OF untaken [of 5 9 10, OF _ that(1)]] b [OF that(2)] by simp
  have u8: "leads base ?code (At 0 m ws) d" if "\<not> holds 9 m5" "\<not> holds 9 m8" "leads base ?code (At 10 m10 ws) d" for d
    using u5 [OF that(1) untaken [of 8 9 7, OF _ that(2)]] c [OF that(3)] by simp
  have t5: "leads base ?code (At 0 m ws) (At 15 m5 ws)" if "holds 9 m5"
    using a [OF taken [of 5 9 10, OF _ that leads.here]] by simp
  have t8: "leads base ?code (At 0 m ws) (At 15 m8 ws)" if "\<not> holds 9 m5" "holds 9 m8"
    using u5 [OF that(1) taken [of 8 9 7, OF _ that(2) leads.here]] by simp
  have t10: "leads base ?code (At 0 m ws) (At 15 m10 ws)" if "\<not> holds 9 m5" "\<not> holds 9 m8" "holds 0 m10"
    using u8 [OF that(1,2) taken [of 10 0 5, OF _ that(3) leads.here]] by simp
  have out: "leads base ?code (At 0 m ws) (Gone (take_bit 48 stash) (set_x 16 (take_bit 48 stash) m10) ws)"
    if "\<not> holds 9 m5" "\<not> holds 9 m8" "\<not> holds 0 m10"
  proof (rule u8 [OF that(1,2) untaken [of 10 0 5, OF _ that(3)]])
    show "leads base ?code (At (Suc 10) m10 ws) (Gone (take_bit 48 stash) (set_x 16 (take_bit 48 stash) m10) ws)"
      by (rule at_abs_jump) (simp_all add: filter_code_def abs_jump_3movs_def eval_nat_numeral)
  qed simp
  have r: "\<exists>m'. leads base ?code (At 0 m ws) (if filter_claims fcmovb f2xm1 arpl h then At 15 m' ws else Gone (take_bit 48 stash) m' ws) \<and>
      (\<exists>v. m' \<in> {m5, m8, m10, set_x 16 v m10})"
    using t5 t8 t10 out conds by (cases "w32 x \<le> 11"; cases "w32 y \<le> 79"; cases "h = ucast arpl")
      (auto simp: filter_claims_def x_def [symmetric] y_def [symmetric])
  then show ?thesis using same by blast
qed

section \<open>What the filter claims\<close>

text \<open>The subtraction and the comparison test that a number lies in a range; the ranges are those of numbers of
  16 bits, and the first number is small enough not to wrap.\<close>

lemma id_value: "unat (ucast x :: u64) = unat x" for x :: u16
  using unsigned_less [of x, where ?'a = nat] by (simp add: unsigned_ucast_eq take_bit_nat_eq_self)

lemma range_test:
  fixes h a k :: u16
  assumes "a < 0x1000" "k < 0x1000"
  shows "w32 (ucast h - ucast a) \<le> ucast k \<longleftrightarrow> a \<le> h \<and> h \<le> a + k"
proof -
  have b: "unat h < 65536" "unat a < 4096" "unat k < 4096" using assms unsigned_less [of h, where ?'a = nat] by (simp_all add: word_less_nat_alt)
  have ak: "unat (a + k) = unat a + unat k" using b by (simp add: unat_word_ariths)
  show ?thesis
  proof (cases "a \<le> h")
    case True
    then have "unat (ucast h - ucast a :: u64) = unat h - unat a"
      by (subst unat_sub) (simp_all add: word_le_nat_alt id_value)
    then show ?thesis using True b ak w32_less [of "ucast h - ucast a"] by (auto simp: word_le_nat_alt id_value)
  next
    case False
    then have l: "unat h < unat a" by (simp add: word_le_nat_alt)
    then have "unat (ucast h - ucast a :: u64) = unat h + 2 ^ 64 - unat a"
      using b by (subst unat_sub_if_size) (simp add: id_value word_size)
    then have "unat (w32 (ucast h - ucast a)) = (unat h + 2 ^ 64 - unat a) mod 2 ^ 32"
      unfolding w32_def unsigned_take_bit_eq by (simp add: take_bit_eq_mod)
    also have "\<dots> = 2 ^ 32 + unat h - unat a"
    proof -
      have "unat h + 2 ^ 64 - unat a = (2 ^ 32 + unat h - unat a) + (2 ^ 32 - 1) * 2 ^ 32" using b l by simp
      then show ?thesis using b l by (simp only: mod_mult_self1) simp
    qed
    finally show ?thesis using False b by (simp add: word_le_nat_alt id_value)
  qed
qed

lemma contiguous_number:
  assumes "range_contiguous st lo hi" "opcode_internal_to_host st lo \<noteq> kOpcodeUnmapped" "lo \<le> op" "op \<le> hi"
  shows "opcode_internal_to_host st op = opcode_internal_to_host st lo + (op - lo)"
proof -
  have "\<forall>op\<in>set (op_range lo hi). opcode_internal_to_host st op = opcode_internal_to_host st lo + (op - lo)"
    using assms(1,2) by (simp add: range_contiguous_def Let_def list_all_iff)
  then show ?thesis using assms(3,4) op_range_iff by blast
qed

lemma in_shifted_range:
  fixes b lo hi op h :: u16
  assumes "b < 0x1000" "lo \<le> hi" "hi - lo < 0x1000"
  shows "lo \<le> op \<Longrightarrow> op \<le> hi \<Longrightarrow> b \<le> b + (op - lo) \<and> b + (op - lo) \<le> b + (hi - lo)"
    "b \<le> h \<Longrightarrow> h \<le> b + (hi - lo) \<Longrightarrow> lo \<le> lo + (h - b) \<and> lo + (h - b) \<le> hi \<and> b + (lo + (h - b) - lo) = h"
proof -
  have b: "unat b < 4096" "unat hi - unat lo < 4096" "unat lo \<le> unat hi" "unat hi < 65536"
    using assms unsigned_less [of hi, where ?'a = nat] by (simp_all add: word_less_nat_alt word_le_nat_alt unat_sub)
  show "lo \<le> op \<Longrightarrow> op \<le> hi \<Longrightarrow> b \<le> b + (op - lo) \<and> b + (op - lo) \<le> b + (hi - lo)"
    using b by (simp add: word_le_nat_alt unat_word_ariths unat_sub) arith
  show "b \<le> h \<Longrightarrow> h \<le> b + (hi - lo) \<Longrightarrow> lo \<le> lo + (h - b) \<and> lo + (h - b) \<le> hi \<and> b + (lo + (h - b) - lo) = h"
    using b by (auto simp add: word_le_nat_alt unat_word_ariths unat_sub)
qed

text \<open>One range of the filter: the numbers from the runtime's number of its first opcode on are those of its opcodes.\<close>

lemma range_claims:
  assumes "length names < 65535" "distinct names" "st' = opcode_set_host_table names st"
    and r: "range_contiguous st' lo hi" "lo \<le> hi" "hi - lo < 0x1000" "opcode_internal_to_host st' lo < 0x1000" "hi < kOpcodeUnmapped"
    and mapped: "\<And>op. lo \<le> op \<Longrightarrow> op \<le> hi \<Longrightarrow> opcode_internal_to_host st' op \<noteq> kOpcodeUnmapped"
  shows "opcode_internal_to_host st' lo \<le> h \<and> h \<le> opcode_internal_to_host st' lo + (hi - lo) \<longleftrightarrow>
    lo \<le> opcode_host_to_internal st' h \<and> opcode_host_to_internal st' h \<le> hi" (is "?l \<longleftrightarrow> ?r")
proof
  let ?b = "opcode_internal_to_host st' lo"
  note number = contiguous_number [OF r(1) mapped [OF order_refl r(2)]]
  show ?r if ?l
  proof -
    define op where "op = lo + (h - ?b)"
    have op: "lo \<le> op" "op \<le> hi" "?b + (op - lo) = h"
      using in_shifted_range(2) [OF r(4,2,3)] that by (auto simp: op_def)
    have "opcode_internal_to_host st' op = h" using number [OF op(1,2)] op(3) by (rule trans)
    then have "opcode_host_to_internal st' h = op" using mapped_back [OF assms(1,3) mapped [OF op(1,2)]] by metis
    then show ?thesis using op(1,2) by blast
  qed
  show ?l if ?r
  proof -
    have "opcode_host_to_internal st' h \<noteq> kOpcodeUnmapped" using that r(5) by auto
    then have "?b + (opcode_host_to_internal st' h - lo) = h"
      using mapped_forth [OF assms(1,2,3)] number that by metis
    then show ?thesis using in_shifted_range(1) [OF r(4,2,3)] that by metis
  qed
qed

lemma claims_are_opcodes:
  assumes n: "length names < 65535" "distinct names" "st' = opcode_set_host_table names st"
    and c: "opcodeTableMatches st' names cnt" "filterOpcodeIdsFit st'"
  shows "filter_claims (opcode_internal_to_host st' kOpcodeName_fcmovb) (opcode_internal_to_host st' kOpcodeName_f2xm1)
      (opcode_internal_to_host st' kOpcodeName_arpl) (ucast h) \<longleftrightarrow>
    is_x87_opcode (opcode_host_to_internal st' h) \<or> opcode_host_to_internal st' h = kOpcodeName_arpl"
proof -
  let ?f = "opcode_internal_to_host st' kOpcodeName_fcmovb" and ?x = "opcode_internal_to_host st' kOpcodeName_f2xm1"
    and ?a = "opcode_internal_to_host st' kOpcodeName_arpl"
  have fits: "?f < 0x1000" "?x < 0x1000" "?a < 0x1000"
    using c(2) by (simp_all add: filterOpcodeIdsFit_def word_le_nat_alt word_less_nat_alt)
  have rs: "range_contiguous st' kOpcodeName_fcmovb kOpcodeName_fucomip" "range_contiguous st' kOpcodeName_f2xm1 kOpcodeName_fyl2xp1"
    using c(1) by (simp_all add: opcodeTableMatches_def split: if_splits)
  have mapped: "opcode_internal_to_host st' op \<noteq> kOpcodeUnmapped" if "is_x87_opcode op" for op
    using required_mapped [OF n(1,3)] matches_required [OF c(1)] that by blast
  have u: "kOpcodeName_fucomip < kOpcodeUnmapped" "kOpcodeName_fyl2xp1 < kOpcodeUnmapped" by (simp_all add: kOpcodeUnmapped_def)
  have low: "w32 (ucast h - ucast ?f) \<le> 11 \<longleftrightarrow>
      kOpcodeName_fcmovb \<le> opcode_host_to_internal st' h \<and> opcode_host_to_internal st' h \<le> kOpcodeName_fucomip"
    using range_test [OF fits(1), of 11 h] range_claims [OF n rs(1) _ _ fits(1) u(1), of h] mapped
    by (simp add: is_x87_opcode_def)
  have high: "w32 (ucast h - ucast ?x) \<le> 79 \<longleftrightarrow>
      kOpcodeName_f2xm1 \<le> opcode_host_to_internal st' h \<and> opcode_host_to_internal st' h \<le> kOpcodeName_fyl2xp1"
    using range_test [OF fits(2), of 79 h] range_claims [OF n rs(2) _ _ fits(2) u(2), of h] mapped
    by (simp add: is_x87_opcode_def)
  have arpl: "?a \<noteq> kOpcodeUnmapped" using fits(3) by (auto simp: kOpcodeUnmapped_def)
  have "(ucast h = (ucast ?a :: u64)) \<longleftrightarrow> h = ?a"
    by (metis id_value word_unat_eq_iff)
  also have "\<dots> \<longleftrightarrow> opcode_host_to_internal st' h = kOpcodeName_arpl"
    using mapped_back [OF n(1,3) arpl] mapped_forth [OF n, of h] by (auto simp: kOpcodeUnmapped_def)
  finally show ?thesis by (simp add: filter_claims_def low high is_x87_opcode_def)
qed

lemma half_narrow: "ucast (ucast (load 2 a h) :: u16) = load 2 a h"
  by (rule bit_word_eqI) (auto simp: bit_simps load_bit)

text \<open>For a runtime that passed the check at launch, the filter sends an instruction on to the request exactly
  when its number is that of an x87 opcode or of ARPL, whatever numbers the runtime uses, and otherwise jumps to the
  stashed prologue of the routine it replaced; it changes nothing but registers 9, 10, 11 and 16 and the flags.\<close>

lemma filter_routes:
  assumes "length names < 65535" "distinct names" "st' = opcode_set_host_table names st"
    and "opcodeTableMatches st' names cnt" "filterOpcodeIdsFit st'"
    and "op = opcode_host_to_internal st' (ucast (load 2 (xr m 2 + 0x50 * xr m 4 + 4) (mem m)))"
  shows "\<exists>m'. leads base (filter_code (opcode_internal_to_host st' kOpcodeName_fcmovb) (opcode_internal_to_host st' kOpcodeName_f2xm1)
       (opcode_internal_to_host st' kOpcodeName_arpl) stash) (At 0 m ws)
     (if is_x87_opcode op \<or> op = kOpcodeName_arpl then At 15 m' ws else Gone (take_bit 48 stash) m' ws) \<and>
     mem m' = mem m \<and> spr m' = spr m \<and> dr m' = dr m \<and> (\<forall>r. r \<notin> {9, 10, 11, 16} \<longrightarrow> xr m' r = xr m r)"
proof -
  have "opcode_internal_to_host st' kOpcodeName_fcmovb < 0x1000" "opcode_internal_to_host st' kOpcodeName_f2xm1 < 0x1000"
    "opcode_internal_to_host st' kOpcodeName_arpl < 0x1000"
    using assms(5) by (simp_all add: filterOpcodeIdsFit_def word_le_nat_alt word_less_nat_alt)
  note filter_runs [OF this, of base stash m ws]
  moreover have "filter_claims (opcode_internal_to_host st' kOpcodeName_fcmovb) (opcode_internal_to_host st' kOpcodeName_f2xm1)
      (opcode_internal_to_host st' kOpcodeName_arpl) (load 2 (xr m 2 + 0x50 * xr m 4 + 4) (mem m)) \<longleftrightarrow>
    is_x87_opcode op \<or> op = kOpcodeName_arpl"
    using claims_are_opcodes [OF assms(1-5), of "ucast (load 2 (xr m 2 + 0x50 * xr m 4 + 4) (mem m))"] assms(6)
    by (simp only: half_narrow)
  ultimately show ?thesis by (simp only:)
qed

lemma names_26_4_distinct: "distinct names_26_4"
proof -
  have "i = j" if "i < 668" "j < 668" "names_26_4 ! i = names_26_4 ! j" for i j
  proof -
    have "move_from (word_of_nat i) = move_from (word_of_nat j)"
      using names_26_4_by_name [of i] names_26_4_by_name [of j] that by simp
    then have "(word_of_nat i :: u16) = word_of_nat j" by (metis move_inverse(1))
    then show ?thesis using that by (simp add: word_unat_eq_iff unsigned_of_nat take_bit_nat_eq_self)
  qed
  then show ?thesis by (auto simp: distinct_conv_nth names_26_4_length)
qed

lemma runtime_26_4_fits: "filterOpcodeIdsFit (opcode_set_host_table names_26_4 st)"
  by (simp add: filterOpcodeIdsFit_def runtime_26_4_numbers move_to_def)

end
