(* ===== verification/Stub_Request.thy ===== *)
theory Stub_Request
  imports Stub_Words
begin

text \<open>
  What the request stub does, trap by trap: the request it sends, how it repeats an interrupted one, and what it
  makes of the reply.
\<close>

section \<open>Running a stretch\<close>

fun stretch :: "u64 \<Rightarrow> nat \<Rightarrow> u32 list \<Rightarrow> nat \<Rightarrow> mach \<Rightarrow> (mach \<Rightarrow> mach) list \<Rightarrow> config option" where
  "stretch base n [] ix m ws = Some (At ix m ws)"
| "stretch base n (v # vs) ix m ws =
     (case stub_word base n v ix m ws of
        Some (At k m' ws') \<Rightarrow> if k = Suc ix then stretch base n vs (Suc ix) m' ws' else None
      | _ \<Rightarrow> None)"

lemma stretch_leads:
  "take (length vs) (drop ix code) = vs \<Longrightarrow> stretch base (length code) vs ix m ws = Some d \<Longrightarrow> leads base code d e \<Longrightarrow>
   leads base code (At ix m ws) e"
proof (induction vs arbitrary: ix m ws)
  case (Cons v vs)
  have l: "ix < length code" using Cons.prems(1) by (cases "ix < length code") auto
  then have c: "code ! ix = v" "take (length vs) (drop (Suc ix) code) = vs"
    using Cons.prems(1) by (auto simp: Cons_nth_drop_Suc [OF l, symmetric])
  obtain m' ws' where s: "stub_word base (length code) v ix m ws = Some (At (Suc ix) m' ws')"
    "stretch base (length code) vs (Suc ix) m' ws' = Some d"
    using Cons.prems(2) by (auto split: option.splits config.splits if_splits)
  show ?case by (rule at_word [OF l]) (use s c Cons.IH [OF c(2) s(2) Cons.prems(3)] in simp_all)
qed (auto intro: leads.here)

lemma stretch_append:
  "stretch base n (us @ vs) ix m ws =
     (case stretch base n us ix m ws of Some (At k m' ws') \<Rightarrow> stretch base n vs k m' ws' | _ \<Rightarrow> None)"
  by (induction us arbitrary: ix m ws) (auto split: option.splits config.splits)

lemma imm64_value:
  "(((((ucast (half 0 t) AND NOT (push_bit 16 0xFFFF)) OR push_bit 16 (ucast (half 1 t))) AND NOT (push_bit 32 0xFFFF)) OR
     push_bit 32 (ucast (half 2 t))) AND NOT (push_bit 48 0xFFFF)) OR push_bit 48 (ucast (half 3 t)) = t"
  for t :: u64
proof -
  have m: "0xFFFF = (mask 16 :: u64)" by (simp add: mask_eq_exp_minus_1)
  show ?thesis unfolding half_def m
    by (intro bit_word_eqI, rename_tac n, case_tac "n < 32"; case_tac "n < 48") (auto simp: bit_simps)
qed

lemma set_x_again [simp]: "set_x r v (set_x r u m) = set_x r v m"
  by (simp add: set_x_def)

lemma stretch_imm64:
  "rd < 31 \<Longrightarrow> stretch base n (load_imm64 rd v @ vs) ix m ws = stretch base n vs (Suc (Suc (Suc (Suc ix)))) (set_x (uint rd) v m) ws"
  using imm64_value [of v] by (simp add: load_imm64_def stub_does)

lemmas stretch_simps = stub_does set_base_reg base_of_reg tdiv_def stretch_imm64

section \<open>The frame\<close>

text \<open>What the stub has saved in its frame at \<open>b\<close>: the arguments, two more registers and the identity of the
  request.\<close>

definition request_id :: "u64 \<Rightarrow> u64" where
  "request_id b = take_bit 16 (drop_bit 20 b) OR 0x10000000"

definition saved :: "u64 \<Rightarrow> mach \<Rightarrow> mach \<Rightarrow> bool" where
  "saved b m0 m \<longleftrightarrow> spr m = b \<and> load 8 b (mem m) = xr m0 0 \<and> load 8 (b + 8) (mem m) = xr m0 1 \<and> load 8 (b + 16) (mem m) = xr m0 2 \<and>
     load 8 (b + 24) (mem m) = xr m0 3 \<and> load 8 (b + 32) (mem m) = xr m0 4 \<and> load 8 (b + 40) (mem m) = xr m0 5 \<and>
     load 8 (b + 48) (mem m) = xr m0 16 \<and> load 8 (b + 56) (mem m) = xr m0 30 \<and> load 4 (b + 128) (mem m) = request_id b"

text \<open>What a trap may do: write the buffer of the message, which is 64 bytes at \<open>b + 64\<close>, and change any register but
  the stack pointer.\<close>

definition trap_ok :: "u64 \<Rightarrow> (mach \<Rightarrow> mach) \<Rightarrow> bool" where
  "trap_ok b f \<longleftrightarrow> (\<forall>m. spr m = b \<longrightarrow> spr (f m) = b \<and> (\<forall>a. 64 \<le> unat (a - (b + 64)) \<longrightarrow> mem (f m) a = mem m a))"

lemma load_same: "(\<And>j. j < n \<Longrightarrow> h (a + word_of_nat j) = g (a + word_of_nat j)) \<Longrightarrow> load n a h = load n a g"
proof (induction n arbitrary: a)
  case (Suc n)
  have "load n (a + 1) h = load n (a + 1) g"
    by (rule Suc.IH) (use Suc.prems [of "Suc _"] in \<open>simp add: ac_simps\<close>)
  then show ?case using Suc.prems [of 0] by simp
qed simp

lemma trap_keeps:
  assumes "trap_ok b f" "spr m = b" "k \<le> 56 \<or> k = 128"
    and "n \<le> 8"
  shows "load n (b + word_of_nat k) (mem (f m)) = load n (b + word_of_nat k) (mem m)"
proof (rule load_same)
  fix j :: nat assume "j < n"
  then have "j < 8" using assms(4) by simp
  have n: "unat (word_of_nat (k + j) :: u64) = k + j"
    using assms(3) \<open>j < 8\<close> by (auto simp: unsigned_of_nat take_bit_nat_eq_self simp del: of_nat_add)
  have "b + word_of_nat k + word_of_nat j - (b + 64) = word_of_nat (k + j) - 64" by simp
  then have "unat (b + word_of_nat k + word_of_nat j - (b + 64)) \<ge> 64"
    using assms(3) \<open>j < 8\<close> by (simp only: unat_sub_if_size n) (auto simp: word_size)
  then show "mem (f m) (b + word_of_nat k + word_of_nat j) = mem m (b + word_of_nat k + word_of_nat j)"
    using assms(1,2) by (auto simp: trap_ok_def)
qed

lemma saved_trap:
  assumes "trap_ok b f" "saved b m0 m"
  shows "saved b m0 (f m)"
  using assms trap_keeps [OF assms(1), of m 0 8] trap_keeps [OF assms(1), of m 8 8] trap_keeps [OF assms(1), of m 16 8]
    trap_keeps [OF assms(1), of m 24 8] trap_keeps [OF assms(1), of m 32 8] trap_keeps [OF assms(1), of m 40 8]
    trap_keeps [OF assms(1), of m 48 8] trap_keeps [OF assms(1), of m 56 8] trap_keeps [OF assms(1), of m 128 4]
  by (auto simp: saved_def trap_ok_def)

section \<open>The request\<close>

lemma ipc_stretch:
  assumes "ipc_words s p stash abort = pre @ vs @ post" "length pre = ix"
    "stretch base 135 vs ix m ws = Some d" "leads base (ipc_words s p stash abort) d e"
  shows "leads base (ipc_words s p stash abort) (At ix m ws) e"
proof (rule stretch_leads [of vs ix])
  show "take (length vs) (drop ix (ipc_words s p stash abort)) = vs" using assms(1,2) by auto
  show "stretch base (length (ipc_words s p stash abort)) vs ix m ws = Some d" unfolding length_ipc by (rule assms(3))
qed (rule assms(4))

text \<open>What the stub asks of the kernel: to send the message of 64 bytes at \<open>b + 64\<close>, and to receive the reply there.\<close>

definition asks :: "u32 \<Rightarrow> u32 \<Rightarrow> u64 \<Rightarrow> mach \<Rightarrow> bool" where
  "asks s p b m \<longleftrightarrow> xr m 16 = - 47 \<and> xr m 0 = b + 64 \<and> xr m 1 = 0x400000003 \<and> xr m 2 = 0x4000001513 \<and>
     xr m 3 = ucast s OR push_bit 32 (ucast p) \<and> xr m 4 = push_bit 32 (request_id b) \<and> xr m 5 = push_bit 32 (ucast p) \<and>
     xr m 6 = 64 \<and> xr m 7 = 0"

definition body_holds :: "u64 \<Rightarrow> mach \<Rightarrow> mach \<Rightarrow> bool" where
  "body_holds b m0 m \<longleftrightarrow> load 8 (b + 88) (mem m) = xr m0 0 \<and> load 8 (b + 96) (mem m) = xr m0 1 \<and> load 8 (b + 104) (mem m) = xr m0 2 \<and>
     load 8 (b + 112) (mem m) = xr m0 3 \<and> load 8 (b + 120) (mem m) = xr m0 4"

lemma id_word: "take_bit 32 (drop_bit 20 b AND NOT (push_bit 16 0xFFFF)) OR 0x10000000 = request_id b"
    "push_bit 32 (drop_bit 20 b AND NOT (push_bit 16 0xFFFF) OR 0x10000000) = push_bit 32 (request_id b)"
proof -
  have m: "0xFFFF = (mask 16 :: u64)" "0x10000000 = push_bit 28 (1 :: u64)" by (simp_all add: mask_eq_exp_minus_1)
  show "take_bit 32 (drop_bit 20 b AND NOT (push_bit 16 0xFFFF)) OR 0x10000000 = request_id b"
    "push_bit 32 (drop_bit 20 b AND NOT (push_bit 16 0xFFFF) OR 0x10000000) = push_bit 32 (request_id b)"
    unfolding request_id_def m by (rule bit_word_eqI, auto simp: bit_simps)+
qed

lemma request_stretch:
  assumes "b = spr m0 - 192"
  shows "\<exists>m1. stretch base 135 (request_words s p) 0 m0 (f # fs) = Some (At 36 (f m1) fs) \<and>
    saved b m0 m1 \<and> asks s p b m1 \<and> body_holds b m0 m1"
  unfolding request_words_def ipc_prologue_def body_stores_def build_msgh_id_def mach_msg2_call_def
  using id_word [of b] unfolding assms
  by (intro exI conjI, simp add: stretch_simps)
    (simp_all add: saved_def asks_def body_holds_def load_store_same load_store_apart apart_def take_bit_word_beyond_length_eq kMsgBits_def)

section \<open>The dispatch and the check of the reply\<close>

definition agrees :: "int set \<Rightarrow> mach \<Rightarrow> mach \<Rightarrow> bool" where
  "agrees rs m m' \<longleftrightarrow> mem m' = mem m \<and> spr m' = spr m \<and> (\<forall>r. r \<notin> rs \<longrightarrow> xr m' r = xr m r)"

lemma saved_agrees: "agrees rs m m' \<Longrightarrow> saved b m0 m \<Longrightarrow> saved b m0 m'"
  by (simp add: agrees_def saved_def)

lemma ipc_jump:
  assumes "ix < 135" "stub_word base 135 (ipc_words s p stash abort ! ix) ix m ws = Some c"
    "leads base (ipc_words s p stash abort) c d"
  shows "leads base (ipc_words s p stash abort) (At ix m ws) d"
  by (rule at_word [OF _ _ assms(3)]) (use assms in simp_all)

abbreviation (input) kRcvInterrupted :: u64 where "kRcvInterrupted \<equiv> 0x10004005"
abbreviation (input) kSendInterrupted :: u64 where "kSendInterrupted \<equiv> 0x10000007"

lemma dispatch_jumps:
  "ipc_words s p stash abort ! 36 = cbz_w 0 9" "ipc_words s p stash abort ! 40 = b_cond COND_EQ 52"
  "ipc_words s p stash abort ! 44 = b_cond COND_EQ 66"
  by (simp_all add: ipc_words_def nth_append dispatch_words_def)

lemma dispatch_zero:
  assumes "w32 (xr m 0) = 0"
  shows "leads base (ipc_words s p stash abort) (At 36 m ws) (At 45 m ws)"
  by (rule ipc_jump) (use assms in \<open>auto simp: dispatch_jumps stub_does intro: leads.here\<close>)

lemma dispatch_first:
  assumes "w32 (xr m 0) \<noteq> 0"
  shows "stretch base 135 [cbz_w 0 9, movz 13 0x4005 0, movk 13 0x1000 16, cmp_reg_w 0 13] 36 m ws =
    Some (At 40 (compared False (w32 (xr m 0)) kRcvInterrupted (set_x 13 kRcvInterrupted m)) ws)"
  using assms by (simp add: stretch_simps w32_less)

lemma dispatch_second:
  "stretch base 135 [movz 13 7 0, movk 13 0x1000 16, cmp_reg_w 0 13] 41 m ws =
    Some (At 44 (compared False (w32 (xr m 0)) kSendInterrupted (set_x 13 kSendInterrupted m)) ws)"
  by (simp add: stretch_simps w32_less)

lemma dispatch:
  "\<exists>m'. agrees {13} m m' \<and> leads base (ipc_words s p stash abort) (At 36 m ws)
     (At (if w32 (xr m 0) = kRcvInterrupted then 92 else if w32 (xr m 0) = kSendInterrupted then 110 else 45) m' ws)"
proof (cases "w32 (xr m 0) = 0")
  case True
  then show ?thesis using dispatch_zero by (intro exI [of _ m]) (auto simp: agrees_def)
next
  case False
  let ?code = "ipc_words s p stash abort"
  let ?m1 = "compared False (w32 (xr m 0)) kRcvInterrupted (set_x 13 kRcvInterrupted m)"
  let ?m2 = "compared False (w32 (xr ?m1 0)) kSendInterrupted (set_x 13 kSendInterrupted ?m1)"
  have one: "leads base ?code (At 40 ?m1 ws) e \<Longrightarrow> leads base ?code (At 36 m ws) e" for e
    by (rule ipc_stretch [where pre = "request_words s p", OF _ _ dispatch_first [OF False]]) (simp_all add: ipc_words_def dispatch_words_def)
  have two: "leads base ?code (At 44 ?m2 ws) e \<Longrightarrow> leads base ?code (At 41 ?m1 ws) e" for e
    by (rule ipc_stretch [where pre = "request_words s p @ take 5 dispatch_words", OF _ _ dispatch_second])
      (simp_all add: ipc_words_def dispatch_words_def)
  have c: "holds 0 ?m1 \<longleftrightarrow> w32 (xr m 0) = kRcvInterrupted" "holds 0 ?m2 \<longleftrightarrow> w32 (xr m 0) = kSendInterrupted"
    by (simp_all add: compare32 w32_less)
  have a: "agrees {13} m ?m1" "agrees {13} m ?m2" by (simp_all add: agrees_def)
  consider "holds 0 ?m1" | "\<not> holds 0 ?m1" "holds 0 ?m2" | "\<not> holds 0 ?m1" "\<not> holds 0 ?m2" by blast
  then show ?thesis
  proof cases
    case 1
    then have "leads base ?code (At 36 m ws) (At 92 ?m1 ws)"
      by (intro one, intro ipc_jump) (auto simp: dispatch_jumps stub_does intro: leads.here)
    then show ?thesis using a 1 c by auto
  next
    case 2
    then have "leads base ?code (At 36 m ws) (At 110 ?m2 ws)"
      by (intro one ipc_jump [of 40]) (auto simp: dispatch_jumps stub_does intro!: two ipc_jump [of 44] leads.here)
    then show ?thesis using a 2 c by auto
  next
    case 3
    then have "leads base ?code (At 36 m ws) (At 45 ?m2 ws)"
      by (intro one ipc_jump [of 40]) (auto simp: dispatch_jumps stub_does intro!: two ipc_jump [of 44] leads.here)
    then show ?thesis using a 3 c by auto
  qed
qed

definition asks_again :: "u32 \<Rightarrow> u64 \<Rightarrow> mach \<Rightarrow> bool" where
  "asks_again p b m \<longleftrightarrow> xr m 16 = - 47 \<and> xr m 0 = b + 64 \<and> xr m 1 = 2 \<and> xr m 2 = 0 \<and> xr m 3 = 0 \<and> xr m 4 = 0 \<and>
     xr m 5 = push_bit 32 (ucast p) \<and> xr m 6 = 64 \<and> xr m 7 = 0"

lemma receive_stretch:
  "\<exists>m1. stretch base 135 (mach_msg2_call s p 2 False False) 92 m (f # fs) = Some (At 109 (f m1) fs) \<and>
    mem m1 = mem m \<and> spr m1 = spr m \<and> asks_again p (spr m) m1"
  unfolding mach_msg2_call_def
  by (intro exI conjI, simp add: stretch_simps) (simp_all add: asks_again_def)

lemma resend_stretch:
  assumes "load 4 (spr m + 128) (mem m) = request_id (spr m)"
  shows "\<exists>m1. stretch base 135 (mach_msg2_call s p 0x400000003 True False) 110 m (f # fs) = Some (At 134 (f m1) fs) \<and>
    mem m1 = mem m \<and> spr m1 = spr m \<and> asks s p (spr m) m1"
  unfolding mach_msg2_call_def
  by (intro exI conjI, simp add: stretch_simps assms) (simp_all add: asks_def kMsgBits_def)

lemma back_jumps:
  "ipc_words s p stash abort ! 109 = b_uncond (- 73)" "ipc_words s p stash abort ! 134 = b_uncond (- 98)"
  by (simp_all add: ipc_words_def nth_append)

lemma receive:
  "\<exists>m1. leads base (ipc_words s p stash abort) (At 92 m (f # fs)) (At 36 (f m1) fs) \<and>
    mem m1 = mem m \<and> spr m1 = spr m \<and> asks_again p (spr m) m1"
proof -
  obtain m1 where m1: "stretch base 135 (mach_msg2_call s p 2 False False) 92 m (f # fs) = Some (At 109 (f m1) fs)"
    "mem m1 = mem m" "spr m1 = spr m" "asks_again p (spr m) m1"
    using receive_stretch by blast
  have "leads base (ipc_words s p stash abort) (At 92 m (f # fs)) (At 36 (f m1) fs)"
  proof (rule ipc_stretch [OF _ _ m1(1)])
    show "ipc_words s p stash abort = (request_words s p @ dispatch_words @ check_words @ return_words @ none_words @ abs_jump_3movs stash @
        kr_words @ abs_jump_3movs abort @ size_words @ abs_jump_3movs abort @ id_words @ abs_jump_3movs abort) @
        mach_msg2_call s p 2 False False @ [b_uncond (-73)] @ mach_msg2_call s p 0x400000003 True False @ [b_uncond (-98)]"
      by (simp add: ipc_words_def)
    show "leads base (ipc_words s p stash abort) (At 109 (f m1) fs) (At 36 (f m1) fs)"
      by (rule ipc_jump) (auto simp: back_jumps stub_does intro: leads.here)
  qed simp
  then show ?thesis using m1 by blast
qed

lemma resend:
  assumes "load 4 (spr m + 128) (mem m) = request_id (spr m)"
  shows "\<exists>m1. leads base (ipc_words s p stash abort) (At 110 m (f # fs)) (At 36 (f m1) fs) \<and>
    mem m1 = mem m \<and> spr m1 = spr m \<and> asks s p (spr m) m1"
proof -
  obtain m1 where m1: "stretch base 135 (mach_msg2_call s p 0x400000003 True False) 110 m (f # fs) = Some (At 134 (f m1) fs)"
    "mem m1 = mem m" "spr m1 = spr m" "asks s p (spr m) m1"
    using resend_stretch [OF assms] by blast
  have "leads base (ipc_words s p stash abort) (At 110 m (f # fs)) (At 36 (f m1) fs)"
  proof (rule ipc_stretch [OF _ _ m1(1)])
    show "ipc_words s p stash abort = (request_words s p @ dispatch_words @ check_words @ return_words @ none_words @ abs_jump_3movs stash @
        kr_words @ abs_jump_3movs abort @ size_words @ abs_jump_3movs abort @ id_words @ abs_jump_3movs abort @
        mach_msg2_call s p 2 False False @ [b_uncond (-73)]) @ mach_msg2_call s p 0x400000003 True False @ [b_uncond (-98)]"
      by (simp add: ipc_words_def)
    show "leads base (ipc_words s p stash abort) (At 134 (f m1) fs) (At 36 (f m1) fs)"
      by (rule ipc_jump) (auto simp: back_jumps stub_does intro: leads.here)
  qed simp
  then show ?thesis using m1 by blast
qed

section \<open>What it makes of the reply\<close>

lemma word_operand: "w32 (load 4 a h) = load 4 a h"
  unfolding w32_def by (rule bit_word_eqI) (auto simp: bit_simps load_bit)

lemma bit_31:
  assumes "w32 x = x"
  shows "bit x 31 \<longleftrightarrow> 0x80000000 \<le> x"
proof -
  have l: "unat x < 2 ^ 32"
    using take_bit_nat_less_exp [of 32 "unat x"] by (subst assms [symmetric]) (simp only: w32_def unsigned_take_bit_eq)
  have "bit x 31 \<longleftrightarrow> bit (unat x) 31" by (simp only: bit_unsigned_iff) simp
  also have "\<dots> \<longleftrightarrow> odd (unat x div 2 ^ 31)" by (rule bit_iff_odd)
  also have "\<dots> \<longleftrightarrow> 2 ^ 31 \<le> unat x"
  proof (cases "2 ^ 31 \<le> unat x")
    case True
    then have "unat x div 2 ^ 31 = 1" using l by (intro div_nat_eqI) simp_all
    then show ?thesis using True by simp
  qed simp
  finally show ?thesis by (simp add: word_le_nat_alt)
qed

lemma less_40:
  assumes "w32 a = a"
  shows "holds 11 (compared False a 40 m) \<longleftrightarrow> a < 40 \<or> 0x80000000 \<le> a"
proof -
  have l: "unat a < 2 ^ 32"
    using take_bit_nat_less_exp [of 32 "unat a"] by (subst assms [symmetric]) (simp only: w32_def unsigned_take_bit_eq)
  have w: "unat (w32 (a - 40)) = unat (a - 40) mod 2 ^ 32" unfolding w32_def unsigned_take_bit_eq by (simp add: take_bit_eq_mod)
  have "unat (w32 (a - 40)) = (if unat a < 40 then 2 ^ 32 + unat a - 40 else unat a - 40)"
  proof (cases "unat a < 40")
    case True
    then have "unat (a - 40) = (2 ^ 32 + unat a - 40) + (2 ^ 32 - 1) * 2 ^ 32"
      by (simp add: unat_sub_if_size word_size)
    then show ?thesis using True by (simp only: w mod_mult_self1) simp
  next
    case False
    then have "unat (a - 40) = unat a - 40" by (simp add: unat_sub_if_size)
    then show ?thesis using False l by (simp add: w)
  qed
  then have "bit (w32 (a - 40)) 31 \<longleftrightarrow> a < 40 \<or> 0x80000028 \<le> a"
    using l by (subst bit_31) (auto simp: word_le_nat_alt word_less_nat_alt)
  moreover have "bit a 31 \<longleftrightarrow> 0x80000000 \<le> a" by (rule bit_31 [OF assms])
  moreover have "holds 11 (compared False a 40 m) \<longleftrightarrow> bit a 31 \<or> bit (w32 (a - 40)) 31"
    by (auto simp: holds_def compared_def with_flags_def Let_def width_def add_sub_def w32_def)
  ultimately show ?thesis by (auto simp: word_le_nat_alt word_less_nat_alt)
qed

text \<open>The registers that the stub restores on its way out.\<close>

definition restored :: "int set \<Rightarrow> u64 \<Rightarrow> mach \<Rightarrow> mach \<Rightarrow> bool" where
  "restored rs b m0 m' \<longleftrightarrow> spr m' = b + 192 \<and> (\<forall>r\<in>{0, 1, 2, 3, 4, 5, 16, 30} - rs. xr m' r = xr m0 r)"

definition aborted :: "u64 \<Rightarrow> u64 \<Rightarrow> u64 \<Rightarrow> mach \<Rightarrow> u64 \<Rightarrow> mach \<Rightarrow> bool" where
  "aborted abort v why m0 a m' \<longleftrightarrow> a = take_bit 48 abort \<and> xr m' 0 = v \<and> xr m' 1 = why \<and> xr m' 2 = xr m0 4"

text \<open>Where the stub goes from the machine \<open>m\<close> that the last trap left, and with which registers.\<close>

definition verdict :: "u64 \<Rightarrow> u64 \<Rightarrow> u64 \<Rightarrow> mach \<Rightarrow> mach \<Rightarrow> u64 \<Rightarrow> mach \<Rightarrow> bool" where
  "verdict stash abort b m0 m a m' \<longleftrightarrow> mem m' = mem m \<and>
     (let size = load 4 (b + 68) (mem m); ident = load 4 (b + 84) (mem m); flag = load 4 (b + 96) (mem m) in
      if w32 (xr m 0) \<noteq> 0 then aborted abort (xr m 0) 0 m0 a m'
      else if size < 40 \<or> 0x80000000 \<le> size then aborted abort size 1 m0 a m'
      else if ident \<noteq> request_id b then aborted abort ident 2 m0 a m'
      else if flag \<noteq> 0 then a = xr m0 30 \<and> xr m' 0 = load 8 (b + 88) (mem m) \<and> restored {0} b m0 m'
      else a = take_bit 48 stash \<and> restored {16} b m0 m')"

lemma check_jumps:
  "ipc_words s p stash abort ! 45 = cbnz_w 0 27" "ipc_words s p stash abort ! 48 = b_cond COND_LT 30"
  "ipc_words s p stash abort ! 52 = b_cond COND_NE 33" "ipc_words s p stash abort ! 54 = cbz_w 9 8"
  by (simp_all add: ipc_words_def nth_append check_words_def)

lemma thunk:
  assumes "ipc_words s p stash abort = pre @ vs @ abs_jump_3movs t @ post" "length pre = ix"
    "stretch base 135 vs ix m ws = Some (At (ix + length vs) m' ws)"
  shows "leads base (ipc_words s p stash abort) (At ix m ws) (Gone (take_bit 48 t) (set_x 16 (take_bit 48 t) m') ws)"
proof (rule ipc_stretch [OF assms(1,2,3)])
  let ?k = "ix + length vs"
  have n: "ipc_words s p stash abort ! (?k + j) = abs_jump_3movs t ! j" if "j < 4" for j
    using that assms(2) by (simp add: assms(1) nth_append)
  have "?k + 3 < length (ipc_words s p stash abort)" using assms(2) unfolding assms(1) by simp
  then show "leads base (ipc_words s p stash abort) (At ?k m' ws) (Gone (take_bit 48 t) (set_x 16 (take_bit 48 t) m') ws)"
    using n [of 0] n [of 1] n [of 2] n [of 3]
    by (intro at_abs_jump) (simp_all add: abs_jump_3movs_def numeral_2_eq_2 numeral_3_eq_3)
qed

lemma checks:
  fixes m :: mach
  defines "len \<equiv> load 4 (spr m + 68) (mem m)" and "ident \<equiv> load 4 (spr m + 84) (mem m)"
    and "flag \<equiv> load 4 (spr m + 96) (mem m)" and "sent \<equiv> load 4 (spr m + 128) (mem m)"
  shows "\<exists>m'. agrees {9, 10, 11, 12} m m' \<and> (w32 (xr m 0) = 0 \<longrightarrow> xr m' 10 = len) \<and>
      (w32 (xr m 0) = 0 \<longrightarrow> \<not> (len < 40 \<or> 0x80000000 \<le> len) \<longrightarrow> xr m' 11 = ident) \<and>
      leads base (ipc_words s p stash abort) (At 45 m ws)
        (At (if w32 (xr m 0) \<noteq> 0 then 72 else if len < 40 \<or> 0x80000000 \<le> len then 78
             else if ident \<noteq> sent then 85 else if flag = 0 then 62 else 55) m' ws)"
proof -
  let ?code = "ipc_words s p stash abort"
  let ?m1 = "compared False len 40 (set_x 10 len m)"
  let ?m2 = "compared False ident sent (set_x 12 sent (set_x 11 ident ?m1))"
  let ?m3 = "set_x 9 flag ?m2"
  have w: "w32 len = len" "w32 ident = ident" "w32 sent = sent" "w32 flag = flag"
    by (simp_all add: len_def ident_def sent_def flag_def word_operand)
  have one: "stretch base 135 [ldr_w_offset 10 31 68, cmp_imm_w 10 40] 46 m ws = Some (At 48 ?m1 ws)"
    by (simp add: stretch_simps w flip: len_def)
  have two: "stretch base 135 [ldr_w_offset 11 31 84, ldr_w_offset 12 31 128, cmp_reg_w 11 12] 49 ?m1 ws = Some (At 52 ?m2 ws)"
    by (simp add: stretch_simps w flip: len_def ident_def sent_def)
  have three: "stretch base 135 [ldr_w_offset 9 31 96] 53 ?m2 ws = Some (At 54 ?m3 ws)"
    by (simp add: stretch_simps w flip: len_def ident_def sent_def flag_def)
  have s1: "leads base ?code (At 48 ?m1 ws) e \<Longrightarrow> leads base ?code (At 46 m ws) e" for e
    by (rule ipc_stretch [where pre = "request_words s p @ dispatch_words @ take 1 check_words", OF _ _ one])
      (simp_all add: ipc_words_def check_words_def)
  have s2: "leads base ?code (At 52 ?m2 ws) e \<Longrightarrow> leads base ?code (At 49 ?m1 ws) e" for e
    by (rule ipc_stretch [where pre = "request_words s p @ dispatch_words @ take 4 check_words", OF _ _ two])
      (simp_all add: ipc_words_def check_words_def)
  have s3: "leads base ?code (At 54 ?m3 ws) e \<Longrightarrow> leads base ?code (At 53 ?m2 ws) e" for e
    by (rule ipc_stretch [where pre = "request_words s p @ dispatch_words @ take 8 check_words", OF _ _ three])
      (simp_all add: ipc_words_def check_words_def)
  have c: "holds 11 ?m1 \<longleftrightarrow> len < 40 \<or> 0x80000000 \<le> len" "holds 1 ?m2 \<longleftrightarrow> ident \<noteq> sent"
    using w by (simp_all add: less_40 compare32)
  have a: "agrees {9, 10, 11, 12} m m'" if "m' \<in> {m, ?m1, ?m2, ?m3}" for m'
    using that by (auto simp: agrees_def)
  have n: "leads base ?code (At 46 m ws) e \<Longrightarrow> leads base ?code (At 45 m ws) e" if "w32 (xr m 0) = 0" for e
    by (rule ipc_jump) (use that in \<open>auto simp: check_jumps stub_does\<close>)
  have n1: "leads base ?code (At 49 ?m1 ws) e \<Longrightarrow> leads base ?code (At 48 ?m1 ws) e" if "\<not> holds 11 ?m1" for e
    by (rule ipc_jump) (use that in \<open>auto simp: check_jumps stub_does\<close>)
  have n2: "leads base ?code (At 53 ?m2 ws) e \<Longrightarrow> leads base ?code (At 52 ?m2 ws) e" if "\<not> holds 1 ?m2" for e
    by (rule ipc_jump) (use that in \<open>auto simp: check_jumps stub_does\<close>)
  have flagged: "leads base ?code (At 54 ?m3 ws) (At (if flag = 0 then 62 else 55) ?m3 ws)"
    by (cases "flag = 0"; rule ipc_jump) (use w in \<open>auto simp: check_jumps stub_does intro: leads.here\<close>)
  have through: "leads base ?code (At 45 m ws) (At (if flag = 0 then 62 else 55) ?m3 ws)"
    if "w32 (xr m 0) = 0" "\<not> holds 11 ?m1" "\<not> holds 1 ?m2"
    by (rule n [OF that(1)], rule s1, rule n1 [OF that(2)], rule s2, rule n2 [OF that(3)], rule s3, rule flagged)
  let ?bad = "len < 40 \<or> 0x80000000 \<le> len"
  consider "w32 (xr m 0) \<noteq> 0" | "w32 (xr m 0) = 0" "?bad" | "w32 (xr m 0) = 0" "\<not> ?bad" "ident \<noteq> sent"
    | "w32 (xr m 0) = 0" "\<not> ?bad" "ident = sent"
    by blast
  then show ?thesis
  proof cases
    case 1
    then have "leads base ?code (At 45 m ws) (At 72 m ws)"
      by (intro ipc_jump [of 45]) (auto simp: check_jumps stub_does intro: leads.here)
    then show ?thesis using 1 a by (intro exI [of _ m]) simp
  next
    case 2
    then have "leads base ?code (At 45 m ws) (At 78 ?m1 ws)"
      by (intro ipc_jump [of 45]) (auto simp: check_jumps stub_does c intro!: s1 ipc_jump [of 48] intro: leads.here)
    then show ?thesis using 2 a by (intro exI [of _ ?m1]) simp
  next
    case 3
    then have "leads base ?code (At 45 m ws) (At 85 ?m2 ws)"
      by (intro ipc_jump [of 45]) (auto simp: check_jumps stub_does c intro!: s1 s2 ipc_jump [of 48] ipc_jump [of 52] intro: leads.here)
    then show ?thesis using 3 a by (intro exI [of _ ?m2]) simp
  next
    case 4
    then have "leads base ?code (At 45 m ws) (At (if flag = 0 then 62 else 55) ?m3 ws)" using through c by blast
    then show ?thesis using 4 a by (intro exI [of _ ?m3]) simp
  qed
qed

section \<open>The ways out\<close>

lemma ipc_splits:
  "ipc_words s p stash abort = (request_words s p @ dispatch_words @ check_words) @ return_words @
     none_words @ abs_jump_3movs stash @ kr_words @ abs_jump_3movs abort @ size_words @ abs_jump_3movs abort @ id_words @ abs_jump_3movs abort @
     mach_msg2_call s p 2 False False @ [b_uncond (-73)] @ mach_msg2_call s p 0x400000003 True False @ [b_uncond (-98)]"
  "ipc_words s p stash abort = (request_words s p @ dispatch_words @ check_words @ return_words) @ none_words @ abs_jump_3movs stash @
     kr_words @ abs_jump_3movs abort @ size_words @ abs_jump_3movs abort @ id_words @ abs_jump_3movs abort @
     mach_msg2_call s p 2 False False @ [b_uncond (-73)] @ mach_msg2_call s p 0x400000003 True False @ [b_uncond (-98)]"
  "ipc_words s p stash abort = (request_words s p @ dispatch_words @ check_words @ return_words @ none_words @ abs_jump_3movs stash) @
     kr_words @ abs_jump_3movs abort @ size_words @ abs_jump_3movs abort @ id_words @ abs_jump_3movs abort @
     mach_msg2_call s p 2 False False @ [b_uncond (-73)] @ mach_msg2_call s p 0x400000003 True False @ [b_uncond (-98)]"
  "ipc_words s p stash abort = (request_words s p @ dispatch_words @ check_words @ return_words @ none_words @ abs_jump_3movs stash @
     kr_words @ abs_jump_3movs abort) @ size_words @ abs_jump_3movs abort @ id_words @ abs_jump_3movs abort @
     mach_msg2_call s p 2 False False @ [b_uncond (-73)] @ mach_msg2_call s p 0x400000003 True False @ [b_uncond (-98)]"
  "ipc_words s p stash abort = (request_words s p @ dispatch_words @ check_words @ return_words @ none_words @ abs_jump_3movs stash @
     kr_words @ abs_jump_3movs abort @ size_words @ abs_jump_3movs abort) @ id_words @ abs_jump_3movs abort @
     mach_msg2_call s p 2 False False @ [b_uncond (-73)] @ mach_msg2_call s p 0x400000003 True False @ [b_uncond (-98)]"
  by (simp_all add: ipc_words_def)

definition exits :: "u64 \<Rightarrow> u32 list \<Rightarrow> nat \<Rightarrow> mach \<Rightarrow> (mach \<Rightarrow> mach) list \<Rightarrow> (u64 \<Rightarrow> mach \<Rightarrow> bool) \<Rightarrow> bool" where
  "exits base code ix m ws P \<longleftrightarrow> (\<exists>a m'. leads base code (At ix m ws) (Gone a m' ws) \<and> P a m')"

lemma exits_leads: "leads base code (At ix m ws) (At k m' ws) \<Longrightarrow> exits base code k m' ws P \<Longrightarrow> exits base code ix m ws P"
  unfolding exits_def using leads_trans by blast

lemma exits_mono: "exits base code ix m ws P \<Longrightarrow> (\<And>a m'. P a m' \<Longrightarrow> Q a m') \<Longrightarrow> exits base code ix m ws Q"
  unfolding exits_def by blast

lemma abort_exits:
  assumes "saved b m0 m"
  shows "exits base (ipc_words s p stash abort) 72 m ws (\<lambda>a m'. mem m' = mem m \<and> aborted abort (xr m 0) 0 m0 a m')"
    "exits base (ipc_words s p stash abort) 78 m ws (\<lambda>a m'. mem m' = mem m \<and> aborted abort (xr m 10) 1 m0 a m')"
    "exits base (ipc_words s p stash abort) 85 m ws (\<lambda>a m'. mem m' = mem m \<and> aborted abort (xr m 11) 2 m0 a m')"
  unfolding exits_def
  subgoal
    by (intro exI conjI, rule thunk [OF ipc_splits(3)], simp, simp add: kr_words_def stretch_simps)
      (use assms in \<open>simp_all add: aborted_def saved_def\<close>)
  subgoal
    by (intro exI conjI, rule thunk [OF ipc_splits(4)], simp, simp add: size_words_def stretch_simps)
      (use assms in \<open>simp_all add: aborted_def saved_def\<close>)
  subgoal
    by (intro exI conjI, rule thunk [OF ipc_splits(5)], simp, simp add: id_words_def stretch_simps)
      (use assms in \<open>simp_all add: aborted_def saved_def\<close>)
  done

lemma none_exits:
  assumes "saved b m0 m"
  shows "exits base (ipc_words s p stash abort) 62 m ws (\<lambda>a m'. mem m' = mem m \<and> a = take_bit 48 stash \<and> restored {16} b m0 m')"
  unfolding exits_def
  by (intro exI conjI, rule thunk [OF ipc_splits(2)], simp, simp add: none_words_def stretch_simps)
    (use assms in \<open>auto simp: restored_def saved_def add.commute [of _ b]\<close>)

lemma return_stretch:
  "stretch base 135 (butlast return_words) 55 m ws = Some (At 61 (set_base 31 (spr m + 192)
     (set_x 30 (load 8 (spr m + 56) (mem m)) (set_x 16 (load 8 (spr m + 48) (mem m)) (set_x 5 (load 8 (spr m + 40) (mem m))
     (set_x 4 (load 8 (spr m + 32) (mem m)) (set_x 3 (load 8 (spr m + 24) (mem m)) (set_x 2 (load 8 (spr m + 16) (mem m))
     (set_x 1 (load 8 (spr m + 8) (mem m)) (set_x 0 (load 8 (spr m + 88) (mem m)) m))))))))) ws)"
  by (simp add: return_words_def stretch_simps add.commute [of _ "spr m"])

lemma return_exits:
  assumes "saved b m0 m"
  shows "exits base (ipc_words s p stash abort) 55 m ws (\<lambda>a m'. mem m' = mem m \<and> a = xr m0 30 \<and>
    xr m' 0 = load 8 (b + 88) (mem m) \<and> restored {0} b m0 m')"
proof -
  let ?code = "ipc_words s p stash abort"
  obtain m' where m': "stretch base 135 (butlast return_words) 55 m ws = Some (At 61 m' ws)"
    "mem m' = mem m" "xr m' 30 = xr m0 30" "xr m' 0 = load 8 (b + 88) (mem m)" "restored {0} b m0 m'"
    using assms by (auto simp: return_stretch restored_def saved_def)
  have "?code ! 61 = 0xD65F03C0" by (simp add: ipc_words_def nth_append return_words_def)
  then have r: "leads base ?code (At 61 m' ws) (Gone (xr m' 30) m' ws)"
    by (intro ipc_jump) (auto simp: stub_does intro: leads.here)
  have d: "?code = (request_words s p @ dispatch_words @ check_words) @ butlast return_words @ drop 61 ?code"
    by (simp add: ipc_words_def return_words_def)
  have "leads base ?code (At 55 m ws) (Gone (xr m' 30) m' ws)" by (rule ipc_stretch [OF d _ m'(1) r]) simp
  then show ?thesis using m' by (auto simp: exits_def)
qed

lemma verdict_reached:
  assumes "saved b m0 m" "w32 (xr m 0) \<noteq> kRcvInterrupted" "w32 (xr m 0) \<noteq> kSendInterrupted"
  shows "exits base (ipc_words s p stash abort) 36 m ws (verdict stash abort b m0 m)"
proof -
  let ?code = "ipc_words s p stash abort"
  obtain m1 where m1: "agrees {13} m m1" "leads base ?code (At 36 m ws) (At 45 m1 ws)"
    using dispatch [of m base s p stash abort ws] assms(2,3) by auto
  have s1: "saved b m0 m1" by (rule saved_agrees [OF m1(1) assms(1)])
  have e1: "mem m1 = mem m" "xr m1 0 = xr m 0" "spr m1 = b" using m1(1) assms(1) by (auto simp: agrees_def saved_def)
  obtain m2 where m2: "agrees {9, 10, 11, 12} m1 m2"
    "w32 (xr m 0) = 0 \<longrightarrow> xr m2 10 = load 4 (b + 68) (mem m)"
    "w32 (xr m 0) = 0 \<longrightarrow> \<not> (load 4 (b + 68) (mem m) < 40 \<or> 0x80000000 \<le> load 4 (b + 68) (mem m)) \<longrightarrow> xr m2 11 = load 4 (b + 84) (mem m)"
    "leads base ?code (At 45 m1 ws) (At (if w32 (xr m 0) \<noteq> 0 then 72
       else if load 4 (b + 68) (mem m) < 40 \<or> 0x80000000 \<le> load 4 (b + 68) (mem m) then 78
       else if load 4 (b + 84) (mem m) \<noteq> load 4 (b + 128) (mem m) then 85 else if load 4 (b + 96) (mem m) = 0 then 62 else 55) m2 ws)"
    using checks [of m1 base s p stash abort ws] unfolding e1 by blast
  have s2: "saved b m0 m2" by (rule saved_agrees [OF m2(1) s1])
  have e2: "mem m2 = mem m" "xr m2 0 = xr m 0" "load 4 (b + 128) (mem m) = request_id b"
    using m2(1) e1 assms(1) by (auto simp: agrees_def saved_def)
  note ways = abort_exits [OF s2, where base = base and s = s and p = p and stash = stash and abort = abort and ws = ws]
    none_exits [OF s2, where base = base and s = s and p = p and stash = stash and abort = abort and ws = ws]
    return_exits [OF s2, where base = base and s = s and p = p and stash = stash and abort = abort and ws = ws]
  let ?ix = "if w32 (xr m 0) \<noteq> 0 then 72 else if load 4 (b + 68) (mem m) < 40 \<or> 0x80000000 \<le> load 4 (b + 68) (mem m) then 78
       else if load 4 (b + 84) (mem m) \<noteq> request_id b then 85 else if load 4 (b + 96) (mem m) = 0 then 62 else 55"
  have "exits base ?code ?ix m2 ws (verdict stash abort b m0 m)"
    unfolding verdict_def Let_def using ways e2 m2(2,3) by (auto elim!: exits_mono)
  then show ?thesis using exits_leads [OF leads_trans [OF m1(2) m2(4)]] unfolding e2(3) by blast
qed

section \<open>The protocol\<close>

definition interrupted :: "(mach \<Rightarrow> mach) \<Rightarrow> bool" where
  "interrupted f \<longleftrightarrow> (\<forall>m. w32 (xr (f m) 0) = kRcvInterrupted \<or> w32 (xr (f m) 0) = kSendInterrupted)"

definition answers :: "(mach \<Rightarrow> mach) \<Rightarrow> bool" where
  "answers f \<longleftrightarrow> (\<forall>m. w32 (xr (f m) 0) \<noteq> kRcvInterrupted \<and> w32 (xr (f m) 0) \<noteq> kSendInterrupted)"

text \<open>One more trap after an interrupted one.\<close>

lemma trap_again:
  assumes "saved b m0 m" "w32 (xr m 0) = kRcvInterrupted \<or> w32 (xr m 0) = kSendInterrupted"
  shows "\<exists>m1. saved b m0 m1 \<and> leads base (ipc_words s p stash abort) (At 36 m (f # fs)) (At 36 (f m1) fs)"
proof -
  let ?code = "ipc_words s p stash abort"
  obtain m' where m': "agrees {13} m m'" "leads base ?code (At 36 m (f # fs))
      (At (if w32 (xr m 0) = kRcvInterrupted then 92 else if w32 (xr m 0) = kSendInterrupted then 110 else 45) m' (f # fs))"
    using dispatch by blast
  have s: "saved b m0 m'" by (rule saved_agrees [OF m'(1) assms(1)])
  then have i: "load 4 (spr m' + 128) (mem m') = request_id (spr m')" by (simp add: saved_def)
  have "\<exists>m1. saved b m0 m1 \<and> leads base ?code
      (At (if w32 (xr m 0) = kRcvInterrupted then 92 else if w32 (xr m 0) = kSendInterrupted then 110 else 45) m' (f # fs)) (At 36 (f m1) fs)"
  proof (cases "w32 (xr m 0) = kRcvInterrupted")
    case True
    then show ?thesis using receive [of base s p stash abort m' f fs] s by (auto simp: saved_def)
  next
    case False
    then show ?thesis using resend [OF i, of base s p stash abort f fs] s assms(2) by (auto simp: saved_def)
  qed
  then show ?thesis using leads_trans [OF m'(2)] by blast
qed

lemma interrupted_traps:
  "saved b m0 m \<Longrightarrow> w32 (xr m 0) = kRcvInterrupted \<or> w32 (xr m 0) = kSendInterrupted \<Longrightarrow> \<forall>g\<in>set gs. trap_ok b g \<and> interrupted g \<Longrightarrow>
   \<exists>m1. saved b m0 m1 \<and> leads base (ipc_words s p stash abort) (At 36 m (gs @ [f])) (At 36 (f m1) [])"
proof (induction gs arbitrary: m)
  case Nil
  then show ?case using trap_again by (metis append_Nil)
next
  case (Cons g gs)
  obtain m1 where m1: "saved b m0 m1" "leads base (ipc_words s p stash abort) (At 36 m (g # gs @ [f])) (At 36 (g m1) (gs @ [f]))"
    using trap_again [OF Cons.prems(1,2)] by blast
  have "saved b m0 (g m1)" using Cons.prems(3) saved_trap m1(1) by auto
  moreover have "w32 (xr (g m1) 0) = kRcvInterrupted \<or> w32 (xr (g m1) 0) = kSendInterrupted"
    using Cons.prems(3) by (simp add: interrupted_def)
  ultimately obtain m2 where "saved b m0 m2" "leads base (ipc_words s p stash abort) (At 36 (g m1) (gs @ [f])) (At 36 (f m2) [])"
    using Cons.IH Cons.prems(3) by auto
  then show ?case using leads_trans [OF m1(2)] by auto
qed

lemma first_trap:
  "\<exists>m1. leads base (ipc_words s p stash abort) (At 0 m0 (f # fs)) (At 36 (f m1) fs) \<and>
    saved (spr m0 - 192) m0 m1 \<and> asks s p (spr m0 - 192) m1 \<and> body_holds (spr m0 - 192) m0 m1"
proof -
  obtain m1 where m1: "stretch base 135 (request_words s p) 0 m0 (f # fs) = Some (At 36 (f m1) fs)"
    "saved (spr m0 - 192) m0 m1 \<and> asks s p (spr m0 - 192) m1 \<and> body_holds (spr m0 - 192) m0 m1"
    using request_stretch [OF refl] by blast
  have "leads base (ipc_words s p stash abort) (At 0 m0 (f # fs)) (At 36 (f m1) fs)"
    by (rule ipc_stretch [where pre = "[]", OF _ _ m1(1) leads.here]) (simp_all add: ipc_words_def)
  then show ?thesis using m1(2) by blast
qed

text \<open>The first trap sends the request to the sidecar's port with the reply port named, at most 64 bytes to be
  received, a body of the five arguments of the routine the stub replaced, and an identity made from the stack
  pointer.\<close>

lemma ipc_carries_arguments:
  "\<exists>m1. leads base (ipc_words s p stash abort) (At 0 m0 (f # fs)) (At 36 (f m1) fs) \<and>
    asks s p (spr m0 - 192) m1 \<and> body_holds (spr m0 - 192) m0 m1"
  using first_trap by blast

text \<open>Whatever the kernel does within the message buffer and the scratch registers, and however many traps are
  interrupted, the stub ends by acting on the first reply that is not: it returns the sidecar's result, or goes on to
  the stashed routine, with all arguments, the return address and the stack pointer as they were, or aborts with the
  reason and the offending value.\<close>

lemma ipc_protocol:
  assumes "\<forall>g\<in>set gs. trap_ok (spr m0 - 192) g \<and> interrupted g" "trap_ok (spr m0 - 192) f" "answers f"
  shows "\<exists>m1 a m'. leads base (ipc_words s p stash abort) (At 0 m0 (gs @ [f])) (Gone a m' []) \<and>
    saved (spr m0 - 192) m0 m1 \<and> verdict stash abort (spr m0 - 192) m0 (f m1) a m'"
proof -
  let ?code = "ipc_words s p stash abort" and ?b = "spr m0 - 192"
  have "\<exists>m1. saved ?b m0 m1 \<and> leads base ?code (At 0 m0 (gs @ [f])) (At 36 (f m1) [])"
  proof (cases gs)
    case Nil
    then show ?thesis using first_trap [of base s p stash abort m0 f "[]"] by auto
  next
    case (Cons g hs)
    obtain m1 where m1: "leads base ?code (At 0 m0 (g # hs @ [f])) (At 36 (g m1) (hs @ [f]))" "saved ?b m0 m1"
      using first_trap by blast
    have "saved ?b m0 (g m1)" "w32 (xr (g m1) 0) = kRcvInterrupted \<or> w32 (xr (g m1) 0) = kSendInterrupted"
      using assms(1) Cons saved_trap m1(2) by (auto simp: interrupted_def)
    then show ?thesis using interrupted_traps [where gs = hs] leads_trans [OF m1(1)] assms(1) Cons by (metis append_Cons list.set_intros(2))
  qed
  then obtain m1 where m1: "saved ?b m0 m1" "leads base ?code (At 0 m0 (gs @ [f])) (At 36 (f m1) [])" by blast
  have "exits base ?code 36 (f m1) [] (verdict stash abort ?b m0 (f m1))"
    using verdict_reached [OF saved_trap [OF assms(2) m1(1)]] assms(3) by (simp add: answers_def)
  then show ?thesis using m1 leads_trans unfolding exits_def by blast
qed

end
