(* ===== verification/Stub_Handler.thy ===== *)
theory Stub_Handler
  imports Stub_Filter Stub_Request
begin

text \<open>
  The handler as it is written into the runtime: its bytes read as instructions, the filter and the request in their
  places.
\<close>

section \<open>Reading bytes as instructions\<close>

fun words_of :: "u8 list \<Rightarrow> u32 list" where
  "words_of (a # b # c # d # bs) = (ucast a OR push_bit 8 (ucast b) OR push_bit 16 (ucast c) OR push_bit 24 (ucast d)) # words_of bs"
| "words_of _ = []"

lemma byte_bit: "bit (push_bit t (ucast (ucast (drop_bit t w) :: u8) :: u32)) n \<longleftrightarrow> t \<le> n \<and> n < t + 8 \<and> n < 32 \<and> bit w n"
    "bit (ucast (ucast w :: u8) :: u32) n \<longleftrightarrow> n < 8 \<and> bit w n" for w :: u32
  by (auto simp: bit_simps)

lemma word_of_bytes:
  "ucast (ucast w :: u8) OR push_bit 8 (ucast (ucast (drop_bit 8 w) :: u8)) OR push_bit 16 (ucast (ucast (drop_bit 16 w) :: u8)) OR
     push_bit 24 (ucast (ucast (drop_bit 24 w) :: u8)) = w" for w :: u32
  by (rule bit_word_eqI) (unfold bit_or_iff byte_bit, auto)

lemma words_of_emit: "words_of (emit_all ws [] @ bs) = ws @ words_of bs"
  by (induction ws) (simp_all add: emit_all_def word_bytes_def word_of_bytes)

section \<open>Code within code\<close>

definition calls_none :: "u32 list \<Rightarrow> bool" where
  "calls_none code \<longleftrightarrow> list_all (\<lambda>w. case decode_stub w of Some (CallTo k) \<Rightarrow> False | _ \<Rightarrow> True) code"

fun moved :: "nat \<Rightarrow> config \<Rightarrow> config" where
  "moved n (At ix m ws) = At (n + ix) m ws"
| "moved n (Gone a m ws) = Gone a m ws"

lemma moved_exec:
  assumes "\<And>k. i \<noteq> CallTo k" "stub_exec base n i ix m ws = Some c"
  shows "stub_exec base' n' i (l + ix) m ws = Some (moved l c)"
  using assms
  by (cases i) (auto simp: Let_def nat_add_distrib split: option.splits if_splits list.splits)

lemma moved_leads:
  assumes "leads base code c d" "calls_none code"
  shows "leads base' (pre @ code @ post) (moved (length pre) c) (moved (length pre) d)"
  using assms(1)
proof (induction rule: leads.induct)
  case (on c c' c'')
  have "stub_step base' (pre @ code @ post) (moved (length pre) c) = Some (moved (length pre) c')"
  proof (cases c)
    case (At ix m ws)
    then obtain i where i: "ix < length code" "decode_stub (code ! ix) = Some i" "stub_exec base (length code) i ix m ws = Some c'"
      using on.hyps(1) by (auto split: if_splits option.splits)
    have "\<And>k. i \<noteq> CallTo k" using assms(2) i(1,2) by (auto simp: calls_none_def list_all_length)
    from moved_exec [OF this i(3)] show ?thesis using i by (simp add: At nth_append)
  qed (use on.hyps(1) in simp)
  then show ?case using on.IH leads.on by blast
qed (rule leads.here)

section \<open>The handler\<close>

definition stub_code :: "opcode_maps \<Rightarrow> u64 \<Rightarrow> u64 \<Rightarrow> u8 list \<Rightarrow> u32 \<Rightarrow> u32 \<Rightarrow> u32 list" where
  "stub_code maps h t prologue s p = words_of (handler (stub_build maps h t prologue s p))"

text \<open>The number of an instruction's opcode, as the filter reads it from the block.\<close>

definition block_opcode :: "mach \<Rightarrow> u16" where
  "block_opcode m = ucast (load 2 (xr m 2 + 0x50 * xr m 4 + 4) (mem m))"

lemma stub_code_layout:
  assumes "length prologue = 16" "filterOpcodeIdsFit maps" "unat h + 888 < 2 ^ 48"
  shows "stub_code maps h t prologue s p =
    filter_code (opcode_internal_to_host maps kOpcodeName_fcmovb) (opcode_internal_to_host maps kOpcodeName_f2xm1)
      (opcode_internal_to_host maps kOpcodeName_arpl) (h + 600) @
    ipc_words s p (h + 600) (h + 632) @ words_of prologue @ abs_jump_3movs (t + 16) @ abort_routine_code (h + 824) @
    words_of (append_abort_msg_template [])"
proof -
  have p: "words_of (prologue @ bs) = words_of prologue @ words_of bs" for bs
    using assms(1) by (simp add: numeral_eq_Suc length_Suc_conv) (elim exE conjE, simp)
  have t: "append_abort_msg_template out = out @ append_abort_msg_template []" for out
    by (simp add: append_abort_msg_template_def)
  show ?thesis
    unfolding stub_code_def handler_layout [OF assms] Let_def
    by (simp add: words_of_emit p t [of "_ @ _"])
qed

lemma ipc_calls_none: "calls_none (ipc_words s p a b)"
  by (simp add: calls_none_def ipc_words_def ipc_parts ipc_prologue_def body_stores_def build_msgh_id_def mach_msg2_call_def
    load_imm64_def abs_jump_3movs_def stub_decodes stub_decode_ret)

lemma filter_calls_none: "calls_none (filter_code a b c d)"
  by (simp add: calls_none_def filter_code_def abs_jump_3movs_def stub_decodes)

lemma high16_set: "2 ^ 48 \<le> unat h \<Longrightarrow> h AND high16 \<noteq> 0"
proof
  assume l: "2 ^ 48 \<le> unat h" and z: "h AND high16 = 0"
  have "mask 48 OR high16 = -1" by (simp add: mask_eq_exp_minus_1 high16_def)
  then have "h = (h AND mask 48) OR (h AND high16)" by (metis and.right_neutral bit.conj_disj_distrib)
  then have "unat h = take_bit 48 (unat h)" using z by (metis or.right_neutral take_bit_eq_mask unsigned_take_bit_eq)
  then show False using l take_bit_nat_less_exp [of 48 "unat h"] by simp
qed

lemma handler_address:
  fixes h k :: u64
  assumes "unat h + 888 < 2 ^ 48" "unat k \<le> 888"
  shows "take_bit 48 (h + k) = h + k"
proof -
  have "unat (h + k) < 2 ^ 48" using assms by (simp add: unat_word_ariths)
  then show ?thesis by (simp add: word_unat_eq_iff unsigned_take_bit_eq take_bit_nat_eq_self)
qed

text \<open>The handler is the filter, the request, the stashed prologue with the jump back behind it, the abort
  routine and its message, each at the address that the jumps into it were given; the entry jumps to the handler; a
  runtime whose numbers do not fit the filter, or an address past what a jump can hold, is refused.\<close>

theorem stub_layout:
  assumes "length prologue = 16"
  shows "(filterOpcodeIdsFit maps \<and> unat h + 888 < 2 ^ 48 \<longrightarrow>
      entry (stub_build maps h t prologue s p) = emit_all (abs_jump_3movs h) [] \<and>
      length (handler (stub_build maps h t prologue s p)) = 888 \<and>
      stub_code maps h t prologue s p =
        filter_code (opcode_internal_to_host maps kOpcodeName_fcmovb) (opcode_internal_to_host maps kOpcodeName_f2xm1)
          (opcode_internal_to_host maps kOpcodeName_arpl) (h + 600) @
        ipc_words s p (h + 600) (h + 632) @ words_of prologue @ abs_jump_3movs (t + 16) @ abort_routine_code (h + 824) @
        words_of (append_abort_msg_template [])) \<and>
    (\<not> filterOpcodeIdsFit maps \<or> 2 ^ 48 \<le> unat h \<longrightarrow> entry (stub_build maps h t prologue s p) = [])"
proof (intro conjI impI; (elim conjE)?)
  assume f: "filterOpcodeIdsFit maps" "unat h + 888 < 2 ^ 48"
  note l = handler_layout [OF assms f, of t s p]
  show "entry (stub_build maps h t prologue s p) = emit_all (abs_jump_3movs h) []"
    "length (handler (stub_build maps h t prologue s p)) = 888"
    using assms by (simp_all add: l Let_def template_length)
  show "stub_code maps h t prologue s p = filter_code (opcode_internal_to_host maps kOpcodeName_fcmovb)
      (opcode_internal_to_host maps kOpcodeName_f2xm1) (opcode_internal_to_host maps kOpcodeName_arpl) (h + 600) @
      ipc_words s p (h + 600) (h + 632) @ words_of prologue @ abs_jump_3movs (t + 16) @ abort_routine_code (h + 824) @
      words_of (append_abort_msg_template [])"
    by (rule stub_code_layout [OF assms f])
next
  assume r: "\<not> filterOpcodeIdsFit maps \<or> 2 ^ 48 \<le> unat h"
  then show "entry (stub_build maps h t prologue s p) = []"
    using high16_set [of h] by (auto simp: stub_build_def Let_def split: prod.splits)
qed

text \<open>C38: for a runtime that passed the check at launch, the handler sends an instruction on to the request exactly
  when its number is that of an x87 opcode or of ARPL, whatever numbers the runtime uses, and otherwise jumps to the
  stashed prologue of the routine it replaced; it changes nothing but registers 9, 10, 11 and 16 and the flags.\<close>

theorem filter_routes_x87:
  assumes "length names < 65535" "distinct names" "st' = opcode_set_host_table names st"
    and "opcodeTableMatches st' names cnt" "filterOpcodeIdsFit st'"
    and "length prologue = 16" "unat h + 888 < 2 ^ 48" "op = opcode_host_to_internal st' (block_opcode m)"
  shows "\<exists>m'. leads base (stub_code st' h t prologue s p) (At 0 m ws)
     (if is_x87_opcode op \<or> op = kOpcodeName_arpl then At 15 m' ws else Gone (h + 600) m' ws) \<and>
     mem m' = mem m \<and> spr m' = spr m \<and> dr m' = dr m \<and> (\<forall>r. r \<notin> {9, 10, 11, 16} \<longrightarrow> xr m' r = xr m r)"
proof -
  obtain m' where m': "leads base (filter_code (opcode_internal_to_host st' kOpcodeName_fcmovb) (opcode_internal_to_host st' kOpcodeName_f2xm1)
       (opcode_internal_to_host st' kOpcodeName_arpl) (h + 600)) (At 0 m ws)
     (if is_x87_opcode op \<or> op = kOpcodeName_arpl then At 15 m' ws else Gone (take_bit 48 (h + 600)) m' ws)"
     "mem m' = mem m \<and> spr m' = spr m \<and> dr m' = dr m \<and> (\<forall>r. r \<notin> {9, 10, 11, 16} \<longrightarrow> xr m' r = xr m r)"
    using filter_routes [OF assms(1-5), of op m base "h + 600" ws] assms(8) by (auto simp: block_opcode_def)
  have "take_bit 48 (h + 600) = h + 600" by (rule handler_address [OF assms(7)]) simp
  note l = m'(1) [unfolded this]
  have "leads base (stub_code st' h t prologue s p) (At 0 m ws)
     (if is_x87_opcode op \<or> op = kOpcodeName_arpl then At 15 m' ws else Gone (h + 600) m' ws)"
    using moved_leads [OF l filter_calls_none, of base "[]"]
    unfolding stub_code_layout [OF assms(6,5,7)] by (cases "is_x87_opcode op \<or> op = kOpcodeName_arpl") simp_all
  then show ?thesis using m'(2) by (intro exI [of _ m'] conjI) blast+
qed

lemma within_handler:
  assumes "length prologue = 16" "filterOpcodeIdsFit maps" "unat h + 888 < 2 ^ 48"
    and "leads base (ipc_words s p (h + 600) (h + 632)) c d"
  shows "leads base' (stub_code maps h t prologue s p) (moved 15 c) (moved 15 d)"
  unfolding stub_code_layout [OF assms(1-3)]
  using moved_leads [OF assms(4) ipc_calls_none, where pre = "filter_code (opcode_internal_to_host maps kOpcodeName_fcmovb)
    (opcode_internal_to_host maps kOpcodeName_f2xm1) (opcode_internal_to_host maps kOpcodeName_arpl) (h + 600)"]
  by simp

text \<open>C39: the first trap sends the request to the sidecar's port with the reply port named, at most 64 bytes to be
  received, a body of the five arguments of the routine the stub replaced, and an identity made of 16 bits of the
  stack pointer.\<close>

theorem request_carries_arguments:
  assumes "length prologue = 16" "filterOpcodeIdsFit maps" "unat h + 888 < 2 ^ 48"
  shows "\<exists>m1. leads base (stub_code maps h t prologue s p) (At 15 m0 (f # fs)) (At 51 (f m1) fs) \<and>
    asks s p (spr m0 - 192) m1 \<and> body_holds (spr m0 - 192) m0 m1"
proof -
  obtain m1 where m1: "leads base (ipc_words s p (h + 600) (h + 632)) (At 0 m0 (f # fs)) (At 36 (f m1) fs)"
    "asks s p (spr m0 - 192) m1 \<and> body_holds (spr m0 - 192) m0 m1"
    using ipc_carries_arguments by blast
  show ?thesis using within_handler [OF assms m1(1), of base] m1(2) by auto
qed

text \<open>C40: whatever the kernel does within the message buffer and the scratch registers, and however many traps are
  interrupted, the stub ends by acting on the first reply that is not: it returns the sidecar's result, or goes on to
  the stashed routine, with all arguments, the return address and the stack pointer as they were, or aborts with the
  reason and the offending value.\<close>

theorem request_protocol:
  assumes "length prologue = 16" "filterOpcodeIdsFit maps" "unat h + 888 < 2 ^ 48"
    and "\<forall>g\<in>set gs. trap_ok (spr m0 - 192) g \<and> interrupted g" "trap_ok (spr m0 - 192) f" "answers f"
  shows "\<exists>m1 a m'. leads base (stub_code maps h t prologue s p) (At 15 m0 (gs @ [f])) (Gone a m' []) \<and>
    saved (spr m0 - 192) m0 m1 \<and> verdict (h + 600) (h + 632) (spr m0 - 192) m0 (f m1) a m'"
proof -
  obtain m1 a m' where m1: "leads base (ipc_words s p (h + 600) (h + 632)) (At 0 m0 (gs @ [f])) (Gone a m' [])"
    "saved (spr m0 - 192) m0 m1" "verdict (h + 600) (h + 632) (spr m0 - 192) m0 (f m1) a m'"
    using ipc_protocol [OF assms(4-6)] by blast
  show ?thesis using within_handler [OF assms(1-3) m1(1), of base] m1(2,3) by auto
qed

section \<open>Examples\<close>

text \<open>The 26.4 runtime with a handler at \<open>0x10000\<close>, and a block whose third instruction is \<^verbatim>\<open>fxch\<close>.\<close>

abbreviation (input) example_runtime :: opcode_maps where
  "example_runtime \<equiv> opcode_set_host_table names_26_4 example_maps"

definition example_block :: mach where
  "example_block = \<lparr>xr = (\<lambda>r. if r = 2 then 0x1000 else if r = 4 then 2 else 0), spr = 0, dr = (\<lambda>_. 0), flag_n = False, flag_z = False,
     flag_c = False, flag_v = False, flag_a = False, flag_p = False,
     mem = (\<lambda>a. if a = 0x10A4 then ucast (move_to kOpcodeName_fxch) else if a = 0x10A5 then ucast (drop_bit 8 (move_to kOpcodeName_fxch)) else 0)\<rparr>"

theorem stub_layout_witness:
  "length (handler (stub_build example_runtime 0x10000 0x20000 (replicate 16 0) 0x1203 0x1307)) = 888 \<and>
   entry (stub_build example_runtime (2 ^ 48) 0x20000 (replicate 16 0) 0x1203 0x1307) = []"
proof -
  have l: "length (replicate 16 (0 :: u8)) = 16" by simp
  show ?thesis
    using stub_layout [OF l, of example_runtime "0x10000" "0x20000" "0x1203" "0x1307"]
      stub_layout [OF l, of example_runtime "2 ^ 48" "0x20000" "0x1203" "0x1307"] runtime_26_4_fits [of example_maps]
    by simp
qed

theorem filter_routes_x87_witness:
  "\<exists>m'. leads 0 (stub_code example_runtime 0x10000 0x20000 (replicate 16 0) 0x1203 0x1307) (At 0 example_block []) (At 15 m' [])"
proof -
  have l: "length names_26_4 < 65535" by (simp add: names_26_4_length)
  have n: "move_to kOpcodeName_fxch = 0x107" by (simp add: move_to_def)
  have a: "xr example_block 2 + 0x50 * xr example_block 4 + 4 = 0x10A4" by (simp add: example_block_def)
  have v: "load 2 0x10A4 (mem example_block) = 0x107" unfolding example_block_def n numeral_2_eq_2 load.simps by simp
  have op: "kOpcodeName_fxch = opcode_host_to_internal example_runtime (block_opcode example_block)"
    unfolding block_opcode_def a v by (simp add: runtime_26_4_numbers move_from_def)
  have p: "length (replicate 16 (0 :: u8)) = 16" "unat (0x10000 :: u64) + 888 < 2 ^ 48" by simp_all
  show ?thesis
    using filter_routes_x87 [OF l names_26_4_distinct refl runtime_26_4_matches runtime_26_4_fits p op, where base = 0 and ws = "[]" and t = "0x20000" and s = "0x1203" and p = "0x1307"]
    by (auto simp: is_x87_opcode_def)
qed

text \<open>A caller whose frame will lie at \<open>0x1000\<close>; a trap that is interrupted once, and one that brings the reply that
  the sidecar has translated the instruction, with the result 7.\<close>

definition example_caller :: mach where
  "example_caller = example_block\<lparr>spr := 0x10C0, xr := (\<lambda>r. if r = 30 then 0x5550 else 0)\<rparr>"

definition trap_interrupted :: "mach \<Rightarrow> mach" where
  "trap_interrupted m = m\<lparr>xr := (xr m)(0 := kRcvInterrupted)\<rparr>"

definition example_reply :: "u64 \<Rightarrow> u8" where
  "example_reply a = (if a = 0x1044 then 40 else if a = 0x1057 then 0x10 else if a = 0x1058 then 7 else if a = 0x1060 then 1 else 0)"

definition trap_answered :: "mach \<Rightarrow> mach" where
  "trap_answered m = m\<lparr>xr := (xr m)(0 := 0), mem := (\<lambda>a. if unat (a - 0x1040) < 64 then example_reply a else mem m a)\<rparr>"

lemma reply_loads:
  "load 4 0x1044 (mem (trap_answered m)) = 40" "load 4 0x1054 (mem (trap_answered m)) = 0x10000000"
  "load 4 0x1060 (mem (trap_answered m)) = 1" "load 8 0x1058 (mem (trap_answered m)) = 7" "xr (trap_answered m) 0 = 0"
proof -
  have n: "(4 :: nat) = Suc (Suc (Suc (Suc 0)))" "(8 :: nat) = Suc (Suc (Suc (Suc (Suc (Suc (Suc (Suc 0)))))))" by simp_all
  show "load 4 0x1044 (mem (trap_answered m)) = 40" "load 4 0x1054 (mem (trap_answered m)) = 0x10000000"
    "load 4 0x1060 (mem (trap_answered m)) = 1" "load 8 0x1058 (mem (trap_answered m)) = 7"
    unfolding n load.simps trap_answered_def by (simp_all add: example_reply_def)
qed (simp add: trap_answered_def)

lemma example_traps:
  "trap_ok 0x1000 trap_interrupted" "interrupted trap_interrupted" "trap_ok 0x1000 trap_answered" "answers trap_answered"
  by (auto simp: trap_ok_def interrupted_def answers_def trap_interrupted_def trap_answered_def w32_def)

theorem request_carries_arguments_witness:
  "\<exists>m1. leads 0 (stub_code example_runtime 0x10000 0x20000 (replicate 16 0) 0x1203 0x1307) (At 15 example_caller [trap_answered])
      (At 51 (trap_answered m1) []) \<and> asks 0x1203 0x1307 0x1000 m1 \<and> body_holds 0x1000 example_caller m1"
proof -
  have p: "length (replicate 16 (0 :: u8)) = 16" "unat (0x10000 :: u64) + 888 < 2 ^ 48" by simp_all
  show ?thesis using request_carries_arguments [OF p(1) runtime_26_4_fits p(2), where ?m0.0 = example_caller and fs = "[]" and base = 0 and t = "0x20000" and s = "0x1203" and p = "0x1307"]
    by (simp add: example_caller_def)
qed

theorem request_protocol_witness:
  "\<exists>m'. leads 0 (stub_code example_runtime 0x10000 0x20000 (replicate 16 0) 0x1203 0x1307)
      (At 15 example_caller [trap_interrupted, trap_answered]) (Gone 0x5550 m' []) \<and> xr m' 0 = 7 \<and> spr m' = 0x10C0"
proof -
  have p: "length (replicate 16 (0 :: u8)) = 16" "unat (0x10000 :: u64) + 888 < 2 ^ 48" by simp_all
  have b: "spr example_caller - 192 = 0x1000" by (simp add: example_caller_def)
  have g: "\<forall>g\<in>set [trap_interrupted]. trap_ok (spr example_caller - 192) g \<and> interrupted g"
    and f: "trap_ok (spr example_caller - 192) trap_answered" "answers trap_answered"
    unfolding b by (simp_all add: example_traps)
  obtain m1 a m' where r: "leads 0 (stub_code example_runtime 0x10000 0x20000 (replicate 16 0) 0x1203 0x1307)
      (At 15 example_caller ([trap_interrupted] @ [trap_answered])) (Gone a m' [])"
    "verdict (0x10000 + 600) (0x10000 + 632) 0x1000 example_caller (trap_answered m1) a m'"
    using request_protocol [OF p(1) runtime_26_4_fits [of example_maps] p(2) g f, where base = 0 and t = "0x20000" and s = "0x1203" and p = "0x1307"]
    unfolding b by (elim exE conjE)
  have "a = 0x5550 \<and> xr m' 0 = 7 \<and> spr m' = 0x10C0"
    using r(2) by (simp add: verdict_def reply_loads request_id_def restored_def w32_def example_caller_def)
  then show ?thesis using r(1) by auto
qed

end
