(* ===== verification/Spec2Isabelle.thy ===== *)
theory Spec2Isabelle
  imports X87_Build_Props X87_Pipeline X87_Cache_Props X87_Slot_Table Slot_Plan_Props Dispatch_Props X87_Emit_Props X87_Defer_Props
    Guest_Props Opcode_Map_Props Opcode_Table Stub_Handler
begin

text \<open>
  A verification library for the translation core of x87sidecar, which replaces Rosetta's translation of x87
  floating-point code by inline AArch64 code, for the stub that it writes into the runtime to be asked, and for the
  lookup of guest program counters that its profiler samples with.

  \<^bold>\<open>The parts and how they interact.\<close>  Rosetta asks the sidecar for the translation of one instruction of a
  block at a time.  A request (\<^verbatim>\<open>Translator.cpp\<close>) counts how many instructions from there on form a run
  (\<^verbatim>\<open>X87Cache.cpp\<close>, with \<^verbatim>\<open>X87Bridge.h\<close> for the integer instructions a run may span), builds an intermediate
  representation of the run (\<^verbatim>\<open>X87IRBuild.cpp\<close>), optimises it (\<^verbatim>\<open>X87IROptimize.cpp\<close>) and emits code, or falls
  back on one emitter per instruction.  Both ways of emitting rest on the code generators for the x87 state in
  memory (\<^verbatim>\<open>TranslatorX87Helpers.cpp\<close>), those on the register allocators (\<^verbatim>\<open>TranslatorHelpers.cpp\<close>) and on the
  instruction encoders (\<^verbatim>\<open>AssemblerHelpers.cpp\<close>).  Values stay in 80-bit slots or as binary64; what must be
  converted before a reply is planned by simulating it (\<^verbatim>\<open>plan_slots\<close>).  What a run leaves for later, TOP and
  tags in particular, is paid at its flush points (\<^verbatim>\<open>TranslatorX87Internal.hpp\<close>).  The requests come from the
  stub (\<^verbatim>\<open>stub_asm.cpp\<close>): machine code in place of a routine of the runtime, which sends the instructions it
  claims to the sidecar and waits for the reply.  Runtimes number the opcodes differently; the table of names found
  in the runtime (\<^verbatim>\<open>opcode_table.cpp\<close>) is mapped to the sidecar's own numbers
  (\<^verbatim>\<open>OpcodeCompatibility.cpp\<close>) and checked at launch (\<^verbatim>\<open>main.cpp\<close>).  Apart from all this, the profiler maps
  a sampled ARM program counter back to a guest one (\<^verbatim>\<open>guest_pc_map.cpp\<close>).

  \<^bold>\<open>Theories and sources.\<close>
  \<^item> \<open>Prelude\<close>: word types, collections of facts, lists.
  \<^item> \<open>Operands\<close>: \<^verbatim>\<open>Register.h\<close>, \<^verbatim>\<open>IROperand.h\<close>, \<^verbatim>\<open>IRInstr.h\<close> and the opcode numbers of \<^verbatim>\<open>Opcode.h\<close>.
    \<open>X87_Bridge\<close>: \<^verbatim>\<open>X87Bridge.h\<close>.
  \<^item> \<open>X87_IR\<close>: \<^verbatim>\<open>X87IR.h\<close>; the build context is the record \<open>ctx\<close>, a C++ helper that mutates it and returns a
    \<open>bool\<close> is a function into \<open>bool \<times> ctx\<close>.  \<open>X87_Build\<close>: \<^verbatim>\<open>X87IRBuild.cpp\<close>, one definition for each helper and
    each arm of the switch.  \<open>X87_Optimize\<close>: \<^verbatim>\<open>X87IROptimize.cpp\<close>, one definition for each pass and its step.
  \<^item> \<open>X87_Sem\<close> gives IR programs a meaning over any machine of values, \<open>X87_Ref\<close> is the reference x87: a register
    stack that executes one instruction at a time.  Neither is code of the repository.  \<open>X87_Sim\<close> relates a build
    context to a state of the reference, \<open>X87_Build_Correct\<close>, \<open>X87_Build_Slots\<close> and \<open>X87_Build_Props\<close> carry the
    builder's theorems.
  \<^item> \<open>X87_Pass_Sem\<close> states the contract of a pass, \<open>X87_Dse\<close>, \<open>X87_Fma\<close>, \<open>X87_Exact_Copy\<close> and \<open>X87_Tags\<close> show that
    each pass fulfils it, \<open>X87_Pipeline\<close> composes them.
  \<^item> \<open>X87_Cache\<close>: \<^verbatim>\<open>X87Cache.cpp\<close> and \<^verbatim>\<open>X87Cache.h\<close>, with \<open>X87_Cache_Props\<close>; \<open>X87_Slot_Table\<close> compares its table of
    slot effects with the builder.
  \<^item> \<open>Slot_Plan\<close>: \<^verbatim>\<open>plan_slots\<close> and the precise windows of \<^verbatim>\<open>Translator.cpp\<close>, the slot tracker of
    \<^verbatim>\<open>TranslatorX87Helpers.cpp\<close>.  \<open>Dispatch\<close>: \<^verbatim>\<open>translate_instruction\<close> and the block and run prologue of
    \<^verbatim>\<open>translate_instruction_impl\<close>; the emitters are its argument \<open>body\<close>.
  \<^item> \<open>A64_Encode\<close>: the encoders of \<^verbatim>\<open>AssemblerHelpers.cpp\<close>.  \<open>A64_Sem\<close>: a decoder and a machine for the
    instructions they emit, written from the architecture's tables and not from the encoders; \<open>A64_Exec\<close> shows that
    each encoder's word decodes to what it is named for.
  \<^item> \<open>Alloc\<close>: the allocators, immediate loads and memory operand forms of \<^verbatim>\<open>TranslatorHelpers.cpp\<close>.
    \<open>X87_Emit\<close>: \<^verbatim>\<open>TranslatorX87Helpers.cpp\<close>.  \<open>X87_Emit_Exec\<close>, \<open>X87_Emit_Batch\<close>, \<open>X87_Emit_Flags\<close>,
    \<open>X87_Emit_Slots\<close>, \<open>X87_Perm_Flush\<close>, \<open>X87_Image_Flush\<close> and \<open>X87_Emit_Props\<close> run its code.
  \<^item> \<open>X87_Defer\<close>: \<^verbatim>\<open>TranslatorX87Internal.hpp\<close>, the deferred stack state; \<open>X87_Deferred_Mem\<close> says which memory a
    deferred state stands for, \<open>X87_Defer_Props\<close> carries its theorem.
  \<^item> \<open>Opcode_Names\<close>: \<^verbatim>\<open>Opcode.cpp\<close>; \<open>Opcode_Version\<close>: the two switches of \<^verbatim>\<open>OpcodeCompatibility.cpp\<close>, a
    pair of numbers for each case; \<open>Opcode_Map\<close>: the rest of that file and the checks of
    \<^verbatim>\<open>main.cpp\<close>, with \<open>Opcode_Map_Props\<close>; \<open>Opcode_Table\<close>: \<^verbatim>\<open>opcode_table.cpp\<close>.
  \<^item> \<open>Stub_Encode\<close> and \<open>Stub_Asm\<close>: \<^verbatim>\<open>stub_asm.cpp\<close>, the encoders and what is built from them.  \<open>Stub_Sem\<close> runs
    such code on the machine of \<open>A64_Sem\<close>, with a program counter and a list of what the traps do; \<open>Stub_Steps\<close> has a
    rule for each instruction, \<open>Stub_Words\<close> turns the emitted and patched bytes into words, \<open>Stub_Filter\<close>,
    \<open>Stub_Request\<close> and \<open>Stub_Handler\<close> run the filter, the request and both in their places.
  \<^item> \<open>Guest_Stream\<close>, \<open>Guest_Map\<close>, \<open>Guest_Lookup\<close>: \<^verbatim>\<open>guest_pc_map.cpp\<close>, in the order of the file.  \<open>Guest_Decode\<close>,
    \<open>Guest_Map_Props\<close>, \<open>Guest_Remote\<close>, \<open>Guest_Tree\<close>, \<open>Guest_Cache\<close> and \<open>Guest_Props\<close> carry its theorems.
  \<^item> \<open>X87_Examples\<close> and the examples at the end of other theories are the concrete inputs of the witnesses.

  \<^bold>\<open>What the theorems show.\<close>
  \<^item> The builder and the optimiser: the IR of a run denotes what the x87 does on it, before and after every pass;
    the context stays well formed; nodes are attributed to their instructions; what the epilogue assumes about
    registers it does not write back holds unless the node array is full.
  \<^item> Runs: a bridged region holds only what the predicates accept, within the gap and bridge limits; the slot
    table agrees with the builder on the stack top and covers its reads; a run lasts as many ticks as it has
    instructions.
  \<^item> Requests: an answer takes at most one step for each instruction of the block and never stops inside a run; a
    request that runs out of registers restores what it found, and the rest of its block goes to stock.
  \<^item> Slots: what the plan converts suffices for the reply, except when an exchange is pending.
  \<^item> Code: running the emitted words changes the x87 state in memory as the x87 operation does, for every choice of
    distinct registers, both layouts and every permutation, and nothing else.
  \<^item> Guest program counters: what a stream encodes is decoded; the answer is the last boundary at or before the
    program counter; reading through a callback that may lose reads never gives a wrong answer; the cache answers
    as the uncached lookup, except before a first boundary.
  \<^item> Deferred state: whatever is deferred, paying it at the end leaves what the eager operations leave.
  \<^item> Opcodes: the table in a runtime is read as it is; the two directions of the mapping are inverse; with the 26.4
    names they are the hand-written switches; a runtime that passes the check has every opcode a run can hold.
  \<^item> The stub: its parts lie where its jumps go; it claims exactly the x87 opcodes and ARPL; it sends the arguments
    and survives any number of interrupted traps; it returns the reply's result, hands the untouched arguments to
    the routine it replaced, or aborts with the reason.
  Six theorems show where the code departs from what it means to do: a full node array hides an exchange, two
  status reads share one compare, a reduction chain spans a store, a pending exchange is planned wrongly, a run
  of 32768 instructions is never active, an answer before the first boundary is cached as resolved.

  \<^bold>\<open>Interfaces.\<close>  Locales state what one component relies on in another: \<open>ir_pass\<close> for the passes, \<open>slot_file\<close> for
  moving a register of either layout, \<open>bit_source\<close> and \<open>two_readers\<close> for the two readers of the delta stream.  Each is interpreted on the definitions that provide it.

  \<^bold>\<open>Bounds and fuel.\<close>  Loops are structural recursion on the instructions, nodes or bits they visit.
  \<open>translate_instruction\<close> takes fuel; as much as the block has instructions is proved enough.  The search for a
  cycle of a permutation (\<open>perm_cycle\<close>) takes fuel 8, the number of registers, which is proved enough for every
  permutation.  The depth of the tree walk is the code's own bound, 4096 levels; the theorem asks for a tree less
  deep.  Machine integers keep their width; indexes into vectors and instruction counts are naturals where the
  code's own bounds keep them from wrapping, and \<open>set_run\<close> keeps the 16 bits of its field.

  \<^bold>\<open>Not modelled.\<close>  The emitters for single instructions (\<^verbatim>\<open>TranslatorX87.cpp\<close>, \<^verbatim>\<open>TranslatorX87Single.cpp\<close>), the
  peephole fusions (\<^verbatim>\<open>TranslatorX87Fusion.cpp\<close>), the lowering of the IR (\<^verbatim>\<open>X87IRLower.cpp\<close>) and the conversions
  of \<^verbatim>\<open>TranslatorX87F80.cpp\<close>: they enter the request protocol as an argument.  The polynomial kernels of
  \<^verbatim>\<open>TranslatorX87Transcendental.cpp\<close>: their correctness is a bound on floating-point error, for which the library
  at hand has no binary64 arithmetic.  Segment bases, fixups and the general-purpose translations of
  \<^verbatim>\<open>TranslatorHelpers.cpp\<close>.  The code of the stub's abort routine and
  of the decoder's hook is modelled as the words they emit, and not run: the first ends in calls of the system, the
  second works on a structure of the runtime.  What a trap does is an argument of the machine.  The configuration,
  profiling counters, the rest of the loader and the sidecar process (Mach exceptions, remote memory, image
  patching), bindings, tools, tests and benchmarks: they are calls of the operating system on every line.
\<close>

end
